(* ===== verification/Prelude.thy ===== *)
theory Prelude
  imports Main "HOL-Library.Word"
begin

unbundle bit_operations_syntax

text \<open>
  Shared vocabulary of the development: names for the C integer types, the collections of
  simplification rules, the host memory seen through little-endian loads and stores, and the
  small bit-field helpers of \<^verbatim>\<open>cutils.h\<close> and \<^verbatim>\<open>riscv_cpu.cpp\<close> that every component calls.

  A C expression of type \<^verbatim>\<open>uintN_t\<close> or \<^verbatim>\<open>intN_t\<close> is an \<open>N word\<close>; the signed reading is taken
  where the source compares, divides or shifts right with a signed type.
\<close>

type_synonym u8 = "8 word"
type_synonym u16 = "16 word"
type_synonym u32 = "32 word"
type_synonym u64 = "64 word"

text \<open>Register numbers are five bits wide, TLB indices eight.\<close>

type_synonym regno = "5 word"
type_synonym tlbidx = "8 word"

named_theorems bit_of \<open>the bits of the named constants\<close>
named_theorems frame \<open>fields an operation leaves alone\<close>

section \<open>Bitwise facts\<close>

lemma bit_word_below [dest]: "bit (w :: 'a::len word) n \<Longrightarrow> n < LENGTH('a)"
  by (rule bit_imp_le_length)

lemma bit_pow2 [bit_of]: "bit (push_bit k 1 :: 'a::len word) n \<longleftrightarrow> n = k \<and> k < LENGTH('a)"
  by (auto simp: bit_simps)

lemma and_push_bit_1_eq_0_iff:
  "w AND push_bit k 1 = 0 \<longleftrightarrow> \<not> bit (w :: 'a::len word) k"
  by (metis and_exp_eq_0_iff_not_bit push_bit_of_1)

lemma and_1_eq_0_iff: "w AND 1 = 0 \<longleftrightarrow> \<not> bit (w :: 'a::len word) 0"
  using and_push_bit_1_eq_0_iff[of w 0] by simp

lemma replace_bits:
  "bit ((old AND NOT m) OR (new AND m)) n \<longleftrightarrow> (if bit (m :: 'a::len word) n then bit new n else bit old n)"
  by (cases "n < LENGTH('a)") (auto simp: bit_simps)

lemma replace_idem:
  "((old AND NOT m) OR (new AND m)) AND NOT m = old AND NOT (m :: 'a::len word)"
  by (rule bit_eqI) (auto simp: bit_simps)

lemma replace_outside:
  "m AND w = 0 \<Longrightarrow> ((old AND NOT m) OR (new AND m)) AND w = old AND (w :: 'a::len word)"
  by (auto intro!: bit_eqI simp: bit_simps bit_eq_iff [of "m AND w"])

lemma replace_same: "(old AND NOT m) OR (old AND m) = (old :: 'a::len word)"
  by (rule bit_eqI) (auto simp: bit_simps)

lemma bit_fold_or:
  "bit (fold (\<lambda>i w. w OR f i) xs a) n \<longleftrightarrow> bit (a :: 'a::len word) n \<or> (\<exists>i \<in> set xs. bit (f i) n)"
  by (induction xs arbitrary: a) (auto simp: bit_simps)

lemma bit_byte_255: "bit (w AND 255 :: 'a::len word) n \<longleftrightarrow> n < 8 \<and> bit w n"
proof -
  have "(255 :: 'a word) = mask 8" by (simp add: mask_eq_exp_minus_1)
  then show ?thesis by (auto simp only: bit_and_iff bit_mask_iff possible_bit_word dest: bit_word_below)
qed

section \<open>Host memory\<close>

text \<open>
  The emulator reaches guest RAM through host pointers. A host pointer is its \<^verbatim>\<open>uintptr_t\<close> value
  and the host memory a byte map, so that the pointer arithmetic of the TLB (\<^verbatim>\<open>mem_addend + addr\<close>)
  is the word arithmetic the code performs. \<open>le_load h p n\<close> is \<^verbatim>\<open>*(uintX_t *)p\<close> for an \<open>n\<close>-byte
  type on a little-endian host, \<open>le_store\<close> the assignment through the pointer.
\<close>

type_synonym host_mem = "u64 \<Rightarrow> u8"

primrec le_load :: "host_mem \<Rightarrow> u64 \<Rightarrow> nat \<Rightarrow> u64" where
  "le_load h p 0 = 0"
| "le_load h p (Suc n) = (ucast (h p) OR push_bit 8 (le_load h (p + 1) n))"

primrec le_store :: "host_mem \<Rightarrow> u64 \<Rightarrow> nat \<Rightarrow> u64 \<Rightarrow> host_mem" where
  "le_store h p 0 v = h"
| "le_store h p (Suc n) v = (le_store h (p + 1) n (drop_bit 8 v))(p := ucast v)"

definition host_region :: "u64 \<Rightarrow> nat \<Rightarrow> u64 set" where
  "host_region p n = {p + of_nat i | i. i < n}"

lemma host_region_0 [simp]: "host_region p 0 = {}"
  by (simp add: host_region_def)

lemma host_region_Suc: "host_region p (Suc n) = insert p (host_region (p + 1) n)"
proof -
  have "host_region p (Suc n) = (\<lambda>i. p + of_nat i) ` {..<Suc n}"
    by (auto simp: host_region_def)
  also have "\<dots> = insert p ((\<lambda>i. p + 1 + of_nat i) ` {..<n})"
    by (simp add: lessThan_Suc_eq_insert_0 image_image algebra_simps)
  also have "\<dots> = insert p (host_region (p + 1) n)"
    by (auto simp: host_region_def)
  finally show ?thesis .
qed

lemma le_store_outside: "q \<notin> host_region p n \<Longrightarrow> le_store h p n v q = h q"
  by (induction n arbitrary: p v) (auto simp: host_region_Suc)

lemma le_load_cong: "(\<And>q. q \<in> host_region p n \<Longrightarrow> h q = h' q) \<Longrightarrow> le_load h p n = le_load h' p n"
  by (induction n arbitrary: p) (auto simp: host_region_Suc)

lemma host_region_not_wrapping:
  assumes "n < 2 ^ 64" shows "p \<notin> host_region (p + 1) n"
proof
  assume "p \<in> host_region (p + 1) n"
  then obtain i where "i < n" and "p = p + 1 + of_nat i" by (auto simp: host_region_def)
  then have "(of_nat (Suc i) :: u64) = 0" by (simp add: algebra_simps)
  then have "Suc i mod 2 ^ 64 = 0"
    using unat_of_nat[of "Suc i", where 'a = 64] by simp
  with \<open>i < n\<close> assms show False by auto
qed

lemma le_load_store_same:
  assumes "n \<le> 8" shows "le_load (le_store h p n v) p n = take_bit (8 * n) v"
  using assms
proof (induction n arbitrary: p v)
  case 0
  then show ?case by simp
next
  case (Suc n)
  have "p \<notin> host_region (p + 1) n"
    using Suc.prems by (intro host_region_not_wrapping) auto
  then have "le_load ((le_store h (p + 1) n (drop_bit 8 v))(p := ucast v)) (p + 1) n
      = le_load (le_store h (p + 1) n (drop_bit 8 v)) (p + 1) n"
    by (intro le_load_cong) auto
  also have "\<dots> = take_bit (8 * n) (drop_bit 8 v)"
    using Suc by simp
  finally have rest: "le_load (le_store h p (Suc n) v) (p + 1) n = take_bit (8 * n) (drop_bit 8 v)"
    by simp
  have "le_load (le_store h p (Suc n) v) p (Suc n)
      = ucast (ucast v :: u8) OR push_bit 8 (take_bit (8 * n) (drop_bit 8 v))"
    by (simp add: rest [simplified])
  also have "\<dots> = take_bit (8 * Suc n) v"
    by (rule bit_eqI) (auto simp: bit_simps)
  finally show ?case .
qed

lemma le_load_store_disjoint:
  assumes "host_region p n \<inter> host_region q m = {}"
  shows "le_load (le_store h p n v) q m = le_load h q m"
  using assms by (intro le_load_cong le_store_outside) auto

lemma le_load_bound: "n \<le> 8 \<Longrightarrow> take_bit (8 * n) (le_load h p n) = le_load h p n"
proof (induction n arbitrary: p)
  case 0
  then show ?case by simp
next
  case (Suc n)
  have "\<not> bit (le_load h (p + 1) n) i" if "8 * n \<le> i" for i
    using Suc that by (metis Suc_leD bit_take_bit_iff leD)
  then show ?case
    by (intro bit_eqI) (auto simp: bit_simps)
qed

text \<open>\<^verbatim>\<open>memcpy\<close> from and to the host memory.\<close>

definition load_bytes :: "host_mem \<Rightarrow> u64 \<Rightarrow> nat \<Rightarrow> u8 list" where
  "load_bytes h p n = map (\<lambda>i. h (p + of_nat i)) [0..<n]"

primrec store_bytes :: "host_mem \<Rightarrow> u64 \<Rightarrow> u8 list \<Rightarrow> host_mem" where
  "store_bytes h p [] = h"
| "store_bytes h p (b # bs) = store_bytes (h(p := b)) (p + 1) bs"

lemma length_load_bytes [simp]: "length (load_bytes h p n) = n"
  by (simp add: load_bytes_def)

lemma load_bytes_cong:
  assumes "\<And>q. q \<in> host_region p n \<Longrightarrow> h q = h' q"
  shows "load_bytes h p n = load_bytes h' p n"
  unfolding load_bytes_def
proof (rule map_cong[OF refl])
  fix i assume "i \<in> set [0..<n]"
  then have "p + of_nat i \<in> host_region p n" by (auto simp: host_region_def)
  then show "h (p + of_nat i) = h' (p + of_nat i)" by (rule assms)
qed

lemma load_bytes_Suc: "load_bytes h p (Suc n) = h p # load_bytes h (p + 1) n"
proof -
  have "[0..<Suc n] = 0 # map Suc [0..<n]" by (simp add: upt_conv_Cons map_Suc_upt del: upt_Suc)
  then show ?thesis by (simp add: load_bytes_def add.assoc add.commute[of 1] del: upt_Suc)
qed

lemma store_bytes_outside: "q \<notin> host_region p (length bs) \<Longrightarrow> store_bytes h p bs q = h q"
  by (induction bs arbitrary: h p) (auto simp: host_region_Suc)

lemma load_store_bytes:
  assumes "length bs \<le> 2 ^ 64" shows "load_bytes (store_bytes h p bs) p (length bs) = bs"
  using assms
proof (induction bs arbitrary: h p)
  case Nil
  then show ?case by (simp add: load_bytes_def)
next
  case (Cons b bs)
  have "p \<notin> host_region (p + 1) (length bs)"
    using Cons.prems by (intro host_region_not_wrapping) simp
  then have "store_bytes (h(p := b)) (p + 1) bs p = b" by (simp add: store_bytes_outside)
  with Cons show ?case by (simp add: load_bytes_Suc)
qed

lemma store_bytes_append: "store_bytes h p (bs @ cs) = store_bytes (store_bytes h p bs) (p + of_nat (length bs)) cs"
  by (induction bs arbitrary: h p) (simp_all add: add.assoc add.commute[of 1])

text \<open>
  The interface the memory management unit relies on: a store through a pointer is read back, and
  leaves disjoint locations alone.
\<close>

locale byte_store =
  fixes load :: "'h \<Rightarrow> u64 \<Rightarrow> nat \<Rightarrow> u64"
    and store :: "'h \<Rightarrow> u64 \<Rightarrow> nat \<Rightarrow> u64 \<Rightarrow> 'h"
    and region :: "u64 \<Rightarrow> nat \<Rightarrow> u64 set"
  assumes load_store_same: "n \<le> 8 \<Longrightarrow> load (store h p n v) p n = take_bit (8 * n) v"
    and load_store_disjoint: "region p n \<inter> region q m = {} \<Longrightarrow> load (store h p n v) q m = load h q m"
begin

lemma store_store_commute_load:
  assumes "region p n \<inter> region q m = {}" "n \<le> 8"
  shows "load (store (store h p n v) q m w) p n = take_bit (8 * n) v"
  using assms load_store_disjoint[of q m p n] load_store_same[of n h p v] by (simp add: Int_commute)

lemma load_store_full: "load (store h p 8 v) p 8 = v"
  using load_store_same[of 8 h p v] by (simp add: take_bit_word_eq_self)

end

interpretation host: byte_store le_load le_store host_region
  by unfold_locales (simp_all add: le_load_store_same le_load_store_disjoint)

section \<open>Bit-field helpers of the source\<close>

text \<open>\<^verbatim>\<open>sext\<close>: sign-extend the low \<open>n\<close> bits of a 32-bit value.\<close>

definition sext :: "u32 \<Rightarrow> nat \<Rightarrow> u32" where
  "sext val n = signed_drop_bit (32 - n) (push_bit (32 - n) val)"

text \<open>\<^verbatim>\<open>get_field1\<close>: move the field at \<open>src_pos\<close> to bits \<open>dst_pos .. dst_pos_max\<close>.\<close>

definition get_field1 :: "u32 \<Rightarrow> nat \<Rightarrow> nat \<Rightarrow> nat \<Rightarrow> u32" where
  "get_field1 val src_pos dst_pos dst_pos_max =
     (let m = push_bit dst_pos (push_bit (dst_pos_max - dst_pos + 1) 1 - 1) in
      if dst_pos \<ge> src_pos then push_bit (dst_pos - src_pos) val AND m
      else drop_bit (src_pos - dst_pos) val AND m)"

text \<open>\<^verbatim>\<open>ctz32\<close>: the loop over the bit positions from \<open>i\<close> upwards.\<close>

function ctz32_from :: "u32 \<Rightarrow> nat \<Rightarrow> nat" where
  "ctz32_from a i = (if i < 32 then (if bit a i then i else ctz32_from a (i + 1)) else 32)"
  by pat_completeness auto
termination
  by (relation "measure (\<lambda>(a, i). 32 - i)") auto

declare ctz32_from.simps [simp del]

definition ctz32 :: "u32 \<Rightarrow> nat" where
  "ctz32 a = (if a = 0 then 32 else ctz32_from a 0)"

lemma ctz32_from_spec:
  "i \<le> k \<Longrightarrow> k < 32 \<Longrightarrow> bit a k \<Longrightarrow>
     bit a (ctz32_from a i) \<and> i \<le> ctz32_from a i \<and> ctz32_from a i \<le> k
     \<and> (\<forall>j. i \<le> j \<and> j < ctz32_from a i \<longrightarrow> \<not> bit a j)"
proof (induction a i rule: ctz32_from.induct)
  case (1 a i)
  show ?case
  proof (cases "bit a i")
    case True
    with 1 show ?thesis by (auto simp: ctz32_from.simps[of a i])
  next
    case False
    with 1 have "i < k" by (metis le_neq_implies_less)
    then have "i < 32" "i + 1 \<le> k" using 1 by auto
    with 1 False have "bit a (ctz32_from a (i + 1)) \<and> i + 1 \<le> ctz32_from a (i + 1)
        \<and> ctz32_from a (i + 1) \<le> k \<and> (\<forall>j. i + 1 \<le> j \<and> j < ctz32_from a (i + 1) \<longrightarrow> \<not> bit a j)"
      by simp
    with False \<open>i < 32\<close> show ?thesis
      by (auto simp: ctz32_from.simps[of a i] dest: le_neq_implies_less)
  qed
qed

lemma ctz32_lowest:
  assumes "a \<noteq> 0"
  shows "bit a (ctz32 a)" and "j < ctz32 a \<Longrightarrow> \<not> bit a j" and "ctz32 a < 32"
proof -
  from assms obtain k where k: "bit a k" by (auto simp: bit_eq_iff)
  then have "k < 32" by auto
  note spec = ctz32_from_spec[OF _ this k, of 0]
  show "bit a (ctz32 a)" "j < ctz32 a \<Longrightarrow> \<not> bit a j" "ctz32 a < 32"
    using spec assms \<open>k < 32\<close> by (auto simp: ctz32_def)
qed

end
