(* ===== verification/Iomem.thy ===== *)
theory Iomem
  imports Prelude
begin

unbundle bit_operations_syntax

text \<open>
  The physical memory map of \<^verbatim>\<open>iomem.cpp\<close> and \<^verbatim>\<open>iomem.h\<close>: the table of RAM and device ranges, the
  address decoder \<^verbatim>\<open>get_phys_mem_range\<close>, registration of ranges, moving and disabling them, and the
  dirty-page bitmaps of RAM ranges.

  A \<^verbatim>\<open>PhysMemoryRange *\<close> is the index of the range in the table. The three fields \<^verbatim>\<open>opaque\<close>,
  \<^verbatim>\<open>read_func\<close> and \<^verbatim>\<open>write_func\<close> of a device range always come together and are one device name. The
  callback \<^verbatim>\<open>flush_tlb_write_range\<close> is returned as a request (pointer and size), which the machine
  carries out. A failed \<^verbatim>\<open>assert\<close> or an \<^verbatim>\<open>exit\<close> is a value of \<open>iomem_error\<close>.
\<close>

section \<open>The table\<close>

datatype devid = DevNone | DevMmio | DevUart | DevDwApbUart | DevClint | DevPlic | DevVirtio nat

record PhysMemoryRange =
  pr_addr :: u64
  pr_org_size :: u64
  pr_size :: u64
  pr_is_ram :: bool
  pr_devram_flags :: u32
  pr_phys_mem :: u64
  pr_dirty_bits_size :: nat
  pr_dirty_bits :: "nat option"
  pr_dirty_bits_tab :: "nat \<Rightarrow> (nat \<Rightarrow> u32) option"
  pr_dirty_bits_index :: nat
  pr_opaque :: devid
  pr_devio_flags :: u32

type_synonym PhysMemoryMap = "PhysMemoryRange list"

datatype iomem_error = AssertionFailed | AllocationFailed

definition DEVIO_SIZE8 :: u32 where "DEVIO_SIZE8 = 1"
definition DEVIO_SIZE16 :: u32 where "DEVIO_SIZE16 = 2"
definition DEVIO_SIZE32 :: u32 where "DEVIO_SIZE32 = 4"
definition DEVIO_DISABLED :: u32 where "DEVIO_DISABLED = 16"
definition DEVRAM_FLAG_ROM :: u32 where "DEVRAM_FLAG_ROM = 1"
definition DEVRAM_FLAG_DIRTY_BITS :: u32 where "DEVRAM_FLAG_DIRTY_BITS = 2"
definition DEVRAM_FLAG_DISABLED :: u32 where "DEVRAM_FLAG_DISABLED = 4"
definition DEVRAM_PAGE_SIZE :: u64 where "DEVRAM_PAGE_SIZE = 4096"
definition PHYS_MEM_RANGE_MAX :: nat where "PHYS_MEM_RANGE_MAX = 32"

lemmas iomem_consts = DEVIO_SIZE8_def DEVIO_SIZE16_def DEVIO_SIZE32_def DEVIO_DISABLED_def
  DEVRAM_FLAG_ROM_def DEVRAM_FLAG_DIRTY_BITS_def DEVRAM_FLAG_DISABLED_def DEVRAM_PAGE_SIZE_def
  PHYS_MEM_RANGE_MAX_def

text \<open>The zeroed structure a range starts from (\<^verbatim>\<open>mallocz\<close> of the map).\<close>

definition null_range :: PhysMemoryRange where
  "null_range = \<lparr>pr_addr = 0, pr_org_size = 0, pr_size = 0, pr_is_ram = False, pr_devram_flags = 0,
     pr_phys_mem = 0, pr_dirty_bits_size = 0, pr_dirty_bits = None, pr_dirty_bits_tab = (\<lambda>_. None),
     pr_dirty_bits_index = 0, pr_opaque = DevNone, pr_devio_flags = 0\<rparr>"

definition phys_mem_map_init :: PhysMemoryMap where
  "phys_mem_map_init = []"

section \<open>Address decoding\<close>

definition in_range :: "PhysMemoryRange \<Rightarrow> u64 \<Rightarrow> bool" where
  "in_range pr paddr \<longleftrightarrow> paddr \<ge> pr_addr pr \<and> paddr < pr_addr pr + pr_size pr"

text \<open>The loop of \<^verbatim>\<open>get_phys_mem_range\<close>, from index \<open>i - 1\<close> down to 0.\<close>

primrec range_scan :: "PhysMemoryMap \<Rightarrow> u64 \<Rightarrow> nat \<Rightarrow> nat option" where
  "range_scan s paddr 0 = None"
| "range_scan s paddr (Suc i) = (if in_range (s ! i) paddr then Some i else range_scan s paddr i)"

definition get_phys_mem_range :: "PhysMemoryMap \<Rightarrow> u64 \<Rightarrow> nat option" where
  "get_phys_mem_range s paddr = range_scan s paddr (length s)"

section \<open>Registration\<close>

definition register_ram_entry ::
  "PhysMemoryMap \<Rightarrow> u64 \<Rightarrow> u64 \<Rightarrow> u32 \<Rightarrow> iomem_error + PhysMemoryMap" where
  "register_ram_entry s addr sz devram_flags =
     (if \<not> length s < PHYS_MEM_RANGE_MAX then Inl AssertionFailed
      else if \<not> (sz AND (DEVRAM_PAGE_SIZE - 1) = 0 \<and> sz \<noteq> 0) then Inl AssertionFailed
      else Inr (s @ [null_range\<lparr>
             pr_is_ram := True,
             pr_devram_flags := devram_flags AND NOT DEVRAM_FLAG_DISABLED,
             pr_addr := addr,
             pr_org_size := sz,
             pr_size := (if devram_flags AND DEVRAM_FLAG_DISABLED \<noteq> 0 then 0 else sz),
             pr_phys_mem := 0,
             pr_dirty_bits := None\<rparr>]))"

text \<open>
  \<open>ptr\<close> is the pointer \<^verbatim>\<open>mallocz(size)\<close> returned; the block behind it is zeroed. The two bitmaps are
  arrays of \<^verbatim>\<open>uint32_t\<close>, again zeroed.
\<close>

definition mallocz :: "host_mem \<Rightarrow> u64 \<Rightarrow> u64 \<Rightarrow> host_mem" where
  "mallocz h ptr sz = (\<lambda>q. if q - ptr < sz then 0 else h q)"

definition default_register_ram ::
  "PhysMemoryMap \<times> host_mem \<Rightarrow> u64 \<Rightarrow> u64 \<Rightarrow> u64 \<Rightarrow> u32 \<Rightarrow> iomem_error + (PhysMemoryMap \<times> host_mem)" where
  "default_register_ram sh ptr addr sz devram_flags =
     (case register_ram_entry (fst sh) addr sz devram_flags of
        Inl e \<Rightarrow> Inl e
      | Inr s \<Rightarrow>
          if ptr = 0 then Inl AllocationFailed
          else
            let i = length (fst sh);
                pr = (s ! i)\<lparr>pr_phys_mem := ptr\<rparr>;
                pr' = (if devram_flags AND DEVRAM_FLAG_DIRTY_BITS \<noteq> 0
                       then pr\<lparr>pr_dirty_bits_size := ((unat (drop_bit 12 sz) + 31) div 32) * 4,
                               pr_dirty_bits_index := 0,
                               pr_dirty_bits_tab := (\<lambda>k. if k < 2 then Some (\<lambda>_. 0) else None),
                               pr_dirty_bits := Some 0\<rparr>
                       else pr)
            in Inr (s[i := pr'], mallocz (snd sh) ptr sz))"

definition cpu_register_device ::
  "PhysMemoryMap \<Rightarrow> u64 \<Rightarrow> u64 \<Rightarrow> devid \<Rightarrow> u32 \<Rightarrow> iomem_error + PhysMemoryMap" where
  "cpu_register_device s addr sz opaque devio_flags =
     (if \<not> length s < PHYS_MEM_RANGE_MAX then Inl AssertionFailed
      else if \<not> sz \<le> 0xffffffff then Inl AssertionFailed
      else Inr (s @ [null_range\<lparr>
             pr_addr := addr,
             pr_org_size := sz,
             pr_size := (if devio_flags AND DEVIO_DISABLED \<noteq> 0 then 0 else sz),
             pr_is_ram := False,
             pr_opaque := opaque,
             pr_devio_flags := devio_flags\<rparr>]))"

section \<open>Dirty bits, moving and disabling a range\<close>

definition phys_mem_set_dirty_bit :: "PhysMemoryRange \<Rightarrow> u64 \<Rightarrow> PhysMemoryRange" where
  "phys_mem_set_dirty_bit pr offset =
     (case pr_dirty_bits pr of
        None \<Rightarrow> pr
      | Some t \<Rightarrow>
          (let page_index = drop_bit 12 offset;
               m = push_bit (unat (page_index AND 0x1f)) 1;
               w = unat (drop_bit 5 page_index);
               bits = (case pr_dirty_bits_tab pr t of Some b \<Rightarrow> b | None \<Rightarrow> (\<lambda>_. 0))
           in pr\<lparr>pr_dirty_bits_tab := (pr_dirty_bits_tab pr)(t := Some (bits(w := bits w OR m)))\<rparr>))"

definition phys_mem_is_dirty_bit :: "PhysMemoryRange \<Rightarrow> u64 \<Rightarrow> bool" where
  "phys_mem_is_dirty_bit pr offset =
     (case pr_dirty_bits pr of
        None \<Rightarrow> True
      | Some t \<Rightarrow>
          (let page_index = drop_bit 12 offset;
               bits = (case pr_dirty_bits_tab pr t of Some b \<Rightarrow> b | None \<Rightarrow> (\<lambda>_. 0))
           in drop_bit (unat (page_index AND 0x1f)) (bits (unat (drop_bit 5 page_index))) AND 1 \<noteq> 0))"

text \<open>The result is the bitmap, the updated range, and the write-TLB flush request if one is made.\<close>

definition default_get_dirty_bits ::
  "PhysMemoryRange \<Rightarrow> (nat \<Rightarrow> u32) option \<times> PhysMemoryRange \<times> (u64 \<times> u64) option" where
  "default_get_dirty_bits pr =
     (let dirty_bits = (case pr_dirty_bits pr of None \<Rightarrow> None | Some t \<Rightarrow> pr_dirty_bits_tab pr t);
          n = pr_dirty_bits_size pr div 4;
          has_dirty_bits = (case dirty_bits of None \<Rightarrow> False | Some b \<Rightarrow> \<exists>i \<in> {..<n}. b i \<noteq> 0);
          flush = (if has_dirty_bits \<and> pr_size pr \<noteq> 0
                   then Some (pr_phys_mem pr, pr_org_size pr) else None);
          idx = (if pr_dirty_bits_index pr = 0 then 1 else 0);
          tab = pr_dirty_bits_tab pr;
          pr' = pr\<lparr>pr_dirty_bits_index := idx,
                   pr_dirty_bits := map_option (\<lambda>_. idx) (tab idx),
                   pr_dirty_bits_tab := tab(idx := map_option (\<lambda>b i. if i < n then 0 else b i) (tab idx))\<rparr>
      in (dirty_bits, pr', flush))"

definition default_set_addr ::
  "PhysMemoryRange \<Rightarrow> u64 \<Rightarrow> bool \<Rightarrow> PhysMemoryRange \<times> (u64 \<times> u64) option" where
  "default_set_addr pr addr enabled =
     (let flush = (if pr_is_ram pr then Some (pr_phys_mem pr, pr_org_size pr) else None) in
      if enabled then
        if pr_size pr = 0 \<or> pr_addr pr \<noteq> addr
        then (pr\<lparr>pr_addr := addr, pr_size := pr_org_size pr\<rparr>, flush)
        else (pr, None)
      else
        if pr_size pr \<noteq> 0 then (pr\<lparr>pr_addr := 0, pr_size := 0\<rparr>, flush)
        else (pr, None))"

definition phys_mem_set_addr ::
  "PhysMemoryRange \<Rightarrow> u64 \<Rightarrow> bool \<Rightarrow> PhysMemoryRange \<times> (u64 \<times> u64) option" where
  "phys_mem_set_addr pr addr enabled =
     (if \<not> pr_is_ram pr then default_set_addr pr addr enabled else default_set_addr pr addr enabled)"

section \<open>The decoder finds the last range that covers the address\<close>

lemma range_scan_Some:
  "range_scan s paddr n = Some i \<longleftrightarrow>
     i < n \<and> in_range (s ! i) paddr \<and> (\<forall>j. i < j \<and> j < n \<longrightarrow> \<not> in_range (s ! j) paddr)"
proof (induction n)
  case 0
  then show ?case by simp
next
  case (Suc n)
  then show ?case by (auto simp: less_Suc_eq)
qed

lemma range_scan_None: "range_scan s paddr n = None \<longleftrightarrow> (\<forall>i < n. \<not> in_range (s ! i) paddr)"
  by (induction n) (auto simp: less_Suc_eq)

lemma range_scan_cong: "(\<And>i. i < n \<Longrightarrow> s ! i = s' ! i) \<Longrightarrow> range_scan s paddr n = range_scan s' paddr n"
  by (induction n) auto

lemma lookup_Some:
  "get_phys_mem_range s paddr = Some i \<longleftrightarrow> i < length s \<and> in_range (s ! i) paddr
     \<and> (\<forall>j. i < j \<and> j < length s \<longrightarrow> \<not> in_range (s ! j) paddr)"
  by (simp add: get_phys_mem_range_def range_scan_Some)

lemma lookup_None: "get_phys_mem_range s paddr = None \<longleftrightarrow> (\<forall>i < length s. \<not> in_range (s ! i) paddr)"
  by (simp add: get_phys_mem_range_def range_scan_None)

lemma lookup_append:
  "get_phys_mem_range (s @ [pr]) paddr =
     (if in_range pr paddr then Some (length s) else get_phys_mem_range s paddr)"
  using range_scan_cong[of "length s" s "s @ [pr]" paddr]
  by (simp add: get_phys_mem_range_def nth_append)

lemma lookup_update_same_extent:
  assumes "pr_addr pr = pr_addr (s ! i)" "pr_size pr = pr_size (s ! i)"
  shows "get_phys_mem_range (s[i := pr]) paddr = get_phys_mem_range s paddr"
proof -
  have "in_range (s[i := pr] ! j) paddr = in_range (s ! j) paddr" if "j < length s" for j
    using assms that by (cases "i = j") (auto simp: in_range_def)
  then have "range_scan (s[i := pr]) paddr n = range_scan s paddr n" if "n \<le> length s" for n
    using that by (induction n) auto
  then show ?thesis by (simp add: get_phys_mem_range_def)
qed

text \<open>
  What the memory management unit relies on: a decoder that is sound and complete for the ranges
  that cover an address.
\<close>

locale addr_decoder =
  fixes lookup :: "'m \<Rightarrow> u64 \<Rightarrow> nat option"
    and covers :: "'m \<Rightarrow> nat \<Rightarrow> u64 \<Rightarrow> bool"
  assumes lookup_covers: "lookup m p = Some i \<Longrightarrow> covers m i p"
    and lookup_last: "lookup m p = Some i \<Longrightarrow> covers m j p \<Longrightarrow> j \<le> i"
    and lookup_defined: "covers m i p \<Longrightarrow> lookup m p \<noteq> None"
begin

lemma lookup_eqI: "covers m i p \<Longrightarrow> (\<And>j. covers m j p \<Longrightarrow> j \<le> i) \<Longrightarrow> lookup m p = Some i"
  by (metis dual_order.antisym lookup_covers lookup_defined lookup_last not_None_eq)

lemma lookup_none_iff: "lookup m p = None \<longleftrightarrow> (\<forall>i. \<not> covers m i p)"
  by (metis lookup_covers lookup_defined not_None_eq)

end

definition range_covers :: "PhysMemoryMap \<Rightarrow> nat \<Rightarrow> u64 \<Rightarrow> bool" where
  "range_covers s i paddr \<longleftrightarrow> i < length s \<and> in_range (s ! i) paddr"

interpretation pmap: addr_decoder get_phys_mem_range range_covers
proof
  show "range_covers m i p" if "get_phys_mem_range m p = Some i" for m p i
    using that by (auto simp: lookup_Some range_covers_def)
  show "j \<le> i" if "get_phys_mem_range m p = Some i" "range_covers m j p" for m p i j
    using that by (auto simp: lookup_Some range_covers_def not_less[symmetric])
  show "get_phys_mem_range m p \<noteq> None" if "range_covers m i p" for m i p
    using that by (auto simp: lookup_None range_covers_def)
qed

lemma disabled_range_not_found:
  "get_phys_mem_range s paddr = Some i \<Longrightarrow> pr_size (s ! i) \<noteq> 0"
  by (auto simp: lookup_Some in_range_def)

section \<open>Whole pages\<close>

definition page_of :: "u64 \<Rightarrow> u64" where
  "page_of a = a AND NOT 0xfff"

definition page_aligned :: "u64 \<Rightarrow> bool" where
  "page_aligned a \<longleftrightarrow> a AND 0xfff = 0"

lemma low12_mask: "(0xfff :: u64) = mask 12"
  by (simp add: mask_eq_exp_minus_1)

lemma page_of_drop: "page_of a = push_bit 12 (drop_bit 12 a)"
  unfolding page_of_def low12_mask by (rule bit_eqI) (auto simp: bit_simps)

lemma page_of_eq_iff: "page_of a = page_of b \<longleftrightarrow> drop_bit 12 a = drop_bit 12 b"
proof
  assume "page_of a = page_of b"
  then have "drop_bit 12 (page_of a) = drop_bit 12 (page_of b)" by simp
  moreover have "drop_bit 12 (page_of c) = drop_bit 12 c" for c
    unfolding page_of_drop by (rule bit_eqI) (auto simp: bit_simps)
  ultimately show "drop_bit 12 a = drop_bit 12 b" by simp
qed (simp add: page_of_drop)

lemma numeral_power_12: "(2 :: nat) ^ 12 = 4096"
  by simp

lemma page_aligned_iff: "page_aligned a \<longleftrightarrow> unat a mod 4096 = 0"
proof -
  have "unat (a AND 0xfff) = unat a mod 4096"
    by (metis low12_mask take_bit_eq_mask unsigned_take_bit_eq take_bit_eq_mod numeral_power_12)
  then show ?thesis
    unfolding page_aligned_def by (metis unat_eq_zero)
qed

lemma same_page_div: "page_of a = page_of b \<longleftrightarrow> unat a div 4096 = unat b div 4096"
proof -
  have "unat (drop_bit 12 c) = unat c div 4096" for c :: u64
    by (simp add: drop_bit_eq_div unat_div_distrib)
  then show ?thesis unfolding page_of_eq_iff by (simp only: word_unat_eq_iff)
qed

text \<open>A range lies on page boundaries and does not wrap around the address space.\<close>

definition whole_pages :: "PhysMemoryRange \<Rightarrow> bool" where
  "whole_pages pr \<longleftrightarrow> page_aligned (pr_addr pr) \<and> page_aligned (pr_size pr)
     \<and> unat (pr_addr pr) + unat (pr_size pr) < 2 ^ 64"

definition apart :: "PhysMemoryRange \<Rightarrow> PhysMemoryRange \<Rightarrow> bool" where
  "apart pr pr' \<longleftrightarrow> (\<forall>a. \<not> (in_range pr a \<and> in_range pr' a))"

text \<open>
  The layout the machine builds: RAM consists of whole pages and no device range reaches into RAM.
\<close>

definition map_ok :: "PhysMemoryMap \<Rightarrow> bool" where
  "map_ok s \<longleftrightarrow> (\<forall>i < length s. pr_is_ram (s ! i) \<longrightarrow> whole_pages (s ! i)
     \<and> (\<forall>j < length s. pr_is_ram (s ! j) \<or> apart (s ! i) (s ! j)))"

lemma in_range_unat:
  assumes "unat (pr_addr pr) + unat (pr_size pr) < 2 ^ 64"
  shows "in_range pr a \<longleftrightarrow> unat (pr_addr pr) \<le> unat a \<and> unat a < unat (pr_addr pr) + unat (pr_size pr)"
proof -
  have "unat (pr_addr pr + pr_size pr) = unat (pr_addr pr) + unat (pr_size pr)"
    using assms by (simp add: unat_word_ariths)
  then show ?thesis by (simp add: in_range_def word_le_nat_alt word_less_nat_alt)
qed

lemma whole_pages_same_page:
  assumes "whole_pages pr" "page_of p = page_of q" "in_range pr p"
  shows "in_range pr q"
proof -
  define A S where "A = unat (pr_addr pr) div 4096" and "S = unat (pr_size pr) div 4096"
  have A: "unat (pr_addr pr) = 4096 * A" and S: "unat (pr_size pr) = 4096 * S"
    using assms(1) by (auto simp: whole_pages_def page_aligned_iff A_def S_def)
  have iff: "in_range pr a \<longleftrightarrow> A \<le> unat a div 4096 \<and> unat a div 4096 < A + S" for a
    using assms(1) in_range_unat[of pr a] by (auto simp: whole_pages_def A S)
  from assms(2,3) show ?thesis by (simp add: iff same_page_div)
qed

lemma map_ok_page_uniform:
  assumes "map_ok s" and lk: "get_phys_mem_range s p = Some i" and "pr_is_ram (s ! i)"
    and pg: "page_of p = page_of q"
  shows "get_phys_mem_range s q = Some i"
proof (rule pmap.lookup_eqI)
  have i: "i < length s" "in_range (s ! i) p" using lk by (auto simp: lookup_Some)
  have wp: "whole_pages (s ! i)" using assms(1,3) i by (auto simp: map_ok_def)
  have q: "in_range (s ! i) q" using whole_pages_same_page[OF wp pg i(2)] .
  then show "range_covers s i q" using i by (simp add: range_covers_def)
  fix j assume "range_covers s j q"
  then have j: "j < length s" "in_range (s ! j) q" by (auto simp: range_covers_def)
  show "j \<le> i"
  proof (cases "pr_is_ram (s ! j)")
    case True
    then have "in_range (s ! j) p"
      using assms(1) j pg whole_pages_same_page by (metis map_ok_def)
    then show ?thesis using j pmap.lookup_last[OF lk] by (simp add: range_covers_def)
  next
    case False
    then show ?thesis using assms(1,3) i j q by (auto simp: map_ok_def apart_def)
  qed
qed

section \<open>Registering ranges\<close>

definition iomem_inv :: "PhysMemoryMap \<Rightarrow> bool" where
  "iomem_inv s \<longleftrightarrow> length s \<le> PHYS_MEM_RANGE_MAX
     \<and> (\<forall>pr \<in> set s. pr_is_ram pr \<longrightarrow> page_aligned (pr_org_size pr) \<and> pr_org_size pr \<noteq> 0)
     \<and> (\<forall>pr \<in> set s. pr_size pr = pr_org_size pr \<or> pr_size pr = 0)"

lemma iomem_inv_init: "iomem_inv phys_mem_map_init"
  by (simp add: iomem_inv_def phys_mem_map_init_def)

lemma DEVRAM_PAGE_SIZE_mask: "DEVRAM_PAGE_SIZE - 1 = 0xfff"
  by (simp add: DEVRAM_PAGE_SIZE_def)

lemma register_ram_entry_inv:
  "iomem_inv s \<Longrightarrow> register_ram_entry s addr sz fl = Inr s' \<Longrightarrow> iomem_inv s'"
  by (auto simp: iomem_inv_def register_ram_entry_def page_aligned_def DEVRAM_PAGE_SIZE_mask
      split: if_splits)

lemma default_register_ram_cases:
  assumes "default_register_ram (s, h) ptr addr sz fl = Inr (s', h')"
  obtains pr where "s' = s @ [pr]" "pr_is_ram pr" "pr_phys_mem pr = ptr" "pr_addr pr = addr"
    "pr_org_size pr = sz" "pr_size pr = (if fl AND DEVRAM_FLAG_DISABLED \<noteq> 0 then 0 else sz)"
    "page_aligned sz" "sz \<noteq> 0" "ptr \<noteq> 0" "length s < PHYS_MEM_RANGE_MAX" "h' = mallocz h ptr sz"
  using assms
  by (auto simp: default_register_ram_def register_ram_entry_def Let_def page_aligned_def
      DEVRAM_PAGE_SIZE_mask list_update_append split: if_splits sum.splits)

lemma default_register_ram_inv:
  assumes "iomem_inv s" "default_register_ram (s, h) ptr addr sz fl = Inr (s', h')"
  shows "iomem_inv s'"
  using assms(2) by (rule default_register_ram_cases) (use assms(1) in \<open>auto simp: iomem_inv_def\<close>)

lemma cpu_register_device_inv:
  "iomem_inv s \<Longrightarrow> cpu_register_device s addr sz dv fl = Inr s' \<Longrightarrow> iomem_inv s'"
  by (auto simp: iomem_inv_def cpu_register_device_def null_range_def split: if_splits)

lemma phys_mem_set_addr_inv:
  assumes "iomem_inv s" "i < length s"
  shows "iomem_inv (s[i := fst (phys_mem_set_addr (s ! i) addr en)])"
proof -
  have "s ! i \<in> set s" using assms(2) by simp
  with assms show ?thesis
    by (auto simp: iomem_inv_def phys_mem_set_addr_def default_set_addr_def Let_def
        dest!: set_update_subset_insert[THEN subsetD])
qed

section \<open>Dirty bits\<close>

lemma unat_low5_less: "unat (w AND 0x1f :: u64) < 32"
proof -
  have "w AND 0x1f \<le> (0x1f :: u64)" by (rule word_and_le1)
  then show ?thesis by (simp add: word_le_nat_alt)
qed

lemma dirty_after_set: "phys_mem_is_dirty_bit (phys_mem_set_dirty_bit pr off) off"
  using unat_low5_less[of "drop_bit 12 off"]
  by (auto simp: phys_mem_is_dirty_bit_def phys_mem_set_dirty_bit_def Let_def and_1_eq_0_iff
      bit_simps split: option.splits)

end
