(* ===== verification/Iomem_Theorems.thy ===== *)
theory Iomem_Theorems
  imports Iomem
begin

unbundle bit_operations_syntax

text \<open>
  Properties of the physical memory map: the invariant of every map the operations can build, what
  registering a range changes for the address decoder, and the exactness of the dirty bitmaps.
\<close>

section \<open>The maps the operations build\<close>

text \<open>
  A range tracks dirty pages with two bitmaps of which one is active, or with none.
\<close>

definition dirty_wf :: "PhysMemoryRange \<Rightarrow> bool" where
  "dirty_wf pr \<longleftrightarrow> (case pr_dirty_bits pr of
       None \<Rightarrow> pr_dirty_bits_tab pr = (\<lambda>_. None)
     | Some t \<Rightarrow> t = pr_dirty_bits_index pr \<and> t < 2 \<and> pr_dirty_bits_tab pr 0 \<noteq> None \<and> pr_dirty_bits_tab pr 1 \<noteq> None)"

definition built_inv :: "PhysMemoryMap \<Rightarrow> bool" where
  "built_inv s \<longleftrightarrow> iomem_inv s \<and> (\<forall>pr \<in> set s. dirty_wf pr)"

text \<open>The maps reached from the empty one by the operations of \<^verbatim>\<open>iomem.cpp\<close>.\<close>

inductive built :: "PhysMemoryMap \<Rightarrow> host_mem \<Rightarrow> bool" where
  built_init: "built phys_mem_map_init h"
| built_ram: "built s h \<Longrightarrow> default_register_ram (s, h) ptr addr sz fl = Inr (s', h') \<Longrightarrow> built s' h'"
| built_device: "built s h \<Longrightarrow> cpu_register_device s addr sz dv fl = Inr s' \<Longrightarrow> built s' h"
| built_set_addr: "built s h \<Longrightarrow> i < length s \<Longrightarrow> built (s[i := fst (phys_mem_set_addr (s ! i) addr en)]) h"
| built_set_dirty: "built s h \<Longrightarrow> i < length s \<Longrightarrow> built (s[i := phys_mem_set_dirty_bit (s ! i) off]) h"
| built_get_dirty: "built s h \<Longrightarrow> i < length s \<Longrightarrow>
    built (s[i := fst (snd (default_get_dirty_bits (s ! i)))]) h"

lemma iomem_inv_update:
  assumes "iomem_inv s" "i < length s" "pr_is_ram pr = pr_is_ram (s ! i)" "pr_org_size pr = pr_org_size (s ! i)"
    "pr_size pr = pr_size (s ! i)"
  shows "iomem_inv (s[i := pr])"
proof -
  have "s ! i \<in> set s" using assms(2) by simp
  with assms show ?thesis by (auto simp: iomem_inv_def dest!: set_update_subset_insert[THEN subsetD])
qed

lemma set_dirty_frame:
  "pr_is_ram (phys_mem_set_dirty_bit pr off) = pr_is_ram pr" "pr_org_size (phys_mem_set_dirty_bit pr off) = pr_org_size pr"
  "pr_size (phys_mem_set_dirty_bit pr off) = pr_size pr"
  by (simp_all add: phys_mem_set_dirty_bit_def Let_def split: option.split)

lemma get_dirty_frame:
  "pr_is_ram (fst (snd (default_get_dirty_bits pr))) = pr_is_ram pr"
  "pr_org_size (fst (snd (default_get_dirty_bits pr))) = pr_org_size pr"
  "pr_size (fst (snd (default_get_dirty_bits pr))) = pr_size pr"
  by (simp_all add: default_get_dirty_bits_def Let_def)

lemma dirty_wf_ops:
  assumes "dirty_wf pr"
  shows "dirty_wf (fst (phys_mem_set_addr pr addr en))" "dirty_wf (phys_mem_set_dirty_bit pr off)"
    "dirty_wf (fst (snd (default_get_dirty_bits pr)))"
proof -
  show "dirty_wf (fst (phys_mem_set_addr pr addr en))"
    using assms by (simp add: phys_mem_set_addr_def default_set_addr_def Let_def dirty_wf_def split: option.splits)
  show "dirty_wf (phys_mem_set_dirty_bit pr off)"
    using assms by (auto simp: phys_mem_set_dirty_bit_def dirty_wf_def Let_def split: option.splits)
  show "dirty_wf (fst (snd (default_get_dirty_bits pr)))"
    using assms by (auto simp: default_get_dirty_bits_def dirty_wf_def Let_def fun_eq_iff less_2_cases_iff split: option.splits)
qed

lemma default_register_ram_dirty:
  assumes "default_register_ram (s, h) ptr addr sz fl = Inr (s', h')"
  shows "\<exists>pr. s' = s @ [pr] \<and> dirty_wf pr"
  using assms
  by (auto simp: default_register_ram_def register_ram_entry_def Let_def list_update_append dirty_wf_def null_range_def
      split: if_splits sum.splits)

lemma built_inv_update:
  assumes "built_inv s" "i < length s" "iomem_inv (s[i := pr])" "dirty_wf (s ! i) \<Longrightarrow> dirty_wf pr"
  shows "built_inv (s[i := pr])"
  using assms nth_mem[OF assms(2)] by (auto simp: built_inv_def dest!: set_update_subset_insert[THEN subsetD])

text \<open>
  C39. Every memory map the program can build has at most 32 ranges, each RAM range has a non-zero size of
  whole pages, each range is either enabled with its registered size or disabled with size zero, and
  its dirty bitmaps are consistent with the active index.
\<close>

theorem built_map_inv:
  assumes "built s h"
  shows "built_inv s"
  using assms
proof (induction rule: built.induct)
  case (built_init h)
  then show ?case by (simp add: built_inv_def iomem_inv_init) (simp add: phys_mem_map_init_def)
next
  case (built_ram s h ptr addr sz fl s' h')
  then show ?case using default_register_ram_inv default_register_ram_dirty[OF built_ram(2)]
    by (fastforce simp: built_inv_def)
next
  case (built_device s h addr sz dv fl s')
  then show ?case using cpu_register_device_inv[OF _ built_device(2)]
    by (auto simp: built_inv_def cpu_register_device_def dirty_wf_def null_range_def split: if_splits)
next
  case (built_set_addr s h i addr en)
  then show ?case
    using phys_mem_set_addr_inv by (intro built_inv_update) (auto simp: built_inv_def dirty_wf_ops)
next
  case (built_set_dirty s h i off)
  then show ?case
    by (intro built_inv_update iomem_inv_update)
      (auto simp: built_inv_def dirty_wf_ops set_dirty_frame)
next
  case (built_get_dirty s h i)
  then show ?case
    by (intro built_inv_update iomem_inv_update) (auto simp: built_inv_def dirty_wf_ops get_dirty_frame)
qed

lemma built_device_first: "built [null_range\<lparr>pr_addr := 0x54000000, pr_org_size := 32, pr_size := 32, pr_opaque := DevUart, pr_devio_flags := 4\<rparr>] h"
proof -
  have "cpu_register_device phys_mem_map_init 0x54000000 32 DevUart 4 =
    Inr [null_range\<lparr>pr_addr := 0x54000000, pr_org_size := 32, pr_size := 32, pr_opaque := DevUart, pr_devio_flags := 4\<rparr>]"
    by (simp add: cpu_register_device_def phys_mem_map_init_def PHYS_MEM_RANGE_MAX_def DEVIO_DISABLED_def null_range_def)
  from built.built_device[OF built.built_init this] show ?thesis .
qed

theorem built_map_inv_witness:
  "built_inv [null_range\<lparr>pr_addr := 0x54000000, pr_org_size := 32, pr_size := 32, pr_opaque := DevUart, pr_devio_flags := 4\<rparr>]"
  by (rule built_map_inv) (rule built_device_first)

section \<open>What registration changes\<close>

text \<open>
  Registering an enabled RAM range that does not wrap around makes exactly its addresses decode to
  the new range, leaves the decoding of all other addresses and all earlier ranges as they were,
  and gives the range zeroed memory without touching other host memory.
\<close>

theorem register_ram_decodes:
  assumes r: "default_register_ram (s, h) ptr addr sz fl = Inr (s', h')"
    and "fl AND DEVRAM_FLAG_DISABLED = 0" "unat addr + unat sz < 2 ^ 64"
  shows "get_phys_mem_range s' a = (if unat addr \<le> unat a \<and> unat a < unat addr + unat sz then Some (length s)
      else get_phys_mem_range s a)
    \<and> (\<forall>i < length s. s' ! i = s ! i)
    \<and> (\<forall>q. h' q = (if q - ptr < sz then 0 else h q)) \<and> pr_phys_mem (s' ! length s) = ptr"
  using r
proof (rule default_register_ram_cases)
  fix pr assume a: "s' = s @ [pr]" "pr_phys_mem pr = ptr" "pr_addr pr = addr"
    "pr_size pr = (if fl AND DEVRAM_FLAG_DISABLED \<noteq> 0 then 0 else sz)" "h' = mallocz h ptr sz"
  then have "in_range pr x \<longleftrightarrow> unat addr \<le> unat x \<and> unat x < unat addr + unat sz" for x
    using assms(2,3) in_range_unat[of pr x] by simp
  with a show ?thesis by (simp add: lookup_append nth_append mallocz_def)
qed

theorem register_ram_decodes_witness:
  "\<exists>s' h'. default_register_ram ([], \<lambda>_. 1) 0x7f0000000000 0x80000000 0x10000 0 = Inr (s', h')
     \<and> get_phys_mem_range s' 0x8000ffff = Some 0 \<and> get_phys_mem_range s' 0x80010000 = None"
proof -
  obtain s' h' where r: "default_register_ram ([], \<lambda>_. 1) 0x7f0000000000 0x80000000 0x10000 0 = Inr (s', h')"
    by (simp add: default_register_ram_def register_ram_entry_def PHYS_MEM_RANGE_MAX_def DEVRAM_PAGE_SIZE_def Let_def)
  from register_ram_decodes[OF r, of "0x8000ffff"] register_ram_decodes[OF r, of "0x80010000"] r show ?thesis
    by (simp add: get_phys_mem_range_def)
qed

section \<open>Dirty bitmaps are exact\<close>

lemma dirty_test:
  "pr_dirty_bits pr = Some t \<Longrightarrow> pr_dirty_bits_tab pr t = Some b \<Longrightarrow>
   phys_mem_is_dirty_bit pr off \<longleftrightarrow> bit (b (unat (drop_bit 17 off))) (unat (drop_bit 12 off AND 0x1f))"
  by (simp add: phys_mem_is_dirty_bit_def Let_def and_1_eq_0_iff bit_drop_bit_eq)

lemma same_bit_position:
  "unat (drop_bit 17 a) = unat (drop_bit 17 b) \<and> unat (drop_bit 12 a AND 0x1f) = unat (drop_bit 12 b AND 0x1f)
   \<longleftrightarrow> page_of a = page_of (b :: u64)"
proof -
  have m: "(0x1f :: u64) = mask 5" by (simp add: mask_eq_exp_minus_1)
  have "drop_bit 17 a = drop_bit 17 b \<and> drop_bit 12 a AND mask 5 = drop_bit 12 b AND mask 5 \<longleftrightarrow> drop_bit 12 a = drop_bit 12 b"
  proof
    assume e: "drop_bit 17 a = drop_bit 17 b \<and> drop_bit 12 a AND mask 5 = drop_bit 12 b AND mask 5"
    show "drop_bit 12 a = drop_bit 12 b"
    proof (rule bit_word_eqI)
      fix n
      show "bit (drop_bit 12 a) n \<longleftrightarrow> bit (drop_bit 12 b) n"
      proof (cases "n < 5")
        case True
        have "bit (drop_bit 12 a AND mask 5) n \<longleftrightarrow> bit (drop_bit 12 b AND mask 5) n" using e by simp
        then show ?thesis using True by (simp add: bit_and_iff bit_mask_iff)
      next
        case False
        have "bit (drop_bit 17 a) (n - 5) \<longleftrightarrow> bit (drop_bit 17 b) (n - 5)" using e by simp
        then show ?thesis using False by (simp add: bit_drop_bit_eq)
      qed
    qed
  next
    assume e: "drop_bit 12 a = drop_bit 12 b"
    have "drop_bit 17 x = drop_bit 5 (drop_bit 12 x)" for x :: u64 by simp
    then show "drop_bit 17 a = drop_bit 17 b \<and> drop_bit 12 a AND mask 5 = drop_bit 12 b AND mask 5"
      using e by metis
  qed
  then show ?thesis unfolding m page_of_eq_iff by (simp only: word_unat_eq_iff)
qed

text \<open>
  On a range that tracks dirty pages, marking the page of an offset dirty makes exactly this page
  dirty in addition to those that were; collecting the dirty bits returns the bitmap that was active
  and leaves every page of the range clean.
\<close>

theorem dirty_bits_exact:
  assumes "dirty_wf pr" "pr_dirty_bits pr \<noteq> None"
  shows "(phys_mem_is_dirty_bit (phys_mem_set_dirty_bit pr off) off' \<longleftrightarrow>
      phys_mem_is_dirty_bit pr off' \<or> page_of off = page_of off')
    \<and> fst (default_get_dirty_bits pr) = pr_dirty_bits_tab pr (pr_dirty_bits_index pr)
    \<and> (unat (drop_bit 17 off) < pr_dirty_bits_size pr div 4 \<longrightarrow>
        \<not> phys_mem_is_dirty_bit (fst (snd (default_get_dirty_bits pr))) off)"
proof -
  obtain t b where t: "pr_dirty_bits pr = Some t" "pr_dirty_bits_tab pr t = Some b"
    and i: "t = pr_dirty_bits_index pr"
    using assms by (auto simp: dirty_wf_def less_2_cases_iff split: option.splits)
  let ?w = "\<lambda>off. unat (drop_bit 17 off)" and ?k = "\<lambda>off. unat (drop_bit 12 off AND 0x1f :: u64)"
  have "pr_dirty_bits_tab (phys_mem_set_dirty_bit pr off) t = Some (b(?w off := b (?w off) OR push_bit (?k off) 1))"
    "pr_dirty_bits (phys_mem_set_dirty_bit pr off) = Some t"
    by (simp_all add: phys_mem_set_dirty_bit_def t Let_def)
  then have "phys_mem_is_dirty_bit (phys_mem_set_dirty_bit pr off) off' \<longleftrightarrow>
      phys_mem_is_dirty_bit pr off' \<or> (?w off = ?w off' \<and> ?k off = ?k off')"
    using t unat_low5_less[of "drop_bit 12 off"] by (auto simp: dirty_test bit_or_iff bit_of simp del: push_bit_of_1)
  moreover have "\<not> phys_mem_is_dirty_bit (fst (snd (default_get_dirty_bits pr))) off"
    if "?w off < pr_dirty_bits_size pr div 4"
  proof -
    let ?p = "fst (snd (default_get_dirty_bits pr))" and ?n = "pr_dirty_bits_size pr div 4"
    let ?i = "if pr_dirty_bits_index pr = 0 then 1 else 0 :: nat"
    obtain c where "pr_dirty_bits_tab pr ?i = Some c" using assms t i
      by (cases "pr_dirty_bits_index pr = 0") (auto simp: dirty_wf_def)
    then have "pr_dirty_bits ?p = Some ?i" "pr_dirty_bits_tab ?p ?i = Some (\<lambda>i. if i < ?n then 0 else c i)"
      by (simp_all add: default_get_dirty_bits_def Let_def)
    then show ?thesis using that by (simp add: dirty_test)
  qed
  moreover have "fst (default_get_dirty_bits pr) = pr_dirty_bits_tab pr (pr_dirty_bits_index pr)"
    by (simp add: default_get_dirty_bits_def Let_def t flip: i)
  ultimately show ?thesis unfolding same_bit_position by blast
qed

theorem dirty_bits_exact_witness:
  "\<exists>pr. dirty_wf pr \<and> phys_mem_is_dirty_bit (phys_mem_set_dirty_bit pr 0x3010) 0x3ff8
     \<and> \<not> phys_mem_is_dirty_bit (phys_mem_set_dirty_bit pr 0x3010) 0x4000"
proof -
  let ?pr = "null_range\<lparr>pr_dirty_bits := Some 0, pr_dirty_bits_tab := (\<lambda>k. if k < 2 then Some (\<lambda>_. 0) else None)\<rparr>"
  have "dirty_wf ?pr" "pr_dirty_bits ?pr \<noteq> None" by (simp_all add: dirty_wf_def null_range_def)
  moreover have "\<not> phys_mem_is_dirty_bit ?pr a" for a by (simp add: phys_mem_is_dirty_bit_def)
  ultimately show ?thesis
    using dirty_bits_exact[of ?pr "0x3010" "0x3ff8"] dirty_bits_exact[of ?pr "0x3010" "0x4000"]
    by (intro exI[of _ ?pr]) (simp add: page_of_def)
qed

end
