(* ===== verification/Cpu_State.thy ===== *)
theory Cpu_State
  imports Iomem
begin

unbundle bit_operations_syntax

text \<open>
  The hart of \<^verbatim>\<open>riscv_cpu.h\<close>: the architectural constants of \<^verbatim>\<open>riscv.h\<close>, the structure
  \<^verbatim>\<open>RISCVCPUState\<close>, and the operations of \<^verbatim>\<open>riscv_cpu.cpp\<close> that touch nothing else: register access,
  the TLB arrays, \<^verbatim>\<open>mstatus\<close>, privilege changes, interrupt-pending bits, initialisation and the
  accessors used by the co-simulation driver.

  Arrays with a power-of-two length are functions on words of that width, so an index is in bounds by
  its type: \<^verbatim>\<open>reg[32]\<close> is indexed by \<open>5 word\<close>, the TLBs by \<open>8 word\<close>. The build has \<^verbatim>\<open>XLEN = FLEN = 64\<close>,
  \<^verbatim>\<open>LIVECACHE\<close> undefined, software-managed A and D bits and no misaligned accesses, as in
  \<^verbatim>\<open>riscv_cpu.h\<close> and the Makefile.
\<close>

section \<open>Constants of the architecture\<close>

lemma bit_push3 [bit_of]:
  "bit (push_bit k 3 :: 'a::len word) n \<longleftrightarrow> (n = k \<or> n = Suc k) \<and> n < LENGTH('a)"
proof -
  have three: "(3 :: 'a word) = mask 2"
    by (simp add: mask_eq_exp_minus_1)
  show ?thesis unfolding three by (auto simp: bit_simps)
qed

definition MSTATUS_UIE :: u64 where "MSTATUS_UIE = push_bit 0 1"
definition MSTATUS_SIE :: u64 where "MSTATUS_SIE = push_bit 1 1"
definition MSTATUS_MIE :: u64 where "MSTATUS_MIE = push_bit 3 1"
definition MSTATUS_SPIE :: u64 where "MSTATUS_SPIE = push_bit 5 1"
definition MSTATUS_MPIE :: u64 where "MSTATUS_MPIE = push_bit 7 1"
definition MSTATUS_SPP :: u64 where "MSTATUS_SPP = push_bit 8 1"
definition MSTATUS_MPRV :: u64 where "MSTATUS_MPRV = push_bit 17 1"
definition MSTATUS_SUM :: u64 where "MSTATUS_SUM = push_bit 18 1"
definition MSTATUS_MXR :: u64 where "MSTATUS_MXR = push_bit 19 1"
definition MSTATUS_TVM :: u64 where "MSTATUS_TVM = push_bit 20 1"
definition MSTATUS_TW :: u64 where "MSTATUS_TW = push_bit 21 1"
definition MSTATUS_TSR :: u64 where "MSTATUS_TSR = push_bit 22 1"
definition MSTATUS_MPP :: u64 where "MSTATUS_MPP = push_bit 11 3"
definition MSTATUS_FS :: u64 where "MSTATUS_FS = push_bit 13 3"
definition MSTATUS_XS :: u64 where "MSTATUS_XS = push_bit 15 3"
definition MSTATUS_UXL_MASK :: u64 where "MSTATUS_UXL_MASK = push_bit 32 3"
definition MSTATUS_SXL_MASK :: u64 where "MSTATUS_SXL_MASK = push_bit 34 3"

definition MIP_SSIP :: u32 where "MIP_SSIP = push_bit 1 1"
definition MIP_MSIP :: u32 where "MIP_MSIP = push_bit 3 1"
definition MIP_STIP :: u32 where "MIP_STIP = push_bit 5 1"
definition MIP_MTIP :: u32 where "MIP_MTIP = push_bit 7 1"
definition MIP_SEIP :: u32 where "MIP_SEIP = push_bit 9 1"
definition MIP_MEIP :: u32 where "MIP_MEIP = push_bit 11 1"
definition MIP_MCIP :: u32 where "MIP_MCIP = push_bit 18 1"

definition MCPUID_SUPER :: u32 where "MCPUID_SUPER = push_bit 18 1"
definition MCPUID_USER :: u32 where "MCPUID_USER = push_bit 20 1"
definition MCPUID_I :: u32 where "MCPUID_I = push_bit 8 1"
definition MCPUID_M :: u32 where "MCPUID_M = push_bit 12 1"
definition MCPUID_A :: u32 where "MCPUID_A = push_bit 0 1"
definition MCPUID_F :: u32 where "MCPUID_F = push_bit 5 1"
definition MCPUID_D :: u32 where "MCPUID_D = push_bit 3 1"
definition MCPUID_C :: u32 where "MCPUID_C = push_bit 2 1"
definition MCPUID_X :: u32 where "MCPUID_X = push_bit 23 1"

definition MCONTROL_M :: u64 where "MCONTROL_M = push_bit 6 1"
definition MCONTROL_U :: u64 where "MCONTROL_U = push_bit 3 1"
definition MCONTROL_EXECUTE :: u64 where "MCONTROL_EXECUTE = push_bit 2 1"

lemma bit_MSTATUS_UIE [bit_of]: "bit MSTATUS_UIE n \<longleftrightarrow> n = 0"
  unfolding MSTATUS_UIE_def by (subst bit_pow2) simp
lemma bit_MSTATUS_SIE [bit_of]: "bit MSTATUS_SIE n \<longleftrightarrow> n = 1"
  unfolding MSTATUS_SIE_def by (subst bit_pow2) simp
lemma bit_MSTATUS_MIE [bit_of]: "bit MSTATUS_MIE n \<longleftrightarrow> n = 3"
  unfolding MSTATUS_MIE_def by (subst bit_pow2) simp
lemma bit_MSTATUS_SPIE [bit_of]: "bit MSTATUS_SPIE n \<longleftrightarrow> n = 5"
  unfolding MSTATUS_SPIE_def by (subst bit_pow2) simp
lemma bit_MSTATUS_MPIE [bit_of]: "bit MSTATUS_MPIE n \<longleftrightarrow> n = 7"
  unfolding MSTATUS_MPIE_def by (subst bit_pow2) simp
lemma bit_MSTATUS_SPP [bit_of]: "bit MSTATUS_SPP n \<longleftrightarrow> n = 8"
  unfolding MSTATUS_SPP_def by (subst bit_pow2) simp
lemma bit_MSTATUS_MPRV [bit_of]: "bit MSTATUS_MPRV n \<longleftrightarrow> n = 17"
  unfolding MSTATUS_MPRV_def by (subst bit_pow2) simp
lemma bit_MSTATUS_SUM [bit_of]: "bit MSTATUS_SUM n \<longleftrightarrow> n = 18"
  unfolding MSTATUS_SUM_def by (subst bit_pow2) simp
lemma bit_MSTATUS_MXR [bit_of]: "bit MSTATUS_MXR n \<longleftrightarrow> n = 19"
  unfolding MSTATUS_MXR_def by (subst bit_pow2) simp
lemma bit_MSTATUS_TVM [bit_of]: "bit MSTATUS_TVM n \<longleftrightarrow> n = 20"
  unfolding MSTATUS_TVM_def by (subst bit_pow2) simp
lemma bit_MSTATUS_TW [bit_of]: "bit MSTATUS_TW n \<longleftrightarrow> n = 21"
  unfolding MSTATUS_TW_def by (subst bit_pow2) simp
lemma bit_MSTATUS_TSR [bit_of]: "bit MSTATUS_TSR n \<longleftrightarrow> n = 22"
  unfolding MSTATUS_TSR_def by (subst bit_pow2) simp
lemma bit_MSTATUS_MPP [bit_of]: "bit MSTATUS_MPP n \<longleftrightarrow> n = 11 \<or> n = 12"
  unfolding MSTATUS_MPP_def by (subst bit_push3) auto
lemma bit_MSTATUS_FS [bit_of]: "bit MSTATUS_FS n \<longleftrightarrow> n = 13 \<or> n = 14"
  unfolding MSTATUS_FS_def by (subst bit_push3) auto
lemma bit_MSTATUS_XS [bit_of]: "bit MSTATUS_XS n \<longleftrightarrow> n = 15 \<or> n = 16"
  unfolding MSTATUS_XS_def by (subst bit_push3) auto
lemma bit_MSTATUS_UXL_MASK [bit_of]: "bit MSTATUS_UXL_MASK n \<longleftrightarrow> n = 32 \<or> n = 33"
  unfolding MSTATUS_UXL_MASK_def by (subst bit_push3) auto
lemma bit_MSTATUS_SXL_MASK [bit_of]: "bit MSTATUS_SXL_MASK n \<longleftrightarrow> n = 34 \<or> n = 35"
  unfolding MSTATUS_SXL_MASK_def by (subst bit_push3) auto
lemma bit_MIP_SSIP [bit_of]: "bit MIP_SSIP n \<longleftrightarrow> n = 1"
  unfolding MIP_SSIP_def by (subst bit_pow2) simp
lemma bit_MIP_MSIP [bit_of]: "bit MIP_MSIP n \<longleftrightarrow> n = 3"
  unfolding MIP_MSIP_def by (subst bit_pow2) simp
lemma bit_MIP_STIP [bit_of]: "bit MIP_STIP n \<longleftrightarrow> n = 5"
  unfolding MIP_STIP_def by (subst bit_pow2) simp
lemma bit_MIP_MTIP [bit_of]: "bit MIP_MTIP n \<longleftrightarrow> n = 7"
  unfolding MIP_MTIP_def by (subst bit_pow2) simp
lemma bit_MIP_SEIP [bit_of]: "bit MIP_SEIP n \<longleftrightarrow> n = 9"
  unfolding MIP_SEIP_def by (subst bit_pow2) simp
lemma bit_MIP_MEIP [bit_of]: "bit MIP_MEIP n \<longleftrightarrow> n = 11"
  unfolding MIP_MEIP_def by (subst bit_pow2) simp
lemma bit_MIP_MCIP [bit_of]: "bit MIP_MCIP n \<longleftrightarrow> n = 18"
  unfolding MIP_MCIP_def by (subst bit_pow2) simp
lemma bit_MCPUID_SUPER [bit_of]: "bit MCPUID_SUPER n \<longleftrightarrow> n = 18"
  unfolding MCPUID_SUPER_def by (subst bit_pow2) simp
lemma bit_MCPUID_USER [bit_of]: "bit MCPUID_USER n \<longleftrightarrow> n = 20"
  unfolding MCPUID_USER_def by (subst bit_pow2) simp
lemma bit_MCPUID_I [bit_of]: "bit MCPUID_I n \<longleftrightarrow> n = 8"
  unfolding MCPUID_I_def by (subst bit_pow2) simp
lemma bit_MCPUID_M [bit_of]: "bit MCPUID_M n \<longleftrightarrow> n = 12"
  unfolding MCPUID_M_def by (subst bit_pow2) simp
lemma bit_MCPUID_A [bit_of]: "bit MCPUID_A n \<longleftrightarrow> n = 0"
  unfolding MCPUID_A_def by (subst bit_pow2) simp
lemma bit_MCPUID_F [bit_of]: "bit MCPUID_F n \<longleftrightarrow> n = 5"
  unfolding MCPUID_F_def by (subst bit_pow2) simp
lemma bit_MCPUID_D [bit_of]: "bit MCPUID_D n \<longleftrightarrow> n = 3"
  unfolding MCPUID_D_def by (subst bit_pow2) simp
lemma bit_MCPUID_C [bit_of]: "bit MCPUID_C n \<longleftrightarrow> n = 2"
  unfolding MCPUID_C_def by (subst bit_pow2) simp
lemma bit_MCPUID_X [bit_of]: "bit MCPUID_X n \<longleftrightarrow> n = 23"
  unfolding MCPUID_X_def by (subst bit_pow2) simp
lemma bit_MCONTROL_M [bit_of]: "bit MCONTROL_M n \<longleftrightarrow> n = 6"
  unfolding MCONTROL_M_def by (subst bit_pow2) simp
lemma bit_MCONTROL_U [bit_of]: "bit MCONTROL_U n \<longleftrightarrow> n = 3"
  unfolding MCONTROL_U_def by (subst bit_pow2) simp
lemma bit_MCONTROL_EXECUTE [bit_of]: "bit MCONTROL_EXECUTE n \<longleftrightarrow> n = 2"
  unfolding MCONTROL_EXECUTE_def by (subst bit_pow2) simp

lemmas mstatus_consts = MSTATUS_UIE_def MSTATUS_SIE_def MSTATUS_MIE_def MSTATUS_SPIE_def MSTATUS_MPIE_def MSTATUS_SPP_def MSTATUS_MPRV_def MSTATUS_SUM_def MSTATUS_MXR_def MSTATUS_TVM_def MSTATUS_TW_def MSTATUS_TSR_def MSTATUS_MPP_def MSTATUS_FS_def MSTATUS_XS_def MSTATUS_UXL_MASK_def MSTATUS_SXL_MASK_def
lemmas mip_consts = MIP_SSIP_def MIP_MSIP_def MIP_STIP_def MIP_MTIP_def MIP_SEIP_def MIP_MEIP_def MIP_MCIP_def
lemmas misa_consts = MCPUID_SUPER_def MCPUID_USER_def MCPUID_I_def MCPUID_M_def MCPUID_A_def MCPUID_F_def MCPUID_D_def MCPUID_C_def MCPUID_X_def
lemmas mcontrol_consts = MCONTROL_M_def MCONTROL_U_def MCONTROL_EXECUTE_def

abbreviation (input) CAUSE_MISALIGNED_FETCH :: int where "CAUSE_MISALIGNED_FETCH \<equiv> 0"
abbreviation (input) CAUSE_FAULT_FETCH :: int where "CAUSE_FAULT_FETCH \<equiv> 1"
abbreviation (input) CAUSE_ILLEGAL_INSTRUCTION :: int where "CAUSE_ILLEGAL_INSTRUCTION \<equiv> 2"
abbreviation (input) CAUSE_BREAKPOINT :: int where "CAUSE_BREAKPOINT \<equiv> 3"
abbreviation (input) CAUSE_MISALIGNED_LOAD :: int where "CAUSE_MISALIGNED_LOAD \<equiv> 4"
abbreviation (input) CAUSE_FAULT_LOAD :: int where "CAUSE_FAULT_LOAD \<equiv> 5"
abbreviation (input) CAUSE_MISALIGNED_STORE :: int where "CAUSE_MISALIGNED_STORE \<equiv> 6"
abbreviation (input) CAUSE_FAULT_STORE :: int where "CAUSE_FAULT_STORE \<equiv> 7"
abbreviation (input) CAUSE_USER_ECALL :: int where "CAUSE_USER_ECALL \<equiv> 8"
abbreviation (input) CAUSE_FETCH_PAGE_FAULT :: int where "CAUSE_FETCH_PAGE_FAULT \<equiv> 12"
abbreviation (input) CAUSE_LOAD_PAGE_FAULT :: int where "CAUSE_LOAD_PAGE_FAULT \<equiv> 13"
abbreviation (input) CAUSE_STORE_PAGE_FAULT :: int where "CAUSE_STORE_PAGE_FAULT \<equiv> 15"

definition CAUSE_INTERRUPT :: u64 where "CAUSE_INTERRUPT = push_bit 63 1"
definition SCAUSE_MASK :: u64 where "SCAUSE_MASK = 0x800000000000001f"
definition MCAUSE_MASK :: u64 where "MCAUSE_MASK = 0x80000000000000ff"

abbreviation (input) PRV_U :: u8 where "PRV_U \<equiv> 0"
abbreviation (input) PRV_S :: u8 where "PRV_S \<equiv> 1"
abbreviation (input) PRV_H :: u8 where "PRV_H \<equiv> 2"
abbreviation (input) PRV_M :: u8 where "PRV_M \<equiv> 3"

definition PG_MASK :: u64 where "PG_MASK = 0xfff"

definition SATP_MASK :: u64 where
  "SATP_MASK = push_bit 60 15 OR push_bit 44 (push_bit 0 1 - 1) OR (push_bit 44 1 - 1)"

lemma bit_CAUSE_INTERRUPT [bit_of]: "bit CAUSE_INTERRUPT n \<longleftrightarrow> n = 63"
  unfolding CAUSE_INTERRUPT_def by (subst bit_pow2) simp


section \<open>The hart\<close>

record TLBEntry =
  vaddr :: u64
  mem_addend :: u64

datatype RISCVCTFInfo = ctf_nop | ctf_taken_jump | ctf_taken_branch | ctf_taken_jalr
  | ctf_taken_jalr_pop | ctf_taken_jalr_push | ctf_taken_jalr_pop_push

record pmp_addr =
  lo :: u64
  hi :: u64

record RISCVCPUState =
  pc :: u64
  reg :: "regno \<Rightarrow> u64"
  reg_prior :: "regno \<Rightarrow> u64"
  most_recently_written_reg :: int
  fp_reg :: "regno \<Rightarrow> u64"
  most_recently_written_fp_reg :: int
  fflags :: u32
  frm :: u8
  priv :: u8
  fs :: u8
  insn_counter :: u64
  minstret :: u64
  mcycle :: u64
  debug_mode :: bool
  stop_the_counter :: bool
  power_down_flag :: bool
  terminate_simulation :: bool
  pending_exception :: int
  pending_tval :: u64
  mstatus :: u64
  mtvec :: u64
  mscratch :: u64
  mepc :: u64
  mcause :: u64
  mtval :: u64
  mvendorid :: u64
  marchid :: u64
  mimpid :: u64
  mhartid :: u64
  misa :: u32
  mie :: u32
  mip :: u32
  medeleg :: u32
  mideleg :: u32
  mcounteren :: u32
  mcountinhibit :: u32
  tselect :: u32
  tdata1 :: "u32 \<Rightarrow> u64"
  tdata2 :: "u32 \<Rightarrow> u64"
  tdata3 :: "u32 \<Rightarrow> u64"
  mhpmevent :: "regno \<Rightarrow> u64"
  csr_pmpcfg :: "2 word \<Rightarrow> u64"
  csr_pmpaddr :: "4 word \<Rightarrow> u64"
  pmp_n :: nat
  pmp :: "nat \<Rightarrow> pmp_addr"
  pmpcfg :: "nat \<Rightarrow> u8"
  stvec :: u64
  sscratch :: u64
  sepc :: u64
  scause :: u64
  stval :: u64
  satp :: u64
  scounteren :: u32
  dcsr :: u64
  dpc :: u64
  dscratch :: u64
  plic_enable_irq :: u32
  load_res :: u64
  physical_addr_len :: nat
  tlb_read :: "tlbidx \<Rightarrow> TLBEntry"
  tlb_write :: "tlbidx \<Rightarrow> TLBEntry"
  tlb_code :: "tlbidx \<Rightarrow> TLBEntry"
  tlb_read_paddr_addend :: "tlbidx \<Rightarrow> u64"
  tlb_write_paddr_addend :: "tlbidx \<Rightarrow> u64"
  tlb_code_paddr_addend :: "tlbidx \<Rightarrow> u64"
  info :: RISCVCTFInfo
  next_addr :: u64
  timecmp :: u64
  ignore_sbi_shutdown :: bool

text \<open>The part of \<^verbatim>\<open>VirtMachine\<close> (\<^verbatim>\<open>s->machine->common\<close>) the hart and the co-simulation driver use.\<close>

record VirtMachine =
  maxinsns :: u64
  cosim :: bool
  vm_pending_interrupt :: int
  vm_pending_exception :: int

section \<open>Registers\<close>

definition write_reg :: "regno \<Rightarrow> u64 \<Rightarrow> RISCVCPUState \<Rightarrow> RISCVCPUState" where
  "write_reg x val s = s\<lparr>most_recently_written_reg := uint x,
     reg_prior := (reg_prior s)(x := reg s x),
     reg := (reg s)(x := val)\<rparr>"

definition read_reg :: "RISCVCPUState \<Rightarrow> regno \<Rightarrow> u64" where
  "read_reg s x = reg s x"

definition write_fp_reg :: "regno \<Rightarrow> u64 \<Rightarrow> RISCVCPUState \<Rightarrow> RISCVCPUState" where
  "write_fp_reg x val s = s\<lparr>most_recently_written_fp_reg := uint x,
     fp_reg := (fp_reg s)(x := val), fs := 3\<rparr>"

definition read_fp_reg :: "RISCVCPUState \<Rightarrow> regno \<Rightarrow> u64" where
  "read_fp_reg s x = fp_reg s x"

text \<open>\<^verbatim>\<open>CANONICAL_S49\<close>: sign-extend from bit 48.\<close>

definition CANONICAL_S49 :: "u64 \<Rightarrow> u64" where
  "CANONICAL_S49 v = signed_drop_bit (63 - 48) (push_bit (63 - 48) v)"

lemma bit_CANONICAL_S49: "bit (CANONICAL_S49 v) n \<longleftrightarrow> n < 64 \<and> bit v (min n 48)"
proof -
  consider "n \<ge> 64" | "n < 64" "n \<le> 48" | "n < 64" "n > 48" by linarith
  then show ?thesis
    by cases (auto simp: CANONICAL_S49_def bit_simps min_def)
qed

lemma CANONICAL_S49_idem: "CANONICAL_S49 (CANONICAL_S49 v) = CANONICAL_S49 v"
  by (rule bit_eqI) (auto simp: bit_CANONICAL_S49 min_def)

section \<open>The TLB arrays\<close>

definition tlb_init :: "RISCVCPUState \<Rightarrow> RISCVCPUState" where
  "tlb_init s = s\<lparr>tlb_read := (\<lambda>i. (tlb_read s i)\<lparr>vaddr := - 1\<rparr>),
     tlb_write := (\<lambda>i. (tlb_write s i)\<lparr>vaddr := - 1\<rparr>),
     tlb_code := (\<lambda>i. (tlb_code s i)\<lparr>vaddr := - 1\<rparr>)\<rparr>"

definition tlb_flush_all :: "RISCVCPUState \<Rightarrow> RISCVCPUState" where
  "tlb_flush_all s = tlb_init s"

lemma tlb_flush_all_sel [simp]:
  "pc (tlb_flush_all s) = pc s"
  "reg (tlb_flush_all s) = reg s"
  "reg_prior (tlb_flush_all s) = reg_prior s"
  "most_recently_written_reg (tlb_flush_all s) = most_recently_written_reg s"
  "fp_reg (tlb_flush_all s) = fp_reg s"
  "most_recently_written_fp_reg (tlb_flush_all s) = most_recently_written_fp_reg s"
  "fflags (tlb_flush_all s) = fflags s"
  "frm (tlb_flush_all s) = frm s"
  "priv (tlb_flush_all s) = priv s"
  "fs (tlb_flush_all s) = fs s"
  "insn_counter (tlb_flush_all s) = insn_counter s"
  "minstret (tlb_flush_all s) = minstret s"
  "mcycle (tlb_flush_all s) = mcycle s"
  "debug_mode (tlb_flush_all s) = debug_mode s"
  "stop_the_counter (tlb_flush_all s) = stop_the_counter s"
  "power_down_flag (tlb_flush_all s) = power_down_flag s"
  "terminate_simulation (tlb_flush_all s) = terminate_simulation s"
  "pending_exception (tlb_flush_all s) = pending_exception s"
  "pending_tval (tlb_flush_all s) = pending_tval s"
  "mstatus (tlb_flush_all s) = mstatus s"
  "mtvec (tlb_flush_all s) = mtvec s"
  "mscratch (tlb_flush_all s) = mscratch s"
  "mepc (tlb_flush_all s) = mepc s"
  "mcause (tlb_flush_all s) = mcause s"
  "mtval (tlb_flush_all s) = mtval s"
  "mvendorid (tlb_flush_all s) = mvendorid s"
  "marchid (tlb_flush_all s) = marchid s"
  "mimpid (tlb_flush_all s) = mimpid s"
  "mhartid (tlb_flush_all s) = mhartid s"
  "misa (tlb_flush_all s) = misa s"
  "mie (tlb_flush_all s) = mie s"
  "mip (tlb_flush_all s) = mip s"
  "medeleg (tlb_flush_all s) = medeleg s"
  "mideleg (tlb_flush_all s) = mideleg s"
  "mcounteren (tlb_flush_all s) = mcounteren s"
  "mcountinhibit (tlb_flush_all s) = mcountinhibit s"
  "tselect (tlb_flush_all s) = tselect s"
  "tdata1 (tlb_flush_all s) = tdata1 s"
  "tdata2 (tlb_flush_all s) = tdata2 s"
  "tdata3 (tlb_flush_all s) = tdata3 s"
  "mhpmevent (tlb_flush_all s) = mhpmevent s"
  "csr_pmpcfg (tlb_flush_all s) = csr_pmpcfg s"
  "csr_pmpaddr (tlb_flush_all s) = csr_pmpaddr s"
  "pmp_n (tlb_flush_all s) = pmp_n s"
  "pmp (tlb_flush_all s) = pmp s"
  "pmpcfg (tlb_flush_all s) = pmpcfg s"
  "stvec (tlb_flush_all s) = stvec s"
  "sscratch (tlb_flush_all s) = sscratch s"
  "sepc (tlb_flush_all s) = sepc s"
  "scause (tlb_flush_all s) = scause s"
  "stval (tlb_flush_all s) = stval s"
  "satp (tlb_flush_all s) = satp s"
  "scounteren (tlb_flush_all s) = scounteren s"
  "dcsr (tlb_flush_all s) = dcsr s"
  "dpc (tlb_flush_all s) = dpc s"
  "dscratch (tlb_flush_all s) = dscratch s"
  "plic_enable_irq (tlb_flush_all s) = plic_enable_irq s"
  "load_res (tlb_flush_all s) = load_res s"
  "physical_addr_len (tlb_flush_all s) = physical_addr_len s"
  "tlb_read_paddr_addend (tlb_flush_all s) = tlb_read_paddr_addend s"
  "tlb_write_paddr_addend (tlb_flush_all s) = tlb_write_paddr_addend s"
  "tlb_code_paddr_addend (tlb_flush_all s) = tlb_code_paddr_addend s"
  "info (tlb_flush_all s) = info s"
  "next_addr (tlb_flush_all s) = next_addr s"
  "timecmp (tlb_flush_all s) = timecmp s"
  "ignore_sbi_shutdown (tlb_flush_all s) = ignore_sbi_shutdown s"
  by (simp_all add: tlb_flush_all_def tlb_init_def)

definition tlb_flush_vaddr :: "u64 \<Rightarrow> RISCVCPUState \<Rightarrow> RISCVCPUState" where
  "tlb_flush_vaddr va s = tlb_flush_all s"

definition riscv_cpu_flush_tlb_write_range_ram :: "u64 \<Rightarrow> u64 \<Rightarrow> RISCVCPUState \<Rightarrow> RISCVCPUState" where
  "riscv_cpu_flush_tlb_write_range_ram ram_ptr ram_size s =
     (let ram_end = ram_ptr + ram_size in
      s\<lparr>tlb_write := (\<lambda>i.
          let e = tlb_write s i; ptr = mem_addend e + vaddr e in
          if vaddr e \<noteq> - 1 \<and> ram_ptr \<le> ptr \<and> ptr < ram_end then e\<lparr>vaddr := - 1\<rparr> else e)\<rparr>)"

section \<open>mstatus and the privilege mode\<close>

definition SSTATUS_MASK :: u64 where
  "SSTATUS_MASK = MSTATUS_SIE OR MSTATUS_SPIE OR MSTATUS_SPP OR MSTATUS_FS OR MSTATUS_SUM
     OR MSTATUS_MXR OR MSTATUS_UXL_MASK"

definition MSTATUS_MASK :: u64 where
  "MSTATUS_MASK = MSTATUS_SIE OR MSTATUS_MIE OR MSTATUS_SPIE OR MSTATUS_MPIE OR MSTATUS_SPP
     OR MSTATUS_MPP OR MSTATUS_FS OR MSTATUS_MPRV OR MSTATUS_SUM OR MSTATUS_MXR OR MSTATUS_TVM
     OR MSTATUS_TW OR MSTATUS_TSR OR MSTATUS_UXL_MASK OR MSTATUS_SXL_MASK"

text \<open>The local \<^verbatim>\<open>mask\<close> of \<^verbatim>\<open>set_mstatus\<close>.\<close>

definition MSTATUS_WMASK :: u64 where
  "MSTATUS_WMASK = MSTATUS_MASK AND NOT (MSTATUS_FS OR MSTATUS_UXL_MASK OR MSTATUS_SXL_MASK)"

lemma bit_MSTATUS_WMASK [bit_of]:
  "bit MSTATUS_WMASK n \<longleftrightarrow> n \<in> {1, 3, 5, 7, 8, 11, 12, 17, 18, 19, 20, 21, 22}"
  by (auto simp: bit_simps bit_of MSTATUS_MASK_def MSTATUS_WMASK_def)

definition get_mstatus :: "RISCVCPUState \<Rightarrow> u64 \<Rightarrow> u64" where
  "get_mstatus s m =
     (let val = (mstatus s OR push_bit 13 (ucast (fs s))) AND m;
          sd = (val AND MSTATUS_FS = MSTATUS_FS \<or> val AND MSTATUS_XS = MSTATUS_XS)
      in if sd then val OR push_bit 63 1 else val)"

definition set_mstatus :: "RISCVCPUState \<Rightarrow> u64 \<Rightarrow> RISCVCPUState" where
  "set_mstatus s val =
     (let modf = mstatus s XOR val;
          s1 = (if modf AND (MSTATUS_MPRV OR MSTATUS_SUM OR MSTATUS_MXR) \<noteq> 0
                  \<or> (mstatus s AND MSTATUS_MPRV \<noteq> 0 \<and> modf AND MSTATUS_MPP \<noteq> 0)
                then tlb_flush_all s else s);
          s2 = s1\<lparr>fs := ucast (drop_bit 13 val AND 3)\<rparr>
      in s2\<lparr>mstatus := (mstatus s2 AND NOT MSTATUS_WMASK) OR (val AND MSTATUS_WMASK)\<rparr>)"

definition set_priv :: "u8 \<Rightarrow> RISCVCPUState \<Rightarrow> RISCVCPUState" where
  "set_priv p s = (if priv s \<noteq> p then (tlb_flush_all s)\<lparr>priv := p\<rparr> else s)"

section \<open>Interrupt-pending bits, initialisation, accessors\<close>

definition riscv_cpu_set_mip :: "VirtMachine \<Rightarrow> u32 \<Rightarrow> RISCVCPUState \<Rightarrow> RISCVCPUState" where
  "riscv_cpu_set_mip vm m s =
     (let s1 = s\<lparr>mip := mip s OR m\<rparr> in
      if power_down_flag s1 \<and> mip s1 AND mie s1 \<noteq> 0
         \<and> (vm_pending_interrupt vm \<noteq> - 1 \<or> \<not> cosim vm)
      then s1\<lparr>power_down_flag := False\<rparr> else s1)"

definition riscv_cpu_reset_mip :: "u32 \<Rightarrow> RISCVCPUState \<Rightarrow> RISCVCPUState" where
  "riscv_cpu_reset_mip m s = s\<lparr>mip := mip s AND NOT m\<rparr>"

definition riscv_cpu_get_mip :: "RISCVCPUState \<Rightarrow> u32" where
  "riscv_cpu_get_mip s = mip s"

definition riscv_cpu_get_power_down :: "RISCVCPUState \<Rightarrow> bool" where
  "riscv_cpu_get_power_down s = power_down_flag s"

definition null_cpu :: RISCVCPUState where
  "null_cpu = \<lparr>pc = 0, reg = (\<lambda>_. 0), reg_prior = (\<lambda>_. 0), most_recently_written_reg = 0,
     fp_reg = (\<lambda>_. 0), most_recently_written_fp_reg = 0, fflags = 0, frm = 0, priv = 0, fs = 0,
     insn_counter = 0, minstret = 0, mcycle = 0, debug_mode = False, stop_the_counter = False,
     power_down_flag = False, terminate_simulation = False, pending_exception = 0, pending_tval = 0,
     mstatus = 0, mtvec = 0, mscratch = 0, mepc = 0, mcause = 0, mtval = 0, mvendorid = 0,
     marchid = 0, mimpid = 0, mhartid = 0, misa = 0, mie = 0, mip = 0, medeleg = 0, mideleg = 0,
     mcounteren = 0, mcountinhibit = 0, tselect = 0, tdata1 = (\<lambda>_. 0), tdata2 = (\<lambda>_. 0),
     tdata3 = (\<lambda>_. 0), mhpmevent = (\<lambda>_. 0), csr_pmpcfg = (\<lambda>_. 0), csr_pmpaddr = (\<lambda>_. 0), pmp_n = 0,
     pmp = (\<lambda>_. \<lparr>lo = 0, hi = 0\<rparr>), pmpcfg = (\<lambda>_. 0), stvec = 0, sscratch = 0, sepc = 0, scause = 0,
     stval = 0, satp = 0, scounteren = 0, dcsr = 0, dpc = 0, dscratch = 0, plic_enable_irq = 0,
     load_res = 0, physical_addr_len = 0, tlb_read = (\<lambda>_. \<lparr>vaddr = 0, mem_addend = 0\<rparr>),
     tlb_write = (\<lambda>_. \<lparr>vaddr = 0, mem_addend = 0\<rparr>), tlb_code = (\<lambda>_. \<lparr>vaddr = 0, mem_addend = 0\<rparr>),
     tlb_read_paddr_addend = (\<lambda>_. 0), tlb_write_paddr_addend = (\<lambda>_. 0),
     tlb_code_paddr_addend = (\<lambda>_. 0), info = ctf_nop, next_addr = 0, timecmp = 0,
     ignore_sbi_shutdown = False\<rparr>"

text \<open>\<open>null_cpu\<close> is the zeroed block of \<^verbatim>\<open>mallocz\<close>; \<open>MAX_TRIGGERS\<close> is 1, so the trigger loop runs once.\<close>

definition riscv_cpu_init :: "u64 \<Rightarrow> bool \<Rightarrow> u64 \<Rightarrow> RISCVCPUState" where
  "riscv_cpu_init reset_vector custom_extension hartid =
     tlb_init (null_cpu\<lparr>
       pc := reset_vector,
       priv := PRV_M,
       mstatus := push_bit 32 2 OR push_bit 34 2 OR push_bit 11 3,
       plic_enable_irq := 0,
       most_recently_written_reg := - 1,
       most_recently_written_fp_reg := - 1,
       misa := MCPUID_SUPER OR MCPUID_USER OR MCPUID_I OR MCPUID_M OR MCPUID_A OR MCPUID_F
               OR MCPUID_D OR MCPUID_C OR (if custom_extension then MCPUID_X else 0),
       mvendorid := 11 * 128 + 101,
       marchid := push_bit 63 1 OR 2,
       mimpid := 1,
       mhartid := hartid,
       tselect := 0,
       tdata1 := (\<lambda>_. 0)(0 := push_bit 60 2),
       tdata2 := (\<lambda>_. 0)(0 := - 1)\<rparr>)"

definition epc_mask :: "RISCVCPUState \<Rightarrow> u64" where
  "epc_mask s = (if misa s AND MCPUID_C \<noteq> 0 then NOT 1 else NOT 3)"

definition riscv_set_pc :: "u64 \<Rightarrow> RISCVCPUState \<Rightarrow> RISCVCPUState" where
  "riscv_set_pc val s = s\<lparr>pc := val AND epc_mask s\<rparr>"

definition riscv_get_pc :: "RISCVCPUState \<Rightarrow> u64" where
  "riscv_get_pc s = pc s"

definition riscv_get_reg :: "RISCVCPUState \<Rightarrow> regno \<Rightarrow> u64" where
  "riscv_get_reg s rn = reg s rn"

definition riscv_get_reg_previous :: "RISCVCPUState \<Rightarrow> regno \<Rightarrow> u64" where
  "riscv_get_reg_previous s rn = reg_prior s rn"

definition riscv_get_fpreg :: "RISCVCPUState \<Rightarrow> regno \<Rightarrow> u64" where
  "riscv_get_fpreg s rn = fp_reg s rn"

text \<open>\<^verbatim>\<open>riscv_set_reg\<close> asserts that the register is not \<^verbatim>\<open>x0\<close>; \<open>None\<close> is the failed assertion.\<close>

definition riscv_set_reg :: "regno \<Rightarrow> u64 \<Rightarrow> RISCVCPUState \<Rightarrow> RISCVCPUState option" where
  "riscv_set_reg rn val s = (if rn = 0 then None else Some (s\<lparr>reg := (reg s)(rn := val)\<rparr>))"

definition riscv_repair_csr :: "regno \<Rightarrow> u64 \<Rightarrow> u64 \<Rightarrow> RISCVCPUState \<Rightarrow> RISCVCPUState" where
  "riscv_repair_csr reg_num csr_num csr_val s =
     (let n = csr_num AND 0xfff in
      if n = 0xb00 \<or> n = 0xc00 then s\<lparr>mcycle := csr_val, reg := (reg s)(reg_num := csr_val)\<rparr>
      else if n = 0xb02 \<or> n = 0xc02 then s\<lparr>minstret := csr_val, reg := (reg s)(reg_num := csr_val)\<rparr>
      else s)"

definition riscv_cpu_sync_regs :: "RISCVCPUState \<Rightarrow> RISCVCPUState" where
  "riscv_cpu_sync_regs s = s\<lparr>reg_prior := (\<lambda>i. if i = 0 then reg_prior s 0 else reg s i)\<rparr>"

definition riscv_cpu_get_mstatus :: "RISCVCPUState \<Rightarrow> u64" where
  "riscv_cpu_get_mstatus s = get_mstatus s MSTATUS_MASK"

definition riscv_set_debug_mode :: "bool \<Rightarrow> RISCVCPUState \<Rightarrow> RISCVCPUState" where
  "riscv_set_debug_mode on s = s\<lparr>debug_mode := on\<rparr>"

definition riscv_terminated :: "RISCVCPUState \<Rightarrow> bool" where
  "riscv_terminated s = terminate_simulation s"

definition riscv_get_priv_level :: "RISCVCPUState \<Rightarrow> u8" where
  "riscv_get_priv_level s = priv s"

definition riscv_cpu_get_medeleg :: "RISCVCPUState \<Rightarrow> u64" where
  "riscv_cpu_get_medeleg s = ucast (medeleg s)"

definition riscv_cpu_get_misa :: "RISCVCPUState \<Rightarrow> u32" where
  "riscv_cpu_get_misa s = misa s"

definition riscv_get_most_recently_written_reg :: "RISCVCPUState \<Rightarrow> int" where
  "riscv_get_most_recently_written_reg s = most_recently_written_reg s"

definition riscv_get_most_recently_written_fp_reg :: "RISCVCPUState \<Rightarrow> int" where
  "riscv_get_most_recently_written_fp_reg s = most_recently_written_fp_reg s"

definition riscv_get_ctf_info :: "RISCVCPUState \<Rightarrow> RISCVCTFInfo" where
  "riscv_get_ctf_info s = info s"

definition riscv_get_ctf_target :: "RISCVCPUState \<Rightarrow> u64" where
  "riscv_get_ctf_target s = next_addr s"

end
