(* ===== verification/Csr.thy ===== *)
theory Csr
  imports Cpu_State
begin

unbundle bit_operations_syntax

text \<open>
  Control and status registers: \<^verbatim>\<open>counter_access_ok\<close>, \<^verbatim>\<open>csr_read\<close>, \<^verbatim>\<open>csr_write\<close>, the PMP unpacking
  \<^verbatim>\<open>unpack_pmpaddrs\<close>, and the rounding-mode helpers of \<^verbatim>\<open>riscv_cpu.cpp\<close>. The two big \<^verbatim>\<open>switch\<close>
  statements are cut at the source's own groups of cases (user and supervisor, machine, trigger and
  debug, counters, PMP); the \<^verbatim>\<open>default\<close> of a group continues with the next one.

  \<open>None\<close> is the return value -1 of \<^verbatim>\<open>csr_read\<close>. \<^verbatim>\<open>csr_write\<close> returns its result code with the new
  state: -1 for an invalid register, 0, or 2 when the TLBs were flushed. The machine's CSR hooks are
  null pointers: no code of the repository sets them.
\<close>

section \<open>Reading\<close>

definition counter_access_ok :: "RISCVCPUState \<Rightarrow> u32 \<Rightarrow> bool" where
  "counter_access_ok s csr =
     (let counteren = (if priv s = PRV_U then scounteren s
                       else if priv s = PRV_S then mcounteren s
                       else if priv s = PRV_M then NOT 0 else 0)
      in drop_bit (unat (csr AND 31)) counteren AND 1 \<noteq> 0)"

definition csr_read_pmp :: "RISCVCPUState \<Rightarrow> u32 \<Rightarrow> u64 option" where
  "csr_read_pmp s csr =
     (if csr = 0x3a0 \<or> csr = 0x3a2 then Some (csr_pmpcfg s (ucast (csr - 0x3a0)))
      else if 0x3b0 \<le> csr \<and> csr \<le> 0x3bf then Some (csr_pmpaddr s (ucast (csr - 0x3b0)))
      else None)"

definition csr_read_hpm :: "RISCVCPUState \<Rightarrow> u32 \<Rightarrow> u64 option" where
  "csr_read_hpm s csr =
     (if csr = 0xf14 then Some (mhartid s)
      else if csr = 0xf13 then Some (mimpid s)
      else if csr = 0xf12 then Some (marchid s)
      else if csr = 0xf11 then Some (mvendorid s)
      else if 0x323 \<le> csr \<and> csr \<le> 0x33f then Some (mhpmevent s (ucast csr))
      else csr_read_pmp s csr)"

definition csr_read_counter :: "RISCVCPUState \<Rightarrow> u32 \<Rightarrow> u64 option" where
  "csr_read_counter s csr =
     (if csr = 0xb00 \<or> csr = 0xc00 then
        if \<not> counter_access_ok s csr then None else Some (mcycle s)
      else if csr = 0xb02 \<or> csr = 0xc02 then
        if \<not> counter_access_ok s csr then None else Some (minstret s)
      else if (0xb03 \<le> csr \<and> csr \<le> 0xb1f) \<or> (0xc03 \<le> csr \<and> csr \<le> 0xc1f) then
        if \<not> counter_access_ok s csr then None else Some 0
      else csr_read_hpm s csr)"

definition csr_read_debug :: "RISCVCPUState \<Rightarrow> u32 \<Rightarrow> u64 option" where
  "csr_read_debug s csr =
     (if csr = 0x7a0 then Some (ucast (tselect s))
      else if csr = 0x7a1 then Some (tdata1 s (tselect s))
      else if csr = 0x7a2 then Some (tdata2 s (tselect s))
      else if csr = 0x7a3 then Some (tdata3 s (tselect s))
      else if csr = 0x7b0 then if \<not> debug_mode s then None else Some (dcsr s)
      else if csr = 0x7b1 then if \<not> debug_mode s then None else Some (dpc s)
      else if csr = 0x7b2 then if \<not> debug_mode s then None else Some (dscratch s)
      else csr_read_counter s csr)"

definition csr_read_machine :: "RISCVCPUState \<Rightarrow> u32 \<Rightarrow> u64 option" where
  "csr_read_machine s csr =
     (if csr = 0x300 then Some (get_mstatus s (- 1))
      else if csr = 0x301 then Some (ucast (misa s) OR push_bit 62 2)
      else if csr = 0x302 then Some (ucast (medeleg s))
      else if csr = 0x303 then Some (ucast (mideleg s))
      else if csr = 0x304 then Some (ucast (mie s))
      else if csr = 0x305 then Some (mtvec s)
      else if csr = 0x306 then Some (ucast (mcounteren s))
      else if csr = 0x320 then Some (ucast (mcountinhibit s))
      else if csr = 0x340 then Some (mscratch s)
      else if csr = 0x341 then Some (mepc s)
      else if csr = 0x342 then Some (mcause s)
      else if csr = 0x343 then Some (mtval s)
      else if csr = 0x344 then Some (ucast (mip s))
      else csr_read_debug s csr)"

definition csr_read_switch :: "RISCVCPUState \<Rightarrow> u32 \<Rightarrow> u64 option" where
  "csr_read_switch s csr =
     (if csr = 0x001 then if fs s = 0 then None else Some (ucast (fflags s))
      else if csr = 0x002 then if fs s = 0 then None else Some (ucast (frm s))
      else if csr = 0x003 then if fs s = 0 then None else Some (ucast (fflags s OR push_bit 5 (ucast (frm s))))
      else if csr = 0x100 then Some (get_mstatus s SSTATUS_MASK)
      else if csr = 0x104 then Some (ucast (mie s AND mideleg s))
      else if csr = 0x105 then Some (stvec s)
      else if csr = 0x106 then Some (ucast (scounteren s))
      else if csr = 0x140 then Some (sscratch s)
      else if csr = 0x141 then Some (sepc s)
      else if csr = 0x142 then Some (scause s)
      else if csr = 0x143 then Some (stval s)
      else if csr = 0x144 then Some (ucast (mip s AND mideleg s))
      else if csr = 0x180 then
        if priv s = PRV_S \<and> mstatus s AND MSTATUS_TVM \<noteq> 0 then None else Some (satp s)
      else csr_read_machine s csr)"

definition csr_read :: "RISCVCPUState \<Rightarrow> u32 \<Rightarrow> bool \<Rightarrow> u64 option" where
  "csr_read s csr will_write =
     (if csr AND 0xc00 = 0xc00 \<and> will_write then None
      else if priv s < ucast (drop_bit 8 csr AND 3) then None
      else csr_read_switch s csr)"

lemmas csr_read_defs = csr_read_def csr_read_switch_def csr_read_machine_def csr_read_debug_def
  csr_read_counter_def csr_read_hpm_def csr_read_pmp_def

section \<open>Floating-point rounding mode\<close>

definition set_frm :: "u32 \<Rightarrow> RISCVCPUState \<Rightarrow> RISCVCPUState" where
  "set_frm val s = s\<lparr>frm := ucast val\<rparr>"

definition get_insn_rm :: "RISCVCPUState \<Rightarrow> u32 \<Rightarrow> u32 option" where
  "get_insn_rm s rm = (let rm' = (if rm = 7 then ucast (frm s) else rm) in
     if rm' \<ge> 5 then None else Some rm')"

section \<open>Physical memory protection registers\<close>

abbreviation (input) PMPCFG_R :: u8 where "PMPCFG_R \<equiv> 1"
abbreviation (input) PMPCFG_W :: u8 where "PMPCFG_W \<equiv> 2"
abbreviation (input) PMPCFG_X :: u8 where "PMPCFG_X \<equiv> 4"
abbreviation (input) PMPCFG_A_MASK :: u8 where "PMPCFG_A_MASK \<equiv> 0x18"
abbreviation (input) PMPCFG_A_OFF :: u8 where "PMPCFG_A_OFF \<equiv> 0"
abbreviation (input) PMPCFG_A_TOR :: u8 where "PMPCFG_A_TOR \<equiv> 8"
abbreviation (input) PMPCFG_A_NA4 :: u8 where "PMPCFG_A_NA4 \<equiv> 0x10"
abbreviation (input) PMPCFG_A_NAPOT :: u8 where "PMPCFG_A_NAPOT \<equiv> 0x18"
abbreviation (input) PMPCFG_RES :: u64 where "PMPCFG_RES \<equiv> 0x60"
abbreviation (input) PMPCFG_L :: u8 where "PMPCFG_L \<equiv> 0x80"

definition PMPADDR_MASK :: u64 where "PMPADDR_MASK = 0x3fffffffff"

text \<open>
  \<open>1 << j\<close> in the loop that counts trailing ones is a shift of an \<^verbatim>\<open>int\<close>: the value is sign-extended
  when it meets the 64-bit operand, and the x86-64 shift takes the count modulo 32.
\<close>

definition int_bit :: "nat \<Rightarrow> u64" where
  "int_bit j = scast (push_bit (j mod 32) 1 :: u32)"

function count_trailing_ones :: "u64 \<Rightarrow> nat \<Rightarrow> nat" where
  "count_trailing_ones a j =
     (if j < 64 then (if a AND int_bit j = 0 then j else count_trailing_ones a (j + 1)) else j)"
  by pat_completeness auto
termination
  by (relation "measure (\<lambda>(a, j). 64 - j)") auto

declare count_trailing_ones.simps [simp del]

definition pmp_cfg_byte :: "RISCVCPUState \<Rightarrow> nat \<Rightarrow> u8" where
  "pmp_cfg_byte s i = (if i < 8 then ucast (drop_bit (i * 8) (csr_pmpcfg s 0))
                       else ucast (drop_bit ((i - 8) * 8) (csr_pmpcfg s 2)))"

definition pmp_entry :: "u8 \<Rightarrow> pmp_addr \<Rightarrow> RISCVCPUState \<Rightarrow> RISCVCPUState" where
  "pmp_entry cfg r s = s\<lparr>pmpcfg := (pmpcfg s)(pmp_n s := cfg), pmp := (pmp s)(pmp_n s := r),
     pmp_n := pmp_n s + 1\<rparr>"

definition napot_range :: "u64 \<Rightarrow> pmp_addr" where
  "napot_range a =
     (let j = count_trailing_ones a 0 + 3 in
      if j \<ge> 64 then \<lparr>lo = 0, hi = NOT 0\<rparr>
      else let l = push_bit 2 a AND NOT (push_bit j 1 - 1); h = l + push_bit j 1
           in \<lparr>lo = l, hi = (if h \<le> l then NOT 0 else h)\<rparr>)"

definition unpack_pmpaddr :: "nat \<Rightarrow> RISCVCPUState \<Rightarrow> RISCVCPUState" where
  "unpack_pmpaddr i s =
     (let cfg = pmp_cfg_byte s i; a = csr_pmpaddr s (of_nat i) in
      if cfg AND PMPCFG_A_MASK = PMPCFG_A_OFF then s
      else if cfg AND PMPCFG_A_MASK = PMPCFG_A_TOR then
        pmp_entry cfg \<lparr>lo = (if i = 0 then 0 else push_bit 2 (csr_pmpaddr s (of_nat (i - 1)))),
                       hi = push_bit 2 a\<rparr> s
      else if cfg AND PMPCFG_A_MASK = PMPCFG_A_NA4 then
        pmp_entry cfg \<lparr>lo = push_bit 2 a, hi = push_bit 2 a + 4\<rparr> s
      else if cfg AND PMPCFG_A_MASK = PMPCFG_A_NAPOT then pmp_entry cfg (napot_range a) s
      else s)"

definition unpack_pmpaddrs :: "RISCVCPUState \<Rightarrow> RISCVCPUState" where
  "unpack_pmpaddrs s = tlb_flush_all (fold unpack_pmpaddr [0..<16] (s\<lparr>pmp_n := 0\<rparr>))"

text \<open>The byte loop of a write to \<^verbatim>\<open>pmpcfg\<close>: a locked byte keeps its old value.\<close>

definition merge_pmpcfg_byte :: "u64 \<Rightarrow> u64 \<Rightarrow> nat \<Rightarrow> u64" where
  "merge_pmpcfg_byte orig val i =
     (let cfg = drop_bit (i * 8) orig AND 255;
          cfg' = (if cfg AND ucast PMPCFG_L = 0 then drop_bit (i * 8) val AND 255 else cfg)
      in cfg' AND NOT PMPCFG_RES)"

definition merge_pmpcfg :: "u64 \<Rightarrow> u64 \<Rightarrow> u64" where
  "merge_pmpcfg orig val =
     fold (\<lambda>i new_val. new_val OR push_bit (i * 8) (merge_pmpcfg_byte orig val i)) [0..<8] 0"

section \<open>Writing\<close>

abbreviation (input) PMP_N :: nat where "PMP_N \<equiv> 8"

definition csr_write_counter :: "RISCVCPUState \<Rightarrow> u32 \<Rightarrow> u64 \<Rightarrow> int \<times> RISCVCPUState" where
  "csr_write_counter s csr val =
     (if csr = 0xb00 then (0, s\<lparr>mcycle := val\<rparr>)
      else if csr = 0xb02 then (0, s\<lparr>minstret := val\<rparr>)
      else if 0xb03 \<le> csr \<and> csr \<le> 0xb1f then (0, s)
      else (- 1, s))"

definition csr_write_pmp :: "RISCVCPUState \<Rightarrow> u32 \<Rightarrow> u64 \<Rightarrow> int \<times> RISCVCPUState" where
  "csr_write_pmp s csr val =
     (if csr = 0x3a0 \<or> csr = 0x3a2 then
        let c = unat (csr - 0x3a0) in
        if PMP_N \<le> c div 2 * 8 then (0, s)
        else (0, unpack_pmpaddrs (s\<lparr>csr_pmpcfg := (csr_pmpcfg s)
               (of_nat c := merge_pmpcfg (csr_pmpcfg s (of_nat c)) val)\<rparr>))
      else if 0x3b0 \<le> csr \<and> csr \<le> 0x3bf then
        let c = unat (csr - 0x3b0) in
        if PMP_N \<le> c then (0, s)
        else (0, unpack_pmpaddrs (s\<lparr>csr_pmpaddr := (csr_pmpaddr s)(of_nat c := val AND PMPADDR_MASK)\<rparr>))
      else csr_write_counter s csr val)"

definition HPM_EVENT_MASK :: u64 where "HPM_EVENT_MASK = 0x00000007 OR 0xffffff00"

definition csr_write_debug :: "RISCVCPUState \<Rightarrow> u32 \<Rightarrow> u64 \<Rightarrow> int \<times> RISCVCPUState" where
  "csr_write_debug s csr val =
     (if csr = 0x7a0 then (0, s\<lparr>tselect := ucast (val mod 1)\<rparr>)
      else if csr = 0x7a1 then
        let type = drop_bit 60 val; m = push_bit 60 15 OR MCONTROL_M OR MCONTROL_EXECUTE in
        if type \<noteq> 0 \<and> type \<noteq> 2 then (0, s)
        else (0, s\<lparr>tdata1 := (tdata1 s)(tselect s := (tdata1 s (tselect s) AND NOT m) OR (val AND m))\<rparr>)
      else if csr = 0x7a2 then (0, s\<lparr>tdata2 := (tdata2 s)(tselect s := val)\<rparr>)
      else if csr = 0x7a3 then (0, s\<lparr>tdata3 := (tdata3 s)(tselect s := val)\<rparr>)
      else if csr = 0x7b0 then
        if \<not> debug_mode s then (- 1, s)
        else let d = (dcsr s AND NOT 0x603) OR (val AND 0x603)
             in (0, s\<lparr>dcsr := d, stop_the_counter := (d AND of_bool ((0x600 :: u64) \<noteq> 0) \<noteq> 0)\<rparr>)
      else if csr = 0x7b1 then
        if \<not> debug_mode s then (- 1, s) else (0, s\<lparr>dpc := val AND epc_mask s\<rparr>)
      else if csr = 0x7b2 then
        if \<not> debug_mode s then (- 1, s) else (0, s\<lparr>dscratch := val\<rparr>)
      else if 0x323 \<le> csr \<and> csr \<le> 0x33f then
        (0, s\<lparr>mhpmevent := (mhpmevent s)(ucast csr := val AND HPM_EVENT_MASK)\<rparr>)
      else csr_write_pmp s csr val)"

definition tvec_align :: "u64 \<Rightarrow> u64" where
  "tvec_align val = (if val AND 1 \<noteq> 0 then val AND (NOT 255 + 1) else val)"

definition csr_write_machine :: "RISCVCPUState \<Rightarrow> u32 \<Rightarrow> u64 \<Rightarrow> int \<times> RISCVCPUState" where
  "csr_write_machine s csr val =
     (if csr = 0x300 then (0, set_mstatus s val)
      else if csr = 0x301 then (0, s)
      else if csr = 0x302 then
        (0, s\<lparr>medeleg := (medeleg s AND NOT 0xb109) OR (ucast val AND 0xb109)\<rparr>)
      else if csr = 0x303 then
        let m = MIP_SSIP OR MIP_STIP OR MIP_SEIP
        in (0, s\<lparr>mideleg := (mideleg s AND NOT m) OR (ucast val AND m)\<rparr>)
      else if csr = 0x304 then
        let m = MIP_MCIP OR MIP_MEIP OR MIP_SEIP OR MIP_MTIP OR MIP_STIP OR MIP_MSIP OR MIP_SSIP
        in (0, s\<lparr>mie := (mie s AND NOT m) OR (ucast val AND m)\<rparr>)
      else if csr = 0x305 then
        (0, s\<lparr>mtvec := tvec_align val AND (push_bit (physical_addr_len s) 1 - 3)\<rparr>)
      else if csr = 0x306 then (0, s\<lparr>mcounteren := ucast val\<rparr>)
      else if csr = 0x320 then (0, s\<lparr>mcountinhibit := ucast (val AND NOT 2)\<rparr>)
      else if csr = 0x340 then (0, s\<lparr>mscratch := val\<rparr>)
      else if csr = 0x341 then (0, s\<lparr>mepc := CANONICAL_S49 (val AND epc_mask s)\<rparr>)
      else if csr = 0x342 then (0, s\<lparr>mcause := val AND MCAUSE_MASK\<rparr>)
      else if csr = 0x343 then (0, s\<lparr>mtval := CANONICAL_S49 val\<rparr>)
      else if csr = 0x344 then
        let m = MIP_SEIP OR MIP_STIP OR MIP_SSIP
        in (0, s\<lparr>mip := (mip s AND NOT m) OR (ucast val AND m)\<rparr>)
      else csr_write_debug s csr val)"

definition csr_write :: "RISCVCPUState \<Rightarrow> u32 \<Rightarrow> u64 \<Rightarrow> int \<times> RISCVCPUState" where
  "csr_write s csr val =
     (if csr = 0x001 then (0, s\<lparr>fflags := ucast (val AND 0x1f), fs := 3\<rparr>)
      else if csr = 0x002 then (0, (set_frm (ucast (val AND 7)) s)\<lparr>fs := 3\<rparr>)
      else if csr = 0x003 then
        (0, (set_frm (ucast (drop_bit 5 val AND 7)) s)\<lparr>fflags := ucast (val AND 0x1f), fs := 3\<rparr>)
      else if csr = 0x100 then
        (0, set_mstatus s ((mstatus s AND NOT SSTATUS_MASK) OR (val AND SSTATUS_MASK)))
      else if csr = 0x104 then
        (0, s\<lparr>mie := (mie s AND NOT (mideleg s)) OR (ucast val AND mideleg s)\<rparr>)
      else if csr = 0x105 then (0, s\<lparr>stvec := tvec_align val AND NOT 2\<rparr>)
      else if csr = 0x106 then (0, s\<lparr>scounteren := ucast val\<rparr>)
      else if csr = 0x140 then (0, s\<lparr>sscratch := val\<rparr>)
      else if csr = 0x141 then (0, s\<lparr>sepc := CANONICAL_S49 (val AND epc_mask s)\<rparr>)
      else if csr = 0x142 then (0, s\<lparr>scause := val AND SCAUSE_MASK\<rparr>)
      else if csr = 0x143 then (0, s\<lparr>stval := CANONICAL_S49 val\<rparr>)
      else if csr = 0x144 then
        (0, s\<lparr>mip := (mip s AND NOT (mideleg s)) OR (ucast val AND mideleg s)\<rparr>)
      else if csr = 0x180 then
        if priv s = PRV_S \<and> mstatus s AND MSTATUS_TVM \<noteq> 0 then (- 1, s)
        else let mode = drop_bit 60 val AND 15 in
             (2, tlb_flush_all (if mode = 0 \<or> mode = 8 \<or> mode = 9
                                then s\<lparr>satp := val AND SATP_MASK\<rparr> else s))
      else csr_write_machine s csr val)"

lemmas csr_write_groups = csr_write_def csr_write_machine_def csr_write_debug_def
  csr_write_pmp_def csr_write_counter_def

section \<open>Unpacking touches the unpacked PMP table and the TLBs only\<close>

lemma unpack_pmpaddr_shape:
  "\<exists>n r c. n \<le> Suc (pmp_n s) \<and> unpack_pmpaddr i s = s\<lparr>pmpcfg := c, pmp := r, pmp_n := n\<rparr>"
proof -
  define P where "P t \<longleftrightarrow> (\<exists>n r c. n \<le> Suc (pmp_n s) \<and> t = s\<lparr>pmpcfg := c, pmp := r, pmp_n := n\<rparr>)" for t
  have keep: "P s" unfolding P_def
    by (rule exI[of _ "pmp_n s"], rule exI[of _ "pmp s"], rule exI[of _ "pmpcfg s"]) simp
  have add: "P (pmp_entry g e s)" for g e unfolding P_def
    by (rule exI[of _ "Suc (pmp_n s)"]) (auto simp: pmp_entry_def)
  have "P (unpack_pmpaddr i s)" by (simp add: unpack_pmpaddr_def Let_def keep add)
  then show ?thesis by (simp add: P_def)
qed

lemma unpack_fold_shape:
  "\<exists>n r c. n \<le> pmp_n s + k \<and> fold unpack_pmpaddr [0..<k] s = s\<lparr>pmpcfg := c, pmp := r, pmp_n := n\<rparr>"
proof (induction k)
  case 0
  show ?case
    by (rule exI[of _ "pmp_n s"], rule exI[of _ "pmp s"], rule exI[of _ "pmpcfg s"]) simp
next
  case (Suc k)
  then obtain n r c where IH: "n \<le> pmp_n s + k"
      "fold unpack_pmpaddr [0..<k] s = s\<lparr>pmpcfg := c, pmp := r, pmp_n := n\<rparr>" by blast
  obtain n' r' c' where "n' \<le> Suc n"
      "unpack_pmpaddr k (s\<lparr>pmpcfg := c, pmp := r, pmp_n := n\<rparr>)
       = s\<lparr>pmpcfg := c', pmp := r', pmp_n := n'\<rparr>"
    using unpack_pmpaddr_shape[of "s\<lparr>pmpcfg := c, pmp := r, pmp_n := n\<rparr>" k] by auto
  with IH show ?case by (auto intro!: exI[of _ n'])
qed

lemma unpack_pmpaddrs_shape:
  obtains n r c where "n \<le> 16" "unpack_pmpaddrs s = tlb_flush_all (s\<lparr>pmpcfg := c, pmp := r, pmp_n := n\<rparr>)"
  using unpack_fold_shape[of "s\<lparr>pmp_n := 0\<rparr>" 16] by (auto simp: unpack_pmpaddrs_def)

section \<open>Legal register contents\<close>

definition S_INTS :: u32 where "S_INTS = MIP_SSIP OR MIP_STIP OR MIP_SEIP"

definition satp_mode :: "RISCVCPUState \<Rightarrow> u64" where
  "satp_mode s = drop_bit 60 (satp s)"

text \<open>
  The contents every control register has at any time: the write-any-read-legal fields hold legal
  values, alignment bits are clear, delegation is limited to what the code allows, and the unpacked
  PMP table fits its array.
\<close>

definition csr_inv :: "RISCVCPUState \<Rightarrow> bool" where
  "csr_inv s \<longleftrightarrow>
     priv s \<le> 3 \<and> fs s \<le> 3 \<and> frm s \<le> 7 \<and> fflags s \<le> 31 \<and> tselect s = 0 \<and> pmp_n s \<le> 16
     \<and> bit (misa s) 2 \<and> 2 \<le> physical_addr_len s \<and> physical_addr_len s < 64
     \<and> \<not> bit (mepc s) 0 \<and> \<not> bit (sepc s) 0 \<and> \<not> bit (dpc s) 0
     \<and> \<not> bit (mtvec s) 1 \<and> \<not> bit (stvec s) 1
     \<and> mideleg s AND NOT S_INTS = 0 \<and> medeleg s AND NOT 0xb109 = 0
     \<and> satp_mode s \<in> {0, 8, 9}
     \<and> mstatus s AND (MSTATUS_UXL_MASK OR MSTATUS_SXL_MASK) = push_bit 32 2 OR push_bit 34 2
     \<and> mstatus s AND MSTATUS_FS = 0
     \<and> (\<forall>i. csr_pmpaddr s i AND NOT PMPADDR_MASK = 0)"

lemma csr_inv_tlb [simp]:
  "csr_inv (tlb_flush_all s) = csr_inv s"
  by (simp add: csr_inv_def tlb_flush_all_def tlb_init_def satp_mode_def)

lemma csr_inv_pmp_unpacked:
  "csr_inv s \<Longrightarrow> n \<le> 16 \<Longrightarrow> csr_inv (s\<lparr>pmpcfg := c, pmp := r, pmp_n := n\<rparr>)"
  by (simp add: csr_inv_def satp_mode_def)

lemma csr_inv_unpack: "csr_inv s \<Longrightarrow> csr_inv (unpack_pmpaddrs s)"
  by (rule unpack_pmpaddrs_shape[of s]) (simp add: csr_inv_pmp_unpacked)

lemma epc_mask_bit0: "bit (misa s) 2 \<Longrightarrow> epc_mask s = NOT 1"
  using and_push_bit_1_eq_0_iff[of "misa s" 2] by (simp add: epc_mask_def MCPUID_C_def)

lemma epc_bit0_clear: "bit (misa s) 2 \<Longrightarrow> \<not> bit (val AND epc_mask s) 0"
  by (simp add: epc_mask_bit0 bit_simps)

lemma CANONICAL_bit0: "bit (CANONICAL_S49 v) 0 = bit v 0"
  by (simp add: bit_CANONICAL_S49)

lemma masked_replace:
  "(old AND NOT m = 0) \<Longrightarrow> ((old AND NOT m) OR (new AND m)) AND NOT m = (0 :: 'a::len word)"
  by (rule bit_eqI) (auto simp: bit_simps)

lemma small_fields:
  "ucast (v AND 3 :: u64) \<le> (3 :: u8)" "ucast (ucast (v AND 7 :: u64) :: u32) \<le> (7 :: u8)"
  "ucast (v AND 0x1f :: u64) \<le> (0x1f :: u32)"
  by (simp_all add: unsigned_and_eq word_and_le1)

lemma mask_bit1: "2 \<le> n \<Longrightarrow> n < 64 \<Longrightarrow> \<not> bit (push_bit n 1 - 3 :: u64) 1"
proof -
  assume "2 \<le> n" "n < 64"
  then obtain k where k: "n = Suc (Suc k)" by (metis Suc_le_D numeral_2_eq_2 Suc_le_mono)
  have "push_bit n 1 - 3 = push_bit 2 (push_bit k 1 - 1 :: u64) + 1"
    by (simp add: k push_bit_eq_mult algebra_simps)
  also have "\<dots> = push_bit 2 (push_bit k 1 - 1) OR 1"
    by (rule disjunctive_add) (auto simp: bit_simps)
  finally show ?thesis by (simp add: bit_simps)
qed

section \<open>Writes keep the contents legal\<close>

lemmas inv_unfold = csr_inv_def satp_mode_def

lemma set_mstatus_eq:
  "set_mstatus s val = (if (mstatus s XOR val) AND (MSTATUS_MPRV OR MSTATUS_SUM OR MSTATUS_MXR) \<noteq> 0
      \<or> mstatus s AND MSTATUS_MPRV \<noteq> 0 \<and> (mstatus s XOR val) AND MSTATUS_MPP \<noteq> 0
      then tlb_flush_all s else s)\<lparr>fs := ucast (drop_bit 13 val AND 3),
        mstatus := (mstatus s AND NOT MSTATUS_WMASK) OR (val AND MSTATUS_WMASK)\<rparr>"
  by (simp add: set_mstatus_def Let_def)

lemma wmask_disjoint:
  "MSTATUS_WMASK AND (MSTATUS_UXL_MASK OR MSTATUS_SXL_MASK) = 0" "MSTATUS_WMASK AND MSTATUS_FS = 0"
  by (auto intro!: bit_eqI simp: bit_simps bit_of)

lemma csr_inv_status_fields:
  assumes "csr_inv s" "f \<le> 3"
  shows "csr_inv (s\<lparr>fs := f, mstatus := (mstatus s AND NOT MSTATUS_WMASK) OR (val AND MSTATUS_WMASK)\<rparr>)"
  using assms by (simp add: inv_unfold replace_outside wmask_disjoint)

lemma csr_inv_set_mstatus:
  assumes "csr_inv s" shows "csr_inv (set_mstatus s val)"
  using csr_inv_status_fields[of s "ucast (drop_bit 13 val AND 3)" val]
    csr_inv_status_fields[of "tlb_flush_all s" "ucast (drop_bit 13 val AND 3)" val] assms
  by (simp add: set_mstatus_eq small_fields)

lemma csr_inv_write_counter: "csr_inv s \<Longrightarrow> csr_inv (snd (csr_write_counter s csr val))"
  by (simp add: csr_write_counter_def inv_unfold)

lemma pmpaddr_masked: "(val AND PMPADDR_MASK) AND NOT PMPADDR_MASK = 0"
  by (rule bit_eqI) (simp add: bit_simps)

lemma csr_inv_pmpcfg_upd: "csr_inv (s\<lparr>csr_pmpcfg := c\<rparr>) = csr_inv s"
  by (simp add: inv_unfold)

lemma csr_inv_pmpaddr_upd:
  "csr_inv s \<Longrightarrow> csr_inv (s\<lparr>csr_pmpaddr := (csr_pmpaddr s)(i := val AND PMPADDR_MASK)\<rparr>)"
  by (simp add: inv_unfold pmpaddr_masked)

lemma csr_inv_write_pmp: "csr_inv s \<Longrightarrow> csr_inv (snd (csr_write_pmp s csr val))"
  by (simp add: csr_write_pmp_def Let_def csr_inv_write_counter csr_inv_unpack csr_inv_pmpcfg_upd
      csr_inv_pmpaddr_upd del: fun_upd_apply)

lemma word_mod_1: "(w :: u64) mod 1 = 0"
  by simp

lemma csr_inv_write_debug:
  assumes "csr_inv s" shows "csr_inv (snd (csr_write_debug s csr val))"
proof -
  have "bit (misa s) 2" using assms by (simp add: csr_inv_def)
  note clear = epc_bit0_clear[OF this, of val]
  show ?thesis
    using assms clear csr_inv_write_pmp[OF assms, of csr val]
    by (simp add: csr_write_debug_def Let_def inv_unfold)
qed

lemma csr_inv_mtvec:
  assumes "csr_inv s"
  shows "csr_inv (s\<lparr>mtvec := v AND (push_bit (physical_addr_len s) 1 - 3)\<rparr>)"
proof -
  have "\<not> bit (push_bit (physical_addr_len s) 1 - 3 :: u64) 1"
    using assms mask_bit1[of "physical_addr_len s"] by (simp add: csr_inv_def)
  then have "\<not> bit (v AND (push_bit (physical_addr_len s) 1 - 3)) 1" by (simp add: bit_and_iff)
  with assms show ?thesis by (simp add: inv_unfold del: push_bit_of_1)
qed

lemma csr_inv_epc:
  assumes "csr_inv s"
  shows "csr_inv (s\<lparr>mepc := CANONICAL_S49 (v AND epc_mask s)\<rparr>)"
    and "csr_inv (s\<lparr>sepc := CANONICAL_S49 (v AND epc_mask s)\<rparr>)"
proof -
  have "bit (misa s) 2" using assms by (simp add: csr_inv_def)
  then have "\<not> bit (CANONICAL_S49 (v AND epc_mask s)) 0"
    using epc_bit0_clear[of s v] by (simp add: CANONICAL_bit0)
  with assms show "csr_inv (s\<lparr>mepc := CANONICAL_S49 (v AND epc_mask s)\<rparr>)"
    and "csr_inv (s\<lparr>sepc := CANONICAL_S49 (v AND epc_mask s)\<rparr>)"
    by (simp_all add: inv_unfold)
qed

lemma csr_inv_deleg_upd:
  "csr_inv s \<Longrightarrow> w AND NOT 0xb109 = 0 \<Longrightarrow> csr_inv (s\<lparr>medeleg := w\<rparr>)"
  "csr_inv s \<Longrightarrow> w AND NOT S_INTS = 0 \<Longrightarrow> csr_inv (s\<lparr>mideleg := w\<rparr>)"
  by (simp_all add: inv_unfold)

lemma csr_inv_deleg:
  assumes "csr_inv s"
  shows "csr_inv (s\<lparr>medeleg := (medeleg s AND NOT 0xb109) OR (v AND 0xb109)\<rparr>)"
    and "csr_inv (s\<lparr>mideleg := (mideleg s AND NOT S_INTS) OR (v AND S_INTS)\<rparr>)"
  using assms by (intro csr_inv_deleg_upd masked_replace; simp add: csr_inv_def)+

lemma csr_inv_plain_upds [simp]:
  "csr_inv (s\<lparr>mie := w\<rparr>) = csr_inv s" "csr_inv (s\<lparr>mip := w\<rparr>) = csr_inv s"
  "csr_inv (s\<lparr>mcounteren := w\<rparr>) = csr_inv s" "csr_inv (s\<lparr>scounteren := w\<rparr>) = csr_inv s"
  "csr_inv (s\<lparr>mcountinhibit := w\<rparr>) = csr_inv s" "csr_inv (s\<lparr>mscratch := v\<rparr>) = csr_inv s"
  "csr_inv (s\<lparr>sscratch := v\<rparr>) = csr_inv s" "csr_inv (s\<lparr>mcause := v\<rparr>) = csr_inv s"
  "csr_inv (s\<lparr>scause := v\<rparr>) = csr_inv s" "csr_inv (s\<lparr>mtval := v\<rparr>) = csr_inv s"
  "csr_inv (s\<lparr>stval := v\<rparr>) = csr_inv s" "csr_inv (s\<lparr>pc := v\<rparr>) = csr_inv s"
  "csr_inv (s\<lparr>reg := r\<rparr>) = csr_inv s" "csr_inv (s\<lparr>reg_prior := r\<rparr>) = csr_inv s"
  "csr_inv (s\<lparr>fp_reg := r\<rparr>) = csr_inv s" "csr_inv (s\<lparr>most_recently_written_reg := n\<rparr>) = csr_inv s"
  "csr_inv (s\<lparr>most_recently_written_fp_reg := n\<rparr>) = csr_inv s"
  "csr_inv (s\<lparr>insn_counter := v\<rparr>) = csr_inv s" "csr_inv (s\<lparr>minstret := v\<rparr>) = csr_inv s"
  "csr_inv (s\<lparr>mcycle := v\<rparr>) = csr_inv s" "csr_inv (s\<lparr>debug_mode := b\<rparr>) = csr_inv s"
  "csr_inv (s\<lparr>stop_the_counter := b\<rparr>) = csr_inv s" "csr_inv (s\<lparr>power_down_flag := b\<rparr>) = csr_inv s"
  "csr_inv (s\<lparr>terminate_simulation := b\<rparr>) = csr_inv s"
  "csr_inv (s\<lparr>pending_exception := n\<rparr>) = csr_inv s" "csr_inv (s\<lparr>pending_tval := v\<rparr>) = csr_inv s"
  "csr_inv (s\<lparr>dcsr := v\<rparr>) = csr_inv s" "csr_inv (s\<lparr>load_res := v\<rparr>) = csr_inv s"
  "csr_inv (s\<lparr>info := i\<rparr>) = csr_inv s" "csr_inv (s\<lparr>next_addr := v\<rparr>) = csr_inv s"
  "csr_inv (s\<lparr>timecmp := v\<rparr>) = csr_inv s"
  "csr_inv (s\<lparr>tlb_read := t\<rparr>) = csr_inv s" "csr_inv (s\<lparr>tlb_write := t\<rparr>) = csr_inv s"
  "csr_inv (s\<lparr>tlb_code := t\<rparr>) = csr_inv s" "csr_inv (s\<lparr>tlb_read_paddr_addend := a\<rparr>) = csr_inv s"
  "csr_inv (s\<lparr>tlb_write_paddr_addend := a\<rparr>) = csr_inv s"
  "csr_inv (s\<lparr>tlb_code_paddr_addend := a\<rparr>) = csr_inv s"
  by (simp_all add: inv_unfold)

lemma csr_inv_float_upds:
  assumes "csr_inv s"
  shows "csr_inv (s\<lparr>fs := 3\<rparr>)"
    "csr_inv (s\<lparr>fflags := ucast (val AND 0x1f :: u64), fs := 3\<rparr>)"
    "csr_inv (set_frm (ucast (v AND 7 :: u64)) s)"
  using assms small_fields by (simp_all add: inv_unfold set_frm_def)

lemma csr_inv_satp:
  assumes "csr_inv s" "drop_bit 60 val AND 15 \<in> {0, 8, 9}"
  shows "csr_inv (s\<lparr>satp := val AND SATP_MASK\<rparr>)"
proof -
  have hi: "(15 :: u64) = mask 4" and lo: "push_bit 44 1 - 1 = (mask 44 :: u64)"
    by (simp_all add: mask_eq_exp_minus_1)
  have "drop_bit 60 (val AND SATP_MASK) = drop_bit 60 val AND 15"
    unfolding SATP_MASK_def hi lo by (rule bit_eqI) (auto simp: bit_simps)
  with assms show ?thesis by (simp add: inv_unfold)
qed

lemma csr_inv_write_machine:
  assumes "csr_inv s" shows "csr_inv (snd (csr_write_machine s csr val))"
  using assms csr_inv_deleg[OF assms, of "ucast val"]
  by (simp add: csr_write_machine_def Let_def csr_inv_set_mstatus csr_inv_epc csr_inv_mtvec
      csr_inv_write_debug S_INTS_def del: push_bit_of_1)

lemma csr_inv_stvec: "csr_inv s \<Longrightarrow> csr_inv (s\<lparr>stvec := v AND NOT 2\<rparr>)"
  by (simp add: inv_unfold bit_simps)

lemma csr_inv_csr_write: "csr_inv s \<Longrightarrow> csr_inv (snd (csr_write s csr val))"
  using csr_inv_float_upds(2)[of "set_frm (ucast (drop_bit 5 val AND 7)) s" val]
    csr_inv_satp[of s val] csr_inv_stvec[of s "tvec_align val"]
  by (simp add: csr_write_def Let_def csr_inv_set_mstatus csr_inv_epc csr_inv_float_upds
      csr_inv_write_machine)

lemma csr_inv_init: "2 \<le> n \<Longrightarrow> n < 64 \<Longrightarrow> csr_inv ((riscv_cpu_init r c h)\<lparr>physical_addr_len := n\<rparr>)"
  by (simp add: inv_unfold riscv_cpu_init_def tlb_init_def null_cpu_def S_INTS_def mip_consts bit_simps
      misa_consts MSTATUS_UXL_MASK_def MSTATUS_SXL_MASK_def MSTATUS_FS_def)

text \<open>
  C32. Starting from the state \<^verbatim>\<open>riscv_cpu_init\<close> builds, with a physical address length from 2 to 63, any
  sequence of CSR writes, whatever the register numbers and the values, keeps every control register
  within its legal contents: alignment bits stay clear, delegation and \<^verbatim>\<open>satp\<close> hold supported values only,
  the read-only \<^verbatim>\<open>mstatus\<close> fields keep their values and the unpacked PMP table fits its array.
\<close>

theorem csr_writes_keep_inv:
  assumes "2 \<le> n" "n < 64"
  shows "csr_inv (fold (\<lambda>(csr, val) s. snd (csr_write s csr val)) ws ((riscv_cpu_init r c h)\<lparr>physical_addr_len := n\<rparr>))"
proof -
  have "csr_inv s \<Longrightarrow> csr_inv (fold (\<lambda>(csr, val) s. snd (csr_write s csr val)) ws s)" for s
    by (induction ws arbitrary: s) (auto simp: csr_inv_csr_write)
  then show ?thesis using csr_inv_init[OF assms] by blast
qed

theorem csr_writes_keep_inv_witness:
  "csr_inv (fold (\<lambda>(csr, val) s. snd (csr_write s csr val)) [(0x305, 0x80000103), (0x3a0, 0x1f1f), (0x180, 0x8000000000080000)]
     ((riscv_cpu_init 0x80000000 False 0)\<lparr>physical_addr_len := 56\<rparr>))"
  by (rule csr_writes_keep_inv) simp_all

section \<open>What a write leaves alone\<close>

lemma unpack_pmpaddrs_sel [simp]:
  "pc (unpack_pmpaddrs s) = pc s" "reg (unpack_pmpaddrs s) = reg s" "priv (unpack_pmpaddrs s) = priv s"
  "csr_pmpcfg (unpack_pmpaddrs s) = csr_pmpcfg s" "csr_pmpaddr (unpack_pmpaddrs s) = csr_pmpaddr s"
  "misa (unpack_pmpaddrs s) = misa s" "mstatus (unpack_pmpaddrs s) = mstatus s"
  by (rule unpack_pmpaddrs_shape[of s], simp)+

lemma set_mstatus_sel [simp]:
  "pc (set_mstatus s v) = pc s" "reg (set_mstatus s v) = reg s" "priv (set_mstatus s v) = priv s"
  "misa (set_mstatus s v) = misa s" "csr_pmpcfg (set_mstatus s v) = csr_pmpcfg s"
  "csr_pmpaddr (set_mstatus s v) = csr_pmpaddr s"
  by (simp_all add: set_mstatus_def Let_def)

lemmas if_field = if_distrib[of snd] if_distrib[of reg] if_distrib[of pc] if_distrib[of priv]
  if_distrib[of misa]

lemma csr_write_frame [frame]:
  "reg (snd (csr_write s csr val)) = reg s" "pc (snd (csr_write s csr val)) = pc s"
  "priv (snd (csr_write s csr val)) = priv s" "misa (snd (csr_write s csr val)) = misa s"
  by (simp_all add: csr_write_groups Let_def set_frm_def if_field cong: if_cong split del: if_split) auto

section \<open>PMP configuration bytes and privilege\<close>

lemma bit_96: "bit (0x60 :: u64) n \<longleftrightarrow> n = 5 \<or> n = 6"
proof -
  have "(0x60 :: u64) = push_bit 5 3" by (simp add: push_bit_eq_mult)
  then show ?thesis by (simp only: bit_push3) auto
qed

lemma bit_merge_byte:
  "bit (merge_pmpcfg_byte orig val i) n \<longleftrightarrow> n < 8 \<and> n \<noteq> 5 \<and> n \<noteq> 6
     \<and> bit (if bit orig (8 * i + 7) then orig else val) (8 * i + n)"
proof -
  have "(drop_bit (i * 8) orig AND 255) AND ucast (0x80 :: u8) = 0 \<longleftrightarrow> \<not> bit orig (8 * i + 7)"
    using and_push_bit_1_eq_0_iff[of "drop_bit (i * 8) orig AND 255" 7]
    by (simp add: bit_byte_255 bit_simps mult.commute)
  then show ?thesis
    unfolding merge_pmpcfg_byte_def Let_def bit_and_iff bit_not_iff bit_96 bit_byte_255 bit_drop_bit_eq
    by (auto simp only: bit_byte_255 bit_drop_bit_eq mult.commute add.commute o_apply
        possible_bit_word split: if_splits)
qed

lemma bit_merge_pmpcfg:
  assumes "n < 64"
  shows "bit (merge_pmpcfg orig val) n \<longleftrightarrow> n mod 8 \<noteq> 5 \<and> n mod 8 \<noteq> 6
     \<and> bit (if bit orig (8 * (n div 8) + 7) then orig else val) n"
proof -
  have "bit (merge_pmpcfg orig val) n \<longleftrightarrow> (\<exists>i < 8. 8 * i \<le> n \<and> bit (merge_pmpcfg_byte orig val i) (n - 8 * i))"
    using assms by (auto simp: merge_pmpcfg_def bit_fold_or bit_push_bit_iff mult.commute Bex_def)
  also have "\<dots> \<longleftrightarrow> bit (merge_pmpcfg_byte orig val (n div 8)) (n mod 8)"
  proof -
    have "i = n div 8 \<and> n - 8 * i = n mod 8" if "8 * i \<le> n" "n - 8 * i < 8" for i
    proof -
      define d where "d = n - 8 * i"
      with that have "n = 8 * i + d" "d < 8" by auto
      then show ?thesis by simp
    qed
    moreover have "n div 8 < 8" "8 * (n div 8) \<le> n" "n - 8 * (n div 8) = n mod 8"
      using assms by (auto simp: minus_mult_div_eq_mod)
    ultimately show ?thesis unfolding bit_merge_byte by metis
  qed
  also have "\<dots> \<longleftrightarrow> n mod 8 \<noteq> 5 \<and> n mod 8 \<noteq> 6 \<and> bit (if bit orig (8 * (n div 8) + 7) then orig else val) n"
    by (simp add: bit_merge_byte)
  finally show ?thesis .
qed

text \<open>The lock bit of a configuration byte.\<close>

definition pmp_locked :: "RISCVCPUState \<Rightarrow> nat \<Rightarrow> bool" where
  "pmp_locked s i \<longleftrightarrow> bit (pmp_cfg_byte s i) 7"

lemma pmp_cfg_byte_bit: "i < 8 \<Longrightarrow> bit (pmp_cfg_byte s i) b \<longleftrightarrow> b < 8 \<and> bit (csr_pmpcfg s 0) (8 * i + b)"
  by (auto simp: pmp_cfg_byte_def bit_simps mult.commute add.commute)

text \<open>
  A write to \<^verbatim>\<open>pmpcfg0\<close> leaves a locked configuration byte as it is (its two reserved bits read as
  zero), and an unlocked byte takes the value written, reserved bits cleared.
\<close>

theorem pmpcfg_write_byte:
  assumes "i < 8"
  shows "pmp_cfg_byte (snd (csr_write s 0x3a0 val)) i
    = (if pmp_locked s i then pmp_cfg_byte s i else ucast (drop_bit (8 * i) val)) AND NOT 0x60"
proof (rule bit_eqI)
  fix b assume "possible_bit TYPE(u8) b"
  then have b: "b < 8" by simp
  with assms have "8 * i + b < 64" by simp
  note merge = bit_merge_pmpcfg[OF this, of "csr_pmpcfg s 0" val]
  have "(0x60 :: u8) = push_bit 5 3" by (simp add: push_bit_eq_mult)
  then have res: "bit (0x60 :: u8) b \<longleftrightarrow> b = 5 \<or> b = 6" using b by (simp only: bit_push3) auto
  have "csr_pmpcfg (snd (csr_write s 0x3a0 val)) 0 = merge_pmpcfg (csr_pmpcfg s 0) val"
    by (simp add: csr_write_groups Let_def)
  then have "bit (pmp_cfg_byte (snd (csr_write s 0x3a0 val)) i) b
      = bit (merge_pmpcfg (csr_pmpcfg s 0) val) (8 * i + b)"
    using assms b by (simp add: pmp_cfg_byte_bit)
  also have "\<dots> = bit ((if pmp_locked s i then pmp_cfg_byte s i else ucast (drop_bit (8 * i) val)) AND NOT 0x60) b"
    using assms b unfolding merge bit_and_iff bit_not_iff res
    by (auto simp: pmp_locked_def pmp_cfg_byte_bit bit_ucast_iff bit_drop_bit_eq)
  finally show "bit (pmp_cfg_byte (snd (csr_write s 0x3a0 val)) i) b
      = bit ((if pmp_locked s i then pmp_cfg_byte s i else ucast (drop_bit (8 * i) val)) AND NOT 0x60) b" .
qed

theorem pmpcfg_write_byte_witness:
  "(3 :: nat) < 8 \<and> pmp_cfg_byte (snd (csr_write (null_cpu\<lparr>csr_pmpcfg := (\<lambda>_. 0x80000000)\<rparr>) 0x3a0 0x1f1f1f1f)) 3 = 0x80"
proof -
  have "pmp_cfg_byte (null_cpu\<lparr>csr_pmpcfg := (\<lambda>_. 0x80000000)\<rparr>) 3 = 0x80"
    by (simp add: pmp_cfg_byte_def drop_bit_eq_div)
  then show ?thesis
    using pmpcfg_write_byte[of 3 "null_cpu\<lparr>csr_pmpcfg := (\<lambda>_. 0x80000000)\<rparr>" "0x1f1f1f1f"]
    by (simp add: pmp_locked_def)
qed

text \<open>Registers a supervisor may write hold nothing that belongs to machine mode.\<close>

definition machine_view :: "RISCVCPUState \<Rightarrow> _" where
  "machine_view s = (mtvec s, mepc s, mcause s, mtval s, mscratch s, medeleg s, mideleg s, mcounteren s,
     mcountinhibit s, csr_pmpcfg s, csr_pmpaddr s, mhpmevent s, tdata1 s, tdata2 s, dcsr s, dpc s,
     mstatus s AND NOT SSTATUS_MASK, mie s AND NOT (mideleg s), mip s AND NOT (mideleg s))"

definition csr_priv :: "u32 \<Rightarrow> u32" where
  "csr_priv csr = drop_bit 8 csr AND 3"

lemma unat_csr_priv: "unat (csr_priv csr) = unat csr div 0x100 mod 4"
proof -
  have lt: "unat csr < 2 ^ 32" using unsigned_less[of csr] by simp
  have "drop_bit 8 csr AND 3 = take_bit 2 (drop_bit 8 csr)" by (simp add: take_bit_eq_mask mask_eq_exp_minus_1)
  then show ?thesis
    unfolding csr_priv_def
    by (simp only: unsigned_take_bit_eq unsigned_drop_bit_eq) (use lt in \<open>simp add: take_bit_eq_mod drop_bit_eq_div\<close>)
qed

lemma csr_priv_machine_groups:
  assumes "csr_priv csr \<noteq> 3"
  shows "csr_write_machine s csr val = (- 1, s)"
proof -
  have m: "unat csr div 0x100 mod 4 \<noteq> 3"
    using assms unat_csr_priv[of csr] by (auto simp: word_unat_eq_iff)
  have eq: "(csr = c) = False" if "unat c div 0x100 mod 4 = 3" for c using m that by auto
  have rng: "(l \<le> csr \<and> csr \<le> h) = False"
    if "unat l div 0x100 = unat h div 0x100" "unat h div 0x100 mod 4 = 3" for l h
  proof -
    have "unat csr div 0x100 = unat h div 0x100" if "unat l \<le> unat csr" "unat csr \<le> unat h"
      using div_le_mono[OF that(1), of "0x100"] div_le_mono[OF that(2), of "0x100"]
        \<open>unat l div 0x100 = _\<close> by simp
    with m that show ?thesis by (auto simp: word_le_nat_alt)
  qed
  show ?thesis
    unfolding csr_write_machine_def csr_write_debug_def csr_write_pmp_def csr_write_counter_def
    by (simp add: eq rng)
qed



end
