(* ===== verification/Trap.thy ===== *)
theory Trap
  imports Csr
begin

unbundle bit_operations_syntax

text \<open>
  Traps and returns from traps: \<^verbatim>\<open>raise_exception2\<close>, \<^verbatim>\<open>handle_sret\<close>, \<^verbatim>\<open>handle_mret\<close>, \<^verbatim>\<open>handle_dret\<close>,
  interrupt selection in \<^verbatim>\<open>get_pending_irq_mask\<close> and \<^verbatim>\<open>raise_interrupt\<close> of \<^verbatim>\<open>riscv_cpu.cpp\<close>, with the
  theorems on the privilege of the handler, on what entry and return do to \<^verbatim>\<open>mstatus\<close>, and on which
  interrupt is taken.
\<close>

section \<open>Trap entry\<close>

text \<open>The 32-bit \<^verbatim>\<open>medeleg\<close> is shifted by the cause; the host's shift takes the count modulo 32.\<close>

definition trap_delegated :: "RISCVCPUState \<Rightarrow> u64 \<Rightarrow> bool" where
  "trap_delegated s cause =
     (if priv s \<le> PRV_S then
        if cause AND CAUSE_INTERRUPT \<noteq> 0
        then drop_bit (unat (cause AND 63) mod 32) (mideleg s) AND 1 \<noteq> 0
        else drop_bit (unat cause mod 32) (medeleg s) AND 1 \<noteq> 0
      else False)"

definition enter_supervisor :: "u64 \<Rightarrow> u64 \<Rightarrow> RISCVCPUState \<Rightarrow> RISCVCPUState" where
  "enter_supervisor cause tval s =
     (let s1 = s\<lparr>scause := cause, sepc := CANONICAL_S49 (pc s), stval := CANONICAL_S49 tval\<rparr>;
          s2 = s1\<lparr>mstatus := (mstatus s1 AND NOT MSTATUS_SPIE)
                 OR push_bit 5 (of_bool (mstatus s1 AND MSTATUS_SIE \<noteq> 0))\<rparr>;
          s3 = s2\<lparr>mstatus := (mstatus s2 AND NOT MSTATUS_SPP) OR push_bit 8 (ucast (priv s2))\<rparr>;
          s4 = s3\<lparr>mstatus := mstatus s3 AND NOT MSTATUS_SIE\<rparr>
      in set_priv PRV_S s4)"

definition enter_machine :: "u64 \<Rightarrow> u64 \<Rightarrow> RISCVCPUState \<Rightarrow> RISCVCPUState" where
  "enter_machine cause tval s =
     (let s1 = s\<lparr>mcause := cause, mepc := CANONICAL_S49 (pc s), mtval := CANONICAL_S49 tval\<rparr>;
          s2 = s1\<lparr>mstatus := (mstatus s1 AND NOT MSTATUS_MPIE)
                 OR push_bit 7 (of_bool (mstatus s1 AND MSTATUS_MIE \<noteq> 0))\<rparr>;
          s3 = s2\<lparr>mstatus := (mstatus s2 AND NOT MSTATUS_MPP) OR push_bit 11 (ucast (priv s2))\<rparr>;
          s4 = s3\<lparr>mstatus := mstatus s3 AND NOT MSTATUS_MIE\<rparr>
      in set_priv PRV_M s4)"

definition trap_vector :: "u64 \<Rightarrow> u64 \<Rightarrow> u64" where
  "trap_vector tvec cause =
     (let base = tvec AND NOT 3 in
      if tvec AND 3 = 1 \<and> cause AND CAUSE_INTERRUPT \<noteq> 0
      then base + 4 * (cause AND NOT CAUSE_INTERRUPT) else base)"

definition raise_exception2 :: "u64 \<Rightarrow> u64 \<Rightarrow> RISCVCPUState \<Rightarrow> RISCVCPUState" where
  "raise_exception2 cause tval s =
     (if trap_delegated s cause
      then let t = enter_supervisor cause tval s in t\<lparr>pc := trap_vector (stvec t) cause\<rparr>
      else let t = enter_machine cause tval s in t\<lparr>pc := trap_vector (mtvec t) cause\<rparr>)"

definition raise_exception :: "u64 \<Rightarrow> RISCVCPUState \<Rightarrow> RISCVCPUState" where
  "raise_exception cause s = raise_exception2 cause 0 s"

section \<open>Returns\<close>

definition handle_sret :: "RISCVCPUState \<Rightarrow> RISCVCPUState" where
  "handle_sret s =
     (let s1 = s\<lparr>mstatus := mstatus s AND NOT MSTATUS_SIE\<rparr>;
          s2 = s1\<lparr>mstatus := mstatus s1 OR (drop_bit 4 (mstatus s1) AND MSTATUS_SIE)\<rparr>;
          s3 = s2\<lparr>mstatus := mstatus s2 OR MSTATUS_SPIE\<rparr>;
          spp = drop_bit 8 (mstatus s3 AND MSTATUS_SPP);
          s4 = s3\<lparr>mstatus := mstatus s3 AND NOT MSTATUS_SPP\<rparr>;
          s5 = set_priv (ucast spp) s4
      in s5\<lparr>pc := sepc s5\<rparr>)"

definition handle_mret :: "RISCVCPUState \<Rightarrow> RISCVCPUState" where
  "handle_mret s =
     (let s1 = s\<lparr>mstatus := mstatus s AND NOT MSTATUS_MIE\<rparr>;
          s2 = s1\<lparr>mstatus := mstatus s1 OR (drop_bit 4 (mstatus s1) AND MSTATUS_MIE)\<rparr>;
          s3 = s2\<lparr>mstatus := mstatus s2 OR MSTATUS_MPIE\<rparr>;
          mpp = drop_bit 11 (mstatus s3 AND MSTATUS_MPP);
          s4 = s3\<lparr>mstatus := mstatus s3 AND NOT MSTATUS_MPP\<rparr>;
          s5 = set_priv (ucast mpp) s4
      in s5\<lparr>pc := mepc s5\<rparr>)"

definition handle_dret :: "RISCVCPUState \<Rightarrow> RISCVCPUState" where
  "handle_dret s =
     (let s1 = s\<lparr>stop_the_counter := False, debug_mode := False\<rparr>;
          s2 = set_priv (ucast (dcsr s1 AND 3)) s1
      in s2\<lparr>pc := dpc s2\<rparr>)"

section \<open>Interrupts\<close>

definition get_pending_irq_mask :: "RISCVCPUState \<Rightarrow> u32" where
  "get_pending_irq_mask s =
     (let pending_ints = mip s AND mie s in
      if pending_ints = 0 then 0
      else let enabled_ints =
             (if priv s = PRV_M then if mstatus s AND MSTATUS_MIE \<noteq> 0 then NOT (mideleg s) else 0
              else if priv s = PRV_S then
                if mstatus s AND MSTATUS_SIE \<noteq> 0 then NOT (mideleg s) OR mideleg s else NOT (mideleg s)
              else - 1)
           in pending_ints AND enabled_ints)"

text \<open>The result is \<open>True\<close> where the code returns -1.\<close>

definition raise_interrupt :: "RISCVCPUState \<Rightarrow> bool \<times> RISCVCPUState" where
  "raise_interrupt s =
     (let m = get_pending_irq_mask s in
      if m = 0 then (False, s)
      else (True, raise_exception (of_nat (ctz32 m) OR CAUSE_INTERRUPT) s))"

section \<open>The status word after entry and return\<close>

lemma set_priv_sel [simp]:
  "priv (set_priv p s) = p" "mstatus (set_priv p s) = mstatus s" "stvec (set_priv p s) = stvec s"
  "mtvec (set_priv p s) = mtvec s" "sepc (set_priv p s) = sepc s" "mepc (set_priv p s) = mepc s"
  "dpc (set_priv p s) = dpc s" "reg (set_priv p s) = reg s" "pc (set_priv p s) = pc s"
  "misa (set_priv p s) = misa s" "mcause (set_priv p s) = mcause s" "scause (set_priv p s) = scause s"
  "mtval (set_priv p s) = mtval s" "stval (set_priv p s) = stval s" "mie (set_priv p s) = mie s"
  "mip (set_priv p s) = mip s" "mideleg (set_priv p s) = mideleg s" "medeleg (set_priv p s) = medeleg s"
  by (simp_all add: set_priv_def)

definition M_FIELDS :: u64 where "M_FIELDS = MSTATUS_MIE OR MSTATUS_MPIE OR MSTATUS_MPP"
definition S_FIELDS :: u64 where "S_FIELDS = MSTATUS_SIE OR MSTATUS_SPIE OR MSTATUS_SPP"

lemmas trap_bits = bit_simps bit_of and_push_bit_1_eq_0_iff

lemma priv_cases: "p \<le> (3 :: u8) \<Longrightarrow> p = 0 \<or> p = 1 \<or> p = 2 \<or> p = 3"
proof -
  assume "p \<le> 3"
  then have "unat p \<in> {0, 1, 2, 3}" by (auto simp: word_le_nat_alt)
  then show ?thesis by (auto simp: word_unat_eq_iff)
qed

lemma priv_low_cases: "p \<le> (1 :: u8) \<Longrightarrow> p = 0 \<or> p = 1"
  by (auto simp: word_le_nat_alt word_unat_eq_iff)

lemma bit_priv: "p \<le> (3 :: u8) \<Longrightarrow> bit p n \<longleftrightarrow> n = 0 \<and> (p = 1 \<or> p = 3) \<or> n = 1 \<and> (p = 2 \<or> p = 3)"
proof -
  assume "p \<le> 3"
  have "bit (2 :: u8) n \<longleftrightarrow> n = 1" "bit (3 :: u8) n \<longleftrightarrow> n = 0 \<or> n = 1"
    using bit_pow2[of 1 n, where 'a = 8] bit_push3[of 0 n, where 'a = 8] by auto
  with priv_cases[OF \<open>p \<le> 3\<close>] show ?thesis by (auto simp: bit_1_iff)
qed

lemma enter_machine_mstatus:
  assumes "priv s \<le> 3"
  shows "bit (mstatus (enter_machine cause tval s)) n \<longleftrightarrow>
    (if n = 3 then False else if n = 7 then bit (mstatus s) 3
     else if n = 11 \<or> n = 12 then bit (priv s) (n - 11) else bit (mstatus s) n)"
proof -
  have "\<not> bit (priv s) (n - 11)" if "n > 12" using that assms by (auto simp: bit_priv)
  moreover have "mstatus s AND MSTATUS_MIE = 0 \<longleftrightarrow> \<not> bit (mstatus s) 3"
    using and_push_bit_1_eq_0_iff[of "mstatus s" 3] by (simp add: MSTATUS_MIE_def)
  ultimately show ?thesis
    by (auto simp: enter_machine_def Let_def bit_simps bit_of)
qed

lemma enter_supervisor_mstatus:
  assumes "priv s \<le> 1"
  shows "bit (mstatus (enter_supervisor cause tval s)) n \<longleftrightarrow>
    (if n = 1 then False else if n = 5 then bit (mstatus s) 1
     else if n = 8 then priv s = 1 else bit (mstatus s) n)"
proof -
  have "\<not> bit (priv s) (n - 8)" if "n > 8"
    using that priv_low_cases[OF assms] by (auto simp: bit_1_iff)
  moreover have "bit (priv s) 0 \<longleftrightarrow> priv s = 1"
    using priv_low_cases[OF assms] by auto
  moreover have "mstatus s AND MSTATUS_SIE = 0 \<longleftrightarrow> \<not> bit (mstatus s) 1"
    using and_push_bit_1_eq_0_iff[of "mstatus s" 1] by (simp add: MSTATUS_SIE_def)
  ultimately show ?thesis
    by (auto simp: enter_supervisor_def Let_def bit_simps bit_of)
qed

lemma handle_mret_mstatus:
  "bit (mstatus (handle_mret s)) n \<longleftrightarrow>
    (if n = 3 then bit (mstatus s) 7 else if n = 7 then True
     else if n = 11 \<or> n = 12 then False else bit (mstatus s) n)"
  by (auto simp: handle_mret_def Let_def bit_simps bit_of)

lemma handle_sret_mstatus:
  "bit (mstatus (handle_sret s)) n \<longleftrightarrow>
    (if n = 1 then bit (mstatus s) 5 else if n = 5 then True
     else if n = 8 then False else bit (mstatus s) n)"
  by (auto simp: handle_sret_def Let_def bit_simps bit_of)

section \<open>Privilege\<close>

lemma trap_priv: "priv (raise_exception2 cause tval s) = (if trap_delegated s cause then PRV_S else PRV_M)"
  by (simp add: raise_exception2_def Let_def enter_supervisor_def enter_machine_def)

lemma delegated_low: "trap_delegated s cause \<Longrightarrow> priv s \<le> 1"
  by (simp add: trap_delegated_def split: if_splits)

text \<open>
  A trap never lowers the privilege mode: the handler runs in machine mode, or in supervisor mode
  for a delegated cause raised in user or supervisor mode.
\<close>

theorem trap_never_lowers_privilege:
  assumes "priv s \<le> 3"
  shows "priv s \<le> priv (raise_exception2 cause tval s)
    \<and> (priv (raise_exception2 cause tval s) = PRV_M
       \<or> priv (raise_exception2 cause tval s) = PRV_S \<and> trap_delegated s cause \<and> priv s \<le> PRV_S)"
  using assms delegated_low[of s cause] by (simp add: trap_priv)

theorem trap_never_lowers_privilege_witness:
  "priv (raise_exception2 8 0 (null_cpu\<lparr>medeleg := 0x100\<rparr>)) = PRV_S"
proof -
  have "trap_delegated (null_cpu\<lparr>medeleg := 0x100\<rparr>) 8"
    by (simp add: trap_delegated_def null_cpu_def CAUSE_INTERRUPT_def drop_bit_eq_div)
  moreover have "priv (null_cpu\<lparr>medeleg := 0x100\<rparr>) \<le> 3" by (simp add: null_cpu_def)
  note trap_never_lowers_privilege[OF this, of 8 0]
  ultimately show ?thesis by (simp add: trap_priv)
qed

section \<open>Entry followed by return\<close>

lemma mret_mpp: "priv (handle_mret s) = ucast (drop_bit 11 (mstatus s AND MSTATUS_MPP))"
proof -
  have "drop_bit 11 (((((mstatus s AND NOT MSTATUS_MIE) OR (drop_bit 4 (mstatus s AND NOT MSTATUS_MIE) AND MSTATUS_MIE))
      OR MSTATUS_MPIE)) AND MSTATUS_MPP) = drop_bit 11 (mstatus s AND MSTATUS_MPP)"
    by (rule bit_eqI) (auto simp: bit_simps bit_of)
  then show ?thesis by (simp add: handle_mret_def Let_def)
qed

lemma sret_spp: "priv (handle_sret s) = (if bit (mstatus s) 8 then PRV_S else PRV_U)"
proof -
  have "drop_bit 8 (((((mstatus s AND NOT MSTATUS_SIE) OR (drop_bit 4 (mstatus s AND NOT MSTATUS_SIE) AND MSTATUS_SIE))
      OR MSTATUS_SPIE)) AND MSTATUS_SPP) = (if bit (mstatus s) 8 then 1 else 0)"
    by (rule bit_eqI) (auto simp: bit_simps bit_of intro!: gr0I)
  then show ?thesis by (simp add: handle_sret_def Let_def)
qed

lemma mret_pc [simp]: "pc (handle_mret s) = mepc s"
  by (simp add: handle_mret_def Let_def)

lemma sret_pc [simp]: "pc (handle_sret s) = sepc s"
  by (simp add: handle_sret_def Let_def)

lemma bit_2_bits: "bit (w AND MSTATUS_MPP) n \<Longrightarrow> n = 11 \<or> n = 12"
  by (simp add: bit_simps bit_of)

lemma machine_entry_mpp:
  assumes "priv s \<le> 3"
  shows "ucast (drop_bit 11 (mstatus (enter_machine cause tval s) AND MSTATUS_MPP)) = priv s"
  using assms by (intro bit_eqI)
    (auto simp: bit_simps bit_MSTATUS_MPP enter_machine_mstatus bit_priv)

text \<open>
  C34. Taking a trap into machine mode and returning with \<^verbatim>\<open>mret\<close> restores the interrupted context: the
  privilege mode, the program counter (in its canonical 49-bit form), the interrupt-enable bit and
  every \<^verbatim>\<open>mstatus\<close> bit outside \<^verbatim>\<open>MPIE\<close> and \<^verbatim>\<open>MPP\<close>.
\<close>

theorem machine_trap_roundtrip:
  assumes "priv s \<le> 3" "\<not> trap_delegated s cause"
  shows "priv (handle_mret (raise_exception2 cause tval s)) = priv s
    \<and> pc (handle_mret (raise_exception2 cause tval s)) = CANONICAL_S49 (pc s)
    \<and> reg (handle_mret (raise_exception2 cause tval s)) = reg s
    \<and> mstatus (handle_mret (raise_exception2 cause tval s))
        = (mstatus s AND NOT MSTATUS_MPP) OR MSTATUS_MPIE"
proof -
  define t where "t = raise_exception2 cause tval s"
  have t: "mstatus t = mstatus (enter_machine cause tval s)" "mepc t = CANONICAL_S49 (pc s)" "reg t = reg s"
    using assms(2) by (simp_all add: t_def raise_exception2_def Let_def enter_machine_def)
  have "mstatus (handle_mret t) = (mstatus s AND NOT MSTATUS_MPP) OR MSTATUS_MPIE"
    by (rule bit_eqI) (auto simp: handle_mret_mstatus t enter_machine_mstatus[OF assms(1)] bit_simps bit_of)
  moreover have "reg (handle_mret t) = reg s" by (simp add: handle_mret_def Let_def t)
  ultimately show ?thesis
    using machine_entry_mpp[OF assms(1)] by (simp add: mret_mpp t flip: t_def)
qed

theorem machine_trap_roundtrip_witness:
  "pc (handle_mret (raise_exception2 2 0 (null_cpu\<lparr>pc := 0x80000000, priv := PRV_U\<rparr>))) = 0x80000000"
proof -
  let ?s = "null_cpu\<lparr>pc := 0x80000000, priv := PRV_U\<rparr>"
  have "priv ?s \<le> 3" "\<not> trap_delegated ?s 2"
    by (simp_all add: trap_delegated_def null_cpu_def CAUSE_INTERRUPT_def)
  from machine_trap_roundtrip[OF this, of 0] show ?thesis
    by (simp add: CANONICAL_S49_def)
qed

text \<open>
  Taking a trap delegated to supervisor mode and returning with \<^verbatim>\<open>sret\<close> restores the interrupted
  context in the same way: privilege mode, canonical program counter, \<^verbatim>\<open>SIE\<close> and every \<^verbatim>\<open>mstatus\<close>
  bit outside \<^verbatim>\<open>SPIE\<close> and \<^verbatim>\<open>SPP\<close>.
\<close>

theorem supervisor_trap_roundtrip:
  assumes "trap_delegated s cause"
  shows "priv (handle_sret (raise_exception2 cause tval s)) = priv s
    \<and> pc (handle_sret (raise_exception2 cause tval s)) = CANONICAL_S49 (pc s)
    \<and> reg (handle_sret (raise_exception2 cause tval s)) = reg s
    \<and> mstatus (handle_sret (raise_exception2 cause tval s))
        = (mstatus s AND NOT MSTATUS_SPP) OR MSTATUS_SPIE"
proof -
  note low = delegated_low[OF assms]
  define t where "t = raise_exception2 cause tval s"
  have t: "mstatus t = mstatus (enter_supervisor cause tval s)" "sepc t = CANONICAL_S49 (pc s)" "reg t = reg s"
    using assms by (simp_all add: t_def raise_exception2_def Let_def enter_supervisor_def)
  have "mstatus (handle_sret t) = (mstatus s AND NOT MSTATUS_SPP) OR MSTATUS_SPIE"
    by (rule bit_eqI) (auto simp: handle_sret_mstatus t enter_supervisor_mstatus[OF low] bit_simps bit_of)
  moreover have "reg (handle_sret t) = reg s" by (simp add: handle_sret_def Let_def t)
  moreover have "priv (handle_sret t) = priv s"
    using priv_low_cases[OF low] by (auto simp: sret_spp t enter_supervisor_mstatus[OF low])
  ultimately show ?thesis by (simp add: t flip: t_def)
qed

theorem supervisor_trap_roundtrip_witness:
  "priv (handle_sret (raise_exception2 8 0 (null_cpu\<lparr>medeleg := 0x100\<rparr>))) = PRV_U"
proof -
  have "trap_delegated (null_cpu\<lparr>medeleg := 0x100\<rparr>) 8"
    by (simp add: trap_delegated_def null_cpu_def CAUSE_INTERRUPT_def drop_bit_eq_div)
  from supervisor_trap_roundtrip[OF this, of 0] show ?thesis by (simp add: null_cpu_def)
qed

section \<open>Which interrupt is taken\<close>

text \<open>Interrupt \<open>i\<close> is enabled globally in the current mode.\<close>

definition irq_enabled :: "RISCVCPUState \<Rightarrow> nat \<Rightarrow> bool" where
  "irq_enabled s i =
     (if priv s = PRV_M then bit (mstatus s) 3 \<and> \<not> bit (mideleg s) i
      else if priv s = PRV_S then \<not> bit (mideleg s) i \<or> bit (mstatus s) 1
      else True)"

lemma pending_mask_bit:
  "bit (get_pending_irq_mask s) i \<longleftrightarrow> bit (mip s) i \<and> bit (mie s) i \<and> irq_enabled s i"
proof -
  have mie: "mstatus s AND MSTATUS_MIE = 0 \<longleftrightarrow> \<not> bit (mstatus s) 3"
    and sie: "mstatus s AND MSTATUS_SIE = 0 \<longleftrightarrow> \<not> bit (mstatus s) 1"
    using and_push_bit_1_eq_0_iff[of "mstatus s" 3] and_push_bit_1_eq_0_iff[of "mstatus s" 1]
    by (simp_all add: MSTATUS_MIE_def MSTATUS_SIE_def)
  have zero: "\<not> (bit (mip s) i \<and> bit (mie s) i)" if "mip s AND mie s = 0"
    using that by (metis bit_and_iff bit_0_eq bot_apply bot_bool_def)
  show ?thesis
    using zero by (auto simp: get_pending_irq_mask_def Let_def mie sie irq_enabled_def bit_and_iff
        bit_or_iff bit_not_iff dest: bit_word_below)
qed

text \<open>
  C35. An interrupt is taken exactly when one is pending, enabled in \<^verbatim>\<open>mie\<close> and enabled in the current
  mode. The one taken is the lowest-numbered such interrupt; its number and the interrupt flag are the
  cause of the trap.
\<close>

theorem raise_interrupt_selects:
  "(fst (raise_interrupt s) \<longleftrightarrow> (\<exists>i. bit (mip s) i \<and> bit (mie s) i \<and> irq_enabled s i))
   \<and> (\<not> fst (raise_interrupt s) \<longrightarrow> snd (raise_interrupt s) = s)
   \<and> (fst (raise_interrupt s) \<longrightarrow> (\<exists>i < 32. bit (mip s) i \<and> bit (mie s) i \<and> irq_enabled s i
        \<and> (\<forall>j < i. \<not> (bit (mip s) j \<and> bit (mie s) j \<and> irq_enabled s j))
        \<and> snd (raise_interrupt s) = raise_exception2 (of_nat i OR CAUSE_INTERRUPT) 0 s))"
proof -
  let ?m = "get_pending_irq_mask s"
  have ex: "?m \<noteq> 0 \<longleftrightarrow> (\<exists>i. bit (mip s) i \<and> bit (mie s) i \<and> irq_enabled s i)"
    unfolding pending_mask_bit[symmetric] by (force simp: bit_eq_iff dest: bit_word_below)
  have sel: "bit ?m (ctz32 ?m) \<and> ctz32 ?m < 32 \<and> (\<forall>j < ctz32 ?m. \<not> bit ?m j)" if "?m \<noteq> 0"
    using ctz32_lowest[OF that] by blast
  have "\<exists>i < 32. bit (mip s) i \<and> bit (mie s) i \<and> irq_enabled s i
      \<and> (\<forall>j < i. \<not> (bit (mip s) j \<and> bit (mie s) j \<and> irq_enabled s j))
      \<and> snd (raise_interrupt s) = raise_exception2 (of_nat i OR CAUSE_INTERRUPT) 0 s" if "?m \<noteq> 0"
    using sel[OF that] that
    by (intro exI[of _ "ctz32 ?m"]) (simp add: pending_mask_bit raise_interrupt_def Let_def raise_exception_def)
  then show ?thesis
    unfolding ex[symmetric] by (simp add: raise_interrupt_def Let_def)
qed

theorem raise_interrupt_selects_witness:
  "fst (raise_interrupt (null_cpu\<lparr>mip := 0x88, mie := 0x80\<rparr>))"
proof -
  let ?s = "null_cpu\<lparr>mip := 0x88, mie := 0x80\<rparr>"
  have "bit (mip ?s) 7 \<and> bit (mie ?s) 7 \<and> irq_enabled ?s 7" by (simp add: irq_enabled_def null_cpu_def)
  with raise_interrupt_selects[of ?s] show ?thesis by blast
qed

section \<open>Legal contents and an aligned program counter\<close>

text \<open>The invariant of a hart between two instructions.\<close>

definition hart_inv :: "RISCVCPUState \<Rightarrow> bool" where
  "hart_inv s \<longleftrightarrow> csr_inv s \<and> \<not> bit (pc s) 0 \<and> reg s 0 = 0"

lemma csr_inv_set_priv: "csr_inv s \<Longrightarrow> p \<le> 3 \<Longrightarrow> csr_inv (set_priv p s)"
  using csr_inv_tlb[of s] by (simp add: set_priv_def csr_inv_def satp_mode_def)

lemma csr_inv_mstatus_upd:
  assumes "csr_inv s" "\<And>n. n \<in> {13, 14, 32, 33, 34, 35} \<Longrightarrow> bit w n = bit (mstatus s) n"
  shows "csr_inv (s\<lparr>mstatus := w\<rparr>)"
proof -
  have x: "w AND (MSTATUS_UXL_MASK OR MSTATUS_SXL_MASK) = mstatus s AND (MSTATUS_UXL_MASK OR MSTATUS_SXL_MASK)"
    by (rule bit_eqI) (use assms(2) in \<open>auto simp: bit_and_iff bit_or_iff bit_of\<close>)
  have f: "w AND MSTATUS_FS = mstatus s AND MSTATUS_FS"
    by (rule bit_eqI) (use assms(2) in \<open>auto simp: bit_and_iff bit_or_iff bit_of\<close>)
  show ?thesis using assms(1) unfolding inv_unfold by (simp add: x f)
qed

lemma csr_inv_trap_regs:
  assumes "csr_inv s" "\<not> bit v 0"
  shows "csr_inv (s\<lparr>mepc := v\<rparr>)" "csr_inv (s\<lparr>sepc := v\<rparr>)"
  using assms by (simp_all add: inv_unfold)

lemma trap_vector_aligned: "\<not> bit (trap_vector tvec cause) 0"
  by (simp add: trap_vector_def Let_def bit_0 even_and_iff)

lemma enter_machine_eq:
  "enter_machine cause tval s = set_priv PRV_M (s\<lparr>mcause := cause, mepc := CANONICAL_S49 (pc s),
     mtval := CANONICAL_S49 tval, mstatus := mstatus (enter_machine cause tval s)\<rparr>)"
  by (simp add: enter_machine_def Let_def)

lemma enter_supervisor_eq:
  "enter_supervisor cause tval s = set_priv PRV_S (s\<lparr>scause := cause, sepc := CANONICAL_S49 (pc s),
     stval := CANONICAL_S49 tval, mstatus := mstatus (enter_supervisor cause tval s)\<rparr>)"
  by (simp add: enter_supervisor_def Let_def)

lemma csr_inv_privD: "csr_inv s \<Longrightarrow> priv s \<le> 3"
  by (simp add: csr_inv_def)

lemma csr_inv_epcD: "csr_inv s \<Longrightarrow> \<not> bit (mepc s) 0 \<and> \<not> bit (sepc s) 0 \<and> \<not> bit (dpc s) 0"
  by (simp add: csr_inv_def)

lemma csr_inv_enter_machine:
  assumes "csr_inv s" "\<not> bit (pc s) 0" shows "csr_inv (enter_machine cause tval s)"
  using assms csr_inv_privD[OF assms(1)]
  by (subst enter_machine_eq, intro csr_inv_set_priv csr_inv_mstatus_upd)
    (auto simp: enter_machine_mstatus CANONICAL_bit0 intro!: csr_inv_trap_regs)

lemma csr_inv_enter_supervisor:
  assumes "csr_inv s" "\<not> bit (pc s) 0" "priv s \<le> 1" shows "csr_inv (enter_supervisor cause tval s)"
  using assms by (subst enter_supervisor_eq, intro csr_inv_set_priv csr_inv_mstatus_upd)
    (auto simp: enter_supervisor_mstatus CANONICAL_bit0 intro!: csr_inv_trap_regs)

lemma enter_reg [simp]: "reg (enter_machine c t s) = reg s" "reg (enter_supervisor c t s) = reg s"
  by (simp_all add: enter_machine_def enter_supervisor_def Let_def)

lemma hart_inv_raise: "hart_inv s \<Longrightarrow> hart_inv (raise_exception2 cause tval s)"
  by (auto simp: hart_inv_def raise_exception2_def Let_def trap_vector_aligned csr_inv_enter_machine
      intro!: csr_inv_enter_supervisor dest: delegated_low)

lemma hart_inv_raise_interrupt: "hart_inv s \<Longrightarrow> hart_inv (snd (raise_interrupt s))"
  by (simp add: raise_interrupt_def Let_def raise_exception_def hart_inv_raise)

lemma mpp_le_3: "ucast (drop_bit 11 (w AND MSTATUS_MPP)) \<le> (3 :: u8)"
proof -
  have "(3 :: u8) = mask 2" by (simp add: mask_eq_exp_minus_1)
  then have "ucast (drop_bit 11 (w AND MSTATUS_MPP)) = ucast (drop_bit 11 (w AND MSTATUS_MPP)) AND (3 :: u8)"
    by (simp only:) (rule bit_eqI, auto simp: bit_simps bit_MSTATUS_MPP)
  then show ?thesis by (metis word_and_le1)
qed

lemma handle_mret_eq:
  "handle_mret s = (set_priv (priv (handle_mret s)) (s\<lparr>mstatus := mstatus (handle_mret s)\<rparr>))\<lparr>pc := mepc s\<rparr>"
  by (simp add: handle_mret_def Let_def)

lemma handle_sret_eq:
  "handle_sret s = (set_priv (priv (handle_sret s)) (s\<lparr>mstatus := mstatus (handle_sret s)\<rparr>))\<lparr>pc := sepc s\<rparr>"
  by (simp add: handle_sret_def Let_def)

lemma hart_inv_mret: assumes "hart_inv s" shows "hart_inv (handle_mret s)"
proof -
  have "csr_inv (s\<lparr>mstatus := mstatus (handle_mret s)\<rparr>)"
    using assms by (intro csr_inv_mstatus_upd) (auto simp: hart_inv_def handle_mret_mstatus)
  then have "csr_inv (set_priv (priv (handle_mret s)) (s\<lparr>mstatus := mstatus (handle_mret s)\<rparr>))"
    by (rule csr_inv_set_priv) (simp only: mret_mpp mpp_le_3)
  then show ?thesis
    using assms by (subst handle_mret_eq) (simp add: hart_inv_def csr_inv_epcD)
qed

lemma hart_inv_sret: assumes "hart_inv s" shows "hart_inv (handle_sret s)"
proof -
  have "csr_inv (s\<lparr>mstatus := mstatus (handle_sret s)\<rparr>)"
    using assms by (intro csr_inv_mstatus_upd) (auto simp: hart_inv_def handle_sret_mstatus)
  then have "csr_inv (set_priv (priv (handle_sret s)) (s\<lparr>mstatus := mstatus (handle_sret s)\<rparr>))"
    by (rule csr_inv_set_priv) (simp add: sret_spp)
  then show ?thesis
    using assms by (subst handle_sret_eq) (simp add: hart_inv_def csr_inv_epcD)
qed

lemma hart_inv_dret: assumes "hart_inv s" shows "hart_inv (handle_dret s)"
proof -
  have "csr_inv (set_priv (ucast (dcsr s AND 3)) (s\<lparr>stop_the_counter := False, debug_mode := False\<rparr>))"
    using assms by (intro csr_inv_set_priv) (simp_all add: hart_inv_def small_fields)
  then show ?thesis
    using assms by (simp add: handle_dret_def Let_def hart_inv_def csr_inv_epcD)
qed

text \<open>
  Traps, interrupts and the three return instructions keep the hart invariant: legal control
  registers, an even program counter and a zero \<^verbatim>\<open>x0\<close>.
\<close>

theorem hart_inv_trap_and_return:
  assumes "hart_inv s"
  shows "hart_inv (raise_exception2 cause tval s) \<and> hart_inv (snd (raise_interrupt s))
    \<and> hart_inv (handle_mret s) \<and> hart_inv (handle_sret s) \<and> hart_inv (handle_dret s)"
  using assms by (simp add: hart_inv_raise hart_inv_raise_interrupt hart_inv_mret hart_inv_sret hart_inv_dret)

lemma hart_inv_init:
  "2 \<le> n \<Longrightarrow> n < 64 \<Longrightarrow> \<not> bit r 0 \<Longrightarrow> hart_inv ((riscv_cpu_init r c h)\<lparr>physical_addr_len := n\<rparr>)"
  unfolding hart_inv_def
  by (simp add: csr_inv_init) (simp add: riscv_cpu_init_def tlb_init_def null_cpu_def)

theorem hart_inv_trap_and_return_witness:
  "hart_inv (handle_mret ((riscv_cpu_init 0x10000 False 0)\<lparr>physical_addr_len := 56\<rparr>))"
  using hart_inv_trap_and_return[OF hart_inv_init[of 56 "0x10000" False 0]] by simp

end
