(* ===== verification/Mmu.thy ===== *)
theory Mmu
  imports Trap
begin

unbundle bit_operations_syntax

text \<open>
  Memory access of \<^verbatim>\<open>riscv_cpu.cpp\<close>: physical accesses, the Sv39/Sv48 page-table walk
  \<^verbatim>\<open>riscv_cpu_get_phys_addr\<close>, the slow paths \<^verbatim>\<open>riscv_cpu_read_memory\<close>, \<^verbatim>\<open>riscv_cpu_write_memory\<close> and
  \<^verbatim>\<open>target_read_insn_slow\<close> that fill the TLBs, and the fast paths \<^verbatim>\<open>target_read_uN\<close>, \<^verbatim>\<open>target_write_uN\<close>
  and \<^verbatim>\<open>target_read_insn_u16\<close> that use them.

  The state of the program is the hart at work (\<open>cpu\<close>), the host memory, the physical memory map, the
  machine's common part and the state \<open>dev\<close> of the devices. The callbacks \<^verbatim>\<open>read_func\<close> and
  \<^verbatim>\<open>write_func\<close> of the device ranges are the two fields of \<open>mmio\<close>; the machine theory supplies them.
  A function that returns nonzero with \<^verbatim>\<open>pending_exception\<close> set returns \<open>None\<close>.
\<close>

section \<open>The state\<close>

record 'd sys =
  cpu :: RISCVCPUState
  host :: host_mem
  mem_map :: PhysMemoryMap
  vm :: VirtMachine
  dev :: 'd

record 'd mmio =
  read_func :: "devid \<Rightarrow> u32 \<Rightarrow> nat \<Rightarrow> 'd sys \<Rightarrow> u32 \<times> 'd sys"
  write_func :: "devid \<Rightarrow> u32 \<Rightarrow> u32 \<Rightarrow> nat \<Rightarrow> 'd sys \<Rightarrow> 'd sys"

definition upd_cpu :: "(RISCVCPUState \<Rightarrow> RISCVCPUState) \<Rightarrow> 'd sys \<Rightarrow> 'd sys" where
  "upd_cpu f y = y\<lparr>cpu := f (cpu y)\<rparr>"

lemma upd_cpu_sel [simp]:
  "cpu (upd_cpu f y) = f (cpu y)" "host (upd_cpu f y) = host y" "mem_map (upd_cpu f y) = mem_map y"
  "vm (upd_cpu f y) = vm y" "dev (upd_cpu f y) = dev y"
  by (simp_all add: upd_cpu_def)

datatype riscv_memory_access_t = ACCESS_READ | ACCESS_WRITE | ACCESS_CODE

fun access_code :: "riscv_memory_access_t \<Rightarrow> nat" where
  "access_code ACCESS_READ = 0"
| "access_code ACCESS_WRITE = 1"
| "access_code ACCESS_CODE = 2"

section \<open>Physical accesses\<close>

definition riscv_cpu_pmp_access_ok :: "'d sys \<Rightarrow> u64 \<Rightarrow> u64 \<Rightarrow> u8 \<Rightarrow> bool" where
  "riscv_cpu_pmp_access_ok y paddr sz perm = True"

definition get_phys_mem_range_pmp :: "'d sys \<Rightarrow> u64 \<Rightarrow> u64 \<Rightarrow> u8 \<Rightarrow> nat option" where
  "get_phys_mem_range_pmp y paddr sz perm =
     (if \<not> riscv_cpu_pmp_access_ok y paddr sz perm then None else get_phys_mem_range (mem_map y) paddr)"

text \<open>\<^verbatim>\<open>pr->phys_mem + (paddr - pr->addr)\<close>.\<close>

definition ram_ptr :: "PhysMemoryRange \<Rightarrow> u64 \<Rightarrow> u64" where
  "ram_ptr pr paddr = pr_phys_mem pr + (paddr - pr_addr pr)"

text \<open>\<^verbatim>\<open>riscv_phys_write_uN\<close> for \<open>n\<close> bytes; \<open>None\<close> is \<^verbatim>\<open>*fail = true\<close>.\<close>

definition riscv_phys_write :: "nat \<Rightarrow> 'd sys \<Rightarrow> u64 \<Rightarrow> u64 \<Rightarrow> 'd sys option" where
  "riscv_phys_write n y paddr val =
     (case get_phys_mem_range_pmp y paddr (of_nat n) PMPCFG_W of
        None \<Rightarrow> None
      | Some i \<Rightarrow> let pr = mem_map y ! i in
          if \<not> pr_is_ram pr then None
          else Some (y\<lparr>host := le_store (host y) (ram_ptr pr paddr) n val\<rparr>))"

definition riscv_phys_read :: "nat \<Rightarrow> 'd sys \<Rightarrow> u64 \<Rightarrow> u64 option" where
  "riscv_phys_read n y paddr =
     (case get_phys_mem_range_pmp y paddr (of_nat n) PMPCFG_R of
        None \<Rightarrow> None
      | Some i \<Rightarrow> Some (le_load (host y) (ram_ptr (mem_map y ! i) paddr) n))"

section \<open>The page-table walk\<close>

datatype pa_result = PaOk u64 | PaFault | PaIllegal

definition PTE_V_MASK :: u64 where "PTE_V_MASK = push_bit 0 1"
definition PTE_U_MASK :: u64 where "PTE_U_MASK = push_bit 4 1"
definition PTE_A_MASK :: u64 where "PTE_A_MASK = push_bit 6 1"
definition PTE_D_MASK :: u64 where "PTE_D_MASK = push_bit 7 1"

text \<open>The checks on a leaf entry at level \<open>j\<close> (0 is the last level), in the order of the code.\<close>

definition leaf_ok :: "RISCVCPUState \<Rightarrow> u8 \<Rightarrow> riscv_memory_access_t \<Rightarrow> u64 \<Rightarrow> nat \<Rightarrow> bool" where
  "leaf_ok s p access pte j =
     (let xwr = drop_bit 1 pte AND 7 in
      if xwr = 2 \<or> xwr = 6 then False
      else if p = PRV_S \<and> pte AND PTE_U_MASK \<noteq> 0 \<and> mstatus s AND MSTATUS_SUM = 0 then False
      else if p \<noteq> PRV_S \<and> pte AND PTE_U_MASK = 0 then False
      else
        let xwr' = (if mstatus s AND MSTATUS_MXR \<noteq> 0 then xwr OR drop_bit 2 xwr else xwr);
            ppn = ucast (drop_bit 10 pte) :: u32
        in if drop_bit (access_code access) xwr' AND 1 = 0 then False
           else if (push_bit j 1 - 1) AND ppn \<noteq> 0 then False
           else if pte AND PTE_A_MASK = 0 then False
           else \<not> (access = ACCESS_WRITE \<and> pte AND PTE_D_MASK = 0))"

text \<open>The loop of the walk; the argument counts the levels left, so the level at work is \<open>j\<close>.\<close>

primrec pt_walk :: "nat \<Rightarrow> 'd sys \<Rightarrow> u8 \<Rightarrow> riscv_memory_access_t \<Rightarrow> u64 \<Rightarrow> u64 \<Rightarrow> pa_result" where
  "pt_walk 0 y p access va pte_addr = PaFault"
| "pt_walk (Suc j) y p access va pte_addr =
     (let vaddr_shift = 12 + 9 * j;
          pte_idx = drop_bit vaddr_shift va AND 0x1ff;
          pte_addr' = pte_addr + push_bit 3 pte_idx
      in case riscv_phys_read 8 y pte_addr' of
           None \<Rightarrow> PaIllegal
         | Some pte \<Rightarrow>
             if pte AND PTE_V_MASK = 0 then PaFault
             else
               let paddr = push_bit 12 (drop_bit 10 pte) in
               if drop_bit 1 pte AND 7 \<noteq> 0 then
                 if leaf_ok (cpu y) p access pte j then
                   let vaddr_mask = push_bit vaddr_shift 1 - 1
                   in PaOk ((paddr AND NOT vaddr_mask) OR (va AND vaddr_mask))
                 else PaFault
               else pt_walk j y p access va paddr)"

definition effective_priv :: "RISCVCPUState \<Rightarrow> riscv_memory_access_t \<Rightarrow> u8" where
  "effective_priv s access =
     (if mstatus s AND MSTATUS_MPRV \<noteq> 0 \<and> access \<noteq> ACCESS_CODE
      then ucast (drop_bit 11 (mstatus s) AND 3) else priv s)"

definition riscv_cpu_get_phys_addr :: "'d sys \<Rightarrow> u64 \<Rightarrow> riscv_memory_access_t \<Rightarrow> pa_result" where
  "riscv_cpu_get_phys_addr y va access =
     (let s = cpu y; p = effective_priv s access in
      if p = PRV_M then PaOk va
      else
        let mode = drop_bit 60 (satp s) AND 0xf in
        if mode = 0 then PaOk va
        else
          let levels = uint mode - 8 + 3;
              vaddr_shift = nat (64 - (12 + levels * 9))
          in if signed_drop_bit vaddr_shift (push_bit vaddr_shift va) \<noteq> va then PaFault
             else pt_walk (nat levels) y p access va (push_bit 12 (satp s AND (push_bit 44 1 - 1))))"

section \<open>Loads and stores\<close>

definition page_fault :: "riscv_memory_access_t \<Rightarrow> int" where
  "page_fault access = (case access of ACCESS_READ \<Rightarrow> CAUSE_LOAD_PAGE_FAULT
     | ACCESS_WRITE \<Rightarrow> CAUSE_STORE_PAGE_FAULT | ACCESS_CODE \<Rightarrow> CAUSE_FETCH_PAGE_FAULT)"

definition access_fault :: "riscv_memory_access_t \<Rightarrow> int" where
  "access_fault access = (case access of ACCESS_READ \<Rightarrow> CAUSE_FAULT_LOAD
     | ACCESS_WRITE \<Rightarrow> CAUSE_FAULT_STORE | ACCESS_CODE \<Rightarrow> CAUSE_FAULT_FETCH)"

definition pend :: "int \<Rightarrow> u64 \<Rightarrow> RISCVCPUState \<Rightarrow> RISCVCPUState" where
  "pend cause tval s = s\<lparr>pending_tval := tval, pending_exception := cause\<rparr>"

text \<open>
  The common start of the three slow paths: translate, find the range, and report the exception the
  code reports. The result is the physical address and the range.
\<close>

definition translate :: "'d sys \<Rightarrow> u64 \<Rightarrow> riscv_memory_access_t \<Rightarrow> u64 \<Rightarrow> u8 \<Rightarrow> int + u64 \<times> nat" where
  "translate y addr access sz perm =
     (case riscv_cpu_get_phys_addr y addr access of
        PaFault \<Rightarrow> Inl (page_fault access)
      | PaIllegal \<Rightarrow> Inl (access_fault access)
      | PaOk paddr \<Rightarrow> (case get_phys_mem_range_pmp y paddr sz perm of
            None \<Rightarrow> Inl (access_fault access)
          | Some i \<Rightarrow> Inr (paddr, i)))"

definition tlb_index :: "u64 \<Rightarrow> tlbidx" where
  "tlb_index addr = ucast (drop_bit 12 addr)"

definition fill_read :: "u64 \<Rightarrow> u64 \<Rightarrow> u64 \<Rightarrow> RISCVCPUState \<Rightarrow> RISCVCPUState" where
  "fill_read addr paddr ptr s =
     s\<lparr>tlb_read := (tlb_read s)(tlb_index addr := \<lparr>vaddr = addr AND NOT PG_MASK, mem_addend = ptr - addr\<rparr>),
       tlb_read_paddr_addend := (tlb_read_paddr_addend s)(tlb_index addr := paddr - addr)\<rparr>"

definition fill_write :: "u64 \<Rightarrow> u64 \<Rightarrow> u64 \<Rightarrow> RISCVCPUState \<Rightarrow> RISCVCPUState" where
  "fill_write addr paddr ptr s =
     s\<lparr>tlb_write := (tlb_write s)(tlb_index addr := \<lparr>vaddr = addr AND NOT PG_MASK, mem_addend = ptr - addr\<rparr>),
       tlb_write_paddr_addend := (tlb_write_paddr_addend s)(tlb_index addr := paddr - addr)\<rparr>"

definition fill_code :: "u64 \<Rightarrow> u64 \<Rightarrow> u64 \<Rightarrow> RISCVCPUState \<Rightarrow> RISCVCPUState" where
  "fill_code addr paddr ptr s =
     s\<lparr>tlb_code := (tlb_code s)(tlb_index addr := \<lparr>vaddr = addr AND NOT PG_MASK, mem_addend = ptr - addr\<rparr>),
       tlb_code_paddr_addend := (tlb_code_paddr_addend s)(tlb_index addr := paddr - addr)\<rparr>"

definition device_read :: "'d mmio \<Rightarrow> PhysMemoryRange \<Rightarrow> u64 \<Rightarrow> nat \<Rightarrow> 'd sys \<Rightarrow> u64 \<times> 'd sys" where
  "device_read io pr offset size_log2 y =
     (if drop_bit size_log2 (pr_devio_flags pr) AND 1 \<noteq> 0 then
        let (r, y1) = read_func io (pr_opaque pr) (ucast offset) size_log2 y in (ucast r, y1)
      else if pr_devio_flags pr AND DEVIO_SIZE32 \<noteq> 0 \<and> size_log2 = 3 then
        let (r0, y1) = read_func io (pr_opaque pr) (ucast offset) 2 y;
            (r1, y2) = read_func io (pr_opaque pr) (ucast (offset + 4)) 2 y1
        in (ucast r0 OR push_bit 32 (ucast r1), y2)
      else (0, y))"

definition device_write :: "'d mmio \<Rightarrow> PhysMemoryRange \<Rightarrow> u64 \<Rightarrow> u64 \<Rightarrow> nat \<Rightarrow> 'd sys \<Rightarrow> 'd sys" where
  "device_write io pr offset val size_log2 y =
     (if drop_bit size_log2 (pr_devio_flags pr) AND 1 \<noteq> 0 then
        write_func io (pr_opaque pr) (ucast offset) (ucast val) size_log2 y
      else if pr_devio_flags pr AND DEVIO_SIZE32 \<noteq> 0 \<and> size_log2 = 3 then
        write_func io (pr_opaque pr) (ucast (offset + 4)) (ucast (drop_bit 32 val AND 0xffffffff)) 2
          (write_func io (pr_opaque pr) (ucast offset) (ucast (val AND 0xffffffff)) 2 y)
      else y)"

definition misaligned :: "u64 \<Rightarrow> nat \<Rightarrow> bool" where
  "misaligned addr size_log2 \<longleftrightarrow> addr AND (push_bit size_log2 1 - 1) \<noteq> 0"

definition riscv_cpu_read_memory :: "'d mmio \<Rightarrow> 'd sys \<Rightarrow> u64 \<Rightarrow> nat \<Rightarrow> u64 option \<times> 'd sys" where
  "riscv_cpu_read_memory io y addr size_log2 =
     (if misaligned addr size_log2 then (None, upd_cpu (pend CAUSE_MISALIGNED_LOAD addr) y)
      else case translate y addr ACCESS_READ (push_bit size_log2 1) PMPCFG_R of
             Inl cause \<Rightarrow> (None, upd_cpu (pend cause addr) y)
           | Inr (paddr, i) \<Rightarrow>
               let pr = mem_map y ! i in
               if pr_is_ram pr then
                 let ptr = ram_ptr pr paddr
                 in (Some (le_load (host y) ptr (2 ^ size_log2)), upd_cpu (fill_read addr paddr ptr) y)
               else let (v, y1) = device_read io pr (paddr - pr_addr pr) size_log2 y in (Some v, y1))"

definition riscv_cpu_write_memory :: "'d mmio \<Rightarrow> 'd sys \<Rightarrow> u64 \<Rightarrow> u64 \<Rightarrow> nat \<Rightarrow> unit option \<times> 'd sys" where
  "riscv_cpu_write_memory io y addr val size_log2 =
     (if misaligned addr size_log2 then (None, upd_cpu (pend CAUSE_MISALIGNED_STORE addr) y)
      else case translate y addr ACCESS_WRITE (push_bit size_log2 1) PMPCFG_W of
             Inl cause \<Rightarrow> (None, upd_cpu (pend cause addr) y)
           | Inr (paddr, i) \<Rightarrow>
               let pr = mem_map y ! i in
               if pr_is_ram pr then
                 let y1 = y\<lparr>mem_map := (mem_map y)[i := phys_mem_set_dirty_bit pr (paddr - pr_addr pr)]\<rparr>;
                     ptr = ram_ptr pr paddr;
                     y2 = upd_cpu (fill_write addr paddr ptr) y1
                 in (Some (), y2\<lparr>host := le_store (host y2) ptr (2 ^ size_log2) val\<rparr>)
               else (Some (), device_write io pr (paddr - pr_addr pr) val size_log2 y))"

text \<open>\<^verbatim>\<open>target_read_uN\<close> and \<^verbatim>\<open>target_write_uN\<close>; \<^verbatim>\<open>*pval = val\<close> truncates to the access size.\<close>

definition tlb_tag :: "u64 \<Rightarrow> nat \<Rightarrow> u64" where
  "tlb_tag addr size_log2 = addr AND NOT (PG_MASK AND NOT (push_bit size_log2 1 - 1))"

definition target_read :: "'d mmio \<Rightarrow> nat \<Rightarrow> 'd sys \<Rightarrow> u64 \<Rightarrow> u64 option \<times> 'd sys" where
  "target_read io size_log2 y addr =
     (let e = tlb_read (cpu y) (tlb_index addr) in
      if misaligned addr size_log2 then (None, upd_cpu (pend CAUSE_MISALIGNED_LOAD addr) y)
      else if vaddr e = tlb_tag addr size_log2 then
        (Some (le_load (host y) (mem_addend e + addr) (2 ^ size_log2)), y)
      else case riscv_cpu_read_memory io y addr size_log2 of
             (None, y1) \<Rightarrow> (None, y1)
           | (Some v, y1) \<Rightarrow> (Some (take_bit (8 * 2 ^ size_log2) v), y1))"

definition target_write :: "'d mmio \<Rightarrow> nat \<Rightarrow> 'd sys \<Rightarrow> u64 \<Rightarrow> u64 \<Rightarrow> unit option \<times> 'd sys" where
  "target_write io size_log2 y addr val =
     (let e = tlb_write (cpu y) (tlb_index addr) in
      if misaligned addr size_log2 then (None, upd_cpu (pend CAUSE_MISALIGNED_STORE addr) y)
      else if vaddr e = tlb_tag addr size_log2 then
        (Some (), y\<lparr>host := le_store (host y) (mem_addend e + addr) (2 ^ size_log2) val\<rparr>)
      else riscv_cpu_write_memory io y addr (take_bit (8 * 2 ^ size_log2) val) size_log2)"

section \<open>Instruction fetch\<close>

text \<open>
  \<open>sz\<close> is 16 or 32. The first page is entered into the code TLB before the second one is translated.
\<close>

definition target_read_insn_slow :: "'d sys \<Rightarrow> nat \<Rightarrow> u64 \<Rightarrow> u32 option \<times> 'd sys" where
  "target_read_insn_slow y sz addr =
     (let fault = (\<lambda>cause y. (None, upd_cpu (pend cause addr) y)) in
      case translate y addr ACCESS_CODE (of_nat (sz div 8)) PMPCFG_X of
        Inl cause \<Rightarrow> fault cause y
      | Inr (paddr, i) \<Rightarrow>
          let pr = mem_map y ! i; ptr = ram_ptr pr paddr in
          if \<not> pr_is_ram pr then fault CAUSE_FAULT_FETCH y
          else
            let y1 = (if riscv_cpu_pmp_access_ok y (paddr AND NOT PG_MASK) (PG_MASK + 1) PMPCFG_X
                      then upd_cpu (fill_code addr paddr ptr) y else y)
            in if tlb_index addr \<noteq> tlb_index (addr + 2) \<and> sz = 32 then
                 (case translate y1 (addr + 2) ACCESS_CODE 2 PMPCFG_X of
                    Inl cause \<Rightarrow> fault cause y1
                  | Inr (paddr_cross, k) \<Rightarrow>
                      let pr_cross = mem_map y1 ! k in
                      if \<not> pr_is_ram pr_cross then fault CAUSE_FAULT_FETCH y1
                      else
                        let data1 = ucast (le_load (host y1) ptr 2);
                            data2 = ucast (le_load (host y1) (ram_ptr pr_cross paddr_cross) 2)
                        in (Some (data1 OR push_bit 16 data2), y1))
               else (Some (ucast (le_load (host y1) ptr (sz div 8))), y1))"

definition target_read_insn_u16 :: "'d sys \<Rightarrow> u64 \<Rightarrow> u16 option \<times> 'd sys" where
  "target_read_insn_u16 y addr =
     (let e = tlb_code (cpu y) (tlb_index addr) in
      if vaddr e = addr AND NOT PG_MASK then (Some (ucast (le_load (host y) (mem_addend e + addr) 2)), y)
      else case target_read_insn_slow y 16 addr of
             (None, y1) \<Rightarrow> (None, y1)
           | (Some w, y1) \<Rightarrow> (Some (ucast w), y1))"

definition riscv_read_insn :: "'d sys \<Rightarrow> u64 \<Rightarrow> u32 option \<times> 'd sys" where
  "riscv_read_insn y addr =
     (let (r, y1) = target_read_insn_slow y 32 addr
      in (r, upd_cpu (\<lambda>s. s\<lparr>pending_exception := pending_exception (cpu y),
                            pending_tval := pending_tval (cpu y)\<rparr>) y1))"

end
