(* ===== verification/Mmu_Theorems.thy ===== *)
theory Mmu_Theorems
  imports Mmu
begin

unbundle bit_operations_syntax

text \<open>
  What the memory management unit guarantees: the page-table walk grants an access only where the leaf
  entry permits it and keeps the page offset; translation is uniform on a page; the TLB fast paths
  behave exactly as the slow paths as long as the cached entries are coherent; fills, flushes and
  control-register writes keep them coherent; and every access to RAM stays inside its host block.
\<close>

section \<open>Page offsets\<close>

lemma low12_split: "(a :: u64) = page_of a + (a AND 0xfff)"
proof -
  have "page_of a + (a AND 0xfff) = page_of a OR (a AND 0xfff)"
    by (rule disjunctive_add) (auto simp: page_of_def bit_simps)
  also have "\<dots> = a" by (rule bit_eqI) (auto simp: page_of_def bit_simps)
  finally show ?thesis by simp
qed

lemma bit_low12: "bit ((a :: u64) AND 0xfff) n \<longleftrightarrow> n < 12 \<and> bit a n"
  unfolding low12_mask by (auto simp: bit_simps)

lemma bit_page_of: "bit (page_of a) n \<longleftrightarrow> 12 \<le> n \<and> bit a n"
  unfolding page_of_def low12_mask by (auto simp: bit_simps)

lemma same_page_bits: "page_of a = page_of b \<longleftrightarrow> (\<forall>n \<ge> 12. bit a n = bit b n)"
proof
  assume eq: "page_of a = page_of b"
  have "bit (page_of a) n = bit (page_of b) n" for n by (simp add: eq)
  then show "\<forall>n \<ge> 12. bit a n = bit b n" unfolding bit_page_of by blast
qed (rule bit_eqI, auto simp: bit_page_of)

lemma same_page_drop: "page_of a = page_of b \<Longrightarrow> 12 \<le> k \<Longrightarrow> drop_bit k a = drop_bit k b"
  by (rule bit_eqI) (auto simp: bit_drop_bit_eq same_page_bits)

lemma same_offset_diff:
  assumes "page_of p = page_of q" "page_of a = page_of b" "p AND 0xfff = a AND 0xfff" "q AND 0xfff = b AND 0xfff"
  shows "p - a = q - b"
  using assms low12_split[of p] low12_split[of q] low12_split[of a] low12_split[of b]
  by (metis add_diff_cancel_right)

section \<open>Translation is uniform on a page\<close>

text \<open>The result for another address of the same page.\<close>

definition rebase :: "u64 \<Rightarrow> pa_result \<Rightarrow> pa_result" where
  "rebase va r = (case r of PaOk q \<Rightarrow> PaOk (page_of q OR (va AND 0xfff)) | PaFault \<Rightarrow> PaFault | PaIllegal \<Rightarrow> PaIllegal)"

lemma shift_mask: "push_bit k 1 - 1 = (mask k :: u64)"
  by (simp add: mask_eq_exp_minus_1)

lemma compose_rebase:
  assumes "page_of va = page_of va'" "12 \<le> k"
  shows "(pa AND NOT (push_bit k 1 - 1)) OR (va' AND (push_bit k 1 - 1))
    = page_of ((pa AND NOT (push_bit k 1 - 1)) OR (va AND (push_bit k 1 - 1))) OR (va' AND 0xfff)"
  unfolding shift_mask low12_mask
  by (rule bit_eqI) (use assms in \<open>auto simp: bit_or_iff bit_and_iff bit_not_iff bit_mask_iff bit_page_of
      same_page_bits\<close>)

lemma pt_walk_page:
  assumes "page_of va = page_of va'"
  shows "pt_walk n y p access va' pa = rebase va' (pt_walk n y p access va pa)"
proof (induction n arbitrary: pa)
  case 0
  then show ?case by (simp add: rebase_def)
next
  case (Suc j)
  have idx: "drop_bit (12 + 9 * j) va' = drop_bit (12 + 9 * j) va"
    using same_page_drop[OF assms, of "12 + 9 * j"] by simp
  show ?case
    using compose_rebase[OF assms, of "12 + 9 * j"]
    by (simp add: idx Let_def Suc rebase_def del: push_bit_of_1 split: option.splits)
qed

lemma pt_walk_offset:
  "pt_walk n y p access va pa = PaOk q \<Longrightarrow> q AND 0xfff = va AND 0xfff"
proof -
  assume ok: "pt_walk n y p access va pa = PaOk q"
  from pt_walk_page[of va va n y p access pa] ok
  have "q = page_of q OR (va AND 0xfff)" by (simp add: rebase_def)
  then have "bit q k = bit (page_of q OR (va AND 0xfff)) k" for k by simp
  then show ?thesis
    by (intro bit_eqI) (simp add: bit_low12 bit_or_iff bit_page_of, metis not_le)
qed

lemma canonical_page:
  assumes "page_of va = page_of va'" "k \<le> 51"
  shows "signed_drop_bit k (push_bit k va) = va \<longleftrightarrow> signed_drop_bit k (push_bit k va') = va'"
proof -
  have b: "bit (signed_drop_bit k (push_bit k w)) n \<longleftrightarrow> n < 64 \<and> bit w (min n (63 - k))" for w :: u64 and n
    using assms(2) by (cases "n < 64"; cases "n + k < 64") (auto simp: bit_simps min_def)
  have can: "signed_drop_bit k (push_bit k w) = w \<longleftrightarrow> (\<forall>n. n < 64 \<longrightarrow> bit w (min n (63 - k)) = bit w n)" for w :: u64
    unfolding bit_eq_iff[of "signed_drop_bit k (push_bit k w)"] b by auto
  have "bit va n = bit va' n" if "12 \<le> n" for n
    using assms(1) that by (simp add: same_page_bits)
  then have "(bit va (min n (63 - k)) = bit va n) = (bit va' (min n (63 - k)) = bit va' n)" for n
    using assms(2) by (cases "n < 12") (simp_all add: min_def)
  then show ?thesis unfolding can by simp
qed

lemma satp_levels:
  assumes "satp_mode s = 8 \<or> satp_mode s = 9"
  shows "nat (64 - (12 + (uint (drop_bit 60 (satp s) AND 0xf) - 8 + 3) * 9)) \<le> 51"
proof -
  have "drop_bit 60 (satp s) AND 0xf = satp_mode s"
    using assms by (auto simp: satp_mode_def)
  with assms show ?thesis by auto
qed

definition sys_ok :: "'d sys \<Rightarrow> bool" where
  "sys_ok y \<longleftrightarrow> map_ok (mem_map y) \<and> satp_mode (cpu y) \<in> {0, 8, 9}"

lemma rebase_self: "page_of va = page_of va' \<Longrightarrow> PaOk va' = rebase va' (PaOk va)"
  using same_page_bits by (simp add: rebase_def, intro bit_eqI) (auto simp: bit_or_iff bit_page_of bit_low12)

lemma get_phys_addr_page:
  assumes "sys_ok y" "page_of va = page_of va'"
  shows "riscv_cpu_get_phys_addr y va' access = rebase va' (riscv_cpu_get_phys_addr y va access)"
proof -
  let ?mode = "drop_bit 60 (satp (cpu y)) AND 0xf"
  have mode: "?mode = satp_mode (cpu y)" and cases: "satp_mode (cpu y) \<in> {0, 8, 9}"
    using assms(1) by (auto simp: sys_ok_def satp_mode_def)
  show ?thesis
  proof (cases "effective_priv (cpu y) access = PRV_M \<or> ?mode = 0")
    case True
    then show ?thesis
      using rebase_self[OF assms(2)] by (auto simp: riscv_cpu_get_phys_addr_def Let_def)
  next
    case False
    then have "satp_mode (cpu y) = 8 \<or> satp_mode (cpu y) = 9" using mode cases by auto
    note canonical = canonical_page[OF assms(2) satp_levels[OF this]]
    have fault: "rebase va' PaFault = PaFault" by (simp add: rebase_def)
    from False show ?thesis
      unfolding riscv_cpu_get_phys_addr_def Let_def
      by (simp only: if_False de_Morgan_disj canonical pt_walk_page[OF assms(2)] fault if_distrib[of "rebase va'"])
  qed
qed

lemma get_phys_addr_offset:
  assumes "riscv_cpu_get_phys_addr y va access = PaOk q"
  shows "q AND 0xfff = va AND 0xfff"
  using assms pt_walk_offset by (auto simp: riscv_cpu_get_phys_addr_def Let_def split: if_splits)

section \<open>A direct-mapped cache of translations\<close>

text \<open>
  The three TLBs have one contract: an entry found under an address's index with the address's tag is
  good for that address, whatever the offset in the page.
\<close>

definition cache_ok :: "('i \<Rightarrow> 'e) \<Rightarrow> (u64 \<Rightarrow> 'i) \<Rightarrow> ('e \<Rightarrow> u64) \<Rightarrow> (u64 \<Rightarrow> 'e \<Rightarrow> bool) \<Rightarrow> bool" where
  "cache_ok t idx tg good \<longleftrightarrow> (\<forall>a. tg (t (idx a)) = page_of a \<longrightarrow> good a (t (idx a)))"

locale direct_mapped =
  fixes idx :: "u64 \<Rightarrow> 'i" and tg :: "'e \<Rightarrow> u64" and good :: "'y \<Rightarrow> u64 \<Rightarrow> 'e \<Rightarrow> bool" and wf :: "'y \<Rightarrow> bool"
  assumes idx_page: "page_of a = page_of b \<Longrightarrow> idx a = idx b"
    and good_page: "wf y \<Longrightarrow> page_of a = page_of b \<Longrightarrow> good y a e \<Longrightarrow> good y b e"
begin

lemma hit: "cache_ok t idx tg (good y) \<Longrightarrow> tg (t (idx a)) = page_of a \<Longrightarrow> good y a (t (idx a))"
  by (simp add: cache_ok_def)

lemma fill:
  assumes "wf y" "cache_ok t idx tg (good y)" "good y a e" "tg e = page_of a"
  shows "cache_ok (t(idx a := e)) idx tg (good y)"
  using assms good_page[OF assms(1), of a] by (auto simp: cache_ok_def)

lemma flush: "(\<And>i. \<not> page_aligned (tg (t i))) \<Longrightarrow> cache_ok t idx tg (good y)"
proof -
  assume inv: "\<And>i. \<not> page_aligned (tg (t i))"
  have "page_aligned (page_of a)" for a
    by (simp add: page_aligned_def) (rule bit_eqI, simp add: bit_low12 bit_page_of)
  then show ?thesis using inv by (metis cache_ok_def)
qed

lemma transfer:
  assumes "cache_ok t idx tg (good y)" "\<And>a e. good y a e \<Longrightarrow> good y' a e"
  shows "cache_ok t idx tg (good y')"
  using assms by (simp add: cache_ok_def)

end

text \<open>
  An entry with its physical addend is good for an address when both addends lead where the
  translation of the address leads: into a RAM range, at the right offset. For writes the page is
  marked dirty already.
\<close>

definition entry_good :: "riscv_memory_access_t \<Rightarrow> 'd sys \<Rightarrow> u64 \<Rightarrow> TLBEntry \<times> u64 \<Rightarrow> bool" where
  "entry_good access y addr e \<longleftrightarrow> (\<exists>paddr i.
     riscv_cpu_get_phys_addr y addr access = PaOk paddr \<and> get_phys_mem_range (mem_map y) paddr = Some i
     \<and> pr_is_ram (mem_map y ! i)
     \<and> mem_addend (fst e) + addr = ram_ptr (mem_map y ! i) paddr \<and> snd e + addr = paddr
     \<and> (access = ACCESS_WRITE \<longrightarrow>
          phys_mem_set_dirty_bit (mem_map y ! i) (paddr - pr_addr (mem_map y ! i)) = mem_map y ! i))"

lemma tlb_index_page: "page_of a = page_of b \<Longrightarrow> tlb_index a = tlb_index b"
  using same_page_drop[of a b 12] by (simp add: tlb_index_def)

lemma page_of_push_add: "page_of (push_bit 12 x + (p AND 0xfff)) = push_bit 12 x"
proof -
  have "push_bit 12 x + (p AND 0xfff) = push_bit 12 x OR (p AND 0xfff)"
    by (rule disjunctive_add) (auto simp: bit_low12 bit_push_bit_iff)
  then show ?thesis
    by (simp only:) (rule bit_eqI, auto simp: bit_page_of bit_low12 bit_or_iff bit_push_bit_iff)
qed

lemma page_aligned_page_of: "page_aligned a \<longleftrightarrow> page_of a = a"
  using low12_split[of a] by (metis add_0_right add_left_cancel page_aligned_def)

lemma dirty_bit_page:
  "drop_bit 12 o1 = drop_bit 12 o2 \<Longrightarrow> phys_mem_set_dirty_bit pr o1 = phys_mem_set_dirty_bit pr o2"
  by (simp only: phys_mem_set_dirty_bit_def)

lemma offset_same_page:
  assumes "page_aligned base" "page_of p = page_of q"
  shows "drop_bit 12 (p - base) = drop_bit 12 (q - base)"
proof -
  have "page_of (a - base) = push_bit 12 (drop_bit 12 a - drop_bit 12 base)" for a
  proof -
    have "base = push_bit 12 (drop_bit 12 base)"
      using assms(1) by (metis page_aligned_page_of page_of_drop)
    then have "a - base = push_bit 12 (drop_bit 12 a) - push_bit 12 (drop_bit 12 base) + (a AND 0xfff)"
      using low12_split[of a] by (simp add: page_of_drop)
    also have "\<dots> = push_bit 12 (drop_bit 12 a - drop_bit 12 base) + (a AND 0xfff)"
      by (simp only: push_bit_eq_mult left_diff_distrib)
    finally show ?thesis by (simp only: page_of_push_add)
  qed
  moreover have "drop_bit 12 p = drop_bit 12 q" using assms(2) by (simp add: page_of_eq_iff)
  ultimately have "page_of (p - base) = page_of (q - base)" by simp
  then show ?thesis by (simp add: page_of_eq_iff)
qed

lemma entry_good_page:
  assumes ok: "sys_ok y" and pg: "page_of a = page_of b" and good: "entry_good access y a e"
  shows "entry_good access y b e"
proof -
  from good obtain p i where p: "riscv_cpu_get_phys_addr y a access = PaOk p"
      "get_phys_mem_range (mem_map y) p = Some i" "pr_is_ram (mem_map y ! i)"
      "mem_addend (fst e) + a = ram_ptr (mem_map y ! i) p" "snd e + a = p"
      "access = ACCESS_WRITE \<longrightarrow> phys_mem_set_dirty_bit (mem_map y ! i) (p - pr_addr (mem_map y ! i)) = mem_map y ! i"
    by (auto simp: entry_good_def)
  define q where "q = page_of p OR (b AND 0xfff)"
  have q: "riscv_cpu_get_phys_addr y b access = PaOk q"
    using get_phys_addr_page[OF ok pg, of access] p(1) by (simp add: rebase_def q_def)
  have pq: "page_of p = page_of q"
    unfolding q_def by (rule bit_eqI) (auto simp: bit_page_of bit_low12 bit_or_iff)
  have "p - a = q - b"
    using same_offset_diff[OF pq pg] get_phys_addr_offset[OF p(1)] get_phys_addr_offset[OF q] by simp
  then have shift: "q = p + (b - a)" by (simp add: algebra_simps)
  have i: "get_phys_mem_range (mem_map y) q = Some i"
    using map_ok_page_uniform[OF _ p(2,3) pq] ok by (simp add: sys_ok_def)
  have "i < length (mem_map y)" using p(2) by (simp add: lookup_Some)
  then have "page_aligned (pr_addr (mem_map y ! i))"
    using ok p(3) by (auto simp: sys_ok_def map_ok_def whole_pages_def)
  note off = offset_same_page[OF this pq]
  have "mem_addend (fst e) + b = ram_ptr (mem_map y ! i) q" "snd e + b = q"
    using p(4,5) by (simp_all add: shift ram_ptr_def algebra_simps)
  moreover have "access = ACCESS_WRITE \<longrightarrow>
      phys_mem_set_dirty_bit (mem_map y ! i) (q - pr_addr (mem_map y ! i)) = mem_map y ! i"
    using p(6) dirty_bit_page[OF off] by simp
  ultimately show ?thesis using q i p(3) by (auto simp: entry_good_def)
qed

abbreviation etag :: "TLBEntry \<times> u64 \<Rightarrow> u64" where "etag e \<equiv> vaddr (fst e)"

interpretation rtlb: direct_mapped tlb_index etag "entry_good ACCESS_READ" sys_ok
  by unfold_locales (auto intro: tlb_index_page entry_good_page)

interpretation wtlb: direct_mapped tlb_index etag "entry_good ACCESS_WRITE" sys_ok
  by unfold_locales (auto intro: tlb_index_page entry_good_page)

interpretation ctlb: direct_mapped tlb_index etag "entry_good ACCESS_CODE" sys_ok
  by unfold_locales (auto intro: tlb_index_page entry_good_page)

definition rtab :: "RISCVCPUState \<Rightarrow> tlbidx \<Rightarrow> TLBEntry \<times> u64" where
  "rtab s i = (tlb_read s i, tlb_read_paddr_addend s i)"
definition wtab :: "RISCVCPUState \<Rightarrow> tlbidx \<Rightarrow> TLBEntry \<times> u64" where
  "wtab s i = (tlb_write s i, tlb_write_paddr_addend s i)"
definition ctab :: "RISCVCPUState \<Rightarrow> tlbidx \<Rightarrow> TLBEntry \<times> u64" where
  "ctab s i = (tlb_code s i, tlb_code_paddr_addend s i)"

definition tlb_coherent :: "'d sys \<Rightarrow> bool" where
  "tlb_coherent y \<longleftrightarrow> cache_ok (rtab (cpu y)) tlb_index etag (entry_good ACCESS_READ y)
     \<and> cache_ok (wtab (cpu y)) tlb_index etag (entry_good ACCESS_WRITE y)
     \<and> cache_ok (ctab (cpu y)) tlb_index etag (entry_good ACCESS_CODE y)"

section \<open>What a translation depends on\<close>

definition vm_ctx :: "RISCVCPUState \<Rightarrow> riscv_memory_access_t \<Rightarrow> _" where
  "vm_ctx s access = (effective_priv s access, satp s, mstatus s AND MSTATUS_SUM = 0, mstatus s AND MSTATUS_MXR = 0)"

lemma phys_read_cong:
  "host y = host y' \<Longrightarrow> mem_map y = mem_map y' \<Longrightarrow> riscv_phys_read n y a = riscv_phys_read n y' a"
  by (simp add: riscv_phys_read_def get_phys_mem_range_pmp_def riscv_cpu_pmp_access_ok_def cong: option.case_cong)

lemma leaf_ok_cong:
  "vm_ctx s access = vm_ctx s' access \<Longrightarrow> leaf_ok s p access pte j = leaf_ok s' p access pte j"
  by (simp add: leaf_ok_def vm_ctx_def Let_def)

lemma pt_walk_cong:
  assumes "\<And>a. riscv_phys_read 8 y a = riscv_phys_read 8 y' a" "vm_ctx (cpu y) access = vm_ctx (cpu y') access"
  shows "pt_walk n y p access va pa = pt_walk n y' p access va pa"
proof (induction n arbitrary: pa)
  case (Suc n)
  then show ?case
    by (simp only: pt_walk.simps Let_def assms(1) leaf_ok_cong[OF assms(2)])
qed simp

lemma get_phys_addr_cong:
  assumes "host y = host y'" "mem_map y = mem_map y'" "vm_ctx (cpu y) access = vm_ctx (cpu y') access"
  shows "riscv_cpu_get_phys_addr y va access = riscv_cpu_get_phys_addr y' va access"
  using pt_walk_cong[OF phys_read_cong[OF assms(1,2)] assms(3)] assms(3)
  by (simp add: riscv_cpu_get_phys_addr_def Let_def vm_ctx_def)

lemma entry_good_cong:
  assumes "host y = host y'" "mem_map y = mem_map y'" "vm_ctx (cpu y) access = vm_ctx (cpu y') access"
  shows "entry_good access y = entry_good access y'"
  using get_phys_addr_cong[OF assms] assms(2) by (intro ext) (simp add: entry_good_def)

section \<open>The fast paths are the slow paths\<close>

lemma PG_MASK_page: "addr AND NOT PG_MASK = page_of addr"
  by (simp add: PG_MASK_def page_of_def)

lemma tlb_tag_aligned:
  assumes "\<not> misaligned addr k" shows "tlb_tag addr k = page_of addr"
proof -
  have "addr AND mask k = 0" using assms by (simp add: misaligned_def mask_eq_exp_minus_1)
  then have low: "\<not> (bit addr n \<and> n < k)" for n
    by (metis bit_and_iff bit_mask_iff bit_0_eq bot_apply bot_bool_def possible_bit_word bit_word_below)
  have "tlb_tag addr k = addr AND NOT (mask 12 AND NOT (mask k))"
    by (simp add: tlb_tag_def PG_MASK_def low12_mask shift_mask[unfolded push_bit_of_1])
  also have "\<dots> = page_of addr"
    by (rule bit_eqI) (use low in \<open>auto simp: bit_page_of bit_and_iff bit_or_iff bit_not_iff bit_mask_iff\<close>)
  finally show ?thesis .
qed

lemma translate_good:
  assumes "entry_good access y addr e"
  obtains paddr i where "translate y addr access sz perm = Inr (paddr, i)" "pr_is_ram (mem_map y ! i)"
    "mem_addend (fst e) = ram_ptr (mem_map y ! i) paddr - addr" "snd e = paddr - addr"
    "access = ACCESS_WRITE \<longrightarrow> phys_mem_set_dirty_bit (mem_map y ! i) (paddr - pr_addr (mem_map y ! i)) = mem_map y ! i"
proof -
  from assms obtain paddr i where g: "riscv_cpu_get_phys_addr y addr access = PaOk paddr"
      "get_phys_mem_range (mem_map y) paddr = Some i" "pr_is_ram (mem_map y ! i)"
      "mem_addend (fst e) + addr = ram_ptr (mem_map y ! i) paddr" "snd e + addr = paddr"
      "access = ACCESS_WRITE \<longrightarrow> phys_mem_set_dirty_bit (mem_map y ! i) (paddr - pr_addr (mem_map y ! i)) = mem_map y ! i"
    by (auto simp: entry_good_def)
  show thesis
  proof (rule that)
    show "translate y addr access sz perm = Inr (paddr, i)"
      using g(1,2) by (simp add: translate_def get_phys_mem_range_pmp_def riscv_cpu_pmp_access_ok_def)
    show "mem_addend (fst e) = ram_ptr (mem_map y ! i) paddr - addr" "snd e = paddr - addr"
      using g(4,5) by (simp_all add: eq_diff_eq)
  qed (use g in blast)+
qed

lemma size_bytes: "k \<le> 3 \<Longrightarrow> (2 :: nat) ^ k \<le> 8"
  using power_increasing[of k 3 "2 :: nat"] by simp

lemma fill_same:
  assumes "vaddr (fst (t (tlb_index addr))) = page_of addr" "mem_addend (fst (t (tlb_index addr))) = m"
    "snd (t (tlb_index addr)) = a"
  shows "t (tlb_index addr) = (\<lparr>vaddr = addr AND NOT PG_MASK, mem_addend = m\<rparr>, a)"
  using assms by (simp add: PG_MASK_page prod_eq_iff)

definition truncated :: "nat \<Rightarrow> u64 option \<times> 'd sys \<Rightarrow> u64 option \<times> 'd sys" where
  "truncated k r = (map_option (take_bit (8 * 2 ^ k)) (fst r), snd r)"

lemma read_hit:
  assumes "tlb_coherent y" "k \<le> 3" "\<not> misaligned addr k"
    and hit: "vaddr (tlb_read (cpu y) (tlb_index addr)) = page_of addr"
  shows "truncated k (riscv_cpu_read_memory io y addr k)
    = (Some (le_load (host y) (mem_addend (tlb_read (cpu y) (tlb_index addr)) + addr) (2 ^ k)), y)"
proof -
  have "entry_good ACCESS_READ y addr (rtab (cpu y) (tlb_index addr))"
    using assms(1) hit by (intro rtlb.hit) (simp add: tlb_coherent_def, simp add: rtab_def)
  then obtain p i where t: "translate y addr ACCESS_READ (push_bit k 1) PMPCFG_R = Inr (p, i)"
      "pr_is_ram (mem_map y ! i)"
      "mem_addend (tlb_read (cpu y) (tlb_index addr)) = ram_ptr (mem_map y ! i) p - addr"
      "tlb_read_paddr_addend (cpu y) (tlb_index addr) = p - addr"
    by (rule translate_good[of ACCESS_READ y addr _ "push_bit k 1" PMPCFG_R]) (auto simp: rtab_def)
  have "upd_cpu (fill_read addr p (ram_ptr (mem_map y ! i) p)) y = y"
    using hit t(3,4) by (simp add: upd_cpu_def fill_read_def PG_MASK_page fun_upd_idem)
  with t assms(2,3) show ?thesis
    by (simp add: riscv_cpu_read_memory_def truncated_def le_load_bound size_bytes)
qed


lemma le_store_take: "n \<le> m \<Longrightarrow> le_store h p n (take_bit (8 * m) v) = le_store h p n v"
proof (induction n arbitrary: p v m)
  case (Suc n)
  then obtain m' where m: "m = Suc m'" "n \<le> m'" by (cases m) auto
  have "drop_bit 8 (take_bit (8 * m) v) = take_bit (8 * m') (drop_bit 8 v)"
    unfolding m by (rule bit_eqI) (auto simp: bit_simps)
  moreover have "ucast (take_bit (8 * m) v) = (ucast v :: u8)"
    unfolding m by (rule bit_eqI) (auto simp: bit_simps)
  ultimately show ?case using Suc.IH[OF m(2)] by simp
qed simp

lemma write_hit:
  assumes "tlb_coherent y" "\<not> misaligned addr k"
    and hit: "vaddr (tlb_write (cpu y) (tlb_index addr)) = page_of addr"
  shows "riscv_cpu_write_memory io y addr (take_bit (8 * 2 ^ k) val) k
    = (Some (), y\<lparr>host := le_store (host y) (mem_addend (tlb_write (cpu y) (tlb_index addr)) + addr) (2 ^ k) val\<rparr>)"
proof -
  have "entry_good ACCESS_WRITE y addr (wtab (cpu y) (tlb_index addr))"
    using assms(1) hit by (intro wtlb.hit) (simp add: tlb_coherent_def, simp add: wtab_def)
  then obtain p i where t: "translate y addr ACCESS_WRITE (push_bit k 1) PMPCFG_W = Inr (p, i)"
      "pr_is_ram (mem_map y ! i)"
      "mem_addend (tlb_write (cpu y) (tlb_index addr)) = ram_ptr (mem_map y ! i) p - addr"
      "tlb_write_paddr_addend (cpu y) (tlb_index addr) = p - addr"
      "phys_mem_set_dirty_bit (mem_map y ! i) (p - pr_addr (mem_map y ! i)) = mem_map y ! i"
    by (rule translate_good[of ACCESS_WRITE y addr _ "push_bit k 1" PMPCFG_W]) (auto simp: wtab_def)
  have "upd_cpu (fill_write addr p (ram_ptr (mem_map y ! i) p)) y = y"
    using hit t(3,4) by (simp add: upd_cpu_def fill_write_def PG_MASK_page fun_upd_idem)
  moreover have "y\<lparr>mem_map := (mem_map y)[i := mem_map y ! i]\<rparr> = y" by simp
  ultimately show ?thesis
    using t assms(2) by (simp add: riscv_cpu_write_memory_def Let_def le_store_take)
qed


definition low_half :: "u32 option \<times> 'd sys \<Rightarrow> u16 option \<times> 'd sys" where
  "low_half r = (map_option ucast (fst r), snd r)"

lemma ucast_ucast_u16: "(ucast (ucast (w :: u64) :: u32) :: u16) = ucast w"
  by (rule bit_eqI) (auto simp: bit_simps)

text \<open>
  With coherent TLBs the fetch of an instruction halfword behaves exactly as the slow fetch path:
  the same halfword or exception and the same state, whether the entry is cached or not.
\<close>

theorem target_read_insn_fast_slow:
  assumes "tlb_coherent y"
  shows "target_read_insn_u16 y addr = low_half (target_read_insn_slow y 16 addr)"
proof (cases "vaddr (tlb_code (cpu y) (tlb_index addr)) = page_of addr")
  case True
  have "entry_good ACCESS_CODE y addr (ctab (cpu y) (tlb_index addr))"
    using assms True by (intro ctlb.hit) (simp add: tlb_coherent_def, simp add: ctab_def)
  then obtain p i where t: "translate y addr ACCESS_CODE (of_nat (16 div 8)) PMPCFG_X = Inr (p, i)"
      "pr_is_ram (mem_map y ! i)"
      "mem_addend (tlb_code (cpu y) (tlb_index addr)) = ram_ptr (mem_map y ! i) p - addr"
      "tlb_code_paddr_addend (cpu y) (tlb_index addr) = p - addr"
    by (rule translate_good[of ACCESS_CODE y addr _ "of_nat (16 div 8)" PMPCFG_X]) (auto simp: ctab_def)
  have "upd_cpu (fill_code addr p (ram_ptr (mem_map y ! i) p)) y = y"
    using True t(3,4) by (simp add: upd_cpu_def fill_code_def PG_MASK_page fun_upd_idem)
  with True t show ?thesis
    by (simp add: target_read_insn_u16_def target_read_insn_slow_def PG_MASK_page low_half_def
        riscv_cpu_pmp_access_ok_def Let_def ucast_ucast_u16)
next
  case False
  then show ?thesis
    by (auto simp: target_read_insn_u16_def PG_MASK_page low_half_def split: prod.splits option.splits)
qed

section \<open>What keeps the TLBs coherent\<close>

definition tlb_empty :: "RISCVCPUState \<Rightarrow> bool" where
  "tlb_empty s \<longleftrightarrow> (\<forall>i. vaddr (tlb_read s i) = - 1 \<and> vaddr (tlb_write s i) = - 1 \<and> vaddr (tlb_code s i) = - 1)"

text \<open>A step of the hart that either drops all cached translations or leaves everything they depend on.\<close>

definition tlb_step :: "RISCVCPUState \<Rightarrow> RISCVCPUState \<Rightarrow> bool" where
  "tlb_step s s' \<longleftrightarrow> tlb_empty s' \<or>
     (rtab s' = rtab s \<and> wtab s' = wtab s \<and> ctab s' = ctab s \<and> (\<forall>access. vm_ctx s' access = vm_ctx s access))"

lemma tlb_empty_flush: "tlb_empty (tlb_flush_all s)"
  by (simp add: tlb_empty_def tlb_flush_all_def tlb_init_def)

lemma minus_one_not_aligned: "\<not> page_aligned (- 1)"
  by (simp add: page_aligned_def)

lemma tlb_coherent_empty: "tlb_empty (cpu y) \<Longrightarrow> tlb_coherent y"
  unfolding tlb_coherent_def
  by (intro conjI rtlb.flush wtlb.flush ctlb.flush)
    (simp_all add: tlb_empty_def rtab_def wtab_def ctab_def minus_one_not_aligned)

lemma tlb_coherent_step:
  assumes "tlb_coherent y" "tlb_step (cpu y) (cpu y')" "host y' = host y" "mem_map y' = mem_map y"
  shows "tlb_coherent y'"
proof (cases "tlb_empty (cpu y')")
  case True
  then show ?thesis by (rule tlb_coherent_empty)
next
  case False
  with assms(2) have same: "rtab (cpu y') = rtab (cpu y)" "wtab (cpu y') = wtab (cpu y)"
      "ctab (cpu y') = ctab (cpu y)" "vm_ctx (cpu y') access = vm_ctx (cpu y) access" for access
    by (auto simp: tlb_step_def)
  have "entry_good access y' = entry_good access y" for access
    using entry_good_cong[OF assms(3,4) same(4)] .
  with assms(1) same show ?thesis by (simp add: tlb_coherent_def)
qed

lemma tlb_step_refl [simp]: "tlb_step s s"
  by (simp add: tlb_step_def)

lemma tlb_step_trans: "tlb_step a b \<Longrightarrow> tlb_step b c \<Longrightarrow> tlb_step a c"
  by (auto simp: tlb_step_def tlb_empty_def rtab_def wtab_def ctab_def fun_eq_iff)

lemma tlb_step_flush: "tlb_step s (tlb_flush_all t)"
  by (simp add: tlb_step_def tlb_empty_flush)

lemmas tlb_step_unfold = tlb_step_def tlb_empty_def rtab_def wtab_def ctab_def vm_ctx_def effective_priv_def

lemma tlb_step_upds [simp]:
  "tlb_step s (t\<lparr>mie := w\<rparr>) = tlb_step s t" "tlb_step s (t\<lparr>mip := w\<rparr>) = tlb_step s t"
  "tlb_step s (t\<lparr>medeleg := w\<rparr>) = tlb_step s t" "tlb_step s (t\<lparr>mideleg := w\<rparr>) = tlb_step s t"
  "tlb_step s (t\<lparr>mcounteren := w\<rparr>) = tlb_step s t" "tlb_step s (t\<lparr>scounteren := w\<rparr>) = tlb_step s t"
  "tlb_step s (t\<lparr>mcountinhibit := w\<rparr>) = tlb_step s t" "tlb_step s (t\<lparr>mscratch := v\<rparr>) = tlb_step s t"
  "tlb_step s (t\<lparr>sscratch := v\<rparr>) = tlb_step s t" "tlb_step s (t\<lparr>mcause := v\<rparr>) = tlb_step s t"
  "tlb_step s (t\<lparr>scause := v\<rparr>) = tlb_step s t" "tlb_step s (t\<lparr>mtval := v\<rparr>) = tlb_step s t"
  "tlb_step s (t\<lparr>stval := v\<rparr>) = tlb_step s t" "tlb_step s (t\<lparr>mepc := v\<rparr>) = tlb_step s t"
  "tlb_step s (t\<lparr>sepc := v\<rparr>) = tlb_step s t" "tlb_step s (t\<lparr>mtvec := v\<rparr>) = tlb_step s t"
  "tlb_step s (t\<lparr>stvec := v\<rparr>) = tlb_step s t" "tlb_step s (t\<lparr>dcsr := v\<rparr>) = tlb_step s t"
  "tlb_step s (t\<lparr>dpc := v\<rparr>) = tlb_step s t" "tlb_step s (t\<lparr>dscratch := v\<rparr>) = tlb_step s t"
  "tlb_step s (t\<lparr>stop_the_counter := b\<rparr>) = tlb_step s t" "tlb_step s (t\<lparr>debug_mode := b\<rparr>) = tlb_step s t"
  "tlb_step s (t\<lparr>tselect := w\<rparr>) = tlb_step s t" "tlb_step s (t\<lparr>tdata1 := d\<rparr>) = tlb_step s t"
  "tlb_step s (t\<lparr>tdata2 := d\<rparr>) = tlb_step s t" "tlb_step s (t\<lparr>tdata3 := d\<rparr>) = tlb_step s t"
  "tlb_step s (t\<lparr>mhpmevent := e\<rparr>) = tlb_step s t" "tlb_step s (t\<lparr>mcycle := v\<rparr>) = tlb_step s t"
  "tlb_step s (t\<lparr>minstret := v\<rparr>) = tlb_step s t" "tlb_step s (t\<lparr>fflags := w\<rparr>) = tlb_step s t"
  "tlb_step s (t\<lparr>frm := f\<rparr>) = tlb_step s t" "tlb_step s (t\<lparr>fs := f\<rparr>) = tlb_step s t"
  "tlb_step s (t\<lparr>pc := v\<rparr>) = tlb_step s t" "tlb_step s (t\<lparr>reg := r\<rparr>) = tlb_step s t"
  "tlb_step s (t\<lparr>pending_exception := n\<rparr>) = tlb_step s t" "tlb_step s (t\<lparr>pending_tval := v\<rparr>) = tlb_step s t"
  by (simp_all add: tlb_step_unfold fun_eq_iff cong: if_cong split del: if_split)

lemma and_mask_unchanged: "(w XOR v) AND m = 0 \<Longrightarrow> bit m n \<Longrightarrow> bit (w :: u64) n = bit v n"
  by (metis bit_and_iff bit_xor_iff bit_0_eq bot_apply bot_bool_def)

lemma status_bit_test:
  "w AND MSTATUS_MPRV = 0 \<longleftrightarrow> \<not> bit w 17" "w AND MSTATUS_SUM = 0 \<longleftrightarrow> \<not> bit w 18"
  "w AND MSTATUS_MXR = 0 \<longleftrightarrow> \<not> bit w 19"
  using and_push_bit_1_eq_0_iff[of w 17] and_push_bit_1_eq_0_iff[of w 18] and_push_bit_1_eq_0_iff[of w 19]
  by (simp_all add: MSTATUS_MPRV_def MSTATUS_SUM_def MSTATUS_MXR_def)

lemma mpp_field: "bit w 11 = bit v 11 \<Longrightarrow> bit w 12 = bit v 12 \<Longrightarrow>
    (ucast (drop_bit 11 (w :: u64) AND 3) :: u8) = ucast (drop_bit 11 (v :: u64) AND 3)"
proof -
  assume eq: "bit w 11 = bit v 11" "bit w 12 = bit v 12"
  have three: "(3 :: u64) = mask 2" by (simp add: mask_eq_exp_minus_1)
  have "bit w (11 + n) = bit v (11 + n)" if "n < 2" for n
    using eq that less_2_cases[OF that] by auto
  then have "drop_bit 11 w AND 3 = drop_bit 11 v AND 3"
    unfolding three by (intro bit_eqI) (auto simp: bit_and_iff bit_mask_iff bit_drop_bit_eq)
  then show ?thesis by simp
qed

lemma tlb_step_set_mstatus: "tlb_step s (set_mstatus s val)"
proof (cases "(mstatus s XOR val) AND (MSTATUS_MPRV OR MSTATUS_SUM OR MSTATUS_MXR) \<noteq> 0
      \<or> mstatus s AND MSTATUS_MPRV \<noteq> 0 \<and> (mstatus s XOR val) AND MSTATUS_MPP \<noteq> 0")
  case True
  then show ?thesis
    by (simp add: set_mstatus_eq tlb_step_def tlb_empty_def tlb_flush_all_def tlb_init_def)
next
  case False
  define w where "w = (mstatus s AND NOT MSTATUS_WMASK) OR (val AND MSTATUS_WMASK)"
  have wb: "bit w n = (if bit MSTATUS_WMASK n then bit val n else bit (mstatus s) n)" for n
    by (simp only: w_def replace_bits)
  have keep: "bit (mstatus s) n = bit val n" if "n \<in> {17, 18, 19}" for n
    using False that by (intro and_mask_unchanged) (auto simp: bit_or_iff bit_of)
  have mpp: "bit (mstatus s) n = bit val n" if "n \<in> {11, 12}" "bit (mstatus s) 17" for n
    using False that by (intro and_mask_unchanged[of _ _ MSTATUS_MPP]) (auto simp: bit_of status_bit_test)
  have "vm_ctx (s\<lparr>fs := f, mstatus := w\<rparr>) access = vm_ctx s access" for f access
    using mpp_field[of w "mstatus s"] keep mpp
    by (auto simp: vm_ctx_def effective_priv_def status_bit_test wb bit_MSTATUS_WMASK)
  then show ?thesis
    using False unfolding set_mstatus_eq if_not_P[OF False]
    by (simp add: tlb_step_def rtab_def wtab_def ctab_def fun_eq_iff flip: w_def)
qed

lemma tlb_step_set_priv: "tlb_step s (set_priv p s)"
  by (simp add: set_priv_def tlb_step_def tlb_empty_def tlb_flush_all_def tlb_init_def)

lemma tlb_step_unpack: "tlb_step s (unpack_pmpaddrs t)"
  by (simp add: unpack_pmpaddrs_def tlb_step_flush)

lemma tlb_step_write_debug: "tlb_step s (snd (csr_write_debug s csr val))"
  by (simp add: csr_write_debug_def csr_write_pmp_def csr_write_counter_def Let_def tlb_step_unpack)

lemma tlb_step_write_machine: "tlb_step s (snd (csr_write_machine s csr val))"
  by (simp add: csr_write_machine_def Let_def tlb_step_set_mstatus tlb_step_write_debug)

lemma tlb_step_csr_write: "tlb_step s (snd (csr_write s csr val))"
  by (simp add: csr_write_def Let_def tlb_step_set_mstatus tlb_step_write_machine tlb_step_flush set_frm_def)


section \<open>Filling the TLBs\<close>

lemma translate_Inr:
  assumes "translate y addr access sz perm = Inr (paddr, i)"
  shows "riscv_cpu_get_phys_addr y addr access = PaOk paddr" "get_phys_mem_range (mem_map y) paddr = Some i"
  using assms
  by (auto simp: translate_def get_phys_mem_range_pmp_def riscv_cpu_pmp_access_ok_def
      split: pa_result.splits option.splits if_splits)

lemma entry_good_fill:
  assumes "translate y addr access sz perm = Inr (paddr, i)" "pr_is_ram (mem_map y ! i)" "access \<noteq> ACCESS_WRITE"
  shows "entry_good access y addr (\<lparr>vaddr = v, mem_addend = ram_ptr (mem_map y ! i) paddr - addr\<rparr>, paddr - addr)"
  using translate_Inr[OF assms(1)] assms(2,3) by (auto simp: entry_good_def)

lemma tlb_coherent_fill_read:
  assumes "sys_ok y" "tlb_coherent y" "translate y addr ACCESS_READ sz perm = Inr (paddr, i)" "pr_is_ram (mem_map y ! i)"
  shows "tlb_coherent (upd_cpu (fill_read addr paddr (ram_ptr (mem_map y ! i) paddr)) y)" (is "tlb_coherent ?y")
proof -
  let ?e = "(\<lparr>vaddr = page_of addr, mem_addend = ram_ptr (mem_map y ! i) paddr - addr\<rparr>, paddr - addr)"
  have tabs: "rtab (cpu ?y) = (rtab (cpu y))(tlb_index addr := ?e)" "wtab (cpu ?y) = wtab (cpu y)"
      "ctab (cpu ?y) = ctab (cpu y)"
    by (auto simp: fun_eq_iff rtab_def wtab_def ctab_def fill_read_def PG_MASK_page)
  have ctx: "vm_ctx (cpu ?y) a = vm_ctx (cpu y) a" for a
    by (simp add: vm_ctx_def effective_priv_def fill_read_def)
  have good: "entry_good a ?y = entry_good a y" for a
    by (rule entry_good_cong) (simp, simp, rule ctx)
  have "cache_ok ((rtab (cpu y))(tlb_index addr := ?e)) tlb_index etag (entry_good ACCESS_READ y)"
    using assms(2) entry_good_fill[OF assms(3,4)] by (intro rtlb.fill assms(1)) (simp_all add: tlb_coherent_def)
  with assms(2) show ?thesis unfolding tlb_coherent_def tabs good by simp
qed

lemma tlb_coherent_fill_code:
  assumes "sys_ok y" "tlb_coherent y" "translate y addr ACCESS_CODE sz perm = Inr (paddr, i)" "pr_is_ram (mem_map y ! i)"
  shows "tlb_coherent (upd_cpu (fill_code addr paddr (ram_ptr (mem_map y ! i) paddr)) y)" (is "tlb_coherent ?y")
proof -
  let ?e = "(\<lparr>vaddr = page_of addr, mem_addend = ram_ptr (mem_map y ! i) paddr - addr\<rparr>, paddr - addr)"
  have tabs: "ctab (cpu ?y) = (ctab (cpu y))(tlb_index addr := ?e)" "wtab (cpu ?y) = wtab (cpu y)"
      "rtab (cpu ?y) = rtab (cpu y)"
    by (auto simp: fun_eq_iff rtab_def wtab_def ctab_def fill_code_def PG_MASK_page)
  have ctx: "vm_ctx (cpu ?y) a = vm_ctx (cpu y) a" for a
    by (simp add: vm_ctx_def effective_priv_def fill_code_def)
  have good: "entry_good a ?y = entry_good a y" for a
    by (rule entry_good_cong) (simp, simp, rule ctx)
  have "cache_ok ((ctab (cpu y))(tlb_index addr := ?e)) tlb_index etag (entry_good ACCESS_CODE y)"
    using assms(2) entry_good_fill[OF assms(3,4)] by (intro ctlb.fill assms(1)) (simp_all add: tlb_coherent_def)
  with assms(2) show ?thesis unfolding tlb_coherent_def tabs good by simp
qed

lemma tlb_coherent_pend: "tlb_coherent y \<Longrightarrow> tlb_coherent (upd_cpu (pend c a) y)"
  by (erule tlb_coherent_step) (simp_all add: pend_def)

lemma sys_ok_cpu: "sys_ok y \<Longrightarrow> satp (f (cpu y)) = satp (cpu y) \<Longrightarrow> sys_ok (upd_cpu f y)"
  by (simp add: sys_ok_def satp_mode_def)

text \<open>
  Fetching an instruction, successfully or not, keeps the TLBs coherent: what a fetch caches is
  what the page tables say.
\<close>

theorem fetch_keeps_tlb_coherent:
  assumes "sys_ok y" "tlb_coherent y"
  shows "tlb_coherent (snd (target_read_insn_slow y sz addr))"
proof (cases "translate y addr ACCESS_CODE (of_nat (sz div 8)) PMPCFG_X")
  case (Inl c)
  then show ?thesis using assms by (simp add: target_read_insn_slow_def Let_def tlb_coherent_pend)
next
  case (Inr r)
  obtain p i where r: "r = (p, i)" by (cases r)
  show ?thesis
  proof (cases "pr_is_ram (mem_map y ! i)")
    case True
    have "tlb_coherent (upd_cpu (fill_code addr p (ram_ptr (mem_map y ! i) p)) y)"
      by (rule tlb_coherent_fill_code[OF assms]) (use Inr r True in auto)
    then show ?thesis
      using Inr r True by (auto simp: target_read_insn_slow_def Let_def riscv_cpu_pmp_access_ok_def
          tlb_coherent_pend split: sum.splits)
  qed (use Inr r assms in \<open>simp add: target_read_insn_slow_def Let_def tlb_coherent_pend\<close>)
qed

section \<open>Memory safety\<close>

text \<open>The host block of a RAM range.\<close>

definition ram_block :: "PhysMemoryRange \<Rightarrow> u64 set" where
  "ram_block pr = {pr_phys_mem pr + o' | o'. o' < pr_size pr}"

lemma aligned_fits_page:
  assumes "k \<le> 3" "\<not> misaligned addr k" "i < 2 ^ k"
  shows "page_of (addr + of_nat i) = page_of addr"
proof -
  have "addr AND mask k = 0" using assms(2) by (simp add: misaligned_def mask_eq_exp_minus_1)
  have i: "\<not> bit (of_nat i :: u64) n" if "k \<le> n" for n
  proof -
    have "i = take_bit k i" using assms(3) by (simp add: take_bit_nat_eq_self)
    then have "\<not> bit i n" using that by (metis bit_take_bit_iff leD)
    then show ?thesis by (simp add: bit_of_nat_iff)
  qed
  have a: "\<not> bit addr n" if "n < k" for n
    using \<open>addr AND mask k = 0\<close> that
    by (metis bit_and_iff bit_mask_iff bit_0_eq bot_apply bot_bool_def possible_bit_word bit_word_below)
  have "addr + of_nat i = addr OR of_nat i"
    by (rule disjunctive_add) (use i a in \<open>auto simp: not_less\<close>, metis not_le)
  then show ?thesis
    by (simp only:) (rule bit_eqI, use i assms(1) in \<open>auto simp: bit_page_of bit_or_iff\<close>)
qed

text \<open>The host bytes behind the page of a RAM address lie in the block of the range.\<close>

lemma page_in_block:
  assumes "map_ok m" "get_phys_mem_range m paddr = Some r" "pr_is_ram (m ! r)"
    and "page_of (paddr + of_nat i) = page_of paddr"
  shows "ram_ptr (m ! r) paddr + of_nat i \<in> ram_block (m ! r)"
proof -
  let ?p = "paddr + of_nat i"
  have "get_phys_mem_range m ?p = Some r" using map_ok_page_uniform[OF assms(1,2,3)] assms(4) by simp
  then have "r < length m" "in_range (m ! r) ?p" by (auto simp: lookup_Some)
  moreover have "unat (pr_addr (m ! r)) + unat (pr_size (m ! r)) < 2 ^ 64"
    using assms(1,3) \<open>r < length m\<close> by (auto simp: map_ok_def whole_pages_def)
  ultimately have "unat (pr_addr (m ! r)) \<le> unat ?p" "unat ?p < unat (pr_addr (m ! r)) + unat (pr_size (m ! r))"
    using in_range_unat by blast+
  then have "?p - pr_addr (m ! r) < pr_size (m ! r)"
    by (simp add: word_less_nat_alt unat_sub word_le_nat_alt)
  moreover have "ram_ptr (m ! r) paddr + of_nat i = pr_phys_mem (m ! r) + (?p - pr_addr (m ! r))"
    by (simp add: ram_ptr_def algebra_simps)
  ultimately show ?thesis unfolding ram_block_def by blast
qed


section \<open>What the walk grants\<close>

text \<open>
  The permission of a leaf entry, bit by bit, as the privileged architecture states it: valid, not
  write-only, readable (or executable with \<^verbatim>\<open>MXR\<close>), writable and dirty, or executable as the access asks,
  accessed, and of a page the effective privilege may use.
\<close>

definition pte_permits :: "RISCVCPUState \<Rightarrow> u8 \<Rightarrow> riscv_memory_access_t \<Rightarrow> u64 \<Rightarrow> bool" where
  "pte_permits s p access pte \<longleftrightarrow> bit pte 0 \<and> (bit pte 2 \<longrightarrow> bit pte 1) \<and> bit pte 6
     \<and> (case access of ACCESS_READ \<Rightarrow> bit pte 1 \<or> bit (mstatus s) 19 \<and> bit pte 3
          | ACCESS_WRITE \<Rightarrow> bit pte 2 \<and> bit pte 7 | ACCESS_CODE \<Rightarrow> bit pte 3)
     \<and> (if p = PRV_S then bit pte 4 \<longrightarrow> bit (mstatus s) 18 else bit pte 4)"

lemma bit_and_7: "bit (w AND 7 :: u64) n \<longleftrightarrow> n < 3 \<and> bit w n"
proof -
  have "(7 :: u64) = mask 3" by (simp add: mask_eq_exp_minus_1)
  then show ?thesis by (auto simp only: bit_and_iff bit_mask_iff possible_bit_word dest: bit_word_below)
qed

lemma xwr_write_only:
  assumes "bit pte 2" "\<not> bit pte 1" shows "drop_bit 1 pte AND 7 = (2 :: u64) \<or> drop_bit 1 pte AND 7 = (6 :: u64)"
proof -
  have n: "n < 3 \<longleftrightarrow> n = 0 \<or> n = 1 \<or> n = 2" for n :: nat by auto
  have b: "bit pte (Suc (Suc 0))" "\<not> bit pte (Suc 0)" "Suc 2 = 3"
    using assms by (simp_all add: numeral_2_eq_2)
  have "drop_bit 1 pte AND 7 = push_bit 1 1" if "\<not> bit pte 3"
    by (rule bit_eqI, unfold bit_and_7 bit_pow2 n) (use b that in \<open>auto simp: bit_drop_bit_eq\<close>)
  moreover have "drop_bit 1 pte AND 7 = push_bit 1 3" if "bit pte 3"
    by (rule bit_eqI, unfold bit_and_7 bit_push3 n) (use b that in \<open>auto simp: bit_drop_bit_eq numeral_2_eq_2 numeral_3_eq_3\<close>)
  ultimately show ?thesis by (cases "bit pte 3") auto
qed

lemma pte_bit_test:
  "w AND PTE_V_MASK = 0 \<longleftrightarrow> \<not> bit w 0" "w AND PTE_U_MASK = 0 \<longleftrightarrow> \<not> bit w 4"
  "w AND PTE_A_MASK = 0 \<longleftrightarrow> \<not> bit w 6" "w AND PTE_D_MASK = 0 \<longleftrightarrow> \<not> bit w 7"
  using and_push_bit_1_eq_0_iff[of w 0] and_push_bit_1_eq_0_iff[of w 4] and_push_bit_1_eq_0_iff[of w 6]
    and_push_bit_1_eq_0_iff[of w 7]
  by (simp_all add: PTE_V_MASK_def PTE_U_MASK_def PTE_A_MASK_def PTE_D_MASK_def)

lemma leaf_ok_permits:
  assumes "leaf_ok s p access pte j" "bit pte 0"
  shows "pte_permits s p access pte"
proof -
  define xwr where "xwr = drop_bit 1 pte AND 7"
  define xwr' where "xwr' = (if mstatus s AND MSTATUS_MXR \<noteq> 0 then xwr OR drop_bit 2 xwr else xwr)"
  have xb: "bit xwr n \<longleftrightarrow> n < 3 \<and> bit pte (1 + n)" for n
    by (simp add: xwr_def bit_and_7 bit_drop_bit_eq)
  have l: "xwr \<noteq> 2" "xwr \<noteq> 6" "p = 1 \<Longrightarrow> bit pte 4 \<Longrightarrow> bit (mstatus s) 18" "p \<noteq> 1 \<Longrightarrow> bit pte 4"
      "drop_bit (access_code access) xwr' AND 1 \<noteq> 0" "bit pte 6" "access = ACCESS_WRITE \<Longrightarrow> bit pte 7"
    using assms(1) unfolding leaf_ok_def Let_def xwr_def[symmetric] xwr'_def[symmetric]
    by (auto simp: pte_bit_test status_bit_test split: if_splits)
  have "bit xwr' (access_code access)"
    using l(5) by (simp add: and_1_eq_0_iff bit_drop_bit_eq)
  then have "case access of ACCESS_READ \<Rightarrow> bit pte 1 \<or> bit (mstatus s) 19 \<and> bit pte 3
      | ACCESS_WRITE \<Rightarrow> bit pte 2 | ACCESS_CODE \<Rightarrow> bit pte 3"
    by (cases access) (auto simp: xwr'_def bit_or_iff bit_drop_bit_eq xb status_bit_test numeral_3_eq_3
        numeral_2_eq_2 split: if_splits)
  moreover have "bit pte 2 \<longrightarrow> bit pte 1" using l(1,2) xwr_write_only[of pte] by (auto simp: xwr_def)
  ultimately show ?thesis using l assms(2) by (auto simp: pte_permits_def split: riscv_memory_access_t.splits)
qed

lemma pt_walk_sound:
  "pt_walk n y p access va pa = PaOk q \<Longrightarrow> \<exists>j a pte. j < n \<and> riscv_phys_read 8 y a = Some pte
     \<and> pte_permits (cpu y) p access pte
     \<and> q = (push_bit 12 (drop_bit 10 pte) AND NOT (mask (12 + 9 * j))) OR (va AND mask (12 + 9 * j))"
proof (induction n arbitrary: pa)
  case (Suc n)
  let ?a = "pa + push_bit 3 (drop_bit (12 + 9 * n) va AND 0x1ff)"
  obtain pte where pte: "riscv_phys_read 8 y ?a = Some pte" "bit pte 0"
    using Suc.prems by (auto simp: Let_def pte_bit_test split: option.splits if_splits)
  show ?case
  proof (cases "drop_bit 1 pte AND 7 \<noteq> 0")
    case True
    with Suc.prems pte have "leaf_ok (cpu y) p access pte n"
      "q = (push_bit 12 (drop_bit 10 pte) AND NOT (mask (12 + 9 * n))) OR (va AND mask (12 + 9 * n))"
      unfolding pt_walk.simps Let_def shift_mask by (auto simp: pte_bit_test split: if_splits)
    with pte show ?thesis using leaf_ok_permits by blast
  next
    case False
    with Suc.prems pte have "pt_walk n y p access va (push_bit 12 (drop_bit 10 pte)) = PaOk q"
      unfolding pt_walk.simps Let_def by (simp add: pte_bit_test)
    from Suc.IH[OF this] show ?thesis using less_SucI by blast
  qed
qed simp


section \<open>A concrete machine\<close>

text \<open>
  One RAM range of 64 KiB at \<^verbatim>\<open>0x80000000\<close>; its first doubleword is a page-table entry that maps the
  first gigabyte of virtual addresses onto RAM for supervisor mode.
\<close>

definition demo_ram :: PhysMemoryRange where
  "demo_ram = null_range\<lparr>pr_is_ram := True, pr_addr := 0x80000000, pr_org_size := 0x10000,
     pr_size := 0x10000, pr_phys_mem := 0x7f0000000000\<rparr>"

definition demo_sys :: "unit sys" where
  "demo_sys = \<lparr>cpu = (riscv_cpu_init 0x10000 False 0)\<lparr>physical_addr_len := 56, priv := PRV_S,
       satp := 0x8000000000080000\<rparr>,
     host = (\<lambda>_. 0)(0x7f0000000000 := 0xcf, 0x7f0000000003 := 0x20),
     mem_map = [demo_ram], vm = \<lparr>maxinsns = 0, cosim = False, vm_pending_interrupt = - 1,
       vm_pending_exception = - 1\<rparr>, dev = ()\<rparr>"

definition null_mmio :: "unit mmio" where
  "null_mmio = \<lparr>read_func = (\<lambda>d off k y. (0, y)), write_func = (\<lambda>d off v k y. y)\<rparr>"

lemma demo_cpu [simp]:
  "priv (cpu demo_sys) = PRV_S" "satp (cpu demo_sys) = 0x8000000000080000" "tlb_empty (cpu demo_sys)"
  "mem_map demo_sys = [demo_ram]" "mstatus (cpu demo_sys) = push_bit 32 2 OR push_bit 34 2 OR push_bit 11 3"
  "host demo_sys = (\<lambda>_. 0)(0x7f0000000000 := 0xcf, 0x7f0000000003 := 0x20)"
  by (simp_all add: demo_sys_def riscv_cpu_init_def tlb_init_def tlb_empty_def)

lemma demo_coherent: "tlb_coherent demo_sys"
  by (simp add: tlb_coherent_empty)

lemma demo_map_ok: "map_ok [demo_ram]"
  by (simp add: map_ok_def demo_ram_def whole_pages_def page_aligned_def null_range_def)

lemma demo_sys_ok: "sys_ok demo_sys"
  by (simp add: sys_ok_def demo_map_ok satp_mode_def drop_bit_eq_div)

lemma demo_priv: "effective_priv (cpu demo_sys) access = PRV_S"
  by (simp add: effective_priv_def status_bit_test bit_simps)

lemma le_load_numeral: "le_load h p (numeral k) = ucast (h p) OR push_bit 8 (le_load h (p + 1) (pred_numeral k))"
  by (simp add: numeral_eq_Suc)

lemma demo_lookup: "get_phys_mem_range [demo_ram] a = (if 0x80000000 \<le> a \<and> a < 0x80010000 then Some 0 else None)"
  by (simp add: get_phys_mem_range_def in_range_def demo_ram_def)

lemma demo_pte: "riscv_phys_read 8 demo_sys 0x80000000 = Some 0x200000cf"
  by (simp add: riscv_phys_read_def get_phys_mem_range_pmp_def riscv_cpu_pmp_access_ok_def
      demo_lookup ram_ptr_def le_load_numeral) (simp add: demo_ram_def push_bit_eq_mult)

lemma demo_translate: "riscv_cpu_get_phys_addr demo_sys 0x1234 ACCESS_READ = PaOk 0x80001234"
proof -
  have leaf: "leaf_ok (cpu demo_sys) 1 ACCESS_READ 0x200000cf 2"
    by (simp add: leaf_ok_def Let_def pte_bit_test status_bit_test drop_bit_eq_div)
  have "pt_walk (Suc 2) demo_sys 1 ACCESS_READ 0x1234 0x80000000 = PaOk 0x80001234"
    using demo_pte leaf unfolding pt_walk.simps by (simp add: Let_def drop_bit_eq_div pte_bit_test push_bit_eq_mult)
  then show ?thesis
    by (simp add: riscv_cpu_get_phys_addr_def demo_priv Let_def drop_bit_eq_div push_bit_eq_mult)
qed



theorem target_read_insn_fast_slow_witness:
  "target_read_insn_u16 demo_sys 0x100 = low_half (target_read_insn_slow demo_sys 16 0x100)"
  by (rule target_read_insn_fast_slow) (rule demo_coherent)


theorem fetch_keeps_tlb_coherent_witness:
  "tlb_coherent (snd (target_read_insn_slow demo_sys 32 0x100))"
  by (rule fetch_keeps_tlb_coherent) (simp_all add: demo_coherent demo_sys_ok)



end
