(* ===== verification/Alu.thy ===== *)
theory Alu
  imports Prelude
begin

unbundle bit_operations_syntax

text \<open>
  The arithmetic helpers at the head of \<^verbatim>\<open>dromajo_template.h\<close>, instantiated there for \<^verbatim>\<open>XLEN\<close> 32 and 64:
  division and remainder with the results the architecture fixes for a zero divisor and for overflow,
  and the high halves of products, in the variant that uses 128-bit integers and in the portable one.
\<close>

section \<open>Division\<close>

text \<open>C division of signed integers truncates towards zero.\<close>

definition c_div :: "int \<Rightarrow> int \<Rightarrow> int" where
  "c_div a b = sgn a * sgn b * (\<bar>a\<bar> div \<bar>b\<bar>)"

definition c_rem :: "int \<Rightarrow> int \<Rightarrow> int" where
  "c_rem a b = a - c_div a b * b"

definition INT_MIN :: "'a::len word" where
  "INT_MIN = push_bit (LENGTH('a) - 1) 1"

definition div_s :: "'a::len word \<Rightarrow> 'a word \<Rightarrow> 'a word" where
  "div_s a b = (if b = 0 then - 1 else if a = INT_MIN \<and> b = - 1 then a
     else word_of_int (c_div (sint a) (sint b)))"

definition div_u :: "'a::len word \<Rightarrow> 'a word \<Rightarrow> 'a word" where
  "div_u a b = (if b = 0 then - 1 else a div b)"

definition rem_s :: "'a::len word \<Rightarrow> 'a word \<Rightarrow> 'a word" where
  "rem_s a b = (if b = 0 then a else if a = INT_MIN \<and> b = - 1 then 0
     else word_of_int (c_rem (sint a) (sint b)))"

definition rem_u :: "'a::len word \<Rightarrow> 'a word \<Rightarrow> 'a word" where
  "rem_u a b = (if b = 0 then a else a mod b)"

section \<open>High products\<close>

definition mulh64 :: "u64 \<Rightarrow> u64 \<Rightarrow> u64" where
  "mulh64 a b = ucast (signed_drop_bit 64 (scast a * scast b :: 128 word))"

definition mulhsu64 :: "u64 \<Rightarrow> u64 \<Rightarrow> u64" where
  "mulhsu64 a b = ucast (signed_drop_bit 64 (scast a * ucast b :: 128 word))"

definition mulhu64 :: "u64 \<Rightarrow> u64 \<Rightarrow> u64" where
  "mulhu64 a b = ucast (signed_drop_bit 64 (ucast a * ucast b :: 128 word))"

text \<open>The portable variant builds the product from 32-bit halves.\<close>

definition mulhu_portable :: "u64 \<Rightarrow> u64 \<Rightarrow> u64" where
  "mulhu_portable a b =
     (let a0 = ucast (ucast a :: u32) :: u64; a1 = ucast (ucast (drop_bit 32 a) :: u32) :: u64;
          b0 = ucast (ucast b :: u32) :: u64; b1 = ucast (ucast (drop_bit 32 b) :: u32) :: u64;
          r00 = a0 * b0; r01 = a0 * b1; r10 = a1 * b0; r11 = a1 * b1;
          lo32 = (\<lambda>w :: u64. ucast (ucast w :: u32) :: u64);
          c = drop_bit 32 r00 + lo32 r01 + lo32 r10;
          c' = drop_bit 32 c + drop_bit 32 r01 + drop_bit 32 r10 + lo32 r11;
          r2 = lo32 c';
          r3 = lo32 (drop_bit 32 c' + drop_bit 32 r11)
      in push_bit 32 r3 OR r2)"

definition mulh_portable :: "u64 \<Rightarrow> u64 \<Rightarrow> u64" where
  "mulh_portable a b =
     (let r1 = mulhu_portable a b;
          r1' = (if sint a < 0 then r1 - a else r1)
      in if sint b < 0 then r1' - b else r1')"

definition mulhsu_portable :: "u64 \<Rightarrow> u64 \<Rightarrow> u64" where
  "mulhsu_portable a b = (let r1 = mulhu_portable a b in if sint a < 0 then r1 - a else r1)"

section \<open>Division and remainder belong together\<close>

lemma c_div_rem: "a = c_div a b * b + c_rem a b"
  by (simp add: c_rem_def)

lemma c_rem_bound: "b \<noteq> 0 \<Longrightarrow> \<bar>c_rem a b\<bar> < \<bar>b\<bar> \<and> (c_rem a b = 0 \<or> sgn (c_rem a b) = sgn a)"
proof -
  assume b: "b \<noteq> 0"
  have "c_rem a b = sgn a * (\<bar>a\<bar> mod \<bar>b\<bar>)"
  proof -
    have "sgn b * b = \<bar>b\<bar>" by (simp add: abs_sgn mult.commute)
    then have "c_div a b * b = sgn a * (\<bar>a\<bar> div \<bar>b\<bar> * \<bar>b\<bar>)"
      by (simp add: c_div_def mult.assoc mult.left_commute)
    moreover have "a = sgn a * \<bar>a\<bar>" by (simp add: sgn_mult_abs)
    ultimately show ?thesis
      by (simp add: c_rem_def minus_div_mult_eq_mod [symmetric] right_diff_distrib)
  qed
  moreover have "\<bar>a\<bar> mod \<bar>b\<bar> \<ge> 0" "\<bar>a\<bar> mod \<bar>b\<bar> < \<bar>b\<bar>" using b by simp_all
  ultimately show ?thesis
    by (auto simp: abs_mult sgn_mult sgn_if)
qed

lemma twice_INT_MIN: "INT_MIN + INT_MIN = (0 :: 'a::len word)"
proof -
  have "INT_MIN + INT_MIN = (2 :: 'a word) ^ Suc (LENGTH('a) - 1)"
    by (simp only: INT_MIN_def push_bit_of_1 power_Suc mult_2)
  moreover have "Suc (LENGTH('a) - 1) = LENGTH('a)" by simp
  ultimately show ?thesis by (simp only: word_exp_length_eq_0)
qed


section \<open>High products are exact\<close>

lemma high_half: "ucast (signed_drop_bit 64 (w :: 128 word)) = (ucast (drop_bit 64 w) :: u64)"
  by (rule bit_eqI) (auto simp: bit_simps)

lemma high_half_int: "(ucast (drop_bit 64 (word_of_int k :: 128 word)) :: u64) = word_of_int (k div 2 ^ 64)"
proof -
  have "bit (ucast (drop_bit 64 (word_of_int k :: 128 word)) :: u64) n = bit (word_of_int (k div 2 ^ 64) :: u64) n" for n
    unfolding drop_bit_eq_div[symmetric] by (auto simp: bit_simps bit_word_of_int_iff)
  then show ?thesis by (rule bit_eqI)
qed

lemma mulhu64_int: "mulhu64 a b = word_of_int ((uint a * uint b) div 2 ^ 64)"
  using high_half_int[of "uint a * uint b"]
  by (simp add: mulhu64_def high_half flip: wi_hom_mult)

lemma mulh64_int: "mulh64 a b = word_of_int ((sint a * sint b) div 2 ^ 64)"
  using high_half_int[of "sint a * sint b"]
  by (simp add: mulh64_def high_half flip: wi_hom_mult)

lemma mulhsu64_int: "mulhsu64 a b = word_of_int ((sint a * uint b) div 2 ^ 64)"
  using high_half_int[of "sint a * uint b"]
  by (simp add: mulhsu64_def high_half flip: wi_hom_mult)

lemma high_product_halves:
  fixes A0 A1 B0 B1 M :: nat
  assumes "0 < M"
  defines "c \<equiv> A0 * B0 div M + A0 * B1 mod M + A1 * B0 mod M"
  defines "c' \<equiv> c div M + A0 * B1 div M + A1 * B0 div M + A1 * B1 mod M"
  shows "(A1 * M + A0) * (B1 * M + B0) div (M * M) = (c' div M + A1 * B1 div M) * M + c' mod M"
proof -
  have r: "x = M * (x div M) + x mod M" for x by simp
  have mc: "M * c = M * (M * (c div M)) + M * (c mod M)" using r[of c] by (metis distrib_left)
  have "(A1 * M + A0) * (B1 * M + B0) = M * M * (A1 * B1) + (M * (A0 * B1 + A1 * B0) + A0 * B0)"
    by (simp add: algebra_simps)
  also have "\<dots> = M * M * (A1 * B1) + (M * (A0 * B1 + A1 * B0 + A0 * B0 div M) + A0 * B0 mod M)"
    using r[of "A0 * B0"] by (simp add: algebra_simps)
  also have "\<dots> = M * M * (A1 * B1) + (M * (M * (A0 * B1 div M + A1 * B0 div M) + c) + A0 * B0 mod M)"
    using r[of "A0 * B1"] r[of "A1 * B0"] by (simp add: c_def algebra_simps)
  also have "\<dots> = M * M * (A1 * B1 + A0 * B1 div M + A1 * B0 div M + c div M) + (M * (c mod M) + A0 * B0 mod M)"
    by (simp add: mc algebra_simps)
  finally have "(A1 * M + A0) * (B1 * M + B0)
      = M * M * (A1 * B1 + A0 * B1 div M + A1 * B0 div M + c div M) + (M * (c mod M) + A0 * B0 mod M)" .
  moreover have "M * (c mod M) + A0 * B0 mod M < M * M"
  proof -
    have "M * (c mod M) + A0 * B0 mod M < M * (c mod M) + M" using assms(1) by simp
    also have "\<dots> = M * Suc (c mod M)" by simp
    also have "\<dots> \<le> M * M" using assms(1) by (intro mult_le_mono2) (simp add: Suc_leI)
    finally show ?thesis .
  qed
  ultimately have "(A1 * M + A0) * (B1 * M + B0) div (M * M) = A1 * B1 + A0 * B1 div M + A1 * B0 div M + c div M"
    by (simp only:) (rule div_nat_eqI, simp_all)
  also have "\<dots> = M * (A1 * B1 div M) + c'"
    using r[of "A1 * B1"] by (simp add: c'_def)
  also have "\<dots> = (c' div M + A1 * B1 div M) * M + c' mod M"
    using r[of c'] by (simp add: algebra_simps)
  finally show ?thesis .
qed

lemma lo32_unat: "unat (ucast (ucast (w :: u64) :: u32) :: u64) = unat w mod 2 ^ 32"
  by (simp add: unsigned_ucast_eq take_bit_eq_mod unat_mod_distrib)

lemma hi32_unat: "unat (drop_bit 32 (w :: u64)) = unat w div 2 ^ 32"
  by (simp add: drop_bit_eq_div unat_div_distrib)

lemma unat_mult_small: "unat x < 2 ^ 32 \<Longrightarrow> unat y < 2 ^ 32 \<Longrightarrow> unat (x * y :: u64) = unat x * unat y"
proof -
  assume "unat x < 2 ^ 32" "unat y < 2 ^ 32"
  then have "unat x * unat y < 2 ^ 32 * 2 ^ 32" by (intro mult_strict_mono) auto
  then show ?thesis by (simp add: unat_word_ariths)
qed

lemma unat_add_small: "unat x + unat y < 2 ^ 64 \<Longrightarrow> unat (x + y :: u64) = unat x + unat y"
  by (simp add: unat_word_ariths)

lemma or_push_unat: "unat w < 2 ^ 32 \<Longrightarrow> unat v < 2 ^ 32 \<Longrightarrow> unat (push_bit 32 v OR w :: u64) = unat v * 2 ^ 32 + unat w"
proof -
  assume w: "unat w < 2 ^ 32" and v: "unat v < 2 ^ 32"
  have "w = take_bit 32 w" using w
    by (simp add: word_unat_eq_iff unsigned_take_bit_eq take_bit_nat_eq_self)
  then have "\<not> bit w n" if "32 \<le> n" for n using that by (metis bit_take_bit_iff leD)
  then have "push_bit 32 v OR w = push_bit 32 v + w"
    by (intro disjunctive_add[symmetric]) (auto simp: bit_push_bit_iff)
  moreover have "unat (push_bit 32 v) = unat v * 2 ^ 32"
    using v by (simp add: push_bit_eq_mult unat_word_ariths mult.commute)
  ultimately show ?thesis using w v unat_add_small[of "push_bit 32 v" w] by simp
qed

lemma mulhu_portable_unat: "unat (mulhu_portable a b) = unat a * unat b div 2 ^ 64"
proof -
  let ?M = "2 ^ 32 :: nat"
  define lo32 where "lo32 w = (ucast (ucast w :: u32) :: u64)" for w :: u64
  define a0 a1 b0 b1 where words: "a0 = lo32 a" "a1 = lo32 (drop_bit 32 a)" "b0 = lo32 b" "b1 = lo32 (drop_bit 32 b)"
  define c where "c = drop_bit 32 (a0 * b0) + lo32 (a0 * b1) + lo32 (a1 * b0)"
  define c' where "c' = drop_bit 32 c + drop_bit 32 (a0 * b1) + drop_bit 32 (a1 * b0) + lo32 (a1 * b1)"
  have small: "unat w div ?M < ?M" for w :: u64
    using unsigned_less[of w] by (simp add: div_less_iff_less_mult)
  have lo: "unat (lo32 w) = unat w mod ?M" for w by (simp only: lo32_def lo32_unat)
  have split: "unat a = unat a1 * ?M + unat a0" "unat b = unat b1 * ?M + unat b0"
    using small by (simp_all add: words lo hi32_unat)
  have lt: "unat (lo32 w) < ?M" "unat (drop_bit 32 w) < ?M" for w
    using small by (simp_all add: lo hi32_unat)
  have prod: "unat (a0 * b0) = unat a0 * unat b0" "unat (a0 * b1) = unat a0 * unat b1"
      "unat (a1 * b0) = unat a1 * unat b0" "unat (a1 * b1) = unat a1 * unat b1"
    unfolding words by (intro unat_mult_small lt)+
  have c: "unat c = unat a0 * unat b0 div ?M + unat a0 * unat b1 mod ?M + unat a1 * unat b0 mod ?M"
    using lt(2)[of "a0 * b0"] lt(1)[of "a0 * b1"] lt(1)[of "a1 * b0"]
    by (simp add: c_def unat_add_small prod hi32_unat lo)
  have c': "unat c' = unat c div ?M + unat a0 * unat b1 div ?M + unat a1 * unat b0 div ?M + unat a1 * unat b1 mod ?M"
    using lt(2)[of c] lt(2)[of "a0 * b1"] lt(2)[of "a1 * b0"] lt(1)[of "a1 * b1"]
    by (simp add: c'_def unat_add_small prod hi32_unat lo)
  have H: "unat a * unat b div (?M * ?M) = (unat c' div ?M + unat a1 * unat b1 div ?M) * ?M + unat c' mod ?M"
    unfolding split c' c by (rule high_product_halves) simp
  have "unat a * unat b < ?M * ?M * (?M * ?M)"
    using mult_strict_mono[OF unsigned_less[of a] unsigned_less[of b]] by simp
  then have "unat a * unat b div (?M * ?M) < ?M * ?M" by (simp add: div_less_iff_less_mult)
  then have "(unat c' div ?M + unat a1 * unat b1 div ?M) * ?M < ?M * ?M" unfolding H by simp
  then have top: "unat c' div ?M + unat a1 * unat b1 div ?M < ?M" by simp
  have "unat (drop_bit 32 c' + drop_bit 32 (a1 * b1)) = unat c' div ?M + unat a1 * unat b1 div ?M"
    using top by (simp add: unat_add_small hi32_unat prod)
  then have r3: "unat (lo32 (drop_bit 32 c' + drop_bit 32 (a1 * b1))) = unat c' div ?M + unat a1 * unat b1 div ?M"
    using top by (simp add: lo)
  have "mulhu_portable a b = push_bit 32 (lo32 (drop_bit 32 c' + drop_bit 32 (a1 * b1))) OR lo32 c'"
    by (simp add: mulhu_portable_def Let_def lo32_def c'_def c_def words)
  then have "unat (mulhu_portable a b)
      = (unat c' div ?M + unat a1 * unat b1 div ?M) * ?M + unat c' mod ?M"
    using or_push_unat[OF lt(1)[of c'] lt(1)[of "drop_bit 32 c' + drop_bit 32 (a1 * b1)"]]
    by (simp only: r3 lo[of c'])
  with H show ?thesis by simp
qed

text \<open>
  The three high products are exact: the upper 64 bits of the full product of the two operands,
  read as signed or unsigned as the instruction says.
\<close>

theorem high_products_exact:
  "mulh64 a b = word_of_int ((sint a * sint b) div 2 ^ 64)
   \<and> mulhsu64 a b = word_of_int ((sint a * uint b) div 2 ^ 64)
   \<and> mulhu64 a b = word_of_int ((uint a * uint b) div 2 ^ 64)"
  by (simp only: mulh64_int mulhsu64_int mulhu64_int simp_thms)

text \<open>
  The portable unsigned high product, built from four 32-bit products, equals the 128-bit one for
  all operands.
\<close>

theorem mulhu_portable_correct: "mulhu_portable a b = mulhu64 a b"
proof -
  have "int (unat (mulhu_portable a b)) = int (unat a) * int (unat b) div 2 ^ 64"
    unfolding mulhu_portable_unat by (simp add: zdiv_int)
  then have "uint (mulhu_portable a b) = uint a * uint b div 2 ^ 64" by simp
  then show ?thesis unfolding mulhu64_int by (metis word_of_int_uint)
qed

text \<open>
  The portable signed high products subtract the wrong operand: with one negative operand they
  differ from the 128-bit variants. For \<^verbatim>\<open>mulh(-1, 1)\<close> and \<^verbatim>\<open>mulhsu(-1, 1)\<close> they give 1 where the high
  half of -1 is all ones.
\<close>

theorem mulh_portable_wrong:
  "mulh_portable (- 1) 1 = 1 \<and> mulh64 (- 1) 1 = - 1 \<and> mulhsu_portable (- 1) 1 = 1 \<and> mulhsu64 (- 1) 1 = - 1"
proof -
  have "mulhu_portable (- 1) 1 = 0"
    by (simp add: word_unat_eq_iff mulhu_portable_unat unsigned_minus_1_eq_mask mask_eq_exp_minus_1)
  then show ?thesis
    by (simp add: mulh_portable_def mulhsu_portable_def mulh64_int mulhsu64_int Let_def)
qed

end
