(* ===== verification/Exec.thy ===== *)
theory Exec
  imports Mmu_Theorems Alu
begin

unbundle bit_operations_syntax

text \<open>
  The instructions: one definition per group of cases of the \<^verbatim>\<open>switch (opcode)\<close> in
  \<^verbatim>\<open>riscv_cpu_interp64\<close> (\<^verbatim>\<open>dromajo_template.h\<close>), for \<^verbatim>\<open>XLEN = FLEN = 64\<close>. A group reads the instruction
  word, the value of \<^verbatim>\<open>GET_PC()\<close> and the state, and ends the way the C code leaves the \<^verbatim>\<open>switch\<close>, which
  is a value of \<open>ctl\<close>: \<^verbatim>\<open>C_NEXT_INSN\<close>, \<^verbatim>\<open>NEXT_INSN\<close>, \<^verbatim>\<open>JUMP_INSN(kind)\<close>, or a \<^verbatim>\<open>goto\<close> to \<^verbatim>\<open>illegal_insn\<close>,
  to \<^verbatim>\<open>mmu_exception\<close>/\<^verbatim>\<open>exception\<close> (with the pending fields set) or to \<^verbatim>\<open>done_interp\<close>.

  The floating-point computations (opcodes 0x43, 0x47, 0x4b, 0x4f and 0x53, which call the softfp
  library) are the parameter \<open>fpu\<close>: it yields the hart after the instruction, or \<open>None\<close> where the code
  goes to \<^verbatim>\<open>illegal_insn\<close>.
\<close>

datatype ctl = C_NEXT_INSN | NEXT_INSN | JUMP_INSN RISCVCTFInfo | illegal_insn | exception | done_interp

type_synonym fpu = "u32 \<Rightarrow> RISCVCPUState \<Rightarrow> RISCVCPUState option"

section \<open>Decoding helpers\<close>

definition rd_of :: "u32 \<Rightarrow> regno" where "rd_of insn = ucast (drop_bit 7 insn)"
definition rs1_of :: "u32 \<Rightarrow> regno" where "rs1_of insn = ucast (drop_bit 15 insn)"
definition rs2_of :: "u32 \<Rightarrow> regno" where "rs2_of insn = ucast (drop_bit 20 insn)"
definition funct3_of :: "u32 \<Rightarrow> u32" where "funct3_of insn = drop_bit 12 insn AND 7"

text \<open>The registers \<^verbatim>\<open>x8 .. x15\<close> of a compressed instruction, with the field at bit \<open>k\<close>.\<close>

definition creg :: "nat \<Rightarrow> u32 \<Rightarrow> regno" where
  "creg k insn = ucast (drop_bit k insn AND 7) OR 8"

definition ctf_compute_hint :: "regno \<Rightarrow> regno \<Rightarrow> RISCVCTFInfo" where
  "ctf_compute_hint rd rs1 =
     (let rd_link = rd = 1 \<or> rd = 5; rs1_link = rs1 = 1 \<or> rs1 = 5;
          k = (if rd_link then if rs1_link then ctf_taken_jalr_pop_push else ctf_taken_jalr_push
               else if rs1_link then ctf_taken_jalr_pop else ctf_taken_jalr)
      in if k = ctf_taken_jalr_pop_push \<and> rs1 = rd then ctf_taken_jalr_push else k)"

definition F32_HIGH :: u64 where "F32_HIGH = push_bit 32 (- 1)"
definition F64_HIGH :: u64 where "F64_HIGH = 0"

text \<open>The casts \<^verbatim>\<open>(int8_t)\<close>, \<^verbatim>\<open>(int16_t)\<close>, \<^verbatim>\<open>(int32_t)\<close> of a 64-bit value, extended back.\<close>

definition sx8 :: "u64 \<Rightarrow> u64" where "sx8 v = scast (ucast v :: u8)"
definition sx16 :: "u64 \<Rightarrow> u64" where "sx16 v = scast (ucast v :: u16)"
definition sx32 :: "u64 \<Rightarrow> u64" where "sx32 v = scast (ucast v :: u32)"

text \<open>\<^verbatim>\<open>if (rd != 0) write_reg(rd, val)\<close>.\<close>

definition set_rd :: "regno \<Rightarrow> u64 \<Rightarrow> RISCVCPUState \<Rightarrow> RISCVCPUState" where
  "set_rd rd val s = (if rd \<noteq> 0 then write_reg rd val s else s)"

definition load_then ::
  "'d mmio \<Rightarrow> nat \<Rightarrow> u64 \<Rightarrow> (u64 \<Rightarrow> RISCVCPUState \<Rightarrow> RISCVCPUState) \<Rightarrow> ctl \<Rightarrow> 'd sys \<Rightarrow> ctl \<times> 'd sys" where
  "load_then io k addr f nxt y =
     (case target_read io k y addr of (None, y1) \<Rightarrow> (exception, y1) | (Some v, y1) \<Rightarrow> (nxt, upd_cpu (f v) y1))"

definition store_then :: "'d mmio \<Rightarrow> nat \<Rightarrow> u64 \<Rightarrow> u64 \<Rightarrow> ctl \<Rightarrow> 'd sys \<Rightarrow> ctl \<times> 'd sys" where
  "store_then io k addr val nxt y =
     (case target_write io k y addr val of (None, y1) \<Rightarrow> (exception, y1) | (Some _, y1) \<Rightarrow> (nxt, y1))"

section \<open>Compressed instructions\<close>

definition ci_imm :: "u32 \<Rightarrow> u32" where
  "ci_imm insn = sext (get_field1 insn 12 5 5 OR get_field1 insn 2 0 4) 6"

definition cj_imm :: "u32 \<Rightarrow> u32" where
  "cj_imm insn = sext (get_field1 insn 12 11 11 OR get_field1 insn 11 4 4 OR get_field1 insn 9 8 9
     OR get_field1 insn 8 10 10 OR get_field1 insn 7 6 6 OR get_field1 insn 6 7 7
     OR get_field1 insn 3 1 3 OR get_field1 insn 2 5 5) 12"

definition cb_imm :: "u32 \<Rightarrow> u32" where
  "cb_imm insn = sext (get_field1 insn 12 8 8 OR get_field1 insn 10 3 4 OR get_field1 insn 5 6 7
     OR get_field1 insn 3 1 2 OR get_field1 insn 2 5 5) 9"

definition exec_q0 :: "'d mmio \<Rightarrow> u32 \<Rightarrow> 'd sys \<Rightarrow> ctl \<times> 'd sys" where
  "exec_q0 io insn y =
     (let s = cpu y; funct3 = drop_bit 13 insn AND 7; rd = creg 2 insn; rs1 = creg 7 insn;
          imm_w = get_field1 insn 10 3 5 OR get_field1 insn 6 2 2 OR get_field1 insn 5 6 6;
          imm_d = get_field1 insn 10 3 5 OR get_field1 insn 5 6 7;
          addr_w = read_reg s rs1 + scast imm_w; addr_d = read_reg s rs1 + scast imm_d
      in
      if funct3 = 0 then
        let imm = get_field1 insn 11 4 5 OR get_field1 insn 7 6 9 OR get_field1 insn 6 2 2 OR get_field1 insn 5 3 3
        in if imm = 0 then (illegal_insn, y)
           else (C_NEXT_INSN, upd_cpu (write_reg rd (read_reg s 2 + scast imm)) y)
      else if funct3 = 1 then
        if fs s = 0 then (illegal_insn, y)
        else load_then io 3 addr_d (\<lambda>rval. write_fp_reg rd (rval OR F64_HIGH)) C_NEXT_INSN y
      else if funct3 = 2 then load_then io 2 addr_w (\<lambda>rval. write_reg rd (sx32 rval)) C_NEXT_INSN y
      else if funct3 = 3 then load_then io 3 addr_d (\<lambda>rval. write_reg rd rval) C_NEXT_INSN y
      else if funct3 = 5 then
        if fs s = 0 then (illegal_insn, y) else store_then io 3 addr_d (read_fp_reg s rd) C_NEXT_INSN y
      else if funct3 = 6 then store_then io 2 addr_w (read_reg s rd) C_NEXT_INSN y
      else if funct3 = 7 then store_then io 3 addr_d (read_reg s rd) C_NEXT_INSN y
      else (illegal_insn, y))"

text \<open>The \<^verbatim>\<open>case 4\<close> of quadrant 1: shifts, \<^verbatim>\<open>c.andi\<close> and the register-register operations.\<close>

definition exec_q1_alu :: "u32 \<Rightarrow> 'd sys \<Rightarrow> ctl \<times> 'd sys" where
  "exec_q1_alu insn y =
     (let s = cpu y; funct3 = drop_bit 10 insn AND 3; rd = creg 7 insn; v = read_reg s rd;
          imm = get_field1 insn 12 5 5 OR get_field1 insn 2 0 4;
          wr = (\<lambda>x. (C_NEXT_INSN, upd_cpu (write_reg rd x) y))
      in
      if funct3 = 0 then wr (drop_bit (unat imm) v)
      else if funct3 = 1 then wr (signed_drop_bit (unat imm) v)
      else if funct3 = 2 then wr (v AND scast (ci_imm insn))
      else
        let v2 = read_reg s (creg 2 insn);
            f = (drop_bit 5 insn AND 3) OR (drop_bit (12 - 2) insn AND 4)
        in if f = 0 then wr (v - v2)
           else if f = 1 then wr (v XOR v2)
           else if f = 2 then wr (v OR v2)
           else if f = 3 then wr (v AND v2)
           else if f = 4 then wr (sx32 (v - v2))
           else if f = 5 then wr (sx32 (v + v2))
           else (illegal_insn, y))"

definition exec_q1 :: "u32 \<Rightarrow> u64 \<Rightarrow> 'd sys \<Rightarrow> ctl \<times> 'd sys" where
  "exec_q1 insn gpc y =
     (let s = cpu y; funct3 = drop_bit 13 insn AND 7; rd = rd_of insn; imm = scast (ci_imm insn) in
      if funct3 = 0 then (C_NEXT_INSN, upd_cpu (set_rd rd (read_reg s rd + imm)) y)
      else if funct3 = 1 then
        if rd = 0 then (illegal_insn, y)
        else (C_NEXT_INSN, upd_cpu (write_reg rd (sx32 (read_reg s rd + imm))) y)
      else if funct3 = 2 then (C_NEXT_INSN, upd_cpu (set_rd rd imm) y)
      else if funct3 = 3 then
        if rd = 2 then
          let imm16 = sext (get_field1 insn 12 9 9 OR get_field1 insn 6 4 4 OR get_field1 insn 5 6 6
                OR get_field1 insn 3 7 8 OR get_field1 insn 2 5 5) 10
          in if imm16 = 0 then (illegal_insn, y)
             else (C_NEXT_INSN, upd_cpu (write_reg 2 (read_reg s 2 + scast imm16)) y)
        else if rd \<noteq> 0 then
          let immu = sext (get_field1 insn 12 17 17 OR get_field1 insn 2 12 16) 18
          in if immu = 0 then (illegal_insn, y)
             else (C_NEXT_INSN, upd_cpu (write_reg rd (scast immu)) y)
        else (C_NEXT_INSN, y)
      else if funct3 = 4 then exec_q1_alu insn y
      else if funct3 = 5 then
        (JUMP_INSN ctf_taken_jump, upd_cpu (\<lambda>s. s\<lparr>pc := gpc + scast (cj_imm insn)\<rparr>) y)
      else if funct3 = 6 then
        if read_reg s (creg 7 insn) = 0
        then (JUMP_INSN ctf_taken_branch, upd_cpu (\<lambda>s. s\<lparr>pc := gpc + scast (cb_imm insn)\<rparr>) y)
        else (C_NEXT_INSN, y)
      else
        if read_reg s (creg 7 insn) \<noteq> 0
        then (JUMP_INSN ctf_taken_branch, upd_cpu (\<lambda>s. s\<lparr>pc := gpc + scast (cb_imm insn)\<rparr>) y)
        else (C_NEXT_INSN, y))"

definition exec_q2_jump :: "u32 \<Rightarrow> u64 \<Rightarrow> 'd sys \<Rightarrow> ctl \<times> 'd sys" where
  "exec_q2_jump insn gpc y =
     (let s = cpu y; rd = rd_of insn; rs2 = ucast (drop_bit 2 insn) :: regno in
      if drop_bit 12 insn AND 1 = 0 then
        if rs2 = 0 then
          if rd = 0 then (illegal_insn, y)
          else (JUMP_INSN (ctf_compute_hint 0 rd), upd_cpu (\<lambda>s. s\<lparr>pc := read_reg s rd AND NOT 1\<rparr>) y)
        else (C_NEXT_INSN, upd_cpu (set_rd rd (read_reg s rs2)) y)
      else
        if rs2 = 0 then
          if rd = 0 then (exception, upd_cpu (pend CAUSE_BREAKPOINT 0) y)
          else (JUMP_INSN (ctf_compute_hint 1 rd),
                upd_cpu (\<lambda>s. write_reg 1 (gpc + 2) (s\<lparr>pc := read_reg s rd AND NOT 1\<rparr>)) y)
        else (C_NEXT_INSN, upd_cpu (set_rd rd (read_reg s rd + read_reg s rs2)) y))"

definition exec_q2 :: "'d mmio \<Rightarrow> u32 \<Rightarrow> u64 \<Rightarrow> 'd sys \<Rightarrow> ctl \<times> 'd sys" where
  "exec_q2 io insn gpc y =
     (let s = cpu y; funct3 = drop_bit 13 insn AND 7; rd = rd_of insn; rs2 = ucast (drop_bit 2 insn) :: regno;
          rs2' = drop_bit 2 insn AND 0x1f;
          imm_ld = get_field1 insn 12 5 5 OR (rs2' AND push_bit 3 3) OR get_field1 insn 2 6 8;
          imm_lw = get_field1 insn 12 5 5 OR (rs2' AND push_bit 2 7) OR get_field1 insn 2 6 7;
          imm_sd = get_field1 insn 10 3 5 OR get_field1 insn 7 6 8;
          imm_sw = get_field1 insn 9 2 5 OR get_field1 insn 7 6 7;
          sp = read_reg s 2
      in
      if funct3 = 0 then
        let imm = get_field1 insn 12 5 5 OR rs2'
        in (C_NEXT_INSN, upd_cpu (set_rd rd (push_bit (unat imm) (read_reg s rd))) y)
      else if funct3 = 1 then
        if fs s = 0 then (illegal_insn, y)
        else load_then io 3 (sp + scast imm_ld) (\<lambda>rval. write_fp_reg rd (rval OR F64_HIGH)) C_NEXT_INSN y
      else if funct3 = 2 then
        if rd = 0 then (illegal_insn, y)
        else load_then io 2 (sp + scast imm_lw) (\<lambda>rval. write_reg rd (sx32 rval)) C_NEXT_INSN y
      else if funct3 = 3 then
        if rd = 0 then (illegal_insn, y)
        else load_then io 3 (sp + scast imm_ld) (\<lambda>rval. write_reg rd rval) C_NEXT_INSN y
      else if funct3 = 4 then exec_q2_jump insn gpc y
      else if funct3 = 5 then
        if fs s = 0 then (illegal_insn, y)
        else store_then io 3 (sp + scast imm_sd) (read_fp_reg s rs2) C_NEXT_INSN y
      else if funct3 = 6 then store_then io 2 (sp + scast imm_sw) (read_reg s rs2) C_NEXT_INSN y
      else store_then io 3 (sp + scast imm_sd) (read_reg s rs2) C_NEXT_INSN y)"

section \<open>Jumps and branches\<close>

definition i_imm :: "u32 \<Rightarrow> u32" where "i_imm insn = signed_drop_bit 20 insn"

definition j_imm :: "u32 \<Rightarrow> u32" where
  "j_imm insn = (let imm = (drop_bit (31 - 20) insn AND push_bit 20 1) OR (drop_bit (21 - 1) insn AND 0x7fe)
       OR (drop_bit (20 - 11) insn AND push_bit 11 1) OR (insn AND 0xff000)
     in signed_drop_bit 11 (push_bit 11 imm))"

definition b_imm :: "u32 \<Rightarrow> u32" where
  "b_imm insn = (let imm = (drop_bit (31 - 12) insn AND push_bit 12 1) OR (drop_bit (25 - 5) insn AND 0x7e0)
       OR (drop_bit (8 - 1) insn AND 0x1e) OR (push_bit (11 - 7) insn AND push_bit 11 1)
     in signed_drop_bit 19 (push_bit 19 imm))"

definition s_imm :: "u32 \<Rightarrow> u32" where
  "s_imm insn = (let imm = (drop_bit 7 insn AND 0x1f) OR (drop_bit (25 - 5) insn AND 0xfe0)
     in signed_drop_bit 20 (push_bit 20 imm))"

text \<open>The check \<^verbatim>\<open>!(s->misa & MCPUID_C) && (new_pc & 3) != 0\<close>.\<close>

definition fetch_misaligned :: "RISCVCPUState \<Rightarrow> u64 \<Rightarrow> bool" where
  "fetch_misaligned s new_pc \<longleftrightarrow> misa s AND MCPUID_C = 0 \<and> new_pc AND 3 \<noteq> 0"

definition exec_upper :: "u32 \<Rightarrow> u64 \<Rightarrow> 'd sys \<Rightarrow> ctl \<times> 'd sys" where
  "exec_upper insn gpc y =
     (let imm = scast (insn AND 0xfffff000) in
      if insn AND 0x7f = 0x37 then (NEXT_INSN, upd_cpu (set_rd (rd_of insn) imm) y)
      else (NEXT_INSN, upd_cpu (set_rd (rd_of insn) (gpc + imm)) y))"

definition exec_jal :: "u32 \<Rightarrow> u64 \<Rightarrow> 'd sys \<Rightarrow> ctl \<times> 'd sys" where
  "exec_jal insn gpc y =
     (let new_pc = gpc + scast (j_imm insn) in
      if fetch_misaligned (cpu y) new_pc then (exception, upd_cpu (pend CAUSE_MISALIGNED_FETCH 0) y)
      else (JUMP_INSN ctf_taken_jump, upd_cpu (\<lambda>s. (set_rd (rd_of insn) (gpc + 4) s)\<lparr>pc := new_pc\<rparr>) y))"

definition exec_jalr :: "u32 \<Rightarrow> u64 \<Rightarrow> 'd sys \<Rightarrow> ctl \<times> 'd sys" where
  "exec_jalr insn gpc y =
     (if funct3_of insn \<noteq> 0 then (illegal_insn, y)
      else let new_pc = (read_reg (cpu y) (rs1_of insn) + scast (i_imm insn)) AND NOT 1 in
        if fetch_misaligned (cpu y) new_pc then (exception, upd_cpu (pend CAUSE_MISALIGNED_FETCH 0) y)
        else (JUMP_INSN (ctf_compute_hint (rd_of insn) (rs1_of insn)),
              upd_cpu (\<lambda>s. set_rd (rd_of insn) (gpc + 4) (s\<lparr>pc := new_pc\<rparr>)) y))"

definition exec_branch :: "u32 \<Rightarrow> u64 \<Rightarrow> 'd sys \<Rightarrow> ctl \<times> 'd sys" where
  "exec_branch insn gpc y =
     (let funct3 = funct3_of insn; a = read_reg (cpu y) (rs1_of insn); b = read_reg (cpu y) (rs2_of insn);
          k = drop_bit 1 funct3;
          cond = (if k = 0 then a = b else if k = 2 then sint a < sint b else a < b)
      in if k = 1 then (illegal_insn, y)
         else if cond \<noteq> (funct3 AND 1 \<noteq> 0) then
           let new_pc = gpc + scast (b_imm insn) in
           if fetch_misaligned (cpu y) new_pc then (exception, upd_cpu (pend CAUSE_MISALIGNED_FETCH 0) y)
           else (JUMP_INSN ctf_taken_branch, upd_cpu (\<lambda>s. s\<lparr>pc := new_pc\<rparr>) y)
         else (NEXT_INSN, y))"

section \<open>Loads, stores and arithmetic\<close>

definition exec_load :: "'d mmio \<Rightarrow> u32 \<Rightarrow> 'd sys \<Rightarrow> ctl \<times> 'd sys" where
  "exec_load io insn y =
     (let f = funct3_of insn; addr = read_reg (cpu y) (rs1_of insn) + scast (i_imm insn);
          ld = (\<lambda>k conv. load_then io k addr (\<lambda>rval. set_rd (rd_of insn) (conv rval)) NEXT_INSN y)
      in if f = 0 then ld 0 sx8
         else if f = 1 then ld 1 sx16
         else if f = 2 then ld 2 sx32
         else if f = 4 then ld 0 (\<lambda>v. v)
         else if f = 5 then ld 1 (\<lambda>v. v)
         else if f = 3 then ld 3 (\<lambda>v. v)
         else if f = 6 then ld 2 (\<lambda>v. v)
         else (illegal_insn, y))"

definition exec_store :: "'d mmio \<Rightarrow> u32 \<Rightarrow> 'd sys \<Rightarrow> ctl \<times> 'd sys" where
  "exec_store io insn y =
     (let f = funct3_of insn; addr = read_reg (cpu y) (rs1_of insn) + scast (s_imm insn);
          val = read_reg (cpu y) (rs2_of insn)
      in if f = 0 then store_then io 0 addr val NEXT_INSN y
         else if f = 1 then store_then io 1 addr val NEXT_INSN y
         else if f = 2 then store_then io 2 addr val NEXT_INSN y
         else if f = 3 then store_then io 3 addr val NEXT_INSN y
         else (illegal_insn, y))"

definition alu_imm :: "u32 \<Rightarrow> u64 \<Rightarrow> u32 \<Rightarrow> u64 option" where
  "alu_imm f v imm =
     (let imm64 = scast imm; sh = unat (imm AND 63) in
      if f = 0 then Some (v + imm64)
      else if f = 1 then if imm AND NOT 63 \<noteq> 0 then None else Some (push_bit sh v)
      else if f = 2 then Some (of_bool (sint v < sint imm64))
      else if f = 3 then Some (of_bool (v < imm64))
      else if f = 4 then Some (v XOR imm64)
      else if f = 5 then
        if imm AND NOT (63 OR 0x400) \<noteq> 0 then None
        else if imm AND 0x400 \<noteq> 0 then Some (signed_drop_bit sh v) else Some (drop_bit sh v)
      else if f = 6 then Some (v OR imm64)
      else Some (v AND imm64))"

definition alu_imm32 :: "u32 \<Rightarrow> u64 \<Rightarrow> u32 \<Rightarrow> u64 option" where
  "alu_imm32 f v imm =
     (let sh = unat (imm AND 31) in
      if f = 0 then Some (sx32 (v + scast imm))
      else if f = 1 then if imm AND NOT 31 \<noteq> 0 then None else Some (sx32 (push_bit sh v))
      else if f = 5 then
        if imm AND NOT (31 OR 0x400) \<noteq> 0 then None
        else if imm AND 0x400 \<noteq> 0 then Some (scast (signed_drop_bit sh (ucast v :: u32)))
        else Some (scast (drop_bit sh (ucast v :: u32)))
      else None)"

definition alu_mul :: "u32 \<Rightarrow> u64 \<Rightarrow> u64 \<Rightarrow> u64" where
  "alu_mul f v v2 =
     (if f = 0 then v * v2
      else if f = 1 then mulh64 v v2
      else if f = 2 then mulhsu64 v v2
      else if f = 3 then mulhu64 v v2
      else if f = 4 then div_s v v2
      else if f = 5 then div_u v v2
      else if f = 6 then rem_s v v2
      else rem_u v v2)"

definition alu_op :: "u32 \<Rightarrow> u64 \<Rightarrow> u64 \<Rightarrow> u64 option" where
  "alu_op f v v2 =
     (let sh = unat (v2 AND 63) in
      if f = 0 then Some (v + v2)
      else if f = 0 OR 8 then Some (v - v2)
      else if f = 1 then Some (push_bit sh v)
      else if f = 2 then Some (of_bool (sint v < sint v2))
      else if f = 3 then Some (of_bool (v < v2))
      else if f = 4 then Some (v XOR v2)
      else if f = 5 then Some (drop_bit sh v)
      else if f = 5 OR 8 then Some (signed_drop_bit sh v)
      else if f = 6 then Some (v OR v2)
      else if f = 7 then Some (v AND v2)
      else None)"

definition alu_mul32 :: "u32 \<Rightarrow> u64 \<Rightarrow> u64 \<Rightarrow> u64 option" where
  "alu_mul32 f v v2 =
     (let a = ucast v :: u32; b = ucast v2 :: u32 in
      if f = 0 then Some (scast (a * b))
      else if f = 4 then Some (scast (div_s a b))
      else if f = 5 then Some (scast (div_u a b))
      else if f = 6 then Some (scast (rem_s a b))
      else if f = 7 then Some (scast (rem_u a b))
      else None)"

definition alu_op32 :: "u32 \<Rightarrow> u64 \<Rightarrow> u64 \<Rightarrow> u64 option" where
  "alu_op32 f v v2 =
     (let sh = unat (v2 AND 31); a = ucast v :: u32 in
      if f = 0 then Some (sx32 (v + v2))
      else if f = 0 OR 8 then Some (sx32 (v - v2))
      else if f = 1 then Some (scast (push_bit sh a))
      else if f = 5 then Some (scast (drop_bit sh a))
      else if f = 5 OR 8 then Some (scast (signed_drop_bit sh a))
      else None)"

text \<open>\<^verbatim>\<open>((insn >> 12) & 7) | ((insn >> (30 - 3)) & (1 << 3))\<close>.\<close>

definition funct3_7 :: "u32 \<Rightarrow> u32" where
  "funct3_7 insn = (drop_bit 12 insn AND 7) OR (drop_bit (30 - 3) insn AND push_bit 3 1)"

definition write_result :: "u32 \<Rightarrow> u64 option \<Rightarrow> 'd sys \<Rightarrow> ctl \<times> 'd sys" where
  "write_result insn r y =
     (case r of None \<Rightarrow> (illegal_insn, y) | Some val \<Rightarrow> (NEXT_INSN, upd_cpu (set_rd (rd_of insn) val) y))"

definition exec_opimm :: "u32 \<Rightarrow> 'd sys \<Rightarrow> ctl \<times> 'd sys" where
  "exec_opimm insn y =
     write_result insn (alu_imm (funct3_of insn) (read_reg (cpu y) (rs1_of insn)) (i_imm insn)) y"

definition exec_opimm32 :: "u32 \<Rightarrow> 'd sys \<Rightarrow> ctl \<times> 'd sys" where
  "exec_opimm32 insn y =
     write_result insn (alu_imm32 (funct3_of insn) (read_reg (cpu y) (rs1_of insn)) (i_imm insn)) y"

definition exec_op :: "u32 \<Rightarrow> 'd sys \<Rightarrow> ctl \<times> 'd sys" where
  "exec_op insn y =
     (let imm = drop_bit 25 insn; val = read_reg (cpu y) (rs1_of insn); val2 = read_reg (cpu y) (rs2_of insn)
      in write_result insn
           (if imm = 1 then Some (alu_mul (funct3_of insn) val val2)
            else if imm AND NOT 0x20 \<noteq> 0 then None
            else alu_op (funct3_7 insn) val val2) y)"

definition exec_op32 :: "u32 \<Rightarrow> 'd sys \<Rightarrow> ctl \<times> 'd sys" where
  "exec_op32 insn y =
     (let imm = drop_bit 25 insn; val = read_reg (cpu y) (rs1_of insn); val2 = read_reg (cpu y) (rs2_of insn)
      in write_result insn
           (if imm = 1 then alu_mul32 (funct3_of insn) val val2
            else if imm AND NOT 0x20 \<noteq> 0 then None
            else alu_op32 (funct3_7 insn) val val2) y)"

section \<open>System instructions\<close>

text \<open>
  The counter update of the CSR instructions and of \<^verbatim>\<open>the_end\<close>: \<open>now\<close> is \<^verbatim>\<open>GET_INSN_COUNTER()\<close> and
  \<open>start\<close> is \<^verbatim>\<open>insn_counter_start\<close>. The difference is held in an \<^verbatim>\<open>int\<close>.
\<close>

definition counter_delta :: "u64 \<Rightarrow> u64 \<Rightarrow> u64" where
  "counter_delta now start = scast (ucast (now - start) :: u32)"

definition update_counters :: "u64 \<Rightarrow> u64 \<Rightarrow> RISCVCPUState \<Rightarrow> RISCVCPUState" where
  "update_counters now start s =
     (let s1 = s\<lparr>insn_counter := now\<rparr> in
      if \<not> stop_the_counter s1
      then s1\<lparr>mcycle := mcycle s1 + counter_delta now start, minstret := minstret s1 + counter_delta now start\<rparr>
      else s1)"

text \<open>The common end of the CSR instructions, after a write that returned \<open>err\<close>.\<close>

definition csr_finish :: "u32 \<Rightarrow> u64 \<Rightarrow> u64 \<Rightarrow> int \<Rightarrow> 'd sys \<Rightarrow> ctl \<times> 'd sys" where
  "csr_finish insn gpc val2 err y =
     (if err = - 2 then (exception, y)
      else if err < 0 then (illegal_insn, y)
      else
        let y1 = upd_cpu (set_rd (rd_of insn) val2) y in
        if err > 0 then
          let y2 = upd_cpu (\<lambda>s. s\<lparr>pc := gpc + 4\<rparr>) y1
          in if err = 2 then (JUMP_INSN ctf_nop, y2) else (done_interp, y2)
        else (NEXT_INSN, y1))"

definition exec_csr :: "u32 \<Rightarrow> u64 \<Rightarrow> u64 \<Rightarrow> u64 \<Rightarrow> 'd sys \<Rightarrow> ctl \<times> 'd sys" where
  "exec_csr insn gpc now start y =
     (let funct3 = funct3_of insn; imm = drop_bit 20 insn; rs1 = rs1_of insn;
          val = (if funct3 AND 4 \<noteq> 0 then ucast rs1 else read_reg (cpu y) rs1);
          f = funct3 AND 3;
          y1 = upd_cpu (update_counters now start) y
      in if f = 1 then
           (case csr_read (cpu y1) imm True of
              None \<Rightarrow> (illegal_insn, y1)
            | Some val2 \<Rightarrow>
                let (err, s2) = csr_write (cpu y1) imm val
                in csr_finish insn gpc val2 err (y1\<lparr>cpu := s2\<rparr>))
         else
           (case csr_read (cpu y1) imm (rs1 \<noteq> 0) of
              None \<Rightarrow> (illegal_insn, y1)
            | Some val2 \<Rightarrow>
                if rs1 \<noteq> 0 then
                  let nval = (if f = 2 then val2 OR val else val2 AND NOT val);
                      (err, s2) = csr_write (cpu y1) imm nval
                  in csr_finish insn gpc val2 err (y1\<lparr>cpu := s2\<rparr>)
                else csr_finish insn gpc val2 0 y1))"

abbreviation (input) SBI_SHUTDOWN :: u64 where "SBI_SHUTDOWN \<equiv> 8"

definition exec_ecall :: "'d sys \<Rightarrow> ctl \<times> 'd sys" where
  "exec_ecall y =
     (exception, upd_cpu (\<lambda>s.
        let s1 = pend (CAUSE_USER_ECALL + uint (priv s)) 0 s in
        if \<not> ignore_sbi_shutdown s1 \<and> priv s1 = PRV_M \<and> read_reg s1 0x17 = SBI_SHUTDOWN
        then s1\<lparr>terminate_simulation := True\<rparr> else s1) y)"

definition exec_wfi :: "u32 \<Rightarrow> u64 \<Rightarrow> 'd sys \<Rightarrow> ctl \<times> 'd sys" where
  "exec_wfi insn gpc y =
     (let s = cpu y in
      if insn AND 0x00007f80 \<noteq> 0 then (illegal_insn, y)
      else if priv s = PRV_U then (illegal_insn, y)
      else if priv s = PRV_S \<and> mstatus s AND MSTATUS_TW \<noteq> 0 then (illegal_insn, y)
      else if (mip s AND mie s = 0 \<and> vm_pending_interrupt (vm y) = - 1) \<or> \<not> cosim (vm y)
      then (done_interp, upd_cpu (\<lambda>s. s\<lparr>power_down_flag := True, pc := gpc + 4\<rparr>) y)
      else (NEXT_INSN, y))"

definition exec_sfence :: "u32 \<Rightarrow> u64 \<Rightarrow> 'd sys \<Rightarrow> ctl \<times> 'd sys" where
  "exec_sfence insn gpc y =
     (let s = cpu y; rs1 = rs1_of insn in
      if insn AND 0x00007f80 \<noteq> 0 then (illegal_insn, y)
      else if priv s = PRV_U then (illegal_insn, y)
      else if priv s = PRV_S \<and> mstatus s AND MSTATUS_TVM \<noteq> 0 then (illegal_insn, y)
      else (JUMP_INSN ctf_nop, upd_cpu (\<lambda>s.
             (if rs1 = 0 then tlb_flush_all s else tlb_flush_vaddr (read_reg s rs1) s)\<lparr>pc := gpc + 4\<rparr>) y))"

definition exec_priv :: "u32 \<Rightarrow> u64 \<Rightarrow> 'd sys \<Rightarrow> ctl \<times> 'd sys" where
  "exec_priv insn gpc y =
     (let imm = drop_bit 20 insn; s = cpu y; bad = insn AND 0x000fff80 \<noteq> 0 in
      if imm = 0x000 then if bad then (illegal_insn, y) else exec_ecall y
      else if imm = 0x001 then
        if bad then (illegal_insn, y) else (exception, upd_cpu (pend CAUSE_BREAKPOINT 0) y)
      else if imm = 0x102 then
        if bad then (illegal_insn, y)
        else if priv s < PRV_S then (illegal_insn, y)
        else if priv s = PRV_S \<and> mstatus s AND MSTATUS_TSR \<noteq> 0 then (illegal_insn, y)
        else (done_interp, upd_cpu (\<lambda>s. handle_sret (s\<lparr>pc := gpc\<rparr>)) y)
      else if imm = 0x302 then
        if bad then (illegal_insn, y)
        else if priv s < PRV_M then (illegal_insn, y)
        else (done_interp, upd_cpu (\<lambda>s. handle_mret (s\<lparr>pc := gpc\<rparr>)) y)
      else if imm = 0x7b2 then
        if \<not> debug_mode s then (illegal_insn, y)
        else if bad then (illegal_insn, y)
        else if priv s < PRV_M then (illegal_insn, y)
        else (done_interp, upd_cpu (\<lambda>s. handle_dret (s\<lparr>pc := gpc\<rparr>)) y)
      else if imm = 0x105 then exec_wfi insn gpc y
      else if drop_bit 5 imm = 0x09 then exec_sfence insn gpc y
      else (illegal_insn, y))"

definition exec_system :: "u32 \<Rightarrow> u64 \<Rightarrow> u64 \<Rightarrow> u64 \<Rightarrow> 'd sys \<Rightarrow> ctl \<times> 'd sys" where
  "exec_system insn gpc now start y =
     (if funct3_of insn AND 3 = 0 then exec_priv insn gpc y else exec_csr insn gpc now start y)"

definition exec_misc_mem :: "u32 \<Rightarrow> 'd sys \<Rightarrow> ctl \<times> 'd sys" where
  "exec_misc_mem insn y =
     (let f = funct3_of insn in
      if f = 0 then if insn AND 0xf00fff80 \<noteq> 0 then (illegal_insn, y) else (NEXT_INSN, y)
      else if f = 1 then if insn \<noteq> 0x0000100f then (illegal_insn, y) else (NEXT_INSN, y)
      else (illegal_insn, y))"

section \<open>Atomics\<close>

text \<open>The cast to \<^verbatim>\<open>int32_t\<close> or \<^verbatim>\<open>int64_t\<close> by the access size, and the read as an unsigned value.\<close>

definition sx :: "nat \<Rightarrow> u64 \<Rightarrow> u64" where
  "sx k v = (if k = 2 then sx32 v else v)"

definition amo_op :: "nat \<Rightarrow> u32 \<Rightarrow> u64 \<Rightarrow> u64 \<Rightarrow> u64" where
  "amo_op k f val val2 =
     (if f = 1 then val2
      else if f = 0 then sx k (val + val2)
      else if f = 4 then sx k (val XOR val2)
      else if f = 0xc then sx k (val AND val2)
      else if f = 8 then sx k (val OR val2)
      else if f = 0x10 then if sint (sx k val) < sint (sx k val2) then sx k val else val2
      else if f = 0x14 then if sint (sx k val) > sint (sx k val2) then sx k val else val2
      else if f = 0x18 then
        if take_bit (8 * 2 ^ k) val < take_bit (8 * 2 ^ k) val2 then sx k val else val2
      else if take_bit (8 * 2 ^ k) val > take_bit (8 * 2 ^ k) val2 then sx k val else val2)"

text \<open>The three groups of the macro \<^verbatim>\<open>OP_A(size)\<close>; \<open>k\<close> is the binary logarithm of the size in bytes.\<close>

definition exec_lr :: "'d mmio \<Rightarrow> nat \<Rightarrow> u32 \<Rightarrow> 'd sys \<Rightarrow> ctl \<times> 'd sys" where
  "exec_lr io k insn y =
     (let addr = read_reg (cpu y) (rs1_of insn) in
      if rs2_of insn \<noteq> 0 then (illegal_insn, y)
      else load_then io k addr (\<lambda>rval s. set_rd (rd_of insn) (sx k rval) (s\<lparr>load_res := addr\<rparr>)) NEXT_INSN y)"

definition exec_sc :: "'d mmio \<Rightarrow> nat \<Rightarrow> u32 \<Rightarrow> 'd sys \<Rightarrow> ctl \<times> 'd sys" where
  "exec_sc io k insn y =
     (let s = cpu y; addr = read_reg s (rs1_of insn); rd = rd_of insn in
      if misaligned addr k then (exception, upd_cpu (pend CAUSE_MISALIGNED_STORE addr) y)
      else if load_res s = addr then
        (case target_write io k y addr (read_reg s (rs2_of insn)) of
           (None, y1) \<Rightarrow> (exception, y1)
         | (Some _, y1) \<Rightarrow> (NEXT_INSN, upd_cpu (\<lambda>s. set_rd rd 0 (s\<lparr>load_res := NOT 0\<rparr>)) y1))
      else (NEXT_INSN, upd_cpu (set_rd rd 1) y))"

definition exec_rmw :: "'d mmio \<Rightarrow> nat \<Rightarrow> u32 \<Rightarrow> 'd sys \<Rightarrow> ctl \<times> 'd sys" where
  "exec_rmw io k insn y =
     (let addr = read_reg (cpu y) (rs1_of insn) in
      case target_read io k y addr of
        (None, y1) \<Rightarrow> (exception, upd_cpu (\<lambda>s. s\<lparr>pending_exception := pending_exception s + 2\<rparr>) y1)
      | (Some rval, y1) \<Rightarrow>
          let val = sx k rval;
              val2 = amo_op k (drop_bit 27 insn) val (read_reg (cpu y1) (rs2_of insn))
          in (case target_write io k y1 addr val2 of
                (None, y2) \<Rightarrow> (exception, y2)
              | (Some _, y2) \<Rightarrow> (NEXT_INSN, upd_cpu (set_rd (rd_of insn) val) y2)))"

definition exec_amo_size :: "'d mmio \<Rightarrow> nat \<Rightarrow> u32 \<Rightarrow> 'd sys \<Rightarrow> ctl \<times> 'd sys" where
  "exec_amo_size io k insn y =
     (let f = drop_bit 27 insn in
      if f = 2 then exec_lr io k insn y
      else if f = 3 then exec_sc io k insn y
      else if f \<in> {1, 0, 4, 0xc, 8, 0x10, 0x14, 0x18, 0x1c} then exec_rmw io k insn y
      else (illegal_insn, y))"

definition exec_amo :: "'d mmio \<Rightarrow> u32 \<Rightarrow> 'd sys \<Rightarrow> ctl \<times> 'd sys" where
  "exec_amo io insn y =
     (if funct3_of insn = 2 then exec_amo_size io 2 insn y
      else if funct3_of insn = 3 then exec_amo_size io 3 insn y
      else (illegal_insn, y))"

section \<open>Floating point\<close>

definition exec_fp_load :: "'d mmio \<Rightarrow> u32 \<Rightarrow> 'd sys \<Rightarrow> ctl \<times> 'd sys" where
  "exec_fp_load io insn y =
     (let s = cpu y; f = funct3_of insn; addr = read_reg s (rs1_of insn) + scast (i_imm insn) in
      if fs s = 0 then (illegal_insn, y)
      else if f = 2 then
        load_then io 2 addr (\<lambda>rval. write_fp_reg (rd_of insn) (rval OR F32_HIGH)) NEXT_INSN y
      else if f = 3 then
        load_then io 3 addr (\<lambda>rval. write_fp_reg (rd_of insn) (rval OR F64_HIGH)) NEXT_INSN y
      else (illegal_insn, y))"

definition exec_fp_store :: "'d mmio \<Rightarrow> u32 \<Rightarrow> 'd sys \<Rightarrow> ctl \<times> 'd sys" where
  "exec_fp_store io insn y =
     (let s = cpu y; f = funct3_of insn; addr = read_reg s (rs1_of insn) + scast (s_imm insn);
          val = read_fp_reg s (rs2_of insn) in
      if fs s = 0 then (illegal_insn, y)
      else if f = 2 then store_then io 2 addr val NEXT_INSN y
      else if f = 3 then store_then io 3 addr val NEXT_INSN y
      else (illegal_insn, y))"

definition exec_fpu :: "fpu \<Rightarrow> u32 \<Rightarrow> 'd sys \<Rightarrow> ctl \<times> 'd sys" where
  "exec_fpu fpu insn y =
     (if fs (cpu y) = 0 then (illegal_insn, y)
      else case fpu insn (cpu y) of
             None \<Rightarrow> (illegal_insn, y)
           | Some s \<Rightarrow> (NEXT_INSN, y\<lparr>cpu := s\<rparr>))"

section \<open>The opcode switch\<close>

definition exec_insn :: "'d mmio \<Rightarrow> fpu \<Rightarrow> u32 \<Rightarrow> u64 \<Rightarrow> u64 \<Rightarrow> u64 \<Rightarrow> 'd sys \<Rightarrow> ctl \<times> 'd sys" where
  "exec_insn io fpu insn gpc now start y =
     (let q = insn AND 3; opcode = insn AND 0x7f in
      if q = 0 then exec_q0 io insn y
      else if q = 1 then exec_q1 insn gpc y
      else if q = 2 then exec_q2 io insn gpc y
      else if opcode = 0x37 \<or> opcode = 0x17 then exec_upper insn gpc y
      else if opcode = 0x6f then exec_jal insn gpc y
      else if opcode = 0x67 then exec_jalr insn gpc y
      else if opcode = 0x63 then exec_branch insn gpc y
      else if opcode = 0x03 then exec_load io insn y
      else if opcode = 0x23 then exec_store io insn y
      else if opcode = 0x13 then exec_opimm insn y
      else if opcode = 0x1b then exec_opimm32 insn y
      else if opcode = 0x33 then exec_op insn y
      else if opcode = 0x3b then exec_op32 insn y
      else if opcode = 0x73 then exec_system insn gpc now start y
      else if opcode = 0x0f then exec_misc_mem insn y
      else if opcode = 0x2f then exec_amo io insn y
      else if opcode = 0x07 then exec_fp_load io insn y
      else if opcode = 0x27 then exec_fp_store io insn y
      else if opcode \<in> {0x43, 0x47, 0x4b, 0x4f, 0x53} then exec_fpu fpu insn y
      else (illegal_insn, y))"

end
