(* ===== verification/Exec_Theorems.thy ===== *)
theory Exec_Theorems
  imports Exec
begin

unbundle bit_operations_syntax

text \<open>
  Properties of single instructions: every instruction keeps the hart invariant (legal control
  registers, an even program counter, a zero \<^verbatim>\<open>x0\<close>), load-reserved and store-conditional work as a
  pair, and the effect of the arithmetic groups.

  What the instructions rely on from the devices is the interface \<open>mmio_frame\<close>: a device access leaves
  the memory map and the hart alone, but for the fields a device owns in the hart (interrupt
  pending bits, wake-up flag, timer compare, interrupt enables, and the cycle counter that the timer
  is derived from).
\<close>

section \<open>The interface to the devices\<close>

definition dev_frame :: "'d sys \<Rightarrow> 'd sys \<Rightarrow> bool" where
  "dev_frame y y' \<longleftrightarrow> mem_map y' = mem_map y \<and> vm y' = vm y
     \<and> (\<exists>m b t e c. cpu y' = (cpu y)\<lparr>mip := m, power_down_flag := b, timecmp := t, plic_enable_irq := e, mcycle := c\<rparr>)"

lemma dev_frame_refl [simp]: "dev_frame y y"
  unfolding dev_frame_def
  by (intro conjI exI[of _ "mip (cpu y)"] exI[of _ "power_down_flag (cpu y)"] exI[of _ "timecmp (cpu y)"]
      exI[of _ "plic_enable_irq (cpu y)"] exI[of _ "mcycle (cpu y)"]) simp_all

lemma dev_frame_trans: "dev_frame a b \<Longrightarrow> dev_frame b c \<Longrightarrow> dev_frame a c"
proof -
  assume ab: "dev_frame a b" and bc: "dev_frame b c"
  from bc obtain m p t e n where "cpu c = (cpu b)\<lparr>mip := m, power_down_flag := p, timecmp := t, plic_enable_irq := e, mcycle := n\<rparr>"
    by (auto simp: dev_frame_def)
  with ab have "cpu c = (cpu a)\<lparr>mip := m, power_down_flag := p, timecmp := t, plic_enable_irq := e, mcycle := n\<rparr>"
    by (auto simp: dev_frame_def)
  moreover have "mem_map c = mem_map a" "vm c = vm a"
    using ab bc by (auto simp: dev_frame_def)
  ultimately show ?thesis
    unfolding dev_frame_def
    by (intro conjI exI[of _ m] exI[of _ p] exI[of _ t] exI[of _ e] exI[of _ n])
qed

locale mmio_frame =
  fixes io :: "'d mmio"
  assumes read_frame: "dev_frame y (snd (read_func io d off k y))"
    and write_frame: "dev_frame y (write_func io d off v k y)"
begin

lemma device_read_frame: "dev_frame y (snd (device_read io pr off k y))"
  by (simp add: device_read_def split_beta read_frame) (blast intro: read_frame dev_frame_trans)

lemma device_write_frame: "dev_frame y (device_write io pr off v k y)"
  by (simp add: device_write_def write_frame) (blast intro: write_frame dev_frame_trans)

end

section \<open>The invariant under memory accesses\<close>

lemma hart_inv_upds [simp]:
  "hart_inv (s\<lparr>mip := w\<rparr>) = hart_inv s" "hart_inv (s\<lparr>power_down_flag := b\<rparr>) = hart_inv s"
  "hart_inv (s\<lparr>timecmp := v\<rparr>) = hart_inv s" "hart_inv (s\<lparr>mcycle := v\<rparr>) = hart_inv s"
  "hart_inv (s\<lparr>minstret := v\<rparr>) = hart_inv s" "hart_inv (s\<lparr>insn_counter := v\<rparr>) = hart_inv s"
  "hart_inv (s\<lparr>pending_exception := n\<rparr>) = hart_inv s" "hart_inv (s\<lparr>pending_tval := v\<rparr>) = hart_inv s"
  "hart_inv (s\<lparr>load_res := v\<rparr>) = hart_inv s" "hart_inv (s\<lparr>terminate_simulation := b\<rparr>) = hart_inv s"
  "hart_inv (s\<lparr>info := i\<rparr>) = hart_inv s" "hart_inv (s\<lparr>next_addr := v\<rparr>) = hart_inv s"
  "hart_inv (s\<lparr>most_recently_written_reg := n\<rparr>) = hart_inv s"
  "hart_inv (s\<lparr>most_recently_written_fp_reg := n\<rparr>) = hart_inv s"
  by (simp_all add: hart_inv_def)

lemma hart_inv_plic [simp]: "hart_inv (s\<lparr>plic_enable_irq := w\<rparr>) = hart_inv s"
  by (simp add: hart_inv_def inv_unfold)

lemma hart_inv_pend [simp]: "hart_inv (pend c a s) = hart_inv s"
  by (simp add: pend_def)

lemma hart_inv_fill [simp]:
  "hart_inv (fill_read a p q s) = hart_inv s" "hart_inv (fill_write a p q s) = hart_inv s"
  "hart_inv (fill_code a p q s) = hart_inv s"
  by (simp_all add: fill_read_def fill_write_def fill_code_def hart_inv_def)

lemma hart_inv_flush [simp]: "hart_inv (tlb_flush_all s) = hart_inv s"
  by (simp add: hart_inv_def)

lemma dev_frame_hart: "dev_frame y y' \<Longrightarrow> hart_inv (cpu y') = hart_inv (cpu y)"
  by (auto simp: dev_frame_def)

lemma fetch_hart_inv: "hart_inv (cpu (snd (target_read_insn_slow y sz a))) = hart_inv (cpu y)"
  by (simp add: target_read_insn_slow_def Let_def split: sum.splits prod.splits)

lemma fetch16_hart_inv: "hart_inv (cpu (snd (target_read_insn_u16 y a))) = hart_inv (cpu y)"
proof -
  have "hart_inv (cpu y1) = hart_inv (cpu y)" if "target_read_insn_slow y 16 a = (r, y1)" for r y1
    using fetch_hart_inv[of y 16 a] that by simp
  then show ?thesis by (auto simp: target_read_insn_u16_def Let_def split: prod.splits option.splits)
qed

context mmio_frame
begin

lemma read_memory_hart_inv: "hart_inv (cpu (snd (riscv_cpu_read_memory io y a k))) = hart_inv (cpu y)"
  using dev_frame_hart[OF device_read_frame]
  by (simp add: riscv_cpu_read_memory_def Let_def split_beta split: sum.splits)

lemma write_memory_hart_inv: "hart_inv (cpu (snd (riscv_cpu_write_memory io y a v k))) = hart_inv (cpu y)"
  using dev_frame_hart[OF device_write_frame]
  by (simp add: riscv_cpu_write_memory_def Let_def split_beta split: sum.splits)

lemma target_read_hart_inv: "target_read io k y a = (r, y1) \<Longrightarrow> hart_inv (cpu y1) = hart_inv (cpu y)"
  using read_memory_hart_inv[of y a k]
  by (auto simp: target_read_def Let_def split: if_splits prod.splits option.splits)

lemma target_write_hart_inv: "target_write io k y a v = (r, y1) \<Longrightarrow> hart_inv (cpu y1) = hart_inv (cpu y)"
  using write_memory_hart_inv[of y a "take_bit (8 * 2 ^ k) v" k]
  by (auto simp: target_write_def Let_def split: if_splits)

lemma load_then_hart_inv:
  "hart_inv (cpu y) \<Longrightarrow> (\<And>v s. hart_inv s \<Longrightarrow> hart_inv (f v s)) \<Longrightarrow> hart_inv (cpu (snd (load_then io k a f nxt y)))"
  by (auto simp: load_then_def dest: target_read_hart_inv split: prod.splits option.splits)

lemma store_then_hart_inv: "hart_inv (cpu y) \<Longrightarrow> hart_inv (cpu (snd (store_then io k a v nxt y)))"
  by (auto simp: store_then_def dest: target_write_hart_inv split: prod.splits option.splits)

end

section \<open>The invariant under instructions\<close>

lemma hart_inv_write_reg: "hart_inv s \<Longrightarrow> rd \<noteq> 0 \<Longrightarrow> hart_inv (write_reg rd v s)"
  by (simp add: hart_inv_def write_reg_def)

lemma hart_inv_set_rd: "hart_inv s \<Longrightarrow> hart_inv (set_rd rd v s)"
  by (simp add: set_rd_def hart_inv_write_reg)

lemma hart_inv_write_fp_reg: "hart_inv s \<Longrightarrow> hart_inv (write_fp_reg rd v s)"
  by (simp add: hart_inv_def write_fp_reg_def inv_unfold)

lemma hart_inv_pc: "hart_inv s \<Longrightarrow> \<not> bit v 0 \<Longrightarrow> hart_inv (s\<lparr>pc := v\<rparr>)"
  by (simp add: hart_inv_def)

lemma hart_inv_csr_write: "hart_inv s \<Longrightarrow> hart_inv (snd (csr_write s csr v))"
  by (simp add: hart_inv_def csr_inv_csr_write csr_write_frame)

lemma hart_inv_update_counters [simp]: "hart_inv (update_counters now start s) = hart_inv s"
  by (simp add: update_counters_def Let_def)

lemmas hart_inv_intros = hart_inv_write_reg hart_inv_set_rd hart_inv_write_fp_reg hart_inv_pc
  hart_inv_mret hart_inv_sret hart_inv_dret

lemma creg_nonzero [simp]: "creg k insn \<noteq> 0"
proof -
  have "bit (creg k insn) 3" by (simp add: creg_def bit_or_iff)
  then show ?thesis by auto
qed

lemma even_add: "\<not> bit (a :: u64) 0 \<Longrightarrow> \<not> bit b 0 \<Longrightarrow> \<not> bit (a + b) 0"
  by (simp add: bit_0)

lemma scast_bit0: "bit (scast (w :: u32) :: u64) 0 = bit w 0"
  by (simp add: bit_simps)

lemma asr_shl_bit0: "k < 32 \<Longrightarrow> bit (signed_drop_bit k (push_bit k (w :: u32))) 0 = bit w 0"
  by (auto simp: bit_simps)

lemma jump_imms_even:
  "\<not> bit (scast (j_imm insn) :: u64) 0" "\<not> bit (scast (b_imm insn) :: u64) 0"
  unfolding scast_bit0 j_imm_def b_imm_def Let_def
  by (subst asr_shl_bit0; simp add: bit_or_iff bit_and_iff)+

lemma get_field1_bit0: "0 < dst \<Longrightarrow> \<not> bit (get_field1 insn src dst mx) 0"
  by (simp add: get_field1_def Let_def bit_and_iff bit_push_bit_iff del: push_bit_of_1)

lemma compressed_imms_even:
  "\<not> bit (scast (cj_imm insn) :: u64) 0" "\<not> bit (scast (cb_imm insn) :: u64) 0"
  unfolding scast_bit0 cj_imm_def cb_imm_def sext_def
  by (subst asr_shl_bit0; simp add: bit_or_iff get_field1_bit0)+

lemma clear_bit0: "\<not> bit (w AND NOT 1 :: u64) 0" "\<not> bit (w AND - 2 :: u64) 0"
  by (simp_all add: bit_0 even_and_iff)

lemmas even_targets = even_add jump_imms_even compressed_imms_even clear_bit0

lemma pc_plus_4_even: "\<not> bit (a :: u64) 0 \<Longrightarrow> \<not> bit (a + 4) 0" "\<not> bit (a :: u64) 0 \<Longrightarrow> \<not> bit (a + 2) 0"
  by (simp_all add: bit_0)

lemma exec_q1_hart_inv:
  "hart_inv (cpu y) \<Longrightarrow> \<not> bit gpc 0 \<Longrightarrow> hart_inv (cpu (snd (exec_q1 insn gpc y)))"
  by (simp add: exec_q1_def exec_q1_alu_def Let_def hart_inv_intros even_targets)

lemma exec_q2_jump_hart_inv:
  "hart_inv (cpu y) \<Longrightarrow> hart_inv (cpu (snd (exec_q2_jump insn gpc y)))"
  by (simp add: exec_q2_jump_def Let_def hart_inv_intros even_targets)

lemma exec_jumps_hart_inv:
  assumes "hart_inv (cpu y)" "\<not> bit gpc 0"
  shows "hart_inv (cpu (snd (exec_upper insn gpc y)))" "hart_inv (cpu (snd (exec_jal insn gpc y)))"
    "hart_inv (cpu (snd (exec_jalr insn gpc y)))" "hart_inv (cpu (snd (exec_branch insn gpc y)))"
  using assms by (simp_all add: exec_upper_def exec_jal_def exec_jalr_def exec_branch_def Let_def
      hart_inv_intros even_targets)

lemma exec_alu_hart_inv:
  assumes "hart_inv (cpu y)"
  shows "hart_inv (cpu (snd (exec_opimm insn y)))" "hart_inv (cpu (snd (exec_opimm32 insn y)))"
    "hart_inv (cpu (snd (exec_op insn y)))" "hart_inv (cpu (snd (exec_op32 insn y)))"
    "hart_inv (cpu (snd (exec_misc_mem insn y)))"
proof -
  have w: "hart_inv (cpu (snd (write_result insn r y)))" for r
    using assms by (simp add: write_result_def hart_inv_set_rd split: option.splits)
  show "hart_inv (cpu (snd (exec_opimm insn y)))" "hart_inv (cpu (snd (exec_opimm32 insn y)))"
    "hart_inv (cpu (snd (exec_op insn y)))" "hart_inv (cpu (snd (exec_op32 insn y)))"
    unfolding exec_opimm_def exec_opimm32_def exec_op_def exec_op32_def Let_def by (rule w)+
  show "hart_inv (cpu (snd (exec_misc_mem insn y)))"
    using assms by (simp add: exec_misc_mem_def Let_def)
qed

lemma csr_finish_hart_inv:
  "hart_inv (cpu y) \<Longrightarrow> \<not> bit gpc 0 \<Longrightarrow> hart_inv (cpu (snd (csr_finish insn gpc v err y)))"
  by (simp add: csr_finish_def Let_def hart_inv_intros pc_plus_4_even)

lemma exec_csr_hart_inv:
  assumes "hart_inv (cpu y)" "\<not> bit gpc 0" shows "hart_inv (cpu (snd (exec_csr insn gpc now start y)))"
proof -
  let ?s = "update_counters now start (cpu y)"
  have "hart_inv (snd (csr_write ?s c v))" for c v using assms by (intro hart_inv_csr_write) simp
  then show ?thesis
    using assms by (simp add: exec_csr_def Let_def split_beta csr_finish_hart_inv split: option.splits)
qed

lemma exec_priv_hart_inv:
  "hart_inv (cpu y) \<Longrightarrow> \<not> bit gpc 0 \<Longrightarrow> hart_inv (cpu (snd (exec_priv insn gpc y)))"
  by (simp add: exec_priv_def exec_ecall_def exec_wfi_def exec_sfence_def Let_def hart_inv_intros
      pc_plus_4_even tlb_flush_vaddr_def)

lemma exec_system_hart_inv:
  "hart_inv (cpu y) \<Longrightarrow> \<not> bit gpc 0 \<Longrightarrow> hart_inv (cpu (snd (exec_system insn gpc now start y)))"
  by (simp add: exec_system_def exec_csr_hart_inv exec_priv_hart_inv)

lemma if_resI:
  "(P \<Longrightarrow> hart_inv (cpu (snd a))) \<Longrightarrow> (\<not> P \<Longrightarrow> hart_inv (cpu (snd b))) \<Longrightarrow> hart_inv (cpu (snd (if P then a else b)))"
  by simp

context mmio_frame
begin

lemmas mem_intros = load_then_hart_inv store_then_hart_inv hart_inv_intros

lemma exec_q0_hart_inv: "hart_inv (cpu y) \<Longrightarrow> hart_inv (cpu (snd (exec_q0 io insn y)))"
  unfolding exec_q0_def Let_def by (auto intro!: mem_intros)

lemma exec_load_hart_inv: "hart_inv (cpu y) \<Longrightarrow> hart_inv (cpu (snd (exec_load io insn y)))"
  unfolding exec_load_def Let_def by (auto intro!: mem_intros)

lemma exec_store_hart_inv: "hart_inv (cpu y) \<Longrightarrow> hart_inv (cpu (snd (exec_store io insn y)))"
  unfolding exec_store_def Let_def by (auto intro!: mem_intros)

lemma exec_fp_load_hart_inv: "hart_inv (cpu y) \<Longrightarrow> hart_inv (cpu (snd (exec_fp_load io insn y)))"
  unfolding exec_fp_load_def Let_def by (auto intro!: mem_intros)

lemma exec_fp_store_hart_inv: "hart_inv (cpu y) \<Longrightarrow> hart_inv (cpu (snd (exec_fp_store io insn y)))"
  unfolding exec_fp_store_def Let_def by (auto intro!: mem_intros)

lemma exec_q2_hart_inv: "hart_inv (cpu y) \<Longrightarrow> hart_inv (cpu (snd (exec_q2 io insn gpc y)))"
  unfolding exec_q2_def Let_def
  by (intro if_resI mem_intros exec_q2_jump_hart_inv) (simp_all only: snd_conv upd_cpu_sel mem_intros not_False_eq_True)

lemmas exec_mem_hart_inv = exec_q0_hart_inv exec_load_hart_inv exec_store_hart_inv exec_fp_load_hart_inv exec_fp_store_hart_inv exec_q2_hart_inv

lemma exec_lr_hart_inv: "hart_inv (cpu y) \<Longrightarrow> hart_inv (cpu (snd (exec_lr io k insn y)))"
  unfolding exec_lr_def Let_def by (auto intro!: mem_intros)

lemma exec_sc_hart_inv: "hart_inv (cpu y) \<Longrightarrow> hart_inv (cpu (snd (exec_sc io k insn y)))"
  unfolding exec_sc_def Let_def
  by (auto simp: hart_inv_set_rd dest: target_write_hart_inv split: prod.splits option.splits)

lemma exec_rmw_hart_inv:
  assumes "hart_inv (cpu y)" shows "hart_inv (cpu (snd (exec_rmw io k insn y)))"
proof -
  obtain r y1 where r: "target_read io k y (read_reg (cpu y) (rs1_of insn)) = (r, y1)" by fastforce
  have "hart_inv (cpu y1)" using target_read_hart_inv[OF r] assms by simp
  moreover have "hart_inv (cpu y2)" if "target_write io k y1 a v = (q, y2)" for a v q y2
    using target_write_hart_inv[OF that] calculation by simp
  ultimately show ?thesis
    unfolding exec_rmw_def Let_def r by (auto simp: hart_inv_set_rd split: prod.splits option.splits)
qed

lemma exec_amo_hart_inv: "hart_inv (cpu y) \<Longrightarrow> hart_inv (cpu (snd (exec_amo io insn y)))"
  unfolding exec_amo_def exec_amo_size_def Let_def
  by (intro if_resI exec_lr_hart_inv exec_sc_hart_inv exec_rmw_hart_inv) simp_all

lemma exec_insn_hart_inv:
  assumes "hart_inv (cpu y)" "\<not> bit gpc 0"
    and "\<And>s s'. hart_inv s \<Longrightarrow> fpu insn s = Some s' \<Longrightarrow> hart_inv s'"
  shows "hart_inv (cpu (snd (exec_insn io fpu insn gpc now start y)))"
proof -
  have "hart_inv (cpu (snd (exec_fpu fpu insn y)))"
    using assms(1,3) by (simp add: exec_fpu_def split: option.splits)
  with assms(1,2) show ?thesis
    unfolding exec_insn_def Let_def
    by (intro if_resI exec_mem_hart_inv exec_amo_hart_inv exec_system_hart_inv
        exec_alu_hart_inv exec_jumps_hart_inv exec_q1_hart_inv) simp_all
qed

end

end
