(* ===== verification/Interp.thy ===== *)
theory Interp
  imports Exec_Theorems
begin

unbundle bit_operations_syntax

text \<open>
  The interpreter loop \<^verbatim>\<open>riscv_cpu_interp64\<close> of \<^verbatim>\<open>dromajo_template.h\<close>: interrupt check, breakpoint
  triggers, instruction fetch through the cached code pointer, the code TLB or the slow path, one
  instruction, and the exits \<^verbatim>\<open>illegal_insn\<close>, \<^verbatim>\<open>exception\<close>, \<^verbatim>\<open>done_interp\<close> and \<^verbatim>\<open>the_end\<close> with the
  counter bookkeeping.

  The local variables that live across iterations are the record \<open>locals\<close>. \<^verbatim>\<open>n_cycles\<close> is positive at
  the call; it is the argument the loop recurses on, so the loop terminates by construction.
\<close>

record locals =
  code_ptr :: u64
  code_end :: u64
  code_to_pc_addend :: u64
  insn_counter_addend :: u64
  insn_executed :: int

definition GET_PC :: "locals \<Rightarrow> u64" where
  "GET_PC l = code_ptr l + code_to_pc_addend l"

definition GET_INSN_COUNTER :: "locals \<Rightarrow> nat \<Rightarrow> u64" where
  "GET_INSN_COUNTER l n_cycles = insn_counter_addend l - of_nat n_cycles"

text \<open>The interrupt test of the loop.\<close>

definition interrupt_due :: "'d sys \<Rightarrow> bool" where
  "interrupt_due y \<longleftrightarrow> mip (cpu y) AND mie (cpu y) \<noteq> 0
     \<and> (vm_pending_interrupt (vm y) \<noteq> - 1 \<or> \<not> cosim (vm y))"

definition take_interrupt :: "'d sys \<Rightarrow> bool \<times> 'd sys" where
  "take_interrupt y = (if interrupt_due y
     then let (r, s) = raise_interrupt (cpu y) in (r, y\<lparr>cpu := s\<rparr>) else (False, y))"

section \<open>Exits\<close>

definition the_end :: "nat \<Rightarrow> u64 \<Rightarrow> locals \<Rightarrow> 'd sys \<Rightarrow> int \<times> 'd sys" where
  "the_end n_cycles start l y =
     (insn_executed l, upd_cpu (update_counters (GET_INSN_COUNTER l n_cycles) start) y)"

definition done_end :: "nat \<Rightarrow> u64 \<Rightarrow> locals \<Rightarrow> 'd sys \<Rightarrow> int \<times> 'd sys" where
  "done_end n_cycles start l y = the_end (n_cycles - 1) start l y"

text \<open>A cancelled instruction is not counted; an environment call or a breakpoint is.\<close>

definition cancels :: "int \<Rightarrow> bool" where
  "cancels cause \<longleftrightarrow> (cause < CAUSE_USER_ECALL \<or> cause > CAUSE_USER_ECALL + 3) \<and> cause \<noteq> CAUSE_BREAKPOINT"

definition exception_end :: "nat \<Rightarrow> u64 \<Rightarrow> locals \<Rightarrow> 'd sys \<Rightarrow> int \<times> 'd sys" where
  "exception_end n_cycles start l y =
     (let y1 = upd_cpu (\<lambda>s. s\<lparr>pc := GET_PC l\<rparr>) y; cause = pending_exception (cpu y1) in
      if cause \<ge> 0 then
        let l1 = (if cancels cause
                  then l\<lparr>insn_counter_addend := insn_counter_addend l - 1, insn_executed := insn_executed l - 1\<rparr>
                  else l)
        in done_end n_cycles start l1 (upd_cpu (\<lambda>s. raise_exception2 (word_of_int cause) (pending_tval s) s) y1)
      else done_end n_cycles start l y1)"

definition illegal_end :: "nat \<Rightarrow> u64 \<Rightarrow> locals \<Rightarrow> 'd sys \<Rightarrow> int \<times> 'd sys" where
  "illegal_end n_cycles start l y = exception_end n_cycles start l (upd_cpu (pend CAUSE_ILLEGAL_INSTRUCTION 0) y)"

section \<open>Triggers and fetch\<close>

definition trigger_hit :: "RISCVCPUState \<Rightarrow> bool" where
  "trigger_hit s =
     (let t_mctl = MCONTROL_EXECUTE OR push_bit (unat (priv s)) MCONTROL_U;
          t_mask = push_bit 60 0xF OR t_mctl;
          t_match = push_bit 60 0x2 OR t_mctl
      in tdata1 s 0 AND t_mask \<noteq> t_match \<and> tdata2 s 0 = pc s)"

text \<open>The fetch when the cached code pointer is exhausted, after the interrupt check.\<close>

definition fetch_refill :: "locals \<Rightarrow> 'd sys \<Rightarrow> u32 option \<times> locals \<times> 'd sys" where
  "fetch_refill l y =
     (let addr = pc (cpu y); e = tlb_code (cpu y) (tlb_index addr) in
      if vaddr e = addr AND NOT PG_MASK then
        let cp = mem_addend e + addr;
            ce = mem_addend e + ((addr AND NOT PG_MASK) + PG_MASK - 1);
            l1 = l\<lparr>code_ptr := cp, code_end := ce, code_to_pc_addend := addr - cp\<rparr>
        in if cp \<ge> ce then
             let insn = ucast (le_load (host y) cp 2) :: u32 in
             if insn AND 3 = 3 then
               (case target_read_insn_u16 y (addr + 2) of
                  (None, y1) \<Rightarrow> (None, l1, y1)
                | (Some insn_high, y1) \<Rightarrow> (Some (insn OR push_bit 16 (ucast insn_high)), l1, y1))
             else (Some insn, l1, y)
           else (Some (ucast (le_load (host y) cp 4)), l1, y)
      else let (r, y1) = target_read_insn_slow y 32 addr in (r, l, y1))"

section \<open>The loop\<close>

text \<open>
  One iteration: either the result of an exit, or the local variables and the state the next iteration
  starts with. \<open>n\<close> is \<^verbatim>\<open>n_cycles\<close> after its decrement.
\<close>

definition after_insn ::
  "nat \<Rightarrow> u64 \<Rightarrow> locals \<Rightarrow> ctl \<times> 'd sys \<Rightarrow> (int \<times> 'd sys) + (locals \<times> 'd sys)" where
  "after_insn n start l r =
     (case r of
        (C_NEXT_INSN, y) \<Rightarrow> Inr (l\<lparr>code_ptr := code_ptr l + 2\<rparr>, y)
      | (NEXT_INSN, y) \<Rightarrow> Inr (l\<lparr>code_ptr := code_ptr l + 4\<rparr>, y)
      | (JUMP_INSN kind, y) \<Rightarrow>
          Inr (l\<lparr>code_ptr := 0, code_end := 0, code_to_pc_addend := pc (cpu y)\<rparr>,
               upd_cpu (\<lambda>s. s\<lparr>info := kind, next_addr := pc s\<rparr>) y)
      | (illegal_insn, y) \<Rightarrow> Inl (illegal_end n start l y)
      | (exception, y) \<Rightarrow> Inl (exception_end n start l y)
      | (done_interp, y) \<Rightarrow> Inl (done_end n start l y))"

definition interp_body ::
  "'d mmio \<Rightarrow> fpu \<Rightarrow> nat \<Rightarrow> u64 \<Rightarrow> locals \<Rightarrow> 'd sys \<Rightarrow> (int \<times> 'd sys) + (locals \<times> 'd sys)" where
  "interp_body io fpu n start l y =
     (let l1 = l\<lparr>insn_executed := insn_executed l + 1\<rparr> in
      if trigger_hit (cpu y) then
        Inl (done_end n start (l1\<lparr>insn_counter_addend := insn_counter_addend l1 - 1\<rparr>)
               (upd_cpu (\<lambda>s. raise_exception2 (word_of_int CAUSE_BREAKPOINT) 0 (pend CAUSE_BREAKPOINT 0 s)) y))
      else if code_ptr l1 \<ge> code_end l1 then
        let (taken, y1) = take_interrupt y in
        if taken then Inl (the_end n start l1 y1)
        else (case fetch_refill l1 y1 of
                (None, l2, y2) \<Rightarrow> Inl (exception_end n start l2 y2)
              | (Some insn, l2, y2) \<Rightarrow>
                  after_insn n start l2 (exec_insn io fpu insn (GET_PC l2) (GET_INSN_COUNTER l2 n) start y2))
      else after_insn n start l1
             (exec_insn io fpu (ucast (le_load (host y) (code_ptr l1) 4)) (GET_PC l1) (GET_INSN_COUNTER l1 n) start y))"

text \<open>\<open>m\<close> is one less than \<^verbatim>\<open>n_cycles\<close> at the head of the loop.\<close>

primrec interp_loop :: "nat \<Rightarrow> 'd mmio \<Rightarrow> fpu \<Rightarrow> u64 \<Rightarrow> locals \<Rightarrow> 'd sys \<Rightarrow> int \<times> 'd sys" where
  "interp_loop 0 io fpu start l y = the_end 0 start l (upd_cpu (\<lambda>s. s\<lparr>pc := GET_PC l\<rparr>) y)"
| "interp_loop (Suc m) io fpu start l y =
     (case interp_body io fpu (Suc m) start l (upd_cpu (\<lambda>s. s\<lparr>pc := GET_PC l\<rparr>) y) of
        Inl r \<Rightarrow> r
      | Inr (l1, y1) \<Rightarrow> interp_loop m io fpu start l1 y1)"

definition riscv_cpu_interp64 :: "'d mmio \<Rightarrow> fpu \<Rightarrow> nat \<Rightarrow> 'd sys \<Rightarrow> int \<times> 'd sys" where
  "riscv_cpu_interp64 io fpu n_cycles y =
     (let start = insn_counter (cpu y);
          y0 = upd_cpu (\<lambda>s. s\<lparr>most_recently_written_reg := - 1, most_recently_written_fp_reg := - 1, info := ctf_nop\<rparr>) y
      in if n_cycles = 0 then (0, y0)
         else
           let l = \<lparr>code_ptr = 0, code_end = 0, code_to_pc_addend = 0,
                    insn_counter_addend = start + of_nat n_cycles, insn_executed = 0\<rparr>;
               (taken, y1) = take_interrupt y0
           in if taken then done_end n_cycles start (l\<lparr>insn_counter_addend := insn_counter_addend l - 1\<rparr>) y1
              else let y2 = upd_cpu (\<lambda>s. s\<lparr>pending_exception := - 1\<rparr>) y1
                   in interp_loop n_cycles io fpu start (l\<lparr>code_to_pc_addend := pc (cpu y2)\<rparr>) y2)"

definition riscv_cpu_interp :: "'d mmio \<Rightarrow> fpu \<Rightarrow> nat \<Rightarrow> 'd sys \<Rightarrow> int \<times> 'd sys" where
  "riscv_cpu_interp io fpu n_cycles y = riscv_cpu_interp64 io fpu n_cycles y"

definition riscv_cpu_get_cycles :: "RISCVCPUState \<Rightarrow> u64" where
  "riscv_cpu_get_cycles s = mcycle s"

section \<open>The hart invariant through the loop\<close>

lemma take_interrupt_hart_inv: "hart_inv (cpu y) \<Longrightarrow> hart_inv (cpu (snd (take_interrupt y)))"
  using hart_inv_raise_interrupt[of "cpu y"] by (simp add: take_interrupt_def split_beta)

lemma take_interrupt_same: "\<not> fst (take_interrupt y) \<Longrightarrow> snd (take_interrupt y) = y"
proof -
  assume "\<not> fst (take_interrupt y)"
  then have "\<not> fst (raise_interrupt (cpu y)) \<or> \<not> interrupt_due y"
    by (auto simp: take_interrupt_def split_beta split: if_splits)
  then show ?thesis
    by (auto simp: take_interrupt_def split_beta raise_interrupt_def Let_def split: if_splits)
qed

lemma end_hart_inv:
  assumes "hart_inv (cpu y)"
  shows "hart_inv (cpu (snd (the_end n start l y)))" "hart_inv (cpu (snd (done_end n start l y)))"
    "\<not> bit (GET_PC l) 0 \<Longrightarrow> hart_inv (cpu (snd (exception_end n start l y)))"
    "\<not> bit (GET_PC l) 0 \<Longrightarrow> hart_inv (cpu (snd (illegal_end n start l y)))"
  using assms
  by (simp_all add: the_end_def done_end_def exception_end_def illegal_end_def Let_def hart_inv_raise hart_inv_pc)

lemma fetch_refill_pc:
  assumes "fetch_refill l y = (r, l1, y1)" "GET_PC l = pc (cpu y)"
  shows "GET_PC l1 = pc (cpu y)"
  using assms by (auto simp: fetch_refill_def Let_def GET_PC_def split: if_splits prod.splits option.splits)

lemma fetch_refill_hart_inv:
  assumes "fetch_refill l y = (r, l1, y1)"
  shows "hart_inv (cpu y1) = hart_inv (cpu y)"
proof -
  have u16: "hart_inv (cpu y') = hart_inv (cpu y)" if "target_read_insn_u16 y a = (q, y')" for a q y'
    using fetch16_hart_inv[of y a] that by simp
  have slow: "hart_inv (cpu y') = hart_inv (cpu y)" if "target_read_insn_slow y 32 a = (q, y')" for a q y'
    using fetch_hart_inv[of y 32 a] that by simp
  show ?thesis
    using assms u16 slow
    by (auto simp: fetch_refill_def Let_def split: if_splits prod.splits option.splits)
qed

text \<open>What holds at the head of an iteration.\<close>

definition loop_inv :: "locals \<Rightarrow> 'd sys \<Rightarrow> bool" where
  "loop_inv l y \<longleftrightarrow> hart_inv (cpu y) \<and> \<not> bit (GET_PC l) 0"

definition fpu_ok :: "fpu \<Rightarrow> bool" where
  "fpu_ok fpu \<longleftrightarrow> (\<forall>insn s s'. hart_inv s \<longrightarrow> fpu insn s = Some s' \<longrightarrow> hart_inv s')"

lemma after_insn_inv:
  assumes "hart_inv (cpu (snd r))" "\<not> bit (GET_PC l) 0"
  shows "case after_insn n start l r of Inl e \<Rightarrow> hart_inv (cpu (snd e)) | Inr (l1, y1) \<Rightarrow> loop_inv l1 y1"
proof -
  obtain c y where r: "r = (c, y)" by (cases r)
  have "\<not> bit (code_ptr l + 2 + code_to_pc_addend l) 0" "\<not> bit (code_ptr l + 4 + code_to_pc_addend l) 0"
    using assms(2) by (simp_all add: GET_PC_def bit_0)
  moreover have "\<not> bit (pc (cpu y)) 0" using assms(1) r by (simp add: hart_inv_def)
  ultimately show ?thesis
    using assms r by (cases c) (simp_all add: after_insn_def end_hart_inv loop_inv_def GET_PC_def)
qed

context mmio_frame
begin

lemma interp_body_inv:
  assumes inv: "hart_inv (cpu y)" and pc: "pc (cpu y) = GET_PC l" and "fpu_ok fpu"
  shows "case interp_body io fpu n start l y of Inl e \<Rightarrow> hart_inv (cpu (snd e)) | Inr (l1, y1) \<Rightarrow> loop_inv l1 y1"
proof -
  let ?l = "l\<lparr>insn_executed := insn_executed l + 1\<rparr>"
  have even: "\<not> bit (GET_PC l) 0" using inv pc by (simp add: hart_inv_def)
  have ex: "hart_inv (cpu (snd (exec_insn io fpu insn g now start y')))"
    if "hart_inv (cpu y')" "\<not> bit g 0" for insn g now y'
    using that assms(3) by (intro exec_insn_hart_inv) (auto simp: fpu_ok_def)
  have gl: "GET_PC ?l = GET_PC l" by (simp add: GET_PC_def)
  consider "trigger_hit (cpu y)" | "\<not> trigger_hit (cpu y)" "code_ptr ?l \<ge> code_end ?l" "fst (take_interrupt y)"
    | "\<not> trigger_hit (cpu y)" "code_ptr ?l \<ge> code_end ?l" "\<not> fst (take_interrupt y)"
    | "\<not> trigger_hit (cpu y)" "\<not> code_ptr ?l \<ge> code_end ?l" by blast
  then show ?thesis
  proof cases
    case 1
    then show ?thesis using inv by (simp add: interp_body_def Let_def end_hart_inv hart_inv_raise)
  next
    case 2
    then show ?thesis
      using take_interrupt_hart_inv[OF inv] by (simp add: interp_body_def Let_def split_beta end_hart_inv)
  next
    case 3
    obtain r l2 y2 where f: "fetch_refill ?l y = (r, l2, y2)" by (cases "fetch_refill ?l y") auto
    have g2: "\<not> bit (GET_PC l2) 0" using fetch_refill_pc[OF f] pc gl even by simp
    have y2: "hart_inv (cpu y2)" using fetch_refill_hart_inv[OF f] inv by simp
    have "case after_insn n start l2 (exec_insn io fpu insn (GET_PC l2) (GET_INSN_COUNTER l2 n) start y2) of
        Inl e \<Rightarrow> hart_inv (cpu (snd e)) | Inr (l1, y1) \<Rightarrow> loop_inv l1 y1" for insn
      by (rule after_insn_inv[OF ex[OF y2 g2] g2])
    then show ?thesis
      using 3 f take_interrupt_same[OF 3(3)] end_hart_inv(3)[OF y2 g2]
      by (cases r) (simp_all add: interp_body_def Let_def split_beta)
  next
    case 4
    have gl': "\<not> bit (GET_PC ?l) 0" using even gl by simp
    from 4 show ?thesis
      using after_insn_inv[OF ex[OF inv gl'] gl', of n start] by (simp add: interp_body_def Let_def)
  qed
qed

lemma interp_loop_inv:
  assumes "fpu_ok fpu"
  shows "loop_inv l y \<Longrightarrow> hart_inv (cpu (snd (interp_loop m io fpu start l y)))"
proof (induction m arbitrary: l y)
  case 0
  then show ?case by (simp add: loop_inv_def end_hart_inv hart_inv_pc)
next
  case (Suc m)
  let ?y = "upd_cpu (\<lambda>s. s\<lparr>pc := GET_PC l\<rparr>) y"
  have "hart_inv (cpu ?y)" "pc (cpu ?y) = GET_PC l" using Suc.prems by (simp_all add: loop_inv_def hart_inv_pc)
  from interp_body_inv[OF this assms, of "Suc m" start] Suc.IH show ?case
    by (auto split: sum.splits prod.splits)
qed

lemma interp_hart_inv:
  assumes "fpu_ok fpu" "hart_inv (cpu y)"
  shows "hart_inv (cpu (snd (riscv_cpu_interp io fpu n y)))"
proof -
  let ?y = "upd_cpu (\<lambda>s. s\<lparr>most_recently_written_reg := - 1, most_recently_written_fp_reg := - 1, info := ctf_nop\<rparr>) y"
  have inv: "hart_inv (cpu ?y)" using assms(2) by simp
  note taken = take_interrupt_hart_inv[OF inv]
  then have "\<not> bit (pc (cpu (snd (take_interrupt ?y)))) 0" by (simp add: hart_inv_def)
  with taken show ?thesis
    using inv assms(2)
    by (simp add: riscv_cpu_interp_def riscv_cpu_interp64_def Let_def split_beta end_hart_inv
        interp_loop_inv[OF assms(1)] loop_inv_def GET_PC_def)
qed

end

section \<open>The instruction counter\<close>

lemma the_end_counter: "insn_counter (cpu (snd (the_end n start l y))) = insn_counter_addend l - of_nat n"
  by (simp add: the_end_def update_counters_def Let_def GET_INSN_COUNTER_def)

lemma end_counters:
  assumes "0 < n"
  shows "\<exists>k \<le> n. insn_counter (cpu (snd (done_end n start l y))) = insn_counter_addend l - of_nat k"
    "\<exists>k \<le> n. insn_counter (cpu (snd (done_end n start (l\<lparr>insn_counter_addend := insn_counter_addend l - 1\<rparr>) y)))
       = insn_counter_addend l - of_nat k"
    "\<exists>k \<le> n. insn_counter (cpu (snd (exception_end n start l y))) = insn_counter_addend l - of_nat k"
proof -
  have n: "of_nat n = (1 :: u64) + of_nat (n - 1)" using assms by (cases n) auto
  have d: "insn_counter (cpu (snd (done_end n start l y))) = insn_counter_addend l - of_nat (n - 1)" for l y
    by (simp add: done_end_def the_end_counter)
  then show "\<exists>k \<le> n. insn_counter (cpu (snd (done_end n start l y))) = insn_counter_addend l - of_nat k"
    by (metis diff_le_self)
  have c: "insn_counter (cpu (snd (done_end n start (l\<lparr>insn_counter_addend := insn_counter_addend l - 1, insn_executed := e\<rparr>) y)))
      = insn_counter_addend l - of_nat n" for e y
    by (simp add: d n algebra_simps)
  show "\<exists>k \<le> n. insn_counter (cpu (snd (done_end n start (l\<lparr>insn_counter_addend := insn_counter_addend l - 1\<rparr>) y)))
       = insn_counter_addend l - of_nat k"
    using c[of "insn_executed l" y] by auto
  show "\<exists>k \<le> n. insn_counter (cpu (snd (exception_end n start l y))) = insn_counter_addend l - of_nat k"
  proof (cases "pending_exception (cpu y) \<ge> 0 \<and> cancels (pending_exception (cpu y))")
    case True
    then show ?thesis by (auto simp: exception_end_def Let_def c intro!: exI[of _ n])
  next
    case False
    then show ?thesis by (auto simp: exception_end_def Let_def d intro!: exI[of _ "n - 1"])
  qed
qed

lemma fetch_refill_addend: "fetch_refill l y = (r, l1, y1) \<Longrightarrow> insn_counter_addend l1 = insn_counter_addend l"
  by (auto simp: fetch_refill_def Let_def split: if_splits prod.splits option.splits)

text \<open>The counter after an iteration that starts with the addend \<open>a\<close>.\<close>

definition counted :: "nat \<Rightarrow> u64 \<Rightarrow> (int \<times> 'd sys) + (locals \<times> 'd sys) \<Rightarrow> bool" where
  "counted n a r = (case r of Inl e \<Rightarrow> \<exists>k \<le> n. insn_counter (cpu (snd e)) = a - of_nat k
     | Inr (l, y) \<Rightarrow> insn_counter_addend l = a)"

lemma after_insn_counter:
  assumes "0 < n" "insn_counter_addend l = a" shows "counted n a (after_insn n start l r)"
proof -
  obtain c y where "r = (c, y)" by (cases r)
  then show ?thesis
    using end_counters[OF assms(1), of start l] assms(2)
    by (cases c) (simp_all add: after_insn_def illegal_end_def counted_def)
qed

lemma interp_body_counter:
  fixes y :: "'d sys"
  assumes n: "0 < n" shows "counted n (insn_counter_addend l) (interp_body io fpu n start l y)"
proof -
  let ?l = "l\<lparr>insn_executed := insn_executed l + 1\<rparr>"
  obtain r l2 y2 where f: "fetch_refill ?l (snd (take_interrupt y)) = (r, l2, y2)"
    by (cases "fetch_refill ?l (snd (take_interrupt y))") auto
  have l2: "insn_counter_addend l2 = insn_counter_addend l" using fetch_refill_addend[OF f] by simp
  have te: "counted n (insn_counter_addend l) (Inl (the_end n start ?l y'))" for y' :: "'d sys"
    by (auto simp: the_end_counter counted_def intro!: exI[of _ n])
  have bp: "counted n (insn_counter_addend l) (Inl (done_end n start (?l\<lparr>insn_counter_addend := insn_counter_addend ?l - 1\<rparr>) y'))" for y' :: "'d sys"
    using end_counters(2)[OF n, of start ?l y'] by (simp add: counted_def)
  have e2: "counted n (insn_counter_addend l) (Inl (exception_end n start l2 y'))" for y' :: "'d sys"
    using end_counters(3)[OF n, of start l2 y'] by (simp add: l2 counted_def)
  have al: "counted n (insn_counter_addend l) (after_insn n start ?l x)" for x :: "ctl \<times> 'd sys"
    by (rule after_insn_counter[OF n]) simp
  have a2: "counted n (insn_counter_addend l) (after_insn n start l2 x)" for x :: "ctl \<times> 'd sys"
    by (rule after_insn_counter[OF n]) (simp add: l2)
  show ?thesis
    unfolding interp_body_def Let_def split_beta f
    using te bp al a2 e2 by (cases r) simp_all
qed

lemma interp_loop_counter:
  "\<exists>k \<le> m. insn_counter (cpu (snd (interp_loop m io fpu start l y))) = insn_counter_addend l - of_nat k"
proof (induction m arbitrary: l y)
  case 0
  then show ?case by (simp add: the_end_counter)
next
  case (Suc m)
  let ?y = "upd_cpu (\<lambda>s. s\<lparr>pc := GET_PC l\<rparr>) y"
  have c: "counted (Suc m) (insn_counter_addend l) (interp_body io fpu (Suc m) start l ?y)"
    by (rule interp_body_counter) simp
  show ?case
  proof (cases "interp_body io fpu (Suc m) start l ?y")
    case (Inl e)
    with c show ?thesis by (simp add: counted_def)
  next
    case (Inr p)
    obtain l1 y1 where p: "p = (l1, y1)" by (cases p)
    have "insn_counter_addend l1 = insn_counter_addend l" using c Inr p by (simp add: counted_def)
    with Suc.IH[of l1 y1] obtain k where "k \<le> m"
        "insn_counter (cpu (snd (interp_loop m io fpu start l1 y1))) = insn_counter_addend l - of_nat k" by auto
    with Inr p show ?thesis by (intro exI[of _ k]) simp
  qed
qed



end
