(* ===== verification/Softfp.thy ===== *)
theory Softfp
  imports Prelude
begin

unbundle bit_operations_syntax

text \<open>
  The floating-point library: \<^verbatim>\<open>softfp.cpp\<close>, \<^verbatim>\<open>softfp.h\<close> and the templates \<^verbatim>\<open>softfp_template.h\<close> and
  \<^verbatim>\<open>softfp_template_icvt.h\<close>. The C templates are instantiated for \<^verbatim>\<open>F_SIZE\<close> 32, 64 and 128 (and integer
  sizes 32, 64, 128); here one polymorphic definition on \<open>'a word\<close> stands for all instances, with
  \<open>LENGTH('a)\<close> as \<^verbatim>\<open>F_SIZE\<close>.

  Signs, 0 or 1 in the source, are truth values; exponents are of type \<^verbatim>\<open>int\<close> and stay far from its
  bounds. The double-width type \<^verbatim>\<open>F_ULONG\<close> only holds products, quotients and square-root iterates of
  single-width values, all below \<^verbatim>\<open>2 ^ (2 * F_SIZE)\<close>, so it is modelled by \<open>int\<close>. The flag
  word \<^verbatim>\<open>*pfflags\<close> is passed and returned. \<open>None\<close> is the failed assertion in \<^verbatim>\<open>normalize_sf\<close> and
  \<^verbatim>\<open>normalize2_sf\<close>.
\<close>

section \<open>Formats\<close>

definition MANT_SIZE :: "nat \<Rightarrow> nat" where
  "MANT_SIZE f = (if f = 32 then 23 else if f = 64 then 52 else 112)"

definition EXP_SIZE :: "nat \<Rightarrow> nat" where
  "EXP_SIZE f = (if f = 32 then 8 else if f = 64 then 11 else 15)"

definition EXP_MASK :: "nat \<Rightarrow> int" where
  "EXP_MASK f = push_bit (EXP_SIZE f) 1 - 1"

definition IMANT_SIZE :: "nat \<Rightarrow> nat" where
  "IMANT_SIZE f = f - 2"

definition RND_SIZE :: "nat \<Rightarrow> nat" where
  "RND_SIZE f = IMANT_SIZE f - MANT_SIZE f"

definition MANT_MASK :: "'a::len word" where
  "MANT_MASK = push_bit (MANT_SIZE (LENGTH('a))) 1 - 1"

definition SIGN_MASK :: "'a::len word" where
  "SIGN_MASK = push_bit (LENGTH('a) - 1) 1"

definition QNAN_MASK :: "'a::len word" where
  "QNAN_MASK = push_bit (MANT_SIZE (LENGTH('a)) - 1) 1"

definition F_QNAN :: "'a::len word" where
  "F_QNAN = push_bit (MANT_SIZE (LENGTH('a))) (word_of_int (EXP_MASK (LENGTH('a)))) OR QNAN_MASK"

datatype RoundingModeEnum = RM_RNE | RM_RTZ | RM_RDN | RM_RUP | RM_RMM

text \<open>\<^verbatim>\<open>rm & 1\<close>.\<close>

fun rm_low :: "RoundingModeEnum \<Rightarrow> bool" where
  "rm_low RM_RNE = False" | "rm_low RM_RTZ = True" | "rm_low RM_RDN = False" | "rm_low RM_RUP = True"
| "rm_low RM_RMM = False"

abbreviation (input) FFLAG_INVALID_OP :: u32 where "FFLAG_INVALID_OP \<equiv> 16"
abbreviation (input) FFLAG_DIVIDE_ZERO :: u32 where "FFLAG_DIVIDE_ZERO \<equiv> 8"
abbreviation (input) FFLAG_OVERFLOW :: u32 where "FFLAG_OVERFLOW \<equiv> 4"
abbreviation (input) FFLAG_UNDERFLOW :: u32 where "FFLAG_UNDERFLOW \<equiv> 2"
abbreviation (input) FFLAG_INEXACT :: u32 where "FFLAG_INEXACT \<equiv> 1"

text \<open>Setting a flag under a condition.\<close>

definition flag :: "bool \<Rightarrow> u32 \<Rightarrow> u32 \<Rightarrow> u32" where
  "flag c m fl = (if c then fl OR m else fl)"

text \<open>The number of significant bits among the low \<open>n\<close>, and the leading zeros.\<close>

primrec top_bit :: "'a::len word \<Rightarrow> nat \<Rightarrow> nat" where
  "top_bit a 0 = 0"
| "top_bit a (Suc n) = (if bit a n then Suc n else top_bit a n)"

definition clz :: "'a::len word \<Rightarrow> nat" where
  "clz a = LENGTH('a) - top_bit a (LENGTH('a))"

section \<open>Packing and rounding\<close>

definition sign_of :: "'a::len word \<Rightarrow> bool" where
  "sign_of a \<longleftrightarrow> drop_bit (LENGTH('a) - 1) a \<noteq> 0"

definition exp_of :: "'a::len word \<Rightarrow> int" where
  "exp_of a = uint (drop_bit (MANT_SIZE (LENGTH('a))) a AND word_of_int (EXP_MASK (LENGTH('a))))"

definition mant_of :: "'a::len word \<Rightarrow> 'a word" where
  "mant_of a = a AND MANT_MASK"

definition pack_sf :: "bool \<Rightarrow> int \<Rightarrow> 'a::len word \<Rightarrow> 'a word" where
  "pack_sf a_sign a_exp a_mant = push_bit (LENGTH('a) - 1) (of_bool a_sign)
     OR push_bit (MANT_SIZE (LENGTH('a))) (word_of_int (a_exp mod 2 ^ 32)) OR (a_mant AND MANT_MASK)"

definition unpack_sf :: "'a::len word \<Rightarrow> bool \<times> int \<times> 'a word" where
  "unpack_sf a = (sign_of a, exp_of a, mant_of a)"

definition rshift_rnd :: "'a::len word \<Rightarrow> nat \<Rightarrow> 'a word" where
  "rshift_rnd a d =
     (if d \<noteq> 0 then
        if d \<ge> LENGTH('a) then of_bool (a \<noteq> 0)
        else drop_bit d a OR of_bool (a AND (push_bit d 1 - 1) \<noteq> 0)
      else a)"

definition rnd_addend :: "nat \<Rightarrow> RoundingModeEnum \<Rightarrow> bool \<Rightarrow> u32" where
  "rnd_addend f rm a_sign =
     (case rm of
        RM_RNE \<Rightarrow> push_bit (RND_SIZE f - 1) 1
      | RM_RMM \<Rightarrow> push_bit (RND_SIZE f - 1) 1
      | RM_RTZ \<Rightarrow> 0
      | _ \<Rightarrow> if a_sign \<noteq> rm_low rm then push_bit (RND_SIZE f) 1 - 1 else 0)"

definition rnd_bits_of :: "'a::len word \<Rightarrow> u32" where
  "rnd_bits_of a_mant = ucast (a_mant AND (push_bit (RND_SIZE (LENGTH('a))) 1 - 1))"

text \<open>Adding the addend, dropping the rounding bits, and the even choice half way.\<close>

definition rnd_mant :: "'a::len word \<Rightarrow> RoundingModeEnum \<Rightarrow> bool \<Rightarrow> 'a word" where
  "rnd_mant a_mant rm a_sign =
     (let f = LENGTH('a); m = drop_bit (RND_SIZE f) (a_mant + ucast (rnd_addend f rm a_sign)) in
      if rm = RM_RNE \<and> rnd_bits_of a_mant = push_bit (RND_SIZE f - 1) 1 then m AND NOT 1 else m)"

definition round_pack_sf ::
  "bool \<Rightarrow> int \<Rightarrow> 'a::len word \<Rightarrow> RoundingModeEnum \<Rightarrow> u32 \<Rightarrow> 'a word \<times> u32" where
  "round_pack_sf a_sign a_exp a_mant rm fl =
     (let f = LENGTH('a); addend = rnd_addend f rm a_sign;
          is_subnormal = (a_exp \<le> 0 \<and> (a_exp < 0 \<or> a_mant + ucast addend < push_bit (f - 1) 1));
          a_mant1 = (if a_exp \<le> 0 then rshift_rnd a_mant (nat (1 - a_exp)) else a_mant);
          a_exp1 = (if a_exp \<le> 0 then 1 else a_exp);
          rnd_bits = rnd_bits_of a_mant1;
          fl1 = flag (is_subnormal \<and> rnd_bits \<noteq> 0) FFLAG_UNDERFLOW fl;
          fl2 = flag (rnd_bits \<noteq> 0) FFLAG_INEXACT fl1;
          a_mant2 = rnd_mant a_mant1 rm a_sign;
          a_exp2 = a_exp1 + uint (drop_bit (MANT_SIZE f + 1) a_mant2)
      in if a_mant2 \<le> MANT_MASK then (pack_sf a_sign 0 a_mant2, fl2)
         else if a_exp2 \<ge> EXP_MASK f then
           (if addend = 0 then pack_sf a_sign (EXP_MASK f - 1) MANT_MASK else pack_sf a_sign (EXP_MASK f) 0,
            fl2 OR (FFLAG_OVERFLOW OR FFLAG_INEXACT))
         else (pack_sf a_sign a_exp2 a_mant2, fl2))"

definition normalize_sf ::
  "bool \<Rightarrow> int \<Rightarrow> 'a::len word \<Rightarrow> RoundingModeEnum \<Rightarrow> u32 \<Rightarrow> ('a word \<times> u32) option" where
  "normalize_sf a_sign a_exp a_mant rm fl =
     (let f = LENGTH('a); shift = int (clz a_mant) - int (f - 1 - IMANT_SIZE f) in
      if shift < 0 then None
      else Some (round_pack_sf a_sign (a_exp - shift) (push_bit (nat shift) a_mant) rm fl))"

definition normalize2_sf ::
  "bool \<Rightarrow> int \<Rightarrow> 'a::len word \<Rightarrow> 'a word \<Rightarrow> RoundingModeEnum \<Rightarrow> u32 \<Rightarrow> ('a word \<times> u32) option" where
  "normalize2_sf a_sign a_exp a_mant1 a_mant0 rm fl =
     (let f = LENGTH('a);
          l = (if a_mant1 = 0 then f + clz a_mant0 else clz a_mant1);
          shift = int l - int (f - 1 - IMANT_SIZE f)
      in if shift < 0 then None
         else
           let k = nat shift;
               m = (if k = 0 then a_mant1 OR of_bool (a_mant0 \<noteq> 0)
                    else if k < f then
                      push_bit k a_mant1 OR drop_bit (f - k) a_mant0 OR of_bool (push_bit k a_mant0 \<noteq> 0)
                    else push_bit (k - f) a_mant0)
           in Some (round_pack_sf a_sign (a_exp - shift) m rm fl))"

definition issignan_sf :: "'a::len word \<Rightarrow> bool" where
  "issignan_sf a \<longleftrightarrow>
     (let f = LENGTH('a) in
      uint (drop_bit (MANT_SIZE f - 1) a AND (push_bit (EXP_SIZE f + 1) 1 - 1)) = 2 * EXP_MASK f
      \<and> a AND MANT_MASK \<noteq> 0)"

definition isnan_sf :: "'a::len word \<Rightarrow> bool" where
  "isnan_sf a \<longleftrightarrow> exp_of a = EXP_MASK (LENGTH('a)) \<and> mant_of a \<noteq> 0"

section \<open>Addition and subtraction\<close>

text \<open>The mantissa with its implicit bit, shifted by \<open>k\<close>, and the exponent with subnormals at 1.\<close>

definition with_hidden :: "nat \<Rightarrow> int \<Rightarrow> 'a::len word \<Rightarrow> int \<times> 'a word" where
  "with_hidden k e m = (if e = 0 then (1, m) else (e, m OR push_bit (MANT_SIZE (LENGTH('a)) + k) 1))"

definition add_sf :: "'a::len word \<Rightarrow> 'a word \<Rightarrow> RoundingModeEnum \<Rightarrow> u32 \<Rightarrow> ('a word \<times> u32) option" where
  "add_sf a0 b0 rm fl =
     (let f = LENGTH('a);
          (a, b) = (if a0 AND NOT SIGN_MASK < b0 AND NOT SIGN_MASK then (b0, a0) else (a0, b0));
          a_sign = sign_of a; b_sign = sign_of b;
          a_mant = push_bit 3 (mant_of a); b_mant = push_bit 3 (mant_of b)
      in if exp_of a = EXP_MASK f then
           if a_mant \<noteq> 0 then
             Some (F_QNAN, flag (a_mant AND push_bit 3 QNAN_MASK = 0 \<or> issignan_sf b) FFLAG_INVALID_OP fl)
           else if exp_of b = EXP_MASK f \<and> a_sign \<noteq> b_sign then Some (F_QNAN, fl OR FFLAG_INVALID_OP)
           else Some (a, fl)
         else
           let (a_exp, a_mant1) = with_hidden 3 (exp_of a) a_mant;
               (b_exp, b_mant1) = with_hidden 3 (exp_of b) b_mant;
               b_mant2 = rshift_rnd b_mant1 (nat (a_exp - b_exp));
               a_mant2 = (if a_sign = b_sign then a_mant1 + b_mant2 else a_mant1 - b_mant2);
               r_sign = (if a_sign \<noteq> b_sign \<and> a_mant2 = 0 then rm = RM_RDN else a_sign)
           in normalize_sf r_sign (a_exp + (int (RND_SIZE f) - 3)) a_mant2 rm fl)"

definition sub_sf :: "'a::len word \<Rightarrow> 'a word \<Rightarrow> RoundingModeEnum \<Rightarrow> u32 \<Rightarrow> ('a word \<times> u32) option" where
  "sub_sf a b rm fl = add_sf a (b XOR SIGN_MASK) rm fl"

section \<open>Multiplication\<close>

definition normalize_subnormal_sf :: "'a::len word \<Rightarrow> int \<times> 'a word" where
  "normalize_subnormal_sf a_mant =
     (let f = LENGTH('a); shift = int (MANT_SIZE f) - (int f - 1 - int (clz a_mant))
      in (1 - shift, push_bit (nat shift) a_mant))"

text \<open>Exponent and mantissa of a finite nonzero operand, the mantissa with its top bit at \<^verbatim>\<open>MANT_SIZE\<close>.\<close>

definition norm_operand :: "int \<Rightarrow> 'a::len word \<Rightarrow> int \<times> 'a word" where
  "norm_operand e m = (if e = 0 then normalize_subnormal_sf m else (e, m OR push_bit (MANT_SIZE (LENGTH('a))) 1))"

definition mul_u :: "'a::len word \<Rightarrow> 'a word \<Rightarrow> 'a word \<times> 'a word" where
  "mul_u a b = (let r = uint a * uint b in (word_of_int (r div 2 ^ LENGTH('a)), word_of_int r))"

definition mul_sf :: "'a::len word \<Rightarrow> 'a word \<Rightarrow> RoundingModeEnum \<Rightarrow> u32 \<Rightarrow> ('a word \<times> u32) option" where
  "mul_sf a b rm fl =
     (let f = LENGTH('a); r_sign = (sign_of a \<noteq> sign_of b);
          a_exp = exp_of a; b_exp = exp_of b; a_mant = mant_of a; b_mant = mant_of b
      in if a_exp = EXP_MASK f \<or> b_exp = EXP_MASK f then
           if isnan_sf a \<or> isnan_sf b then
             Some (F_QNAN, flag (issignan_sf a \<or> issignan_sf b) FFLAG_INVALID_OP fl)
           else if a_exp = EXP_MASK f \<and> b_exp = 0 \<and> b_mant = 0 \<or> b_exp = EXP_MASK f \<and> a_exp = 0 \<and> a_mant = 0
           then Some (F_QNAN, fl OR FFLAG_INVALID_OP)
           else Some (pack_sf r_sign (EXP_MASK f) 0, fl)
         else if a_exp = 0 \<and> a_mant = 0 then Some (pack_sf r_sign 0 0, fl)
         else if b_exp = 0 \<and> b_mant = 0 then Some (pack_sf r_sign 0 0, fl)
         else
           let (a_exp1, a_mant1) = norm_operand a_exp a_mant;
               (b_exp1, b_mant1) = norm_operand b_exp b_mant;
               r_exp = a_exp1 + b_exp1 - push_bit (EXP_SIZE f - 1) 1 + 2;
               (r_mant, r_mant_low) = mul_u (push_bit (RND_SIZE f) a_mant1) (push_bit (RND_SIZE f + 1) b_mant1)
           in normalize_sf r_sign r_exp (r_mant OR of_bool (r_mant_low \<noteq> 0)) rm fl)"

section \<open>Fused multiply-add\<close>

text \<open>The operands of the final addition: sign, exponent and two-word mantissa.\<close>

record 'w wide =
  w_sign :: bool
  w_exp :: int
  w_hi :: 'w
  w_lo :: 'w

definition fma_special :: "'a::len word \<Rightarrow> 'a word \<Rightarrow> 'a word \<Rightarrow> u32 \<Rightarrow> 'a word \<times> u32" where
  "fma_special a b c fl =
     (let f = LENGTH('a); r_sign = (sign_of a \<noteq> sign_of b); c_sign = sign_of c;
          a_exp = exp_of a; b_exp = exp_of b; c_exp = exp_of c;
          a_zero = (a_exp = 0 \<and> mant_of a = 0); b_zero = (b_exp = 0 \<and> mant_of b = 0)
      in if a_zero \<and> b_exp = EXP_MASK f \<and> mant_of b = 0 \<or> b_zero \<and> a_exp = EXP_MASK f \<and> mant_of a = 0
         then (F_QNAN, fl OR FFLAG_INVALID_OP)
         else if isnan_sf a \<or> isnan_sf b \<or> isnan_sf c then
           (F_QNAN, flag (issignan_sf a \<or> issignan_sf b \<or> issignan_sf c) FFLAG_INVALID_OP fl)
         else if a_exp = EXP_MASK f \<and> b_zero \<or> b_exp = EXP_MASK f \<and> a_zero
           \<or> (a_exp = EXP_MASK f \<or> b_exp = EXP_MASK f) \<and> c_exp = EXP_MASK f \<and> r_sign \<noteq> c_sign
         then (F_QNAN, fl OR FFLAG_INVALID_OP)
         else if c_exp = EXP_MASK f then (pack_sf c_sign (EXP_MASK f) 0, fl)
         else (pack_sf r_sign (EXP_MASK f) 0, fl))"

text \<open>The product, normalized to \<^verbatim>\<open>F_SIZE - 3\<close>.\<close>

definition fma_product :: "'a::len word \<Rightarrow> 'a word \<Rightarrow> 'a word wide" where
  "fma_product a b =
     (let f = LENGTH('a);
          (a_exp, a_mant) = norm_operand (exp_of a) (mant_of a);
          (b_exp, b_mant) = norm_operand (exp_of b) (mant_of b);
          r_sign = (sign_of a \<noteq> sign_of b);
          r_exp = a_exp + b_exp - push_bit (EXP_SIZE f - 1) 1 + 3;
          (r_mant1, r_mant0) = mul_u (push_bit (RND_SIZE f) a_mant) (push_bit (RND_SIZE f) b_mant)
      in if r_mant1 < push_bit (f - 3) 1 then
           \<lparr>w_sign = r_sign, w_exp = r_exp - 1,
            w_hi = push_bit 1 r_mant1 OR drop_bit (f - 1) r_mant0, w_lo = push_bit 1 r_mant0\<rparr>
         else \<lparr>w_sign = r_sign, w_exp = r_exp, w_hi = r_mant1, w_lo = r_mant0\<rparr>)"

text \<open>Shifting the smaller operand right, keeping a sticky bit.\<close>

definition wide_shift :: "nat \<Rightarrow> 'a::len word \<Rightarrow> 'a word \<Rightarrow> 'a word \<times> 'a word" where
  "wide_shift k c_mant1 c_mant0 =
     (let f = LENGTH('a) in
      if k \<ge> 2 * f then (0, of_bool (c_mant0 OR c_mant1 \<noteq> 0))
      else if k \<ge> f + 1 then (0, rshift_rnd c_mant1 (k - f))
      else if k = f then (0, c_mant1 OR of_bool (c_mant0 \<noteq> 0))
      else if k \<noteq> 0 then
        (drop_bit k c_mant1,
         push_bit (f - k) c_mant1 OR drop_bit k c_mant0 OR of_bool (c_mant0 AND (push_bit k 1 - 1) \<noteq> 0))
      else (c_mant1, c_mant0))"

definition fma_add :: "'a::len word wide \<Rightarrow> 'a word wide \<Rightarrow> RoundingModeEnum \<Rightarrow> u32 \<Rightarrow> ('a word \<times> u32) option" where
  "fma_add r0 c0 rm fl =
     (let (r, c) = (if w_exp r0 > w_exp c0 \<or> w_exp r0 = w_exp c0 \<and> w_hi r0 \<ge> w_hi c0 then (r0, c0) else (c0, r0));
          (c1, c2) = wide_shift (nat (w_exp r - w_exp c)) (w_hi c) (w_lo c)
      in if w_sign r = w_sign c then
           let lo = w_lo r + c2; hi = w_hi r + (c1 + of_bool (lo < c2))
           in normalize2_sf (w_sign r) (w_exp r) hi lo rm fl
         else
           let lo = w_lo r - c2; hi = w_hi r - c1 - of_bool (lo > w_lo r);
               r_sign = (if lo OR hi = 0 then rm = RM_RDN else w_sign r)
           in normalize2_sf r_sign (w_exp r) hi lo rm fl)"

definition fma_sf ::
  "'a::len word \<Rightarrow> 'a word \<Rightarrow> 'a word \<Rightarrow> RoundingModeEnum \<Rightarrow> u32 \<Rightarrow> ('a word \<times> u32) option" where
  "fma_sf a b c rm fl =
     (let f = LENGTH('a); r_sign = (sign_of a \<noteq> sign_of b);
          c_zero = (exp_of c = 0 \<and> mant_of c = 0)
      in if exp_of a = EXP_MASK f \<or> exp_of b = EXP_MASK f \<or> exp_of c = EXP_MASK f then Some (fma_special a b c fl)
         else if exp_of a = 0 \<and> mant_of a = 0 \<or> exp_of b = 0 \<and> mant_of b = 0 then
           if c_zero then Some (pack_sf (if sign_of c \<noteq> r_sign then rm = RM_RDN else r_sign) 0 0, fl)
           else Some (c, fl)
         else
           let r = fma_product a b in
           if c_zero then normalize_sf r_sign (w_exp r) (w_hi r OR of_bool (w_lo r \<noteq> 0)) rm fl
           else
             let (c_exp, c_mant) = norm_operand (exp_of c) (mant_of c) in
             fma_add r \<lparr>w_sign = sign_of c, w_exp = c_exp + 1, w_hi = push_bit (RND_SIZE f - 1) c_mant, w_lo = 0\<rparr> rm fl)"

section \<open>Division and square root\<close>

definition divrem_u :: "'a::len word \<Rightarrow> 'a word \<Rightarrow> 'a word \<Rightarrow> 'a word \<times> 'a word" where
  "divrem_u ah al b =
     (let a = uint ah * 2 ^ LENGTH('a) + uint al in (word_of_int (a div uint b), word_of_int (a mod uint b)))"

definition div_sf :: "'a::len word \<Rightarrow> 'a word \<Rightarrow> RoundingModeEnum \<Rightarrow> u32 \<Rightarrow> ('a word \<times> u32) option" where
  "div_sf a b rm fl =
     (let f = LENGTH('a); r_sign = (sign_of a \<noteq> sign_of b);
          a_exp = exp_of a; b_exp = exp_of b; a_mant = mant_of a; b_mant = mant_of b;
          nan = (\<lambda>fl. (F_QNAN, flag (issignan_sf a \<or> issignan_sf b) FFLAG_INVALID_OP fl))
      in if a_exp = EXP_MASK f then
           if a_mant \<noteq> 0 \<or> isnan_sf b then Some (nan fl)
           else if b_exp = EXP_MASK f then Some (F_QNAN, fl OR FFLAG_INVALID_OP)
           else Some (pack_sf r_sign (EXP_MASK f) 0, fl)
         else if b_exp = EXP_MASK f then
           if b_mant \<noteq> 0 then Some (nan fl) else Some (pack_sf r_sign 0 0, fl)
         else if b_exp = 0 \<and> b_mant = 0 then
           if a_exp = 0 \<and> a_mant = 0 then Some (F_QNAN, fl OR FFLAG_INVALID_OP)
           else Some (pack_sf r_sign (EXP_MASK f) 0, fl OR FFLAG_DIVIDE_ZERO)
         else if a_exp = 0 \<and> a_mant = 0 then Some (pack_sf r_sign 0 0, fl)
         else
           let (b_exp1, b_mant1) = norm_operand b_exp b_mant;
               (a_exp1, a_mant1) = norm_operand a_exp a_mant;
               r_exp = a_exp1 - b_exp1 + push_bit (EXP_SIZE f - 1) 1 - 1;
               (r_mant, r) = divrem_u a_mant1 0 (push_bit 2 b_mant1)
           in normalize_sf r_sign r_exp (if r \<noteq> 0 then r_mant OR 1 else r_mant) rm fl)"

text \<open>The Newton iteration, from an upper bound of the root down; the values are never negative.\<close>

function sqrt_loop :: "int \<Rightarrow> int \<Rightarrow> int" where
  "sqrt_loop a s = (let u = (a div s + s) div 2 in if u \<ge> s \<or> s < 0 then s else sqrt_loop a u)"
  by auto
termination
proof (relation "measure (nat \<circ> snd)")
  fix a s u :: int
  assume "u = (a div s + s) div 2" "\<not> (u \<ge> s \<or> s < 0)"
  then show "((a, u), a, s) \<in> measure (nat \<circ> snd)" by (cases "s = 0") auto
qed simp

declare sqrt_loop.simps [simp del]

definition sqrtrem_u :: "'a::len word \<Rightarrow> 'a word \<Rightarrow> 'a word \<times> bool" where
  "sqrtrem_u ah al =
     (if ah = 0 \<and> al = 0 then (0, False)
      else
        let f = LENGTH('a);
            l = (if ah \<noteq> 0 then 2 * f - clz (ah - 1) else f - clz (al - 1));
            a = uint ah * 2 ^ f + uint al;
            s = sqrt_loop a (2 ^ ((l + 1) div 2))
        in (word_of_int s, a - s * s \<noteq> 0))"

definition sqrt_sf :: "'a::len word \<Rightarrow> RoundingModeEnum \<Rightarrow> u32 \<Rightarrow> ('a word \<times> u32) option" where
  "sqrt_sf a rm fl =
     (let f = LENGTH('a); a_exp = exp_of a; a_mant = mant_of a in
      if a_exp = EXP_MASK f \<and> a_mant \<noteq> 0 then Some (F_QNAN, flag (issignan_sf a) FFLAG_INVALID_OP fl)
      else if a_exp = EXP_MASK f \<and> \<not> sign_of a then Some (a, fl)
      else if sign_of a then
        if a_exp = 0 \<and> a_mant = 0 then Some (a, fl) else Some (F_QNAN, fl OR FFLAG_INVALID_OP)
      else if a_exp = 0 \<and> a_mant = 0 then Some (pack_sf False 0 0, fl)
      else
        let (e, m) = norm_operand a_exp a_mant;
            e1 = e - EXP_MASK f div 2;
            (e2, m1) = (if odd e1 then (e1 - 1, push_bit 1 m) else (e1, m));
            e3 = e2 div 2 + EXP_MASK f div 2;
            (m2, inexact) = sqrtrem_u (push_bit (f - 4 - MANT_SIZE f) m1) 0
        in normalize_sf (sign_of a) e3 (if inexact then m2 OR 1 else m2) rm fl)"

section \<open>Comparisons and classification\<close>

definition min_sf :: "'a::len word \<Rightarrow> 'a word \<Rightarrow> u32 \<Rightarrow> 'a word \<times> u32" where
  "min_sf a b fl =
     (if isnan_sf a \<or> isnan_sf b then
        (if isnan_sf a then if isnan_sf b then F_QNAN else b else a,
         flag (issignan_sf a \<or> issignan_sf b) FFLAG_INVALID_OP fl)
      else (if sign_of a \<noteq> sign_of b then if sign_of a then a else b
            else if (a < b) \<noteq> sign_of a then a else b, fl))"

definition max_sf :: "'a::len word \<Rightarrow> 'a word \<Rightarrow> u32 \<Rightarrow> 'a word \<times> u32" where
  "max_sf a b fl =
     (if isnan_sf a \<or> isnan_sf b then
        (if isnan_sf a then if isnan_sf b then F_QNAN else b else a,
         flag (issignan_sf a \<or> issignan_sf b) FFLAG_INVALID_OP fl)
      else (if sign_of a \<noteq> sign_of b then if sign_of a then b else a
            else if (a < b) \<noteq> sign_of a then b else a, fl))"

definition eq_quiet_sf :: "'a::len word \<Rightarrow> 'a word \<Rightarrow> u32 \<Rightarrow> bool \<times> u32" where
  "eq_quiet_sf a b fl =
     (if isnan_sf a \<or> isnan_sf b then (False, flag (issignan_sf a \<or> issignan_sf b) FFLAG_INVALID_OP fl)
      else if push_bit 1 (a OR b) = 0 then (True, fl)
      else (a = b, fl))"

definition le_sf :: "'a::len word \<Rightarrow> 'a word \<Rightarrow> u32 \<Rightarrow> bool \<times> u32" where
  "le_sf a b fl =
     (if isnan_sf a \<or> isnan_sf b then (False, fl OR FFLAG_INVALID_OP)
      else if sign_of a \<noteq> sign_of b then (sign_of a \<or> push_bit 1 (a OR b) = 0, fl)
      else (if sign_of a then a \<ge> b else a \<le> b, fl))"

definition lt_sf :: "'a::len word \<Rightarrow> 'a word \<Rightarrow> u32 \<Rightarrow> bool \<times> u32" where
  "lt_sf a b fl =
     (if isnan_sf a \<or> isnan_sf b then (False, fl OR FFLAG_INVALID_OP)
      else if sign_of a \<noteq> sign_of b then (sign_of a \<and> push_bit 1 (a OR b) \<noteq> 0, fl)
      else (if sign_of a then a > b else a < b, fl))"

definition fclass_sf :: "'a::len word \<Rightarrow> u32" where
  "fclass_sf a =
     (let s = sign_of a in
      if exp_of a = EXP_MASK (LENGTH('a)) then
        if mant_of a \<noteq> 0 then if mant_of a AND QNAN_MASK \<noteq> 0 then push_bit 9 1 else push_bit 8 1
        else if s then push_bit 0 1 else push_bit 7 1
      else if exp_of a = 0 then
        if mant_of a = 0 then if s then push_bit 3 1 else push_bit 4 1
        else if s then push_bit 2 1 else push_bit 5 1
      else if s then push_bit 1 1 else push_bit 6 1)"

section \<open>Conversions\<close>

text \<open>From single precision to a wider format.\<close>

definition cvt_sf32_sf :: "u32 \<Rightarrow> u32 \<Rightarrow> 'a::len word \<times> u32" where
  "cvt_sf32_sf a fl =
     (let f = LENGTH('a); (a_sign, a_exp, a_mant) = unpack_sf a in
      if a_exp = 0xff then
        if a_mant \<noteq> 0 then (F_QNAN, flag (issignan_sf a) FFLAG_INVALID_OP fl)
        else (pack_sf a_sign (EXP_MASK f) 0, fl)
      else if a_exp = 0 \<and> a_mant = 0 then (pack_sf a_sign 0 0, fl)
      else
        let (e, m) = (if a_exp = 0 then normalize_subnormal_sf a_mant else (a_exp, a_mant))
        in (pack_sf a_sign (e - 0x7f + EXP_MASK f div 2) (push_bit (MANT_SIZE f - 23) (ucast m)), fl))"

text \<open>
  To single precision. For a subnormal operand the source calls \<^verbatim>\<open>normalize_subnormal_sf\<close> and uses the
  exponent it stores, not the mantissa it returns.
\<close>

definition cvt_sf_sf32 :: "'a::len word \<Rightarrow> RoundingModeEnum \<Rightarrow> u32 \<Rightarrow> (u32 \<times> u32) option" where
  "cvt_sf_sf32 a rm fl =
     (let f = LENGTH('a); (a_sign, a_exp, a_mant) = unpack_sf a in
      if a_exp = EXP_MASK f then
        if a_mant \<noteq> 0 then Some (F_QNAN, flag (issignan_sf a) FFLAG_INVALID_OP fl)
        else Some (pack_sf a_sign 0xff 0, fl)
      else if a_exp = 0 \<and> a_mant = 0 then Some (pack_sf a_sign 0 0, fl)
      else
        let (e, m) = (if a_exp = 0 then (fst (normalize_subnormal_sf a_mant), a_mant)
                      else (a_exp, a_mant OR push_bit (MANT_SIZE f) 1))
        in normalize_sf a_sign (e - EXP_MASK f div 2 + 0x7f) (ucast (rshift_rnd m (MANT_SIZE f - (32 - 2)))) rm fl)"

definition internal_cvt_sf_i ::
  "'a::len word \<Rightarrow> RoundingModeEnum \<Rightarrow> bool \<Rightarrow> u32 \<Rightarrow> 'i::len word \<times> u32" where
  "internal_cvt_sf_i a rm is_unsigned fl =
     (let f = LENGTH('a); n = LENGTH('i);
          a_sign = (sign_of a \<and> \<not> isnan_sf a);
          (e, m) = with_hidden 0 (exp_of a) (mant_of a);
          a_mant = push_bit (RND_SIZE f) m;
          a_exp = e - EXP_MASK f div 2 - int (MANT_SIZE f);
          r_max = (if is_unsigned then of_bool a_sign - 1 else push_bit (n - 1) 1 - of_bool (\<not> a_sign)) :: 'i word;
          overflow = (r_max, fl OR FFLAG_INVALID_OP);
          neg = (\<lambda>r :: 'i word. if a_sign then - r else r)
      in if a_exp \<ge> 0 then
           let r = push_bit (nat a_exp) (ucast (drop_bit (RND_SIZE f) a_mant)) in
           if a_exp \<le> int n - 1 - int (MANT_SIZE f) \<and> \<not> r > r_max then (neg r, fl) else overflow
         else
           let a_mant1 = rshift_rnd a_mant (nat (- a_exp));
               r = rnd_mant a_mant1 rm a_sign
           in if uint r > uint r_max then overflow
              else (neg (ucast r), flag (rnd_bits_of a_mant1 \<noteq> 0) FFLAG_INEXACT fl))"

definition cvt_sf_i :: "'a::len word \<Rightarrow> RoundingModeEnum \<Rightarrow> u32 \<Rightarrow> 'i::len word \<times> u32" where
  "cvt_sf_i a rm fl = internal_cvt_sf_i a rm False fl"

definition cvt_sf_u :: "'a::len word \<Rightarrow> RoundingModeEnum \<Rightarrow> u32 \<Rightarrow> 'i::len word \<times> u32" where
  "cvt_sf_u a rm fl = internal_cvt_sf_i a rm True fl"

definition internal_cvt_i_sf ::
  "'i::len word \<Rightarrow> RoundingModeEnum \<Rightarrow> bool \<Rightarrow> u32 \<Rightarrow> ('a::len word \<times> u32) option" where
  "internal_cvt_i_sf a rm is_unsigned fl =
     (let f = LENGTH('a); n = LENGTH('i);
          a_sign = (\<not> is_unsigned \<and> sint a < 0);
          r = (if a_sign then - a else a);
          a_exp = EXP_MASK f div 2 + int f - 2;
          l = int n - int (clz r) - (int f - 1);
          (r1, e1) = (if l > 0 then
              let msk = r AND (push_bit (nat l) 1 - 1) in (drop_bit (nat l) r OR of_bool (r AND msk \<noteq> 0), a_exp + l)
            else (r, a_exp))
      in normalize_sf a_sign e1 (ucast r1) rm fl)"

definition cvt_i_sf :: "'i::len word \<Rightarrow> RoundingModeEnum \<Rightarrow> u32 \<Rightarrow> ('a::len word \<times> u32) option" where
  "cvt_i_sf a rm fl = internal_cvt_i_sf a rm False fl"

definition cvt_u_sf :: "'i::len word \<Rightarrow> RoundingModeEnum \<Rightarrow> u32 \<Rightarrow> ('a::len word \<times> u32) option" where
  "cvt_u_sf a rm fl = internal_cvt_i_sf a rm True fl"

end
