(* ===== verification/Fpu.thy ===== *)
theory Fpu
  imports Interp Softfp
begin

unbundle bit_operations_syntax

text \<open>
  The floating-point opcodes: the fused multiply-add cases of \<^verbatim>\<open>dromajo_template.h\<close> and the template
  \<^verbatim>\<open>dromajo_fp_template.h\<close>, which is included for single and double precision. One polymorphic
  definition stands for both; its arguments are the reading of a register in the format (\<^verbatim>\<open>unbox\<close>), the
  value written back (with the high bits \<^verbatim>\<open>F_HIGH\<close>), and the conversions between formats.

  \<open>None\<close> is the jump to \<^verbatim>\<open>illegal_insn\<close>. The check of \<^verbatim>\<open>s->fs\<close> is in \<open>exec_fpu\<close>.
\<close>

section \<open>Registers\<close>

definition f_qnan32 :: u64 where "f_qnan32 = 0x7fc00000"

definition f_unbox32 :: "u64 \<Rightarrow> u32" where
  "f_unbox32 r = ucast (if r AND F32_HIGH \<noteq> F32_HIGH then f_qnan32 else r)"

definition f_unbox64 :: "u64 \<Rightarrow> u64" where "f_unbox64 r = r"

definition chkfp32 :: "u64 \<Rightarrow> u32" where
  "chkfp32 a = (if a AND 0xFFFFFFFF00000000 \<noteq> 0xFFFFFFFF00000000 then push_bit 22 (- 1) else ucast a)"

definition box32 :: "u32 \<Rightarrow> u64" where "box32 v = ucast v OR F32_HIGH"
definition box64 :: "u64 \<Rightarrow> u64" where "box64 v = v OR F64_HIGH"

definition rm_of :: "u32 \<Rightarrow> RoundingModeEnum" where
  "rm_of rm = (if rm = 0 then RM_RNE else if rm = 1 then RM_RTZ else if rm = 2 then RM_RDN
     else if rm = 3 then RM_RUP else RM_RMM)"

text \<open>Writing a result with its flags to a floating-point or an integer register.\<close>

definition fp_set :: "('a::len word \<Rightarrow> u64) \<Rightarrow> regno \<Rightarrow> 'a word \<times> u32 \<Rightarrow> RISCVCPUState \<Rightarrow> RISCVCPUState" where
  "fp_set box rd r s = (write_fp_reg rd (box (fst r)) (s\<lparr>fflags := snd r\<rparr>))\<lparr>fs := 3\<rparr>"

text \<open>A failed assertion of the library would end here; the theory of the library's theorems excludes it.\<close>

definition fp_set_opt :: "('a::len word \<Rightarrow> u64) \<Rightarrow> regno \<Rightarrow> ('a word \<times> u32) option \<Rightarrow> RISCVCPUState \<Rightarrow> RISCVCPUState" where
  "fp_set_opt box rd r s = (case r of None \<Rightarrow> s | Some x \<Rightarrow> fp_set box rd x s)"

definition int_set :: "regno \<Rightarrow> u64 \<times> u32 \<Rightarrow> RISCVCPUState \<Rightarrow> RISCVCPUState" where
  "int_set rd r s = set_rd rd (fst r) (s\<lparr>fflags := snd r\<rparr>)"

section \<open>The template\<close>

definition fp_sgnj :: "u32 \<Rightarrow> 'a::len word \<Rightarrow> 'a word \<Rightarrow> 'a word option" where
  "fp_sgnj rm a b =
     (if rm = 0 then Some ((a AND NOT SIGN_MASK) OR (b AND SIGN_MASK))
      else if rm = 1 then Some ((a AND NOT SIGN_MASK) OR ((b AND SIGN_MASK) XOR SIGN_MASK))
      else if rm = 2 then Some (a XOR (b AND SIGN_MASK))
      else None)"

definition fp_to_int :: "regno \<Rightarrow> 'a::len word \<Rightarrow> RoundingModeEnum \<Rightarrow> u32 \<Rightarrow> (u64 \<times> u32) option" where
  "fp_to_int kind a rm fl =
     (if kind = 0 then Some (map_prod (\<lambda>v :: u32. scast v) id (cvt_sf_i a rm fl))
      else if kind = 1 then Some (map_prod (\<lambda>v :: u32. scast v) id (cvt_sf_u a rm fl))
      else if kind = 2 then Some (cvt_sf_i a rm fl)
      else if kind = 3 then Some (cvt_sf_u a rm fl)
      else None)"

definition fp_from_int :: "regno \<Rightarrow> u64 \<Rightarrow> RoundingModeEnum \<Rightarrow> u32 \<Rightarrow> ('a::len word \<times> u32) option option" where
  "fp_from_int kind v rm fl =
     (if kind = 0 then Some (cvt_i_sf (ucast v :: u32) rm fl)
      else if kind = 1 then Some (cvt_u_sf (ucast v :: u32) rm fl)
      else if kind = 2 then Some (cvt_i_sf v rm fl)
      else if kind = 3 then Some (cvt_u_sf v rm fl)
      else None)"

definition fp_compare :: "u32 \<Rightarrow> 'a::len word \<Rightarrow> 'a word \<Rightarrow> u32 \<Rightarrow> (u64 \<times> u32) option" where
  "fp_compare rm a b fl =
     (if rm = 0 then Some (map_prod of_bool id (le_sf a b fl))
      else if rm = 1 then Some (map_prod of_bool id (lt_sf a b fl))
      else if rm = 2 then Some (map_prod of_bool id (eq_quiet_sf a b fl))
      else None)"

definition fp_template ::
  "(u64 \<Rightarrow> 'a::len word) \<Rightarrow> ('a word \<Rightarrow> u64) \<Rightarrow> (RoundingModeEnum \<Rightarrow> RISCVCPUState \<Rightarrow> RISCVCPUState option)
   \<Rightarrow> u32 \<Rightarrow> RISCVCPUState \<Rightarrow> RISCVCPUState option" where
  "fp_template unbox box cvt insn s =
     (let op = drop_bit 27 insn; rm0 = drop_bit 12 insn AND 7;
          rd = rd_of insn; rs1 = rs1_of insn; rs2 = rs2_of insn; fl = fflags s;
          a = unbox (read_fp_reg s rs1); b = unbox (read_fp_reg s rs2);
          with_rm = (\<lambda>k. case get_insn_rm s rm0 of None \<Rightarrow> None | Some rm \<Rightarrow> k (rm_of rm))
      in if op = 0x00 then with_rm (\<lambda>rm. Some (fp_set_opt box rd (add_sf a b rm fl) s))
         else if op = 0x01 then with_rm (\<lambda>rm. Some (fp_set_opt box rd (sub_sf a b rm fl) s))
         else if op = 0x02 then with_rm (\<lambda>rm. Some (fp_set_opt box rd (mul_sf a b rm fl) s))
         else if op = 0x03 then with_rm (\<lambda>rm. Some (fp_set_opt box rd (div_sf a b rm fl) s))
         else if op = 0x0b then
           with_rm (\<lambda>rm. if rs2 \<noteq> 0 then None else Some (fp_set_opt box rd (sqrt_sf a rm fl) s))
         else if op = 0x04 then map_option (\<lambda>v. fp_set box rd (v, fl) s) (fp_sgnj rm0 a b)
         else if op = 0x05 then
           (if rm0 = 0 then Some (fp_set box rd (min_sf a b fl) s)
            else if rm0 = 1 then Some (fp_set box rd (max_sf a b fl) s)
            else None)
         else if op = 0x18 then with_rm (\<lambda>rm. map_option (\<lambda>r. int_set rd r s) (fp_to_int rs2 a rm fl))
         else if op = 0x14 then map_option (\<lambda>r. int_set rd r s) (fp_compare rm0 a b fl)
         else if op = 0x1a then
           with_rm (\<lambda>rm. map_option (\<lambda>r. fp_set_opt box rd r s) (fp_from_int rs2 (read_reg s rs1) rm fl))
         else if op = 0x08 then with_rm (\<lambda>rm. cvt rm s)
         else if op = 0x1c then
           (if rs2 \<noteq> 0 then None
            else if rm0 = 0 then Some (int_set rd (scast (ucast (read_fp_reg s rs1) :: 'a word), fl) s)
            else if rm0 = 1 then Some (int_set rd (ucast (fclass_sf a), fl) s)
            else None)
         else if op = 0x1e then
           (if rs2 \<noteq> 0 \<or> rm0 \<noteq> 0 then None else Some (fp_set box rd (ucast (read_reg s rs1), fl) s))
         else None)"

text \<open>\<^verbatim>\<open>cvt.s.d\<close> and \<^verbatim>\<open>cvt.d.s\<close>.\<close>

definition fp_cvt32 :: "u32 \<Rightarrow> RoundingModeEnum \<Rightarrow> RISCVCPUState \<Rightarrow> RISCVCPUState option" where
  "fp_cvt32 insn rm s =
     (if rs2_of insn = 1
      then Some (fp_set_opt box32 (rd_of insn) (cvt_sf_sf32 (read_fp_reg s (rs1_of insn)) rm (fflags s)) s)
      else None)"

definition fp_cvt64 :: "u32 \<Rightarrow> RoundingModeEnum \<Rightarrow> RISCVCPUState \<Rightarrow> RISCVCPUState option" where
  "fp_cvt64 insn rm s =
     (if rs2_of insn = 0 then
        let v = read_fp_reg s (rs1_of insn);
            v1 = (if v AND F32_HIGH \<noteq> F32_HIGH then f_qnan32 else v)
        in Some (fp_set box64 (rd_of insn) (cvt_sf32_sf (ucast v1) (fflags s)) s)
      else None)"

section \<open>The opcodes\<close>

definition exec_op_fp :: "u32 \<Rightarrow> RISCVCPUState \<Rightarrow> RISCVCPUState option" where
  "exec_op_fp insn s =
     (let fmt = drop_bit 25 insn AND 3 in
      if fmt = 0 then fp_template f_unbox32 box32 (fp_cvt32 insn) insn s
      else if fmt = 1 then fp_template f_unbox64 box64 (fp_cvt64 insn) insn s
      else None)"

text \<open>\<open>na\<close> and \<open>nc\<close>: the sign of the first and the third operand is inverted.\<close>

definition exec_fma :: "bool \<Rightarrow> bool \<Rightarrow> u32 \<Rightarrow> RISCVCPUState \<Rightarrow> RISCVCPUState option" where
  "exec_fma na nc insn s =
     (let fmt = drop_bit 25 insn AND 3; rs3 = ucast (drop_bit 27 insn) :: regno; fl = fflags s;
          a = read_fp_reg s (rs1_of insn); b = read_fp_reg s (rs2_of insn); c = read_fp_reg s rs3
      in case get_insn_rm s (drop_bit 12 insn AND 7) of
           None \<Rightarrow> None
         | Some r \<Rightarrow>
             if fmt = 0 then
               Some (fp_set_opt box32 (rd_of insn)
                 (fma_sf (chkfp32 a XOR (if na then SIGN_MASK else 0)) (chkfp32 b)
                         (chkfp32 c XOR (if nc then SIGN_MASK else 0)) (rm_of r) fl) s)
             else if fmt = 1 then
               Some (fp_set_opt box64 (rd_of insn)
                 (fma_sf (a XOR (if na then SIGN_MASK else 0)) b (c XOR (if nc then SIGN_MASK else 0)) (rm_of r) fl) s)
             else None)"

definition dromajo_fpu :: fpu where
  "dromajo_fpu insn s =
     (let opcode = insn AND 0x7f in
      if opcode = 0x43 then exec_fma False False insn s
      else if opcode = 0x47 then exec_fma False True insn s
      else if opcode = 0x4b then exec_fma True False insn s
      else if opcode = 0x4f then exec_fma True True insn s
      else if opcode = 0x53 then exec_op_fp insn s
      else None)"

end
