(* ===== verification/Softfp_Round.thy ===== *)
theory Softfp_Round
  imports Softfp Complex_Main
begin

unbundle bit_operations_syntax

text \<open>
  Rounding of the floating-point library. \<open>rnd_int\<close> is rounding of a nonnegative real number to an
  integer in the five modes, \<open>ieee_round\<close> rounding to the precision of a format as IEEE 754 defines
  it: to a multiple of the unit in the last place, which is a power of two that depends on the
  magnitude and is bounded below by the smallest subnormal number.

  The library rounds from a mantissa whose low bits may include a sticky bit. \<open>sticky g m y\<close> says that the
  integer \<open>m\<close> represents the real number \<open>y\<close>: exactly, or as an odd multiple of \<open>2 ^ g\<close> within less than
  \<open>2 ^ g\<close>.
\<close>

section \<open>Rounding to integers\<close>

definition rnd_int :: "RoundingModeEnum \<Rightarrow> bool \<Rightarrow> real \<Rightarrow> int" where
  "rnd_int rm neg y =
     (case rm of
        RM_RNE \<Rightarrow> if y - \<lfloor>y\<rfloor> < 1 / 2 \<or> y - \<lfloor>y\<rfloor> = 1 / 2 \<and> even \<lfloor>y\<rfloor> then \<lfloor>y\<rfloor> else \<lfloor>y\<rfloor> + 1
      | RM_RMM \<Rightarrow> if y - \<lfloor>y\<rfloor> < 1 / 2 then \<lfloor>y\<rfloor> else \<lfloor>y\<rfloor> + 1
      | RM_RTZ \<Rightarrow> \<lfloor>y\<rfloor>
      | RM_RDN \<Rightarrow> if neg then \<lceil>y\<rceil> else \<lfloor>y\<rfloor>
      | RM_RUP \<Rightarrow> if neg then \<lfloor>y\<rfloor> else \<lceil>y\<rceil>)"

definition sticky :: "nat \<Rightarrow> int \<Rightarrow> real \<Rightarrow> bool" where
  "sticky g m y \<longleftrightarrow> y = of_int m \<or> (\<exists>j. m = (2 * j + 1) * 2 ^ g \<and> \<bar>y - of_int m\<bar> < 2 ^ g)"

lemma sticky_exact [simp]: "sticky g m (of_int m)"
  by (simp add: sticky_def)

lemma sticky_mult: "sticky g m y \<Longrightarrow> sticky (g + k) (m * 2 ^ k) (y * 2 ^ k)"
proof (unfold sticky_def, elim disjE exE conjE)
  fix j assume m: "m = (2 * j + 1) * 2 ^ g" and y: "\<bar>y - of_int m\<bar> < 2 ^ g"
  have "y * 2 ^ k - of_int (m * 2 ^ k) = (y - of_int m) * 2 ^ k" by (simp add: left_diff_distrib)
  then have "\<bar>y * 2 ^ k - of_int (m * 2 ^ k)\<bar> = \<bar>y - of_int m\<bar> * 2 ^ k" by (simp add: abs_mult)
  also have "\<dots> < 2 ^ (g + k)" using y by (simp add: power_add)
  finally show "y * 2 ^ k = of_int (m * 2 ^ k) \<or> (\<exists>j. m * 2 ^ k = (2 * j + 1) * 2 ^ (g + k) \<and> \<bar>y * 2 ^ k - of_int (m * 2 ^ k)\<bar> < 2 ^ (g + k))"
    using m by (auto simp: power_add intro!: exI[of _ j])
qed simp

text \<open>Against a multiple of \<open>2 ^ (g + 1)\<close> the representation compares as the number does.\<close>

lemma sticky_less:
  assumes "sticky g m y" "2 ^ Suc g dvd t"
  shows "of_int t < y \<longleftrightarrow> t < m" "y < of_int t \<longleftrightarrow> m < t" "y = of_int t \<longleftrightarrow> m = t"
proof -
  from assms(1) consider "y = of_int m" | j where "m = (2 * j + 1) * 2 ^ g" "\<bar>y - of_int m\<bar> < 2 ^ g"
    by (auto simp: sticky_def)
  then have "(of_int t < y \<longleftrightarrow> t < m) \<and> (y < of_int t \<longleftrightarrow> m < t) \<and> (y = of_int t \<longleftrightarrow> m = t)"
  proof cases
    case (2 j)
    obtain k where t: "t = 2 * k * 2 ^ g" using assms(2) by (auto simp: dvd_def)
    have p: "(2 :: int) ^ g > 0" by simp
    have "t + 2 ^ g \<le> m \<or> m + 2 ^ g \<le> t"
    proof (cases "k \<le> j")
      case True
      then have "(2 * k + 1) * 2 ^ g \<le> (2 * j + 1) * 2 ^ g" by simp
      then show ?thesis by (simp add: t 2(1) algebra_simps)
    next
      case False
      then have "(2 * j + 2) * 2 ^ g \<le> (2 * k) * 2 ^ g" by (intro mult_right_mono) auto
      then show ?thesis by (simp add: t 2(1) algebra_simps)
    qed
    then have "of_int (t + 2 ^ g) \<le> (of_int m :: real) \<or> of_int (m + 2 ^ g) \<le> (of_int t :: real)"
      by (simp only: of_int_le_iff)
    then have "of_int t + 2 ^ g \<le> (of_int m :: real) \<or> of_int m + 2 ^ g \<le> (of_int t :: real)" by simp
    moreover have "(2 :: real) ^ g > 0" by simp
    ultimately have "of_int t < y \<and> of_int t < (of_int m :: real) \<or> y < of_int t \<and> of_int m < (of_int t :: real)"
      using 2(2) by (auto simp: abs_less_iff)
    then show ?thesis by auto
  qed auto
  then show "of_int t < y \<longleftrightarrow> t < m" "y < of_int t \<longleftrightarrow> m < t" "y = of_int t \<longleftrightarrow> m = t" by blast+
qed

text \<open>The rounding the code performs, on integers.\<close>

definition int_addend :: "nat \<Rightarrow> RoundingModeEnum \<Rightarrow> bool \<Rightarrow> int" where
  "int_addend R rm neg = (case rm of RM_RNE \<Rightarrow> 2 ^ (R - 1) | RM_RMM \<Rightarrow> 2 ^ (R - 1) | RM_RTZ \<Rightarrow> 0
     | _ \<Rightarrow> if neg \<noteq> rm_low rm then 2 ^ R - 1 else 0)"

definition rnd_shift :: "nat \<Rightarrow> RoundingModeEnum \<Rightarrow> bool \<Rightarrow> int \<Rightarrow> int" where
  "rnd_shift R rm neg m =
     (let n = (m + int_addend R rm neg) div 2 ^ R in
      if rm = RM_RNE \<and> m mod 2 ^ R = 2 ^ (R - 1) then n - n mod 2 else n)"

text \<open>Where a represented number lies between two multiples of \<open>2 ^ R\<close>.\<close>

lemma sticky_scaled:
  fixes m :: int
  assumes "sticky g m y" "g + 2 \<le> R"
  defines "q \<equiv> m div 2 ^ R" and "r \<equiv> m mod 2 ^ R" and "z \<equiv> y / 2 ^ R"
  shows "\<lfloor>z\<rfloor> = q" "z - q < 1 / 2 \<longleftrightarrow> r < 2 ^ (R - 1)" "z - q = 1 / 2 \<longleftrightarrow> r = 2 ^ (R - 1)" "z = q \<longleftrightarrow> r = 0"
proof -
  have m: "m = q * 2 ^ R + r" unfolding q_def r_def by (rule div_mult_mod_eq[symmetric])
  have r: "0 \<le> r" "r < 2 ^ R" by (simp_all add: r_def)
  have half: "(2 :: int) ^ R = 2 * 2 ^ (R - 1)" using assms(2) by (cases R) auto
  have d: "2 ^ Suc g dvd (2 :: int) ^ (R - 1)" using assms(2) by (intro le_imp_power_dvd) simp
  have d1: "2 ^ Suc g dvd k * 2 ^ R" "2 ^ Suc g dvd k * 2 ^ R + 2 ^ (R - 1)" for k :: int
    using d by (auto simp: half intro: dvd_add dvd_mult)
  have c: "of_int (k * 2 ^ R) < y \<longleftrightarrow> k * 2 ^ R < m" "y < of_int (k * 2 ^ R) \<longleftrightarrow> m < k * 2 ^ R"
      "y = of_int (k * 2 ^ R) \<longleftrightarrow> m = k * 2 ^ R" "y < of_int (k * 2 ^ R + 2 ^ (R - 1)) \<longleftrightarrow> m < k * 2 ^ R + 2 ^ (R - 1)"
      "y = of_int (k * 2 ^ R + 2 ^ (R - 1)) \<longleftrightarrow> m = k * 2 ^ R + 2 ^ (R - 1)" for k :: int
    using sticky_less[OF assms(1) d1(1)[of k]] sticky_less[OF assms(1) d1(2)[of k]] by blast+
  have "of_int (q * 2 ^ R) \<le> y" "y < of_int ((q + 1) * 2 ^ R)"
    using c(2)[of q] c(2)[of "q + 1"] m r by (auto simp: algebra_simps not_less[symmetric])
  then show fl: "\<lfloor>z\<rfloor> = q" by (intro floor_unique) (simp_all add: z_def field_simps)
  have hr: "(2 :: real) ^ R = 2 * 2 ^ (R - 1)" using arg_cong[OF half, of real_of_int] by simp
  have zq: "z - of_int q < 1 / 2 \<longleftrightarrow> y < of_int (q * 2 ^ R + 2 ^ (R - 1))"
      "z - of_int q = 1 / 2 \<longleftrightarrow> y = of_int (q * 2 ^ R + 2 ^ (R - 1))" "z = of_int q \<longleftrightarrow> y = of_int (q * 2 ^ R)"
    by (auto simp: z_def hr field_simps)
  show "z - q < 1 / 2 \<longleftrightarrow> r < 2 ^ (R - 1)" "z - q = 1 / 2 \<longleftrightarrow> r = 2 ^ (R - 1)" "z = q \<longleftrightarrow> r = 0"
    unfolding zq c by (auto simp: m)
qed

lemma rnd_int_exact [simp]: "rnd_int rm neg (of_int k) = k"
  by (simp add: rnd_int_def split: RoundingModeEnum.split)

lemma rnd_shift_correct:
  assumes "sticky g m y" "g + 2 \<le> R"
  shows "rnd_int rm neg (y / 2 ^ R) = rnd_shift R rm neg m"
proof -
  define q r where "q = m div 2 ^ R" and "r = m mod 2 ^ R"
  note z = sticky_scaled[OF assms, folded q_def r_def]
  have m: "m = q * 2 ^ R + r" unfolding q_def r_def by (rule div_mult_mod_eq[symmetric])
  have r: "0 \<le> r" "r < 2 ^ R" by (simp_all add: r_def)
  have half: "(2 :: int) ^ R = 2 * 2 ^ (R - 1)" using assms(2) by (cases R) auto
  have dv: "(m + a) div 2 ^ R = q + (r + a) div 2 ^ R" for a by (simp add: m add.assoc)
  have up: "(r + 2 ^ (R - 1)) div 2 ^ R = (if r < 2 ^ (R - 1) then 0 else 1)"
    using r half by (auto simp: div_eq_0_iff intro!: int_div_pos_eq[where r = "r - 2 ^ (R - 1)"])
  have dirr: "(r + (2 ^ R - 1)) div 2 ^ R = (if r = 0 then 0 else 1)"
    using r by (auto simp: div_eq_0_iff intro!: int_div_pos_eq[where r = "r - 1"])
  have cl: "\<lceil>y / 2 ^ R\<rceil> = (if r = 0 then q else q + 1)"
    using z(1,4) by (simp add: ceiling_altdef)
  have fl: "(r + 0) div 2 ^ R = 0" using r by simp
  have ev: "(q + 1) - (q + 1) mod 2 = (if even q then q else q + 1)" by (auto simp: mod_2_eq_odd)
  show ?thesis
  proof (cases rm)
    case RM_RNE
    then show ?thesis using z dv[of "2 ^ (R - 1)"] up ev by (simp add: rnd_int_def rnd_shift_def int_addend_def r_def[symmetric] Let_def)
  qed (use z dv[of 0] dv[of "2 ^ (R - 1)"] dv[of "2 ^ R - 1"] up dirr cl fl in \<open>simp_all add: rnd_int_def rnd_shift_def int_addend_def\<close>)
qed

lemma rnd_exact_iff:
  assumes "sticky g m y" "g + 2 \<le> R"
  shows "of_int (rnd_int rm neg (y / 2 ^ R)) = y / 2 ^ R \<longleftrightarrow> m mod 2 ^ R = 0"
proof
  assume "of_int (rnd_int rm neg (y / 2 ^ R)) = y / 2 ^ R"
  then have "y / 2 ^ R = of_int \<lfloor>y / 2 ^ R\<rfloor>" by (metis floor_of_int)
  then show "m mod 2 ^ R = 0" using sticky_scaled(1,4)[OF assms] by simp
next
  assume "m mod 2 ^ R = 0"
  then have "y / 2 ^ R = of_int (m div 2 ^ R)" using sticky_scaled(4)[OF assms] by simp
  then show "of_int (rnd_int rm neg (y / 2 ^ R)) = y / 2 ^ R" by (metis rnd_int_exact)
qed

text \<open>Shifting right with a sticky bit.\<close>

definition sticky_shift :: "nat \<Rightarrow> int \<Rightarrow> int" where
  "sticky_shift d m = (if m mod 2 ^ d = 0 then m div 2 ^ d else m div 2 ^ d OR 1)"

lemma or_1_int: "n OR 1 = (if even n then n + 1 else (n :: int))"
  by (simp add: or_one_eq)


text \<open>An inexact shift leaves an odd number next to a value strictly between its neighbours.\<close>

lemma sticky_shift_inexact:
  assumes "m mod 2 ^ d \<noteq> 0" "of_int (m div 2 ^ d) < z" "z < of_int (m div 2 ^ d) + 1"
  shows "sticky 0 (sticky_shift d m) z"
proof -
  define q where "q = m div 2 ^ d"
  have e: "sticky_shift d m = (if even q then q + 1 else q)"
    using assms(1) by (simp add: sticky_shift_def or_1_int q_def)
  then have "odd (sticky_shift d m)" by simp
  then obtain j where "sticky_shift d m = 2 * j + 1" by (auto elim: oddE)
  moreover have "\<bar>z - of_int (sticky_shift d m)\<bar> < 1" using assms(2,3) by (auto simp: e q_def)
  ultimately show ?thesis by (auto simp: sticky_def)
qed

lemma sticky_shift:
  assumes "sticky g m y" shows "\<exists>g' \<le> g. sticky g' (sticky_shift d m) (y / 2 ^ d)"
proof -
  define q r where "q = m div 2 ^ d" and "r = m mod 2 ^ d"
  have m: "m = q * 2 ^ d + r" unfolding q_def r_def by (rule div_mult_mod_eq[symmetric])
  have r: "0 \<le> r" "r < 2 ^ d" by (simp_all add: r_def)
  have rm: "of_int m = of_int q * 2 ^ d + (of_int r :: real)" unfolding m by simp
  have rr: "of_int r < (2 :: real) ^ d" using r(2) by (metis of_int_less_iff of_int_numeral of_int_power)
  note inexact = sticky_shift_inexact[of m d, folded q_def r_def]
  from assms consider "y = of_int m" | j where "m = (2 * j + 1) * 2 ^ g" "\<bar>y - of_int m\<bar> < 2 ^ g"
    by (auto simp: sticky_def)
  then show ?thesis
  proof cases
    case 1
    show ?thesis
    proof (cases "r = 0")
      case True
      then have "y / 2 ^ d = of_int (sticky_shift d m)" by (simp add: 1 m sticky_shift_def)
      then show ?thesis by (auto simp: sticky_def)
    next
      case False
      then have "of_int q < y / 2 ^ d" "y / 2 ^ d < of_int q + 1"
        using r rr by (simp_all add: 1 rm field_simps)
      with inexact False show ?thesis by blast
    qed
  next
    case (2 j)
    show ?thesis
    proof (cases "d \<le> g")
      case True
      then have g: "(2 :: int) ^ g = 2 ^ (g - d) * 2 ^ d" "(2 :: real) ^ g = 2 ^ (g - d) * 2 ^ d"
        by (simp_all flip: power_add)
      then have sh: "sticky_shift d m = (2 * j + 1) * 2 ^ (g - d)" unfolding sticky_shift_def 2(1) by (simp add: mult.assoc[symmetric])
      have "m = sticky_shift d m * 2 ^ d" unfolding sh by (simp add: 2(1) g mult.assoc)
      then have "of_int m = of_int (sticky_shift d m) * (2 :: real) ^ d"
        by (metis of_int_mult of_int_numeral of_int_power)
      then have "y / 2 ^ d - of_int (sticky_shift d m) = (y - of_int m) / 2 ^ d" by (simp add: diff_divide_distrib)
      then have "\<bar>y / 2 ^ d - of_int (sticky_shift d m)\<bar> < 2 ^ (g - d)"
        using 2(2) by (simp add: g(2) field_simps)
      with sh show ?thesis by (auto simp: sticky_def intro!: exI[of _ "g - d"])
    next
      case False
      then have p: "(2 :: int) ^ d = 2 * 2 ^ (d - g - 1) * 2 ^ g"
        by (simp flip: power_add power_Suc)
      define s where "s = (2 * j + 1) mod (2 * 2 ^ (d - g - 1))"
      have rs: "r = s * 2 ^ g" unfolding r_def 2(1) p s_def by (simp add: mult_mod_left)
      have "s mod 2 = (2 * j + 1) mod 2" unfolding s_def by (simp add: mod_mod_cancel)
      then have odd: "odd s" by presburger
      have s: "0 \<le> s" "s < 2 * 2 ^ (d - g - 1)" by (simp_all add: s_def)
      with odd have s1: "1 \<le> s" "s + 1 \<le> 2 * 2 ^ (d - g - 1)" by presburger+
      have "1 * 2 ^ g \<le> s * 2 ^ g" "(s + 1) * 2 ^ g \<le> 2 * 2 ^ (d - g - 1) * 2 ^ g"
        using s1 by (intro mult_right_mono; simp)+
      then have "2 ^ g \<le> r" "r + 2 ^ g \<le> 2 ^ d" unfolding rs p by (simp_all add: distrib_right)
      then have "of_int (2 ^ g) \<le> (of_int r :: real)" "of_int (r + 2 ^ g) \<le> (of_int (2 ^ d) :: real)"
        by (simp_all only: of_int_le_iff)
      then have "(2 :: real) ^ g \<le> of_int r" "of_int r + 2 ^ g \<le> (2 :: real) ^ d" by simp_all
      then have "of_int q * 2 ^ d < y" "y < of_int q * 2 ^ d + 2 ^ d"
        using 2(2) unfolding rm abs_less_iff by linarith+
      then have "of_int q < y / 2 ^ d" "y / 2 ^ d < of_int q + 1" by (simp_all add: field_simps)
      moreover have "r \<noteq> 0" using s1(1) by (simp add: rs)
      ultimately show ?thesis using inexact by blast
    qed
  qed
qed

section \<open>Words as integers\<close>

lemma digits_less: "a < c \<Longrightarrow> r < b \<Longrightarrow> 0 < b \<Longrightarrow> a * b + r < c * b" for a b c r :: int
  using mult_right_mono[of "a + 1" c b] by (simp add: distrib_right)

lemma div_eq_0_iff_pos: "0 \<le> a \<Longrightarrow> 0 < b \<Longrightarrow> a div b = 0 \<longleftrightarrow> a < (b :: int)"
  by (auto simp: pos_imp_zdiv_pos_iff dest: pos_imp_zdiv_pos_iff[of b a, THEN iffD2] intro: div_pos_pos_trivial)

lemma uint_drop: "uint (drop_bit n w) = uint w div 2 ^ n" for w :: "'b::len word"
  by (metis drop_bit_eq_div take_bit_int_eq_self uint_bounded uint_nonnegative unsigned_drop_bit_eq)

lemma uint_take: "uint (take_bit n w) = uint w mod 2 ^ n" for w :: "'b::len word"
  by (metis unsigned_take_bit_eq take_bit_eq_mod)

lemma uint_and_mask: "uint (w AND mask n) = uint w mod 2 ^ n" for w :: "'b::len word"
  by (simp only: uint_take flip: take_bit_eq_mask)

lemma uint_shl: "uint w * 2 ^ n < 2 ^ LENGTH('b) \<Longrightarrow> uint (push_bit n w) = uint w * 2 ^ n" for w :: "'b::len word"
  by (metis push_bit_eq_mult take_bit_int_eq_self uint_nonnegative unsigned_push_bit_eq mult_nonneg_nonneg zero_le_numeral zero_le_power)

lemma uint_or_disjoint:
  fixes w :: "'b::len word"
  assumes "\<And>n. \<not> bit v n \<or> \<not> bit w n" shows "uint (v OR w) = uint v + uint w"
  unfolding uint_or using assms by (intro disjunctive_add[symmetric]) (auto simp: bit_uint_iff)

text \<open>Joining high and low part with a bitwise or.\<close>

lemma uint_or_shl:
  fixes w :: "'b::len word"
  assumes "uint w < 2 ^ k" "uint v * 2 ^ k < 2 ^ LENGTH('b)"
  shows "uint (push_bit k v OR w) = uint v * 2 ^ k + uint w"
proof -
  have "\<not> bit w n" if "k \<le> n" for n
  proof -
    have "drop_bit k w = 0" using assms(1) by (simp add: word_uint_eq_iff uint_drop)
    then have "\<not> bit (drop_bit k w) (n - k)" by simp
    then show ?thesis using that by (simp add: bit_drop_bit_eq)
  qed
  then have "\<not> bit (push_bit k v) n \<or> \<not> bit w n" for n by (auto simp: bit_push_bit_iff) 
  from uint_or_disjoint[OF this] assms(2) show ?thesis by (simp add: uint_shl)
qed

lemma uint_ucast_up: "LENGTH('b) \<le> LENGTH('c) \<Longrightarrow> uint (ucast w :: 'c::len word) = uint w" for w :: "'b::len word"
proof -
  assume "LENGTH('b) \<le> LENGTH('c)"
  then have "(2 :: int) ^ LENGTH('b) \<le> 2 ^ LENGTH('c)" by simp
  then have "uint w < 2 ^ LENGTH('c)" using uint_bounded[of w] by linarith
  then show ?thesis by (simp add: unsigned_ucast_eq take_bit_int_eq_self)
qed

lemma uint_pow2: "n < LENGTH('b) \<Longrightarrow> uint (push_bit n 1 :: 'b::len word) = 2 ^ n"
  by (subst uint_shl) (simp_all add: power_strict_increasing_iff)

lemma uint_rshift_rnd: "uint (rshift_rnd w d) = sticky_shift d (uint w)" for w :: "'b::len word"
proof (cases "d = 0")
  case False
  have mz: "w AND (push_bit d 1 - 1) = 0 \<longleftrightarrow> uint w mod 2 ^ d = 0"
  proof -
    have "w AND (push_bit d 1 - 1) = take_bit d w" by (simp add: take_bit_eq_mask mask_eq_exp_minus_1)
    then show ?thesis by (simp only: word_uint_eq_iff uint_take uint_0_eq)
  qed
  have one: "uint (v OR 1) = uint v OR 1" for v :: "'b word" by (simp add: uint_or)
  show ?thesis
  proof (cases "LENGTH('b) \<le> d")
    case True
    then have "(2::int) ^ LENGTH('b) \<le> 2 ^ d" by simp
    then have lt: "uint w < 2 ^ d" using uint_bounded[of w] by linarith
    with False True show ?thesis by (simp add: rshift_rnd_def sticky_shift_def uint_0_iff)
  next
    case d: False
    with False one mz show ?thesis
      by (cases "uint w mod 2 ^ d = 0") (simp_all add: rshift_rnd_def sticky_shift_def uint_drop)
  qed
qed (simp add: rshift_rnd_def sticky_shift_def)

section \<open>Formats and values\<close>

definition bias :: "nat \<Rightarrow> int" where "bias f = EXP_MASK f div 2"

definition is_finite :: "'a::len word \<Rightarrow> bool" where
  "is_finite a \<longleftrightarrow> exp_of a \<noteq> EXP_MASK (LENGTH('a))"

text \<open>The significand with its implicit bit, the exponent with subnormals at 1, magnitude and value.\<close>

definition fsig :: "'a::len word \<Rightarrow> int" where
  "fsig a = uint (mant_of a) + (if exp_of a = 0 then 0 else 2 ^ MANT_SIZE (LENGTH('a)))"

definition fexp :: "'a::len word \<Rightarrow> int" where
  "fexp a = (if exp_of a = 0 then 1 else exp_of a)"

definition fmag :: "'a::len word \<Rightarrow> real" where
  "fmag a = of_int (fsig a) * 2 powi (fexp a - bias (LENGTH('a)) - int (MANT_SIZE (LENGTH('a))))"

definition fval :: "'a::len word \<Rightarrow> real" where
  "fval a = (if sign_of a then - fmag a else fmag a)"

text \<open>Rounding of a positive number \<open>x\<close> to the precision of the format of size \<open>f\<close>.\<close>

definition ieee_ulp :: "nat \<Rightarrow> real \<Rightarrow> int" where
  "ieee_ulp f x = max (\<lfloor>log 2 x\<rfloor>) (1 - bias f) - int (MANT_SIZE f)"

definition ieee_round :: "nat \<Rightarrow> RoundingModeEnum \<Rightarrow> bool \<Rightarrow> real \<Rightarrow> real" where
  "ieee_round f rm neg x = of_int (rnd_int rm neg (x / 2 powi ieee_ulp f x)) * 2 powi ieee_ulp f x"

text \<open>A format: the word type and the sizes of mantissa, exponent and rounding part.\<close>

locale sf_format =
  fixes ty :: "'a::len itself" and M E R :: nat
  assumes fmt: "LENGTH('a) = 32 \<or> LENGTH('a) = 64 \<or> LENGTH('a) = 128"
    and M [simp]: "MANT_SIZE (LENGTH('a)) = M"
    and E [simp]: "EXP_SIZE (LENGTH('a)) = E"
    and R [simp]: "RND_SIZE (LENGTH('a)) = R"
begin

lemma sizes:
  "LENGTH('a) = M + R + 2" "LENGTH('a) = M + E + 1" "7 \<le> R" "R < 31" "E < 31" "3 \<le> E" "R + 3 \<le> M"
  "EXP_MASK (LENGTH('a)) = 2 ^ E - 1" "bias (LENGTH('a)) = 2 ^ (E - 1) - 1"
  unfolding M[symmetric] E[symmetric] R[symmetric]
  using fmt by (auto simp: MANT_SIZE_def RND_SIZE_def IMANT_SIZE_def EXP_SIZE_def EXP_MASK_def bias_def)

lemma bias_twice: "EXP_MASK (LENGTH('a)) = 2 * bias (LENGTH('a)) + 1" "2 ^ (E - 1) = bias (LENGTH('a)) + 1"
  unfolding E[symmetric] using fmt by (auto simp: EXP_SIZE_def EXP_MASK_def bias_def)

lemma bias_pos: "0 < bias (LENGTH('a))"
  using fmt by (auto simp: EXP_SIZE_def EXP_MASK_def bias_def)

lemma pow_split:
  "(2 :: int) ^ LENGTH('a) = 2 ^ (LENGTH('a) - 1) * 2" "(2 :: int) ^ (LENGTH('a) - 1) = 2 ^ E * 2 ^ M"
  "(2 :: int) ^ (LENGTH('a) - 1) = 2 ^ (LENGTH('a) - 2) * 2" "(2 :: int) ^ (LENGTH('a) - 2) = 2 ^ M * 2 ^ R"
proof -
  have e: "LENGTH('a) = Suc (LENGTH('a) - 1)" "LENGTH('a) - 1 = E + M" "LENGTH('a) - 1 = Suc (LENGTH('a) - 2)"
      "LENGTH('a) - 2 = M + R" using sizes(1,2) by linarith+
  show "(2 :: int) ^ LENGTH('a) = 2 ^ (LENGTH('a) - 1) * 2" by (metis e(1) power_Suc2)
  show "(2 :: int) ^ (LENGTH('a) - 1) = 2 ^ E * 2 ^ M" by (simp only: e(2) power_add)
  show "(2 :: int) ^ (LENGTH('a) - 1) = 2 ^ (LENGTH('a) - 2) * 2" by (metis e(3) power_Suc2)
  show "(2 :: int) ^ (LENGTH('a) - 2) = 2 ^ M * 2 ^ R" by (simp only: e(4) power_add)
qed

lemma mant_mask: "(MANT_MASK :: 'a word) = mask M"
  by (simp add: MANT_MASK_def mask_eq_exp_minus_1)

lemma uint_mant: "uint (mant_of a) = uint a mod 2 ^ M" for a :: "'a word"
  by (simp only: mant_of_def mant_mask uint_and_mask)

lemma exp_of_eq: "exp_of a = uint a div 2 ^ M mod 2 ^ E" for a :: "'a word"
proof -
  have "(word_of_int (EXP_MASK (LENGTH('a))) :: 'a word) = mask E"
    by (simp add: EXP_MASK_def mask_eq_exp_minus_1)
  then show ?thesis by (simp only: exp_of_def uint_and_mask uint_drop M)
qed

lemma sign_of_eq: "sign_of a \<longleftrightarrow> 2 ^ (LENGTH('a) - 1) \<le> uint a" for a :: "'a word"
proof -
  have "sign_of a \<longleftrightarrow> uint a div 2 ^ (LENGTH('a) - 1) \<noteq> 0"
    by (simp only: sign_of_def word_uint_eq_iff uint_drop uint_0_eq)
  moreover have "uint a div 2 ^ (LENGTH('a) - 1) = 0 \<longleftrightarrow> uint a < 2 ^ (LENGTH('a) - 1)"
    by (simp add: div_eq_0_iff_pos)
  ultimately show ?thesis by (simp add: not_less)
qed

lemma uint_pack:
  fixes m :: "'a word"
  assumes "0 \<le> e" "e < 2 ^ E"
  shows "uint (pack_sf s e m) = of_bool s * 2 ^ (LENGTH('a) - 1) + e * 2 ^ M + uint m mod 2 ^ M"
proof -
  let ?m = "m AND MANT_MASK" and ?e = "word_of_int (e mod 2 ^ 32) :: 'a word"
  have "e < 2 ^ 32" using assms(2) power_strict_increasing[of E 32 "2::int"] sizes(5) by linarith
  moreover have "(2 :: int) ^ E \<le> 2 ^ LENGTH('a)" using sizes(2) by (intro power_increasing) auto
  then have "e < 2 ^ LENGTH('a)" using assms(2) by linarith
  ultimately have e: "uint ?e = e" using assms by (simp add: uint_word_of_int)
  have m: "uint ?m = uint m mod 2 ^ M" "0 \<le> uint m mod 2 ^ M" "uint m mod 2 ^ M < 2 ^ M"
    by (simp_all add: mant_mask uint_and_mask del: uint_mod)
  have lt: "e * 2 ^ M + uint m mod 2 ^ M < 2 ^ (LENGTH('a) - 1)"
    unfolding pow_split(2) using assms(2) m(3) by (rule digits_less) simp
  have "e * 2 ^ M < 2 ^ LENGTH('a)" using lt m(2) pow_split(1) zero_less_power[of "2 :: int" "LENGTH('a) - 1"] by linarith
  then have low: "uint (push_bit M ?e OR ?m) = e * 2 ^ M + uint m mod 2 ^ M"
    using m e by (subst uint_or_shl) auto
  have "uint (push_bit (LENGTH('a) - 1) (of_bool s) OR (push_bit M ?e OR ?m))
      = uint (of_bool s :: 'a word) * 2 ^ (LENGTH('a) - 1) + uint (push_bit M ?e OR ?m)"
    using lt low pow_split(1) by (intro uint_or_shl) auto
  then show ?thesis unfolding low by (simp add: pack_sf_def or.assoc)
qed

lemma pack_fields:
  fixes m :: "'a word"
  assumes "0 \<le> e" "e < 2 ^ E"
  shows "sign_of (pack_sf s e m) = s" "exp_of (pack_sf s e m) = e" "uint (mant_of (pack_sf s e m)) = uint m mod 2 ^ M"
proof -
  let ?u = "uint (pack_sf s e m)" and ?r = "uint m mod 2 ^ M"
  have u: "?u = (of_bool s * 2 ^ E + e) * 2 ^ M + ?r" unfolding uint_pack[OF assms] pow_split(2) by (simp add: distrib_right)
  have r: "0 \<le> ?r" "?r < 2 ^ M" by simp_all
  have dv: "?u div 2 ^ M = of_bool s * 2 ^ E + e" "?u mod 2 ^ M = ?r" using r by (simp_all add: u)
  show "exp_of (pack_sf s e m) = e" using assms by (simp add: exp_of_eq dv)
  show "uint (mant_of (pack_sf s e m)) = ?r" by (simp only: uint_mant dv)
  have "e * 2 ^ M + ?r < 2 ^ (LENGTH('a) - 1)" unfolding pow_split(2) using assms(2) r(2) by (rule digits_less) simp
  moreover have "0 \<le> e * 2 ^ M + ?r" using assms(1) r by simp
  ultimately show "sign_of (pack_sf s e m) = s" unfolding sign_of_eq uint_pack[OF assms] by (cases s) auto
qed

lemma uint_addend: "uint (ucast (rnd_addend (LENGTH('a)) rm s) :: 'a word) = int_addend R rm s"
    "rnd_addend (LENGTH('a)) rm s = 0 \<longleftrightarrow> int_addend R rm s = 0" "0 \<le> int_addend R rm s" "int_addend R rm s < 2 ^ R"
proof -
  have up: "LENGTH(32) \<le> LENGTH('a)" using fmt by auto
  have p: "uint (push_bit (R - 1) 1 :: u32) = 2 ^ (R - 1)" "uint (push_bit R 1 :: u32) = 2 ^ R"
    using sizes(3,4) by (simp_all add: uint_pow2 del: push_bit_of_1)
  have "uint (push_bit R 1 - 1 :: u32) = 2 ^ R - 1"
    using p(2) by (subst uint_sub_lem[THEN iffD1]) (simp_all del: push_bit_of_1)
  then have a: "uint (rnd_addend (LENGTH('a)) rm s) = int_addend R rm s"
    using p(1) by (cases rm) (simp_all add: rnd_addend_def int_addend_def del: push_bit_of_1)
  then show "uint (ucast (rnd_addend (LENGTH('a)) rm s) :: 'a word) = int_addend R rm s"
    using uint_ucast_up[OF up] by simp
  show "rnd_addend (LENGTH('a)) rm s = 0 \<longleftrightarrow> int_addend R rm s = 0" by (simp only: word_uint_eq_iff a uint_0_eq)
  have "(2::int) ^ (R - 1) < 2 ^ R" using sizes(3) by (intro power_strict_increasing) auto
  then show "0 \<le> int_addend R rm s" "int_addend R rm s < 2 ^ R"
    by (cases rm; simp add: int_addend_def)+
qed

lemma rnd_bits: 
  fixes m :: "'a word"
  shows "uint (rnd_bits_of m) = uint m mod 2 ^ R"
proof -
  have "uint (m AND (push_bit R 1 - 1)) = uint m mod 2 ^ R"
    using uint_and_mask[of m R] by (simp add: mask_eq_exp_minus_1)
  moreover have "uint m mod 2 ^ R < 2 ^ LENGTH(32)"
    using pos_mod_bound[of "2 ^ R" "uint m"] power_strict_increasing[of R 32 "2 :: int"] sizes(4) by (simp del: pos_mod_bound)
  ultimately show ?thesis by (simp add: rnd_bits_of_def unsigned_ucast_eq take_bit_int_eq_self_iff del: push_bit_of_1)
qed

lemma uint_rnd_mant:
  fixes m :: "'a word"
  assumes "uint m < 2 ^ (LENGTH('a) - 1)"
  shows "uint (rnd_mant m rm s) = rnd_shift R rm s (uint m)"
proof -
  have "R < LENGTH('a) - 1" using sizes by linarith
  then have "(2::int) ^ R < 2 ^ (LENGTH('a) - 1)" by simp
  then have "uint m + int_addend R rm s < 2 ^ LENGTH('a)"
    using assms uint_addend(4)[of rm s] pow_split(1) by linarith
  then have s: "uint (m + ucast (rnd_addend (LENGTH('a)) rm s)) = uint m + int_addend R rm s"
    using uint_addend(1)[of rm s] uint_add_lem[of m "ucast (rnd_addend (LENGTH('a)) rm s)"] by simp
  have h: "rnd_bits_of m = push_bit (R - 1) 1 \<longleftrightarrow> uint m mod 2 ^ R = 2 ^ (R - 1)"
    unfolding word_uint_eq_iff rnd_bits using sizes(3,4) by (simp add: uint_pow2 del: push_bit_of_1)
  have e: "uint (v AND NOT 1) = uint v - uint v mod 2" for v :: "'a word"
  proof -
    have "v = (v AND NOT 1) OR (v AND 1)" by (rule bit_eqI) (auto simp: bit_simps)
    then have "uint v = uint (v AND NOT 1) + uint (v AND mask 1)"
      using uint_or_disjoint[of "v AND NOT 1" "v AND 1"] by (auto simp: bit_simps)
    then show ?thesis using uint_and_mask[of v 1] by simp
  qed
  show ?thesis unfolding rnd_mant_def rnd_shift_def Let_def R h by (simp only: e s uint_drop if_distrib[of uint])
qed

end

interpretation sf32: sf_format "TYPE(32)" 23 8 7
  by unfold_locales (simp_all add: MANT_SIZE_def EXP_SIZE_def RND_SIZE_def IMANT_SIZE_def)

interpretation sf64: sf_format "TYPE(64)" 52 11 10
  by unfold_locales (simp_all add: MANT_SIZE_def EXP_SIZE_def RND_SIZE_def IMANT_SIZE_def)

end
