(* ===== verification/Softfp_Pack.thy ===== *)
theory Softfp_Pack
  imports Softfp_Round
begin

unbundle bit_operations_syntax

text \<open>
  \<^verbatim>\<open>round_pack_sf\<close> rounds correctly: from a normalized mantissa that represents the exact result up to a
  sticky bit it computes the number IEEE 754 prescribes, in every rounding mode, with carry into the
  exponent, gradual underflow and overflow, and the inexact and overflow flags.
\<close>

text \<open>The result on overflow: infinity or the largest finite number, by mode and sign.\<close>

definition overflow_inf :: "RoundingModeEnum \<Rightarrow> bool \<Rightarrow> bool" where
  "overflow_inf rm neg = (case rm of RM_RNE \<Rightarrow> True | RM_RMM \<Rightarrow> True | RM_RTZ \<Rightarrow> False | RM_RDN \<Rightarrow> neg | RM_RUP \<Rightarrow> \<not> neg)"

definition is_inf :: "'a::len word \<Rightarrow> bool" where
  "is_inf a \<longleftrightarrow> exp_of a = EXP_MASK (LENGTH('a)) \<and> mant_of a = 0"

definition is_zero :: "'a::len word \<Rightarrow> bool" where
  "is_zero a \<longleftrightarrow> exp_of a = 0 \<and> mant_of a = 0"

text \<open>
  The result \<open>r\<close> and the flags are those IEEE 754 prescribes for the exact result \<open>x > 0\<close> with the given
  sign: the rounded number with the inexact flag if it differs from \<open>x\<close>, or on overflow infinity or the
  largest finite number with the overflow and inexact flags.
\<close>

definition rounds_to :: "RoundingModeEnum \<Rightarrow> bool \<Rightarrow> real \<Rightarrow> u32 \<Rightarrow> 'a::len word \<times> u32 \<Rightarrow> bool" where
  "rounds_to rm neg x fl r \<longleftrightarrow>
     (let v = ieee_round (LENGTH('a)) rm neg x; top = 2 powi (bias (LENGTH('a)) + 1); a = fst r; fl' = snd r in
      sign_of a = neg
      \<and> (if v < top then is_finite a \<and> fmag a = v else if overflow_inf rm neg then is_inf a
         else is_finite a \<and> fmag a = top - 2 powi (bias (LENGTH('a)) - int (MANT_SIZE (LENGTH('a)))))
      \<and> (bit fl' 0 \<longleftrightarrow> bit fl 0 \<or> v \<noteq> x \<or> v \<ge> top)
      \<and> (bit fl' 2 \<longleftrightarrow> bit fl 2 \<or> v \<ge> top)
      \<and> (\<forall>n. 3 \<le> n \<longrightarrow> bit fl' n = bit fl n))"

lemma div_less_mult: "a div b < c" if "0 < b" "a < c * b" for a b c :: int
proof -
  have "a div b * b \<le> a" using div_mult_mod_eq[of a b] pos_mod_sign[OF that(1), of a] by linarith
  then have "a div b * b < c * b" using that(2) by linarith
  then show ?thesis using that(1) by simp
qed

lemma rnd_shift_bounds:
  assumes "1 \<le> R"
  shows "m div 2 ^ R \<le> rnd_shift R rm s m" "rnd_shift R rm s m \<le> m div 2 ^ R + 1"
proof -
  define q r where "q = m div 2 ^ R" and "r = m mod 2 ^ R"
  have m: "m = q * 2 ^ R + r" unfolding q_def r_def by (rule div_mult_mod_eq[symmetric])
  have r: "0 \<le> r" "r < 2 ^ R" by (simp_all add: r_def)
  have half: "(2 :: int) ^ R = 2 * 2 ^ (R - 1)" using assms by (cases R) auto
  have a: "0 \<le> int_addend R rm s" "int_addend R rm s < 2 ^ R" using half by (cases rm; simp add: int_addend_def)+
  have n: "(m + int_addend R rm s) div 2 ^ R = q + (r + int_addend R rm s) div 2 ^ R" by (simp add: m add.assoc)
  have "0 \<le> (r + int_addend R rm s) div 2 ^ R" using r a by (simp add: pos_imp_zdiv_nonneg_iff)
  moreover have "(r + int_addend R rm s) div 2 ^ R < 2"
    using r a by (intro div_less_mult) auto
  moreover have "(r + int_addend R RM_RNE s) div 2 ^ R = 1" if "r = 2 ^ (R - 1)"
    using that half by (simp add: int_addend_def flip: mult_2)
  ultimately show "q \<le> rnd_shift R rm s m" "rnd_shift R rm s m \<le> q + 1"
    using n by (auto simp: rnd_shift_def Let_def r_def[symmetric] mod_2_eq_odd)
qed

lemma log_powi: "log 2 (2 powi n) = of_int n"
  by (simp flip: powr_real_of_int')

lemma powi_mult_split: "(2 :: real) powi (a + int n) = 2 powi a * 2 ^ n"
  by (simp add: power_int_add)

lemma bit_flag: "bit (flag c 1 fl) n \<longleftrightarrow> bit fl n \<or> c \<and> n = 0" "bit (flag c 2 fl) n \<longleftrightarrow> bit fl n \<or> c \<and> n = 1"
    "bit (fl OR 5) n \<longleftrightarrow> bit fl n \<or> n = 0 \<or> n = 2" for fl :: u32
proof -
  have b: "bit (2 :: u32) n \<longleftrightarrow> n = 1" "bit (4 :: u32) n \<longleftrightarrow> n = 2"
    using bit_pow2[of 1 n, where ?'a = 32] bit_pow2[of 2 n, where ?'a = 32] by simp_all
  have "(5 :: u32) = 1 OR 4" by simp
  then show "bit (fl OR 5) n \<longleftrightarrow> bit fl n \<or> n = 0 \<or> n = 2" by (simp only: bit_or_iff bit_1_iff b)
  show "bit (flag c 2 fl) n \<longleftrightarrow> bit fl n \<or> c \<and> n = 1" 
    by (cases c) (simp_all only: flag_def bit_or_iff b if_True if_False simp_thms)
qed (auto simp: flag_def bit_or_iff bit_1_iff)

context sf_format
begin

text \<open>The position of the last place.\<close>

lemma ulp_of:
  assumes "2 ^ (LENGTH('a) - 2) \<le> y" "y < 2 ^ (LENGTH('a) - 1)"
    and "x = y * 2 powi (e - bias (LENGTH('a)) - int (LENGTH('a) - 2))"
  shows "ieee_ulp (LENGTH('a)) x = max e 1 - bias (LENGTH('a)) - int M"
proof -
  let ?k = "e - bias (LENGTH('a)) - int (LENGTH('a) - 2)"
  have y: "0 < y" using assms(1) by (meson less_le_trans zero_less_numeral zero_less_power)
  have "\<lfloor>log 2 x\<rfloor> = e - bias (LENGTH('a))"
  proof (rule floor_unique)
    have "2 powi (e - bias (LENGTH('a))) = 2 ^ (LENGTH('a) - 2) * (2 :: real) powi ?k"
      by (subst mult.commute, subst powi_mult_split[symmetric]) simp
    moreover have "(2 :: real) powi (e - bias (LENGTH('a)) + 1) = 2 ^ (LENGTH('a) - 1) * 2 powi ?k"
      using sizes(1) by (subst mult.commute, subst powi_mult_split[symmetric]) (simp add: of_nat_diff algebra_simps)
    ultimately have b: "2 powi (e - bias (LENGTH('a))) \<le> x" "x < 2 powi (e - bias (LENGTH('a)) + 1)"
      unfolding assms(3) using assms(1,2) by simp_all
    have x: "0 < x" unfolding assms(3) using y by simp
    have "log 2 (2 powi (e - bias (LENGTH('a)))) \<le> log 2 x" using b(1) x by (subst log_le_cancel_iff) auto
    then show "of_int (e - bias (LENGTH('a))) \<le> log 2 x" by (simp add: log_powi)
    have "log 2 x < log 2 (2 powi (e - bias (LENGTH('a)) + 1))" using b(2) x by (subst log_less_cancel_iff) auto
    then show "log 2 x < of_int (e - bias (LENGTH('a))) + 1" by (simp add: log_powi)
  qed
  then show ?thesis by (simp add: ieee_ulp_def max_def)
qed

lemma mant_le_mask: "m \<le> MANT_MASK \<longleftrightarrow> uint m < 2 ^ M" for m :: "'a word"
proof -
  have "uint (MANT_MASK :: 'a word) = 2 ^ M - 1"
    unfolding mant_mask uint_mask_eq using sizes by (simp add: min_def mask_eq_exp_minus_1)
  then show ?thesis by (simp add: word_le_def)
qed

lemma exp_mask_bounds: "0 \<le> EXP_MASK (LENGTH('a))" "EXP_MASK (LENGTH('a)) < 2 ^ E" "2 \<le> EXP_MASK (LENGTH('a))"
  using bias_twice(1) bias_pos sizes(8) by auto

text \<open>Encoding a rounded mantissa \<open>m\<close>: subnormal, normal (with a possible carry), infinity and largest number.\<close>

lemma pack_small:
  fixes m :: "'a word"
  assumes "uint m < 2 ^ M"
  shows "is_finite (pack_sf s 0 m)" "sign_of (pack_sf s 0 m) = s"
    "fmag (pack_sf s 0 m) = of_int (uint m) * 2 powi (1 - bias (LENGTH('a)) - int M)"
  using pack_fields[of 0 s m] exp_mask_bounds assms
  by (simp_all add: is_finite_def fmag_def fsig_def fexp_def)

lemma pack_normal:
  fixes m :: "'a word"
  assumes "2 ^ M \<le> uint m" "uint m \<le> 2 ^ (M + 1)" "1 \<le> e"
  defines "e2 \<equiv> e + uint (drop_bit (M + 1) m)"
  assumes "e2 < EXP_MASK (LENGTH('a))"
  shows "is_finite (pack_sf s e2 m)" "sign_of (pack_sf s e2 m) = s"
    "fmag (pack_sf s e2 m) = of_int (uint m) * 2 powi (e - bias (LENGTH('a)) - int M)"
proof -
  let ?n = "uint m"
  have e2: "e2 = e + ?n div 2 ^ (M + 1)" by (simp only: e2_def uint_drop)
  have b: "0 \<le> e2" "e2 < 2 ^ E" "e2 \<noteq> 0" "e2 \<noteq> EXP_MASK (LENGTH('a))"
    using assms(3,5) exp_mask_bounds(2) pos_imp_zdiv_nonneg_iff[of "2 ^ (M + 1)" ?n] unfolding e2 by auto
  note f = pack_fields[OF b(1,2)]
  show "is_finite (pack_sf s e2 m)" "sign_of (pack_sf s e2 m) = s" using f b by (simp_all add: is_finite_def)
  have "fmag (pack_sf s e2 m) = of_int (?n mod 2 ^ M + 2 ^ M) * 2 powi (e2 - bias (LENGTH('a)) - int M)"
    using f b by (simp add: fmag_def fsig_def fexp_def)
  also have "\<dots> = of_int ?n * 2 powi (e - bias (LENGTH('a)) - int M)"
  proof (cases "?n = 2 ^ (M + 1)")
    case True
    then have "?n mod 2 ^ M + 2 ^ M = 2 ^ M" "e2 = e + 1" unfolding e2 by simp_all
    moreover have "(2 :: real) powi (e + 1 - bias (LENGTH('a)) - int M) = 2 powi (e - bias (LENGTH('a)) - int M) * 2"
      using powi_mult_split[of "e - bias (LENGTH('a)) - int M" 1] by (simp add: algebra_simps)
    ultimately show ?thesis using True by simp
  next
    case False
    then have lt: "?n < 2 ^ (M + 1)" using assms(2) by linarith
    then have "?n div 2 ^ M = 1" using assms(1) by (intro int_div_pos_eq[where r = "?n - 2 ^ M"]) auto
    then have "?n mod 2 ^ M + 2 ^ M = ?n" using div_mult_mod_eq[of ?n "2 ^ M"] by simp
    moreover have "e2 = e" using lt by (simp add: e2)
    ultimately show ?thesis by simp
  qed
  finally show "fmag (pack_sf s e2 m) = of_int ?n * 2 powi (e - bias (LENGTH('a)) - int M)" .
qed

lemma pack_top:
  "is_inf (pack_sf s (EXP_MASK (LENGTH('a))) (0 :: 'a word))" "sign_of (pack_sf s (EXP_MASK (LENGTH('a))) (0 :: 'a word)) = s"
  "is_finite (pack_sf s (EXP_MASK (LENGTH('a)) - 1) (MANT_MASK :: 'a word))"
  "sign_of (pack_sf s (EXP_MASK (LENGTH('a)) - 1) (MANT_MASK :: 'a word)) = s"
  "fmag (pack_sf s (EXP_MASK (LENGTH('a)) - 1) (MANT_MASK :: 'a word))
     = 2 powi (bias (LENGTH('a)) + 1) - 2 powi (bias (LENGTH('a)) - int M)"
proof -
  note b = exp_mask_bounds
  have f: "0 \<le> EXP_MASK (LENGTH('a)) - 1" "EXP_MASK (LENGTH('a)) - 1 < 2 ^ E" "EXP_MASK (LENGTH('a)) - 1 \<noteq> 0"
    using b by auto
  show "sign_of (pack_sf s (EXP_MASK (LENGTH('a))) (0 :: 'a word)) = s" using pack_fields b by blast
  have "uint (mant_of (pack_sf s (EXP_MASK (LENGTH('a))) (0 :: 'a word))) = 0" using pack_fields(3)[OF b(1,2)] by simp
  then show "is_inf (pack_sf s (EXP_MASK (LENGTH('a))) (0 :: 'a word))"
    using pack_fields(2)[OF b(1,2)] by (simp add: is_inf_def uint_0_iff)
  show "is_finite (pack_sf s (EXP_MASK (LENGTH('a)) - 1) (MANT_MASK :: 'a word))"
    "sign_of (pack_sf s (EXP_MASK (LENGTH('a)) - 1) (MANT_MASK :: 'a word)) = s"
    using pack_fields[OF f(1,2)] by (simp_all add: is_finite_def)
  have mm: "uint (MANT_MASK :: 'a word) = 2 ^ M - 1"
    unfolding mant_mask uint_mask_eq using sizes by (simp add: min_def mask_eq_exp_minus_1)
  have e: "EXP_MASK (LENGTH('a)) - 1 - bias (LENGTH('a)) - int M = bias (LENGTH('a)) - int M" using bias_twice(1) by simp
  have "fmag (pack_sf s (EXP_MASK (LENGTH('a)) - 1) (MANT_MASK :: 'a word))
      = of_int (2 ^ M - 1 + 2 ^ M) * 2 powi (bias (LENGTH('a)) - int M)"
    using pack_fields[OF f(1,2)] f(3) mm mod_pos_pos_trivial[of "2 ^ M - 1" "(2 :: int) ^ M"]
    by (simp add: fmag_def fsig_def fexp_def e del: of_int_add of_int_diff minus_mod_self2)
  also have "\<dots> = 2 * 2 ^ M * 2 powi (bias (LENGTH('a)) - int M) - 2 powi (bias (LENGTH('a)) - int M)"
    by (simp add: algebra_simps)
  also have "2 * 2 ^ M * (2 :: real) powi (bias (LENGTH('a)) - int M) = 2 powi (bias (LENGTH('a)) + 1)"
    using powi_mult_split[of "bias (LENGTH('a)) - int M" "M + 1"] by (simp add: algebra_simps)
  finally show "fmag (pack_sf s (EXP_MASK (LENGTH('a)) - 1) (MANT_MASK :: 'a word))
     = 2 powi (bias (LENGTH('a)) + 1) - 2 powi (bias (LENGTH('a)) - int M)" .
qed

lemma fsig_bounds: "0 \<le> fsig a" "fsig a < 2 ^ (M + 1)" "exp_of a \<noteq> 0 \<Longrightarrow> 2 ^ M \<le> fsig a" for a :: "'a word"
proof -
  have "0 \<le> uint (mant_of a)" "uint (mant_of a) < 2 ^ M" unfolding uint_mant by simp_all
  then have "0 \<le> fsig a \<and> fsig a < 2 * 2 ^ M \<and> (exp_of a \<noteq> 0 \<longrightarrow> 2 ^ M \<le> fsig a)"
    unfolding fsig_def M using zero_less_power[of "2 :: int" M] by (smt (verit))
  then show "0 \<le> fsig a" "fsig a < 2 ^ (M + 1)" "exp_of a \<noteq> 0 \<Longrightarrow> 2 ^ M \<le> fsig a" by simp_all
qed

lemma exp_of_bounds: "0 \<le> exp_of a" "exp_of a \<le> EXP_MASK (LENGTH('a))" for a :: "'a word"
  unfolding exp_of_eq sizes(8) by simp_all

lemma fmag_less_top:
  fixes a :: "'a word"
  assumes "is_finite a" shows "fmag a < 2 powi (bias (LENGTH('a)) + 1)"
proof -
  let ?B = "bias (LENGTH('a))"
  have "fexp a \<le> 2 * ?B"
    using assms exp_of_bounds[of a] bias_twice(1) bias_pos by (auto simp: is_finite_def fexp_def)
  then have p: "(2 :: real) powi (fexp a - ?B - int M) \<le> 2 powi (?B - int M)" by (intro power_int_increasing) auto
  have "of_int (fsig a) < (of_int (2 ^ (M + 1)) :: real)" using fsig_bounds(2) by (simp only: of_int_less_iff)
  then have "fmag a < 2 ^ (M + 1) * 2 powi (fexp a - ?B - int M)" by (simp add: fmag_def)
  also have "\<dots> \<le> 2 ^ (M + 1) * 2 powi (?B - int M)" using p by (intro mult_left_mono) auto
  also have "\<dots> = 2 powi (?B + 1)" using powi_mult_split[of "?B - int M" "M + 1"] by (simp add: algebra_simps)
  finally show ?thesis .
qed

lemma round_pack_eq:
  fixes m :: "'a word"
  shows "round_pack_sf s e m rm fl =
    (let m1 = rshift_rnd m (nat (1 - e)); e1 = max e 1; n = rnd_mant m1 rm s; e2 = e1 + uint (drop_bit (M + 1) n);
         sub = (e \<le> 0 \<and> (e < 0 \<or> m + ucast (rnd_addend (LENGTH('a)) rm s) < push_bit (LENGTH('a) - 1) 1));
         inexact = (uint m1 mod 2 ^ R \<noteq> 0); fl2 = flag inexact 1 (flag (sub \<and> inexact) 2 fl)
     in if uint n < 2 ^ M then (pack_sf s 0 n, fl2)
        else if e2 < EXP_MASK (LENGTH('a)) then (pack_sf s e2 n, fl2)
        else (if int_addend R rm s = 0 then pack_sf s (EXP_MASK (LENGTH('a)) - 1) MANT_MASK
              else pack_sf s (EXP_MASK (LENGTH('a))) 0, fl2 OR 5))"
proof -
  have z: "rnd_bits_of w = 0 \<longleftrightarrow> uint w mod 2 ^ R = 0" for w :: "'a word"
    using rnd_bits[of w] by (simp add: word_uint_eq_iff)
  have m1: "(if e \<le> 0 then rshift_rnd m (nat (1 - e)) else m) = rshift_rnd m (nat (1 - e))"
    by (simp add: rshift_rnd_def)
  have e1: "(if e \<le> 0 then 1 else e) = max e 1" by (simp add: max_def)
  show ?thesis
    unfolding round_pack_sf_def Let_def M m1 e1 mant_le_mask z uint_addend(2)
    by (simp add: not_le)
qed

lemma overflow_bound:
  fixes n :: "'a word"
  assumes "2 ^ M \<le> uint n" "uint n \<le> 2 ^ (M + 1)" "EXP_MASK (LENGTH('a)) \<le> e + uint (drop_bit (M + 1) n)"
  shows "2 powi (bias (LENGTH('a)) + 1) \<le> of_int (uint n) * (2 :: real) powi (e - bias (LENGTH('a)) - int M)"
proof -
  let ?B = "bias (LENGTH('a))"
  have e: "2 * ?B + 1 \<le> e + uint n div 2 ^ (M + 1)" using assms(3) bias_twice(1) by (simp only: uint_drop)
  have p: "2 ^ k * (2 :: real) powi (e - ?B - int M) = 2 powi (e - ?B - int M + int k)" for k
    by (simp only: powi_mult_split mult.commute)
  have "2 powi (?B + 1) \<le> 2 ^ k * (2 :: real) powi (e - ?B - int M)" if "2 * ?B + 1 + int M \<le> e + int k" for k
    unfolding p using that by (intro power_int_increasing) auto
  moreover have "2 ^ k * (2 :: real) powi (e - ?B - int M) \<le> of_int (uint n) * 2 powi (e - ?B - int M)" if "2 ^ k \<le> uint n" for k
  proof -
    have "real_of_int (2 ^ k) \<le> real_of_int (uint n)" using that by (simp only: of_int_le_iff)
    from mult_right_mono[OF this, of "2 powi (e - ?B - int M)"] show ?thesis by simp
  qed
  moreover have "\<exists>k. 2 * ?B + 1 + int M \<le> e + int k \<and> 2 ^ k \<le> uint n"
  proof (cases "uint n = 2 ^ (M + 1)")
    case True
    then have "uint n div 2 ^ (M + 1) = 1" by simp
    then show ?thesis using e True by (intro exI[of _ "M + 1"]) auto
  next
    case False
    then have "uint n div 2 ^ (M + 1) = 0" using assms(2) by (simp add: div_eq_0_iff_pos)
    then show ?thesis using e assms(1) by (intro exI[of _ M]) auto
  qed
  ultimately show ?thesis by (meson order_trans)
qed

lemma addend_zero: "int_addend R rm s = 0 \<longleftrightarrow> \<not> overflow_inf rm s"
proof -
  have "(2 :: int) ^ 1 \<le> 2 ^ R" using sizes(3) by (intro power_increasing) auto
  then show ?thesis by (cases rm) (simp_all add: int_addend_def overflow_inf_def)
qed

lemma round_pack_correct:
  fixes m :: "'a word"
  assumes norm: "2 ^ (LENGTH('a) - 2) \<le> uint m" "uint m < 2 ^ (LENGTH('a) - 1)"
    and st: "sticky g (uint m) y" "g + 2 \<le> R"
    and x: "x = y * 2 powi (e - bias (LENGTH('a)) - int (LENGTH('a) - 2))"
  shows "rounds_to rm s x fl (round_pack_sf s e m rm fl)"
proof -
  define d e1 m1 y1 where "d = nat (1 - e)" and "e1 = max e 1" and "m1 = rshift_rnd m d" and "y1 = y / 2 ^ d"
  let ?B = "bias (LENGTH('a))"
  have fR: "Suc g \<le> LENGTH('a) - 2" using st(2) sizes(1) by linarith
  have dv: "2 ^ Suc h dvd (2 :: int) ^ (LENGTH('a) - 2)" "2 ^ Suc h dvd (2 :: int) ^ (LENGTH('a) - 1)" if "h \<le> g" for h
    using fR that by (intro le_imp_power_dvd; linarith)+
  have yb: "2 ^ (LENGTH('a) - 2) \<le> y" "y < 2 ^ (LENGTH('a) - 1)"
    using sticky_less(2)[OF st(1) dv(1)[OF order_refl]] sticky_less(2)[OF st(1) dv(2)[OF order_refl]] norm
    by (simp_all add: not_less[symmetric])
  obtain g' where g': "g' \<le> g" "sticky g' (uint m1) y1"
    using sticky_shift[OF st(1), of d] by (auto simp: m1_def y1_def uint_rshift_rnd)
  have ulp: "ieee_ulp (LENGTH('a)) x = e1 - ?B - int M"
    unfolding e1_def by (rule ulp_of[OF yb x])
  have "e1 - ?B - int (LENGTH('a) - 2) = e - ?B - int (LENGTH('a) - 2) + int d" by (simp add: e1_def d_def)
  then have "(2 :: real) powi (e1 - ?B - int (LENGTH('a) - 2)) = 2 powi (e - ?B - int (LENGTH('a) - 2)) * 2 ^ d"
    by (simp only: powi_mult_split)
  then have x1: "x = y1 * 2 powi (e1 - ?B - int (LENGTH('a) - 2))" by (simp add: x y1_def)
  have "e1 - ?B - int M = e1 - ?B - int (LENGTH('a) - 2) + int R" using sizes(1) by simp
  then have "(2 :: real) powi (e1 - ?B - int M) = 2 powi (e1 - ?B - int (LENGTH('a) - 2)) * 2 ^ R"
    by (simp only: powi_mult_split)
  then have xu: "x / 2 powi (e1 - ?B - int M) = y1 / 2 ^ R" by (simp add: x1)
  define n where "n = rnd_mant m1 rm s"
  have "0 \<le> y" using yb(1) by (meson order_trans zero_le_numeral zero_le_power)
  then have "y1 \<le> y" using mult_left_mono[of 1 "2 ^ d" y] by (simp add: y1_def field_simps)
  then have m1b: "uint m1 < 2 ^ (LENGTH('a) - 1)"
    using sticky_less(2)[OF g'(2) dv(2)[OF g'(1)]] yb(2) by simp
  have gR: "g' + 2 \<le> R" using g'(1) st(2) by linarith
  have ns: "uint n = rnd_shift R rm s (uint m1)" unfolding n_def by (rule uint_rnd_mant[OF m1b])
  then have n: "uint n = rnd_int rm s (y1 / 2 ^ R)" by (simp add: rnd_shift_correct[OF g'(2) gR])
  have v: "ieee_round (LENGTH('a)) rm s x = of_int (uint n) * 2 powi (e1 - ?B - int M)"
    by (simp add: ieee_round_def ulp xu n)
  have "ieee_round (LENGTH('a)) rm s x = x \<longleftrightarrow> of_int (uint n) = y1 / 2 ^ R"
    unfolding v xu[symmetric] by (simp add: field_simps)
  then have ex: "ieee_round (LENGTH('a)) rm s x = x \<longleftrightarrow> uint m1 mod 2 ^ R = 0"
    using rnd_exact_iff[OF g'(2) gR, of rm s] by (simp only: n)
  have q: "uint m1 div 2 ^ R < 2 ^ (M + 1)"
  proof (rule div_less_mult)
    have "LENGTH('a) - 1 = (M + 1) + R" using sizes(1) by linarith
    then have "(2 :: int) ^ (LENGTH('a) - 1) = 2 ^ (M + 1) * 2 ^ R" by (simp only: power_add)
    then show "uint m1 < 2 ^ (M + 1) * 2 ^ R" using m1b by (simp only:)
  qed simp
  have "2 ^ M \<le> uint m1 div 2 ^ R" if "e1 \<noteq> 1"
  proof -
    have "m1 = m" using that by (simp add: m1_def d_def e1_def rshift_rnd_def)
    then show ?thesis using norm(1) zdiv_mono1[of "2 ^ M * 2 ^ R" "uint m" "2 ^ R"] by (simp add: pow_split(4))
  qed
  then have nb: "uint n \<le> 2 ^ (M + 1)" "uint n < 2 ^ M \<Longrightarrow> e1 = 1"
    using rnd_shift_bounds[where m = "uint m1" and rm = rm and s = s and R = R] q sizes(3) unfolding ns by force+
  let ?v = "ieee_round (LENGTH('a)) rm s x" and ?e2 = "e1 + uint (drop_bit (M + 1) n)"
  define fl2 where "fl2 = flag (uint m1 mod 2 ^ R \<noteq> 0) 1 (flag ((e \<le> 0 \<and> (e < 0 \<or> m + ucast (rnd_addend (LENGTH('a)) rm s) < push_bit (LENGTH('a) - 1) 1)) \<and> uint m1 mod 2 ^ R \<noteq> 0) 2 fl)"
  have fl2: "bit fl2 0 \<longleftrightarrow> bit fl 0 \<or> ?v \<noteq> x" "bit fl2 2 = bit fl 2" "\<And>k. 3 \<le> k \<Longrightarrow> bit fl2 k = bit fl k"
    unfolding fl2_def ex by (auto simp: bit_flag)
  note eq = round_pack_eq[of s e m rm fl, folded d_def e1_def, unfolded Let_def, folded m1_def, folded n_def fl2_def]
  text \<open>A finite result with the rounded magnitude.\<close>
  have fin: "rounds_to rm s x fl (a, fl2)" if "is_finite a" "sign_of a = s" "fmag a = ?v" for a :: "'a word"
    using that fl2 fmag_less_top[OF that(1)] by (auto simp: rounds_to_def Let_def)
  consider "uint n < 2 ^ M" | "2 ^ M \<le> uint n" "?e2 < EXP_MASK (LENGTH('a))" | "2 ^ M \<le> uint n" "EXP_MASK (LENGTH('a)) \<le> ?e2"
    by linarith
  then show ?thesis
  proof cases
    case 1
    have "fmag (pack_sf s 0 n) = ?v" using pack_small(3)[OF 1] nb(2)[OF 1] by (simp only: v)
    from fin[OF pack_small(1,2)[OF 1] this] 1 show ?thesis by (simp add: eq)
  next
    case 2
    have "1 \<le> e1" by (simp add: e1_def)
    note pk = pack_normal[OF 2(1) nb(1) this 2(2)]
    have "fmag (pack_sf s ?e2 n) = ?v" using pk(3) by (simp only: v)
    from fin[OF pk(1,2) this] 2 show ?thesis by (simp add: eq)
  next
    case 3
    have "2 powi (?B + 1) \<le> ?v" unfolding v by (rule overflow_bound[OF 3(1) nb(1) 3(2)])
    then have top: "\<not> ?v < 2 powi (?B + 1)" by simp
    have "round_pack_sf s e m rm fl = (if overflow_inf rm s then pack_sf s (EXP_MASK (LENGTH('a))) 0
        else pack_sf s (EXP_MASK (LENGTH('a)) - 1) MANT_MASK, fl2 OR 5)"
      unfolding eq using 3 by (simp add: addend_zero)
    then show ?thesis
      using pack_top[of s] top fl2 by (simp add: rounds_to_def Let_def bit_flag(3))
  qed
qed

end

end
