(* ===== verification/Softfp_Arith.thy ===== *)
theory Softfp_Arith
  imports Softfp_Pack
begin

unbundle bit_operations_syntax

text \<open>
  The arithmetic operations round correctly: \<^verbatim>\<open>normalize_sf\<close>, multiplication, division, square root,
  addition and subtraction of finite numbers return the exact result rounded once, with the flags of
  IEEE 754.
\<close>

section \<open>Normalization\<close>

lemma top_bit_bounds:
  fixes a :: "'b::len word"
  shows "top_bit a k \<le> k \<and> uint (take_bit k a) < 2 ^ top_bit a k \<and> (take_bit k a \<noteq> 0 \<longrightarrow> 0 < top_bit a k \<and> 2 ^ (top_bit a k - 1) \<le> uint (take_bit k a))"
proof (induction k)
  case (Suc k)
  have u: "uint (take_bit j a) = take_bit j (uint a)" for j by (simp add: unsigned_take_bit_eq)
  show ?case
  proof (cases "bit a k")
    case True
    then have "take_bit (Suc k) (uint a) = 2 ^ k + take_bit k (uint a)"
      using bit_imp_le_length[OF True] by (simp add: take_bit_Suc_from_most bit_uint_iff)
    then show ?thesis using True by (simp add: u)
  next
    case False
    then have "take_bit (Suc k) (uint a) = take_bit k (uint a)"
      by (simp add: take_bit_Suc_from_most bit_uint_iff)
    then have "take_bit (Suc k) a = take_bit k a" by (simp add: word_uint_eq_iff u)
    then show ?thesis using False Suc by simp
  qed
qed simp

lemma clz_bounds:
  fixes a :: "'b::len word"
  assumes "a \<noteq> 0"
  shows "clz a < LENGTH('b)" "2 ^ (LENGTH('b) - 1 - clz a) \<le> uint a" "uint a < 2 ^ (LENGTH('b) - clz a)"
proof -
  have t: "take_bit (LENGTH('b)) a = a" by simp
  note b = top_bit_bounds[of a "LENGTH('b)", unfolded t]
  then have "LENGTH('b) - clz a = top_bit a (LENGTH('b))" "LENGTH('b) - 1 - clz a = top_bit a (LENGTH('b)) - 1"
    by (auto simp: clz_def)
  then show "clz a < LENGTH('b)" "2 ^ (LENGTH('b) - 1 - clz a) \<le> uint a" "uint a < 2 ^ (LENGTH('b) - clz a)"
    using b assms by (auto simp: clz_def)
qed

context sf_format
begin

lemma normalize_correct:
  fixes m :: "'a word"
  assumes m: "m \<noteq> 0" "uint m < 2 ^ (LENGTH('a) - 1)"
    and st: "sticky 0 (uint m) y" "y = of_int (uint m) \<or> 2 ^ (M + 2) \<le> uint m"
    and x: "x = y * 2 powi (e - bias (LENGTH('a)) - int (LENGTH('a) - 2))"
  shows "\<exists>r. normalize_sf s e m rm fl = Some r \<and> rounds_to rm s x fl r"
proof -
  note c = clz_bounds[OF m(1)]
  have "\<not> LENGTH('a) - 1 \<le> LENGTH('a) - 1 - clz m"
  proof
    assume "LENGTH('a) - 1 \<le> LENGTH('a) - 1 - clz m"
    then have "(2 :: int) ^ (LENGTH('a) - 1) \<le> 2 ^ (LENGTH('a) - 1 - clz m)" by (intro power_increasing) auto
    then show False using c(2) m(2) by linarith
  qed
  then have pos: "0 < clz m" by simp
  define k where "k = clz m - 1"
  have n: "normalize_sf s e m rm fl = Some (round_pack_sf s (e - int k) (push_bit k m) rm fl)"
  proof -
    have "LENGTH('a) - 1 - IMANT_SIZE (LENGTH('a)) = 1" using sizes(1) by (simp add: IMANT_SIZE_def)
    then show ?thesis using pos by (simp add: normalize_sf_def Let_def k_def nat_diff_distrib' of_nat_diff)
  qed
  have lk: "LENGTH('a) - 1 - clz m + k = LENGTH('a) - 2" "LENGTH('a) - clz m + k = LENGTH('a) - 1"
    using pos c(1) by (simp_all add: k_def)
  have "2 ^ (LENGTH('a) - 1 - clz m) * 2 ^ k \<le> uint m * 2 ^ k" "uint m * 2 ^ k < 2 ^ (LENGTH('a) - clz m) * 2 ^ k"
    using c(2,3) by simp_all
  then have b: "2 ^ (LENGTH('a) - 2) \<le> uint m * 2 ^ k" "uint m * 2 ^ k < 2 ^ (LENGTH('a) - 1)"
    by (simp_all only: lk flip: power_add)
  then have u: "uint (push_bit k m) = uint m * 2 ^ k" 
    using pow_split(1) zero_less_power[of "2 :: int" "LENGTH('a) - 1"] by (intro uint_shl) linarith
  have "\<exists>g. g + 2 \<le> R \<and> sticky g (uint m * 2 ^ k) (y * 2 ^ k)"
  proof (cases "y = of_int (uint m)")
    case True
    then have "y * 2 ^ k = of_int (uint m * 2 ^ k)" by simp
    then show ?thesis using sizes(3) by (intro exI[of _ 0]) (auto simp: sticky_def)
  next
    case False
    then have "2 ^ (M + 2) \<le> uint m" using st(2) by blast
    then have "(2 :: int) ^ (M + 2) < 2 ^ (LENGTH('a) - clz m)" using c(3) by linarith
    then have "M + 2 < LENGTH('a) - clz m" by (rule power_less_imp_less_exp[rotated]) simp
    then have "k + 2 \<le> R" using sizes(1) pos unfolding k_def by linarith
    then show ?thesis using sticky_mult[OF st(1), of k] by auto
  qed
  then obtain g where g: "g + 2 \<le> R" "sticky g (uint (push_bit k m)) (y * 2 ^ k)" unfolding u by blast
  have "e - bias (LENGTH('a)) - int (LENGTH('a) - 2) = e - int k - bias (LENGTH('a)) - int (LENGTH('a) - 2) + int k" by simp
  then have "x = y * 2 ^ k * 2 powi (e - int k - bias (LENGTH('a)) - int (LENGTH('a) - 2))"
    unfolding x by (simp only: powi_mult_split mult.assoc mult.commute)
  from round_pack_correct[OF b[folded u] g(2,1) this] n show ?thesis by blast
qed

end

section \<open>Operands\<close>

lemma sticky_or1: "of_int q < y \<Longrightarrow> y < of_int q + 1 \<Longrightarrow> sticky 0 (q OR 1) y"
proof -
  assume q: "of_int q < y" "y < of_int q + 1"
  have "odd (q OR 1)" by (simp add: or_1_int)
  then obtain j where "q OR 1 = 2 * j + 1" by (auto elim: oddE)
  moreover have "\<bar>y - of_int (q OR 1)\<bar> < 1" using q by (auto simp: or_1_int)
  ultimately show ?thesis by (auto simp: sticky_def)
qed

text \<open>A quotient with its remainder folded into a sticky bit.\<close>

lemma sticky_quotient:
  assumes "0 < b"
  shows "sticky 0 (if a mod b = 0 then a div b else a div b OR 1) (of_int a / of_int b)"
proof -
  have e: "of_int a = of_int (a div b) * of_int b + (of_int (a mod b) :: real)"
    unfolding of_int_mult[symmetric] of_int_add[symmetric] div_mult_mod_eq ..
  show ?thesis
  proof (cases "a mod b = 0")
    case True
    then have "of_int a / of_int b = (of_int (a div b) :: real)" using assms e by simp
    then show ?thesis using True by (simp add: sticky_def)
  next
    case False
    then have "0 < a mod b" using pos_mod_sign[OF assms, of a] by linarith
    moreover have "a mod b < b" by (rule pos_mod_bound[OF assms])
    ultimately have "0 < (of_int (a mod b) :: real)" "of_int (a mod b) < (of_int b :: real)" by simp_all
    then have "of_int (a div b) < of_int a / (of_int b :: real)" "of_int a / of_int b < of_int (a div b) + (1 :: real)"
      using assms e by (simp_all add: field_simps)
    then show ?thesis using False sticky_or1 by simp
  qed
qed

context sf_format
begin

lemma norm_operand_correct:
  fixes a :: "'a word"
  assumes "\<not> is_zero a" "norm_operand (exp_of a) (mant_of a) = (e, m)"
  shows "2 ^ M \<le> uint m" "uint m < 2 ^ (M + 1)"
    "fmag a = of_int (uint m) * 2 powi (e - bias (LENGTH('a)) - int M)"
proof -
  let ?m = "mant_of a" and ?B = "bias (LENGTH('a))"
  have mb: "uint ?m < 2 ^ M" by (simp add: uint_mant)
  have "2 ^ M \<le> uint m \<and> uint m < 2 ^ (M + 1) \<and> fmag a = of_int (uint m) * 2 powi (e - ?B - int M)"
  proof (cases "exp_of a = 0")
    case False
    then have em: "e = exp_of a" "m = push_bit M 1 OR ?m" using assms(2) by (simp_all add: norm_operand_def or.commute)
    have "(2 :: int) ^ M < 2 ^ LENGTH('a)" using sizes(1) by (intro power_strict_increasing) auto
    then have "uint m = 1 * 2 ^ M + uint ?m" unfolding em(2)
      using mb by (subst uint_or_shl) simp_all
    then show ?thesis using False mb by (simp add: fmag_def fsig_def fexp_def em(1))
  next
    case True
    then have nz: "?m \<noteq> 0" using assms(1) by (simp add: is_zero_def)
    note c = clz_bounds[OF nz]
    define t where "t = LENGTH('a) - 1 - clz ?m"
    have "(2 :: int) ^ t < 2 ^ M" using c(2) mb unfolding t_def by linarith
    then have tM: "t < M" by (rule power_less_imp_less_exp[rotated]) simp
    define k where "k = M - t"
    have "int M - (int (LENGTH('a)) - 1 - int (clz ?m)) = int k"
      using c(1) tM by (simp add: k_def t_def)
    then have em: "e = 1 - int k" "m = push_bit k ?m"
      using True assms(2) by (simp_all add: norm_operand_def normalize_subnormal_sf_def Let_def)
    have "LENGTH('a) - clz ?m = Suc t" using c(1) by (simp add: t_def)
    then have "2 ^ t * 2 ^ k \<le> uint ?m * 2 ^ k" "uint ?m * 2 ^ k < 2 ^ Suc t * 2 ^ k"
      using c(2,3) by (simp_all add: t_def)
    moreover have "t + k = M" "Suc t + k = M + 1" using tM by (simp_all add: k_def)
    ultimately have b: "2 ^ M \<le> uint ?m * 2 ^ k" "uint ?m * 2 ^ k < 2 ^ (M + 1)" by (simp_all only: flip: power_add)
    have "(2 :: int) ^ (M + 1) \<le> 2 ^ LENGTH('a)" using sizes(1) by (intro power_increasing) auto
    then have u: "uint m = uint ?m * 2 ^ k" unfolding em(2) using b(2) by (intro uint_shl) linarith
    have "1 - ?B - int M = e - ?B - int M + int k" by (simp add: em(1))
    then have "(2 :: real) powi (1 - ?B - int M) = 2 powi (e - ?B - int M) * 2 ^ k" by (simp only: powi_mult_split)
    then show ?thesis using b True by (simp add: u fmag_def fsig_def fexp_def)
  qed
  then show "2 ^ M \<le> uint m" "uint m < 2 ^ (M + 1)" "fmag a = of_int (uint m) * 2 powi (e - ?B - int M)" by blast+
qed

end

section \<open>Multiplication\<close>

lemma sticky_shift_exact: "sticky 0 (sticky_shift d m) (of_int m / 2 ^ d)"
  using sticky_shift[OF sticky_exact[of 0 m], of d] by simp

lemma sticky_shift_bounds:
  assumes "0 \<le> m"
  shows "m div 2 ^ d \<le> sticky_shift d m" "sticky_shift d m \<le> m div 2 ^ d + 1"
  by (simp_all add: sticky_shift_def or_1_int)

lemma or_1_less: "q < 2 ^ k \<Longrightarrow> 0 < k \<Longrightarrow> q OR 1 < (2 :: int) ^ k"
  by (cases k) (auto simp: or_1_int elim!: evenE)

lemma sticky_shift_less: "m < 2 ^ (k + d) \<Longrightarrow> 0 < k \<Longrightarrow> sticky_shift d m < 2 ^ k"
  using div_less_mult[of "2 ^ d" m "2 ^ k"] by (auto simp: sticky_shift_def power_add intro: or_1_less)

lemma uint_or_flag: "uint (w OR of_bool c) = (if c then uint w OR 1 else uint w)" for w :: "'b::len word"
  by (simp add: uint_or)

text \<open>The high word of a product, with a sticky bit for the low word.\<close>

lemma mul_u_sticky:
  fixes a b :: "'b::len word"
  assumes "mul_u a b = (h, l)"
  shows "uint (h OR of_bool (l \<noteq> 0)) = sticky_shift (LENGTH('b)) (uint a * uint b)"
proof -
  let ?r = "uint a * uint b"
  have hl: "h = word_of_int (?r div 2 ^ LENGTH('b))" "l = word_of_int ?r" using assms by (simp_all add: mul_u_def Let_def)
  have "?r < 2 ^ LENGTH('b) * 2 ^ LENGTH('b)" using uint_bounded[of a] uint_bounded[of b] by (intro mult_strict_mono) auto
  then have "?r div 2 ^ LENGTH('b) < 2 ^ LENGTH('b)" by (intro div_less_mult) simp_all
  moreover have "0 \<le> ?r div 2 ^ LENGTH('b)" by (simp add: pos_imp_zdiv_nonneg_iff)
  ultimately have "uint h = ?r div 2 ^ LENGTH('b)" by (simp add: hl uint_word_of_int)
  moreover have "l = 0 \<longleftrightarrow> ?r mod 2 ^ LENGTH('b) = 0" by (simp only: hl word_uint_eq_iff uint_word_of_int uint_0_eq)
  ultimately show ?thesis by (simp add: uint_or_flag sticky_shift_def)
qed

lemma word_nonzero: "2 ^ k \<le> uint w \<Longrightarrow> w \<noteq> 0" for w :: "'b::len word"
proof
  assume "2 ^ k \<le> uint w" "w = 0"
  then have "(2 :: int) ^ k \<le> 0" by simp
  then show False by (simp add: not_le[symmetric])
qed

lemma powi_balance: "i + int n = j + int m \<Longrightarrow> (2 :: real) powi i * 2 ^ n = 2 powi j * 2 ^ m"
  by (simp only: flip: powi_mult_split)

lemma powi_product:
  assumes "i + j + int d = k + int n"
  shows "(u * 2 powi i) * (v * 2 powi j) = (u * v * 2 ^ n) / 2 ^ d * (2 powi k :: real)"
proof -
  have "(u * 2 powi i) * (v * 2 powi j) = u * v * (2 powi (i + j) :: real)" by (simp add: power_int_add)
  also have "\<dots> = u * v * (2 powi (i + j) * 2 ^ d) / 2 ^ d" by simp
  also have "\<dots> = u * v * (2 powi k * 2 ^ n) / 2 ^ d" by (simp only: powi_balance[OF assms])
  finally show ?thesis by simp
qed

context sf_format
begin

lemma mul_finite:
  fixes a b :: "'a word"
  assumes "is_finite a" "is_finite b" "\<not> is_zero a" "\<not> is_zero b"
  shows "\<exists>r. mul_sf a b rm fl = Some r \<and> rounds_to rm (sign_of a \<noteq> sign_of b) (fmag a * fmag b) fl r"
proof -
  let ?B = "bias (LENGTH('a))" and ?F = "LENGTH('a)"
  obtain ea ma eb mb where na: "norm_operand (exp_of a) (mant_of a) = (ea, ma)"
    and nb: "norm_operand (exp_of b) (mant_of b) = (eb, mb)" by (metis surj_pair)
  note A = norm_operand_correct[OF assms(3) na] and B = norm_operand_correct[OF assms(4) nb]
  obtain h l where hl: "mul_u (push_bit R ma) (push_bit (R + 1) mb) = (h, l)" by (metis surj_pair)
  define p where "p = (uint ma * 2 ^ R) * (uint mb * 2 ^ (R + 1))"
  have "uint ma * 2 ^ R < 2 ^ (M + 1) * 2 ^ R" "uint mb * 2 ^ (R + 1) < 2 ^ (M + 1) * 2 ^ (R + 1)"
      "2 ^ M * 2 ^ R \<le> uint ma * 2 ^ R" "2 ^ M * 2 ^ (R + 1) \<le> uint mb * 2 ^ (R + 1)"
    using A B by simp_all
  moreover have "M + 1 + R = ?F - 1" "M + 1 + (R + 1) = ?F" "M + R = ?F - 2" "M + (R + 1) = ?F - 1" using sizes(1) by linarith+
  ultimately have bd: "uint ma * 2 ^ R < 2 ^ (?F - 1)" "uint mb * 2 ^ (R + 1) < 2 ^ ?F"
      "2 ^ (?F - 2) \<le> uint ma * 2 ^ R" "2 ^ (?F - 1) \<le> uint mb * 2 ^ (R + 1)"
    by (simp_all only: flip: power_add)
  have u: "uint (push_bit R ma) = uint ma * 2 ^ R" "uint (push_bit (R + 1) mb) = uint mb * 2 ^ (R + 1)"
    using bd pow_split(1) by (intro uint_shl; simp)+
  have m: "uint (h OR of_bool (l \<noteq> 0)) = sticky_shift ?F p"
    using mul_u_sticky[OF hl] by (simp only: u p_def)
  have "p < 2 ^ (?F - 1) * 2 ^ ?F" unfolding p_def using bd by (intro mult_strict_mono) auto
  then have up: "sticky_shift ?F p < 2 ^ (?F - 1)" using sizes(1,3) by (intro sticky_shift_less) (simp_all add: power_add)
  have "2 ^ (?F - 2) * 2 ^ (?F - 1) \<le> p" unfolding p_def using bd by (intro mult_mono) auto
  moreover have "?F - 2 + (?F - 1) = (?F - 3) + ?F" using sizes(1,3) by linarith
  ultimately have p: "2 ^ (?F - 3) * 2 ^ ?F \<le> p" by (simp only: flip: power_add)
  have "0 \<le> p" by (simp add: p_def)
  then have "p div 2 ^ ?F \<le> sticky_shift ?F p" by (rule sticky_shift_bounds)
  then have "2 ^ (?F - 3) \<le> sticky_shift ?F p" using zdiv_mono1[OF p, of "2 ^ ?F"] by simp
  moreover have "(2 :: int) ^ (M + 2) \<le> 2 ^ (?F - 3)" using sizes(1,3) by (intro power_increasing) linarith+
  ultimately have lo: "2 ^ (M + 2) \<le> sticky_shift ?F p" by linarith
  have nz: "h OR of_bool (l \<noteq> 0) \<noteq> 0"
    using lo by (intro word_nonzero[of "M + 2"]) (simp only: m)
  have e: "ea + eb - push_bit (E - 1) 1 + 2 = ea + eb - ?B + 1"
    using bias_twice(2) by (simp add: push_bit_eq_mult)
  have "fmag a * fmag b = of_int p / 2 ^ ?F * 2 powi (ea + eb - ?B + 1 - ?B - int (?F - 2))"
  proof -
    have "ea - ?B - int M + (eb - ?B - int M) + int ?F = ea + eb - ?B + 1 - ?B - int (?F - 2) + int (R + (R + 1))"
      using sizes(1) by simp
    from powi_product[OF this, of "of_int (uint ma)" "of_int (uint mb)"] show ?thesis
      unfolding A(3) B(3) p_def by (simp add: power_add)
  qed
  from normalize_correct[OF nz, unfolded m, OF up sticky_shift_exact disjI2[OF lo] this]
  show ?thesis using assms unfolding mul_sf_def Let_def is_finite_def is_zero_def
    by (simp only: na nb R E hl e case_prod_conv if_False simp_thms)
qed

end

section \<open>Division and square root\<close>

lemma powi_quotient:
  assumes "i - j + int d = k + int n"
  shows "(u * 2 powi i) / (v * 2 powi j) = (u * 2 ^ n) / (v * 2 ^ d) * (2 powi k :: real)"
proof -
  have "(2 :: real) powi i / 2 powi j = 2 powi k * 2 ^ n / 2 ^ d"
    using powi_balance[OF assms] by (simp add: power_int_diff field_simps)
  then have "u / v * ((2 :: real) powi i / 2 powi j) = u / v * (2 powi k * 2 ^ n / 2 ^ d)" by (simp only:)
  then show ?thesis by (simp only: times_divide_times_eq times_divide_eq_right times_divide_eq_left divide_divide_eq_left mult.assoc mult.commute mult.left_commute)
qed

lemma divrem_u_parts:
  fixes a b :: "'b::len word"
  assumes "divrem_u a 0 b = (q, r)" "uint a < uint b"
  shows "uint q = uint a * 2 ^ LENGTH('b) div uint b" "r = 0 \<longleftrightarrow> uint a * 2 ^ LENGTH('b) mod uint b = 0"
proof -
  let ?n = "uint a * 2 ^ LENGTH('b)"
  have b: "0 < uint b" using assms(2) uint_nonnegative[of a] by linarith
  have q: "?n div uint b < 2 ^ LENGTH('b)" using b assms(2) by (intro div_less_mult) simp_all
  have "0 \<le> ?n div uint b" using b by (simp add: pos_imp_zdiv_nonneg_iff)
  with q show "uint q = ?n div uint b" using assms(1) by (auto simp: divrem_u_def Let_def uint_word_of_int)
  have "?n mod uint b < 2 ^ LENGTH('b)" using pos_mod_bound[OF b, of ?n] uint_bounded[of b] by linarith
  moreover have "0 \<le> ?n mod uint b" using b by simp
  ultimately have "uint (word_of_int (?n mod uint b) :: 'b word) = ?n mod uint b" by (simp add: uint_word_of_int)
  then show "r = 0 \<longleftrightarrow> ?n mod uint b = 0" using assms(1) by (auto simp: divrem_u_def Let_def word_uint_eq_iff)
qed

context sf_format
begin

lemma div_finite:
  fixes a b :: "'a word"
  assumes "is_finite a" "is_finite b" "\<not> is_zero a" "\<not> is_zero b"
  shows "\<exists>r. div_sf a b rm fl = Some r \<and> rounds_to rm (sign_of a \<noteq> sign_of b) (fmag a / fmag b) fl r"
proof -
  let ?B = "bias (LENGTH('a))" and ?F = "LENGTH('a)"
  obtain ea ma eb mb where na: "norm_operand (exp_of a) (mant_of a) = (ea, ma)"
    and nb: "norm_operand (exp_of b) (mant_of b) = (eb, mb)" by (metis surj_pair)
  note A = norm_operand_correct[OF assms(3) na] and B = norm_operand_correct[OF assms(4) nb]
  obtain q r where qr: "divrem_u ma 0 (push_bit 2 mb) = (q, r)" by (metis surj_pair)
  define n d where "n = uint ma * 2 ^ ?F" and "d = uint mb * 4"
  define m where "m = (if n mod d = 0 then n div d else n div d OR 1)"
  have "(2 :: int) ^ (M + 3) \<le> 2 ^ ?F" using sizes(1,3) by (intro power_increasing) linarith+
  then have u: "uint (push_bit 2 mb) = d" unfolding d_def using B(2) by (subst uint_shl) (simp_all add: power_add)
  have "uint ma < d" using A(2) B(1) zero_less_power[of "2 :: int" M] unfolding d_def power_add power_one_right by linarith
  note dr = divrem_u_parts[OF qr, unfolded u, OF this, folded n_def]
  have mm: "uint (if r \<noteq> 0 then q OR 1 else q) = m" unfolding m_def using dr by (simp add: uint_or)
  have d: "0 < d" using B(1) zero_less_power[of "2 :: int" M] unfolding d_def by linarith
  have "n < 2 ^ (?F - 1) * d"
  proof -
    have "uint ma * 2 ^ (?F - 1) < 2 ^ (?F - 1) * (uint mb * 2)" using A(2) B(1) by simp
    then show ?thesis unfolding n_def d_def pow_split(1) by simp
  qed
  from div_less_mult[OF d this] have up: "m < 2 ^ (?F - 1)" unfolding m_def using or_1_less[of "n div d" "?F - 1"] sizes(1) by simp
  have "2 ^ (?F - 3) * d \<le> n"
  proof -
    have "?F = ?F - 3 + 3" using sizes(1,3) by linarith
    then have "(2 :: int) ^ ?F = 2 ^ (?F - 3) * 2 ^ 3" by (simp only: flip: power_add)
    then have "(2 :: int) ^ ?F = 2 ^ (?F - 3) * 8" by simp
    then show ?thesis unfolding n_def d_def using A(1) B(2) by simp
  qed
  then have "2 ^ (?F - 3) \<le> n div d" using zdiv_mono1[of "2 ^ (?F - 3) * d" n d] d by simp
  moreover have "(2 :: int) ^ (M + 2) \<le> 2 ^ (?F - 3)" using sizes(1,3) by (intro power_increasing) linarith+
  ultimately have lo: "2 ^ (M + 2) \<le> m" unfolding m_def by (auto simp: or_1_int)
  have nz: "(if r \<noteq> 0 then q OR 1 else q) \<noteq> 0" using lo by (intro word_nonzero[of "M + 2"]) (simp only: mm)
  have e: "ea - eb + push_bit (E - 1) 1 - 1 = ea - eb + ?B"
    using bias_twice(2) by (simp add: push_bit_eq_mult)
  have "fmag a / fmag b = of_int n / of_int d * 2 powi (ea - eb + ?B - ?B - int (?F - 2))"
  proof -
    have "ea - ?B - int M - (eb - ?B - int M) + int 2 = ea - eb + ?B - ?B - int (?F - 2) + int ?F" using sizes(1) by simp
    from powi_quotient[OF this, of "of_int (uint ma)" "of_int (uint mb)"] show ?thesis
      unfolding A(3) B(3) n_def d_def by simp
  qed
  from normalize_correct[OF nz, unfolded mm, OF up sticky_quotient[OF d, of n, folded m_def] disjI2[OF lo] this]
  show ?thesis using assms unfolding div_sf_def Let_def is_finite_def is_zero_def
    by (simp only: na nb R E qr e case_prod_conv if_False simp_thms)
qed

end

lemma sqrt_loop_correct:
  assumes "0 < a" "0 < s" "a < (s + 1) * (s + 1)"
  shows "0 < sqrt_loop a s \<and> sqrt_loop a s * sqrt_loop a s \<le> a \<and> a < (sqrt_loop a s + 1) * (sqrt_loop a s + 1)"
  using assms
proof (induction a s rule: sqrt_loop.induct)
  case (1 a s)
  define t u where "t = a div s" and "u = (t + s) div 2"
  have a: "s * t \<le> a" "a < s * (t + 1)" using mult_div_mod_eq[of s a] pos_mod_sign[OF 1(3), of a] pos_mod_bound[OF 1(3), of a]
    unfolding t_def distrib_left by linarith+
  have t: "0 \<le> t" using 1(2,3) by (simp add: t_def pos_imp_zdiv_nonneg_iff)
  show ?case
  proof (cases "s \<le> u")
    case True
    then have "s \<le> t" unfolding u_def by linarith
    then have "s * s \<le> s * t" using 1(3) by simp
    then have "s * s \<le> a" using a by linarith
    moreover have "sqrt_loop a s = s" using True by (subst sqrt_loop.simps) (simp add: u_def t_def Let_def)
    ultimately show ?thesis using 1 by simp
  next
    case False
    have eq: "sqrt_loop a s = sqrt_loop a u" using False 1(3) by (subst sqrt_loop.simps) (simp add: u_def t_def Let_def)
    have "t + s + 1 \<le> 2 * (u + 1)" unfolding u_def by presburger
    then have "(t + 1 + s) * (t + 1 + s) \<le> (2 * (u + 1)) * (2 * (u + 1))" using t 1(3) by (intro mult_mono) auto
    moreover have "4 * (s * (t + 1)) \<le> (t + 1 + s) * (t + 1 + s)"
      using zero_le_square[of "t + 1 - s"] by (simp add: algebra_simps)
    moreover have "(2 * (u + 1)) * (2 * (u + 1)) = 4 * ((u + 1) * (u + 1))" by (simp add: algebra_simps)
    ultimately have lt: "a < (u + 1) * (u + 1)" using a(2) by linarith
    moreover have "0 < u"
    proof (rule ccontr)
      assume "\<not> 0 < u"
      then have "u = 0" using t 1(3) unfolding u_def by linarith
      then show False using lt 1(2) by simp
    qed
    ultimately show ?thesis unfolding eq using 1(1)[OF u_def[unfolded t_def]] False 1(2,3) by simp
  qed
qed


text \<open>The start of the iteration is at least the root.\<close>

lemma sqrtrem_u_correct:
  fixes h :: "'b::len word"
  assumes "h \<noteq> 0" "sqrtrem_u h 0 = (s, inexact)"
  defines "a \<equiv> uint h * 2 ^ LENGTH('b)"
  shows "uint s * uint s \<le> a" "a < (uint s + 1) * (uint s + 1)" "inexact \<longleftrightarrow> uint s * uint s \<noteq> a"
proof -
  let ?F = "LENGTH('b)"
  define c where "c = clz (h - 1)"
  define l where "l = 2 * ?F - c"
  define r where "r = sqrt_loop a (2 ^ ((l + 1) div 2))"
  have h: "0 < uint h" using assms(1) by (simp add: order_less_le uint_0_iff)
  then have hm: "uint (h - 1) = uint h - 1" by (subst uint_sub_lem[THEN iffD1]) simp_all
  have c: "uint (h - 1) < 2 ^ (?F - c)" "c \<le> ?F"
    using clz_bounds[of "h - 1"] by (cases "h - 1 = 0"; simp add: c_def clz_def)+
  then have "uint h \<le> 2 ^ (?F - c)" using hm by simp
  then have "a \<le> 2 ^ (?F - c) * 2 ^ ?F" unfolding a_def by simp
  also have "\<dots> = 2 ^ l" using c(2) by (simp add: l_def flip: power_add)
  also have "\<dots> \<le> 2 ^ ((l + 1) div 2 + (l + 1) div 2)" by (intro power_increasing) auto
  finally have a: "a \<le> 2 ^ ((l + 1) div 2) * 2 ^ ((l + 1) div 2)" by (simp only: power_add)
  have "2 ^ ((l + 1) div 2) * 2 ^ ((l + 1) div 2) < (2 ^ ((l + 1) div 2) + 1) * ((2 :: int) ^ ((l + 1) div 2) + 1)"
    by (intro mult_strict_mono) auto
  then have a2: "a < (2 ^ ((l + 1) div 2) + 1) * (2 ^ ((l + 1) div 2) + 1)" using a by linarith
  have r: "0 < r" "r * r \<le> a" "a < (r + 1) * (r + 1)"
    using sqrt_loop_correct[OF _ _ a2] h unfolding r_def a_def by simp_all
  have "a < 2 ^ ?F * 2 ^ ?F" unfolding a_def using uint_bounded[of h] by simp
  then have "r < 2 ^ ?F" using r mult_mono[of "2 ^ ?F" r "2 ^ ?F" r] by (smt (verit) zero_le_power)
  then have "uint (word_of_int r :: 'b word) = r" using r(1) by (simp add: uint_word_of_int)
  moreover have "s = word_of_int r" "inexact \<longleftrightarrow> a - r * r \<noteq> 0"
    using assms(1,2) by (auto simp: sqrtrem_u_def Let_def r_def l_def c_def a_def)
  ultimately show "uint s * uint s \<le> a" "a < (uint s + 1) * (uint s + 1)" "inexact \<longleftrightarrow> uint s * uint s \<noteq> a"
    using r by auto
qed

lemma sticky_sqrt:
  assumes "0 \<le> s" "s * s \<le> a" "a < (s + 1) * (s + 1)"
  shows "sticky 0 (if s * s \<noteq> a then s OR 1 else s) (sqrt (of_int a))"
proof (cases "s * s = a")
  case True
  then have "sqrt (of_int a) = of_int s" using assms(1) by (intro real_sqrt_unique) (simp_all add: power2_eq_square flip: of_int_mult)
  then show ?thesis using True by simp
next
  case False
  then have "of_int (s * s) < (of_int a :: real)" using assms(2) by (simp only: of_int_less_iff)
  moreover have "of_int a < (of_int ((s + 1) * (s + 1)) :: real)" using assms(3) by (simp only: of_int_less_iff)
  ultimately have "of_int s < sqrt (of_int a)" "sqrt (of_int a) < of_int s + 1"
    using assms(1) by (auto intro!: real_less_rsqrt real_less_lsqrt simp: power2_eq_square)
  then show ?thesis using False sticky_or1 by simp
qed


lemma sqrt_bounds:
  fixes s a :: int
  assumes "0 \<le> s" "s * s \<le> a" "a < (s + 1) * (s + 1)" "2 ^ (2 * i) \<le> a" "a < 2 ^ (2 * j)"
  shows "2 ^ i \<le> s" "s < 2 ^ j"
proof -
  have p: "(2 :: int) ^ (2 * k) = 2 ^ k * 2 ^ k" for k by (simp add: mult_2 power_add)
  have "\<not> s + 1 \<le> 2 ^ i" using mult_mono[of "s + 1" "2 ^ i" "s + 1" "2 ^ i"] assms(1,3,4) p[of i] by (smt (verit) zero_le_power)
  then show "2 ^ i \<le> s" by simp
  have "\<not> 2 ^ j \<le> s" using mult_mono[of "2 ^ j" s "2 ^ j" s] assms(1,2,5) p[of j] by (smt (verit) zero_le_power)
  then show "s < 2 ^ j" by simp
qed

lemma sqrt_scaled:
  assumes "0 \<le> v" "2 * k + int n = i"
  shows "sqrt (v * 2 powi i) = sqrt (v * 2 ^ n) * 2 powi k"
proof (rule real_sqrt_unique)
  have "(2 :: real) powi i = (2 powi k * 2 powi k) * 2 ^ n"
    using assms(2) by (auto simp: powi_mult_split power_int_add[symmetric])
  then show "(sqrt (v * 2 ^ n) * 2 powi k)\<^sup>2 = v * 2 powi i"
    using assms(1) by (simp add: power_mult_distrib power2_eq_square)
qed (use assms(1) in simp)

context sf_format
begin

lemma sqrt_finite:
  fixes a :: "'a word"
  assumes "is_finite a" "\<not> is_zero a" "\<not> sign_of a"
  shows "\<exists>r. sqrt_sf a rm fl = Some r \<and> rounds_to rm False (sqrt (fmag a)) fl r"
proof -
  let ?B = "bias (LENGTH('a))" and ?F = "LENGTH('a)"
  obtain e m where n: "norm_operand (exp_of a) (mant_of a) = (e, m)" by (metis surj_pair)
  note A = norm_operand_correct[OF assms(2) n]
  define o1 :: nat where "o1 = of_bool (odd (e - ?B))"
  define h where "h = push_bit (?F - 4 - M) (push_bit o1 m)"
  obtain s ix where sq: "sqrtrem_u h 0 = (s, ix)" by (metis surj_pair)
  define k where "k = (e - ?B - int o1) div 2"
  have o1: "o1 \<le> 1" "2 * k = e - ?B - int o1" by (auto simp: o1_def k_def)
  have eq: "sqrt_sf a rm fl = normalize_sf False (k + ?B) (if ix then s OR 1 else s) rm fl"
  proof -
    have "(if odd (e - ?B) then (e - ?B - 1, push_bit 1 m) else (e - ?B, m)) = (e - ?B - int o1, push_bit o1 m)"
      by (simp add: o1_def)
    then show ?thesis using assms unfolding sqrt_sf_def Let_def is_finite_def is_zero_def
      by (simp only: n M bias_def[symmetric] h_def[symmetric] k_def[symmetric] sq case_prod_conv if_False simp_thms)
  qed
  have F: "?F - 4 - M = R - 2" "M + (R - 2) = ?F - 4" "M + 1 + 1 + (R - 2) = ?F - 2" "?F - 4 + ?F = 2 * (?F - 2)" "?F - 2 + ?F = 2 * (?F - 1)"
    using sizes(1,3) by linarith+
  have o2: "(1 :: int) \<le> 2 ^ o1" "(2 :: int) ^ o1 \<le> 2" using o1(1) by (cases o1; simp)+
  have b1: "2 ^ M \<le> uint m * 2 ^ o1" using A(1) mult_mono[of "2 ^ M" "uint m" 1 "2 ^ o1"] o2 by simp
  have "uint m * 2 ^ o1 \<le> uint m * 2" using o2 by (intro mult_left_mono) auto
  then have b2: "uint m * 2 ^ o1 < 2 ^ (M + 1 + 1)" using A(2) by simp
  have "(2 :: int) ^ (M + 1 + 1) \<le> 2 ^ ?F" using sizes(1,3) by (intro power_increasing) linarith+
  then have u1: "uint (push_bit o1 m) = uint m * 2 ^ o1" using b2 by (intro uint_shl) linarith
  have "2 ^ M * 2 ^ (R - 2) \<le> uint m * 2 ^ o1 * 2 ^ (R - 2)" "uint m * 2 ^ o1 * 2 ^ (R - 2) < 2 ^ (M + 1 + 1) * 2 ^ (R - 2)"
    using b1 b2 by simp_all
  then have b: "2 ^ (?F - 4) \<le> uint m * 2 ^ o1 * 2 ^ (R - 2)" "uint m * 2 ^ o1 * 2 ^ (R - 2) < 2 ^ (?F - 2)"
    by (simp_all only: F flip: power_add)
  have "(2 :: int) ^ (?F - 2) \<le> 2 ^ ?F" by (intro power_increasing) auto
  then have "uint (push_bit o1 m) * 2 ^ (R - 2) < 2 ^ ?F" using b(2) unfolding u1 by linarith
  then have u: "uint h = uint m * 2 ^ o1 * 2 ^ (R - 2)" unfolding h_def F(1) by (simp only: uint_shl u1)
  have hz: "h \<noteq> 0" using b(1) by (intro word_nonzero[of "?F - 4"]) (simp only: u)
  define q where "q = uint h * 2 ^ ?F"
  note S = sqrtrem_u_correct[OF hz sq, folded q_def]
  have "2 ^ (?F - 4) * 2 ^ ?F \<le> q" "q < 2 ^ (?F - 2) * 2 ^ ?F" using b unfolding q_def u by simp_all
  then have "2 ^ (2 * (?F - 2)) \<le> q" "q < 2 ^ (2 * (?F - 1))" by (simp_all only: F flip: power_add)
  note sb = sqrt_bounds[OF uint_nonnegative S(1,2) this]
  have mm: "uint (if ix then s OR 1 else s) = (if uint s * uint s \<noteq> q then uint s OR 1 else uint s)"
    using S(3) by (simp add: uint_or)
  have up: "(if uint s * uint s \<noteq> q then uint s OR 1 else uint s) < 2 ^ (?F - 1)"
    using sb(2) or_1_less[of "uint s" "?F - 1"] sizes(1) by simp
  have "(2 :: int) ^ (M + 2) \<le> 2 ^ (?F - 2)" using sizes(1,3) by (intro power_increasing) linarith+
  then have lo: "2 ^ (M + 2) \<le> (if uint s * uint s \<noteq> q then uint s OR 1 else uint s)"
    using sb(1) by (auto simp: or_1_int)
  have nz: "(if ix then s OR 1 else s) \<noteq> 0" using lo by (intro word_nonzero[of "M + 2"]) (simp only: mm)
  have "sqrt (fmag a) = sqrt (of_int q) * 2 powi (k + ?B - ?B - int (?F - 2))"
  proof -
    have k: "2 * (k + ?B - ?B - int (?F - 2)) + int (o1 + (R - 2) + ?F) = e - ?B - int M" using o1(2) sizes(1,3) by simp
    have "0 \<le> (of_int (uint m) :: real)" by (simp only: of_int_0_le_iff uint_nonnegative)
    from sqrt_scaled[OF this k] show ?thesis unfolding A(3) q_def u by (simp add: power_add mult.assoc)
  qed
  from normalize_correct[OF nz, unfolded mm, OF up sticky_sqrt[OF uint_nonnegative S(1,2)] disjI2[OF lo] this, of False rm fl]
  show ?thesis unfolding eq by (simp only: mm S(3) word_uint_eq_iff if_distrib[of uint])
qed

end

end
