(* ===== verification/Softfp_Add.thy ===== *)
theory Softfp_Add
  imports Softfp_Arith
begin

unbundle bit_operations_syntax

text \<open>
  Addition and subtraction round correctly, and the comparisons order the numbers: the encodings of two
  numbers without their sign bits compare as the magnitudes do. The smaller operand of an addition is
  shifted right with a sticky bit; the shift is exact up to three places, and beyond that the result is
  so large that the sticky bit stays below the rounding position.
\<close>

section \<open>Magnitudes\<close>

definition umag :: "'a::len word \<Rightarrow> int" where
  "umag a = uint (a AND NOT SIGN_MASK)"

context sf_format
begin

lemma umag_eq: "umag a = uint a mod 2 ^ (LENGTH('a) - 1)" for a :: "'a word"
proof -
  have "a AND NOT SIGN_MASK = a AND mask (LENGTH('a) - 1)"
    by (rule bit_eqI) (auto simp: SIGN_MASK_def bit_simps)
  then show ?thesis by (simp only: umag_def uint_and_mask)
qed

lemma umag_fields: "umag a = exp_of a * 2 ^ M + uint (mant_of a)" for a :: "'a word"
proof -
  have "uint a mod (2 ^ M * 2 ^ E) = 2 ^ M * (uint a div 2 ^ M mod 2 ^ E) + uint a mod 2 ^ M"
    by (rule zmod_zmult2_eq) simp
  then show ?thesis unfolding umag_eq pow_split(2) exp_of_eq uint_mant by (simp add: mult.commute)
qed

lemma mant_bounds: "0 \<le> uint (mant_of a)" "uint (mant_of a) < 2 ^ M" for a :: "'a word"
  by (simp_all add: uint_mant)

lemma exp_bounds: "0 \<le> exp_of a" "exp_of a < 2 ^ E" for a :: "'a word"
  by (simp_all add: exp_of_eq)

lemma fmag_nonneg [simp]: "0 \<le> fmag a" for a :: "'a word"
  using fsig_bounds(1)[of a] by (simp add: fmag_def)

lemma umag_cases:
  fixes a b :: "'a word"
  assumes "umag a < umag b"
  shows "fexp a = fexp b \<and> fsig a < fsig b \<or> fexp a < fexp b \<and> 2 ^ M \<le> fsig b"
proof -
  have "exp_of a < exp_of b \<or> exp_of a = exp_of b \<and> uint (mant_of a) < uint (mant_of b)"
  proof (rule ccontr)
    assume n: "\<not> ?thesis"
    then consider "exp_of b < exp_of a" | "exp_of a = exp_of b" "uint (mant_of b) \<le> uint (mant_of a)" by linarith
    then show False
    proof cases
      case 1
      from digits_less[OF this mant_bounds(2)[of b], of] show False
        using assms mant_bounds(1)[of a] by (simp add: umag_fields)
    qed (use assms in \<open>simp add: umag_fields\<close>)
  qed
  then show ?thesis
  proof
    assume lt: "exp_of a < exp_of b"
    then have b: "exp_of b \<noteq> 0" using exp_bounds(1)[of a] by linarith
    then have sb: "2 ^ M \<le> fsig b" by (rule fsig_bounds)
    show ?thesis
    proof (cases "exp_of a = 0 \<and> exp_of b = 1")
      case True
      then have "fsig a < 2 ^ M" using mant_bounds(2)[of a] by (simp add: fsig_def)
      then have "fsig a < fsig b" using sb by linarith
      then show ?thesis using True by (simp add: fexp_def)
    next
      case False
      then have "fexp a < fexp b" using lt exp_bounds(1)[of a] unfolding fexp_def by auto
      then show ?thesis using sb by blast
    qed
  qed (auto simp: fexp_def fsig_def)
qed

lemma fmag_less:
  fixes a b :: "'a word"
  assumes "umag a < umag b"
  shows "fmag a < fmag b"
  using umag_cases[OF assms]
proof (elim disjE conjE)
  assume "fexp a = fexp b" "fsig a < fsig b"
  then show ?thesis by (simp add: fmag_def)
next
  assume e: "fexp a < fexp b" and b: "2 ^ M \<le> fsig b"
  let ?k = "fexp a - bias (LENGTH('a)) - int M" and ?j = "fexp b - bias (LENGTH('a)) - int M"
  define d where "d = nat (fexp b - fexp a - 1)"
  have "fsig a < 2 ^ (M + 1)" by (rule fsig_bounds)
  also have "\<dots> \<le> 2 ^ M * 2 ^ Suc d" by simp
  also have "\<dots> \<le> fsig b * 2 ^ Suc d" using b by simp
  finally have "of_int (fsig a) < (of_int (fsig b * 2 ^ Suc d) :: real)" by (simp only: of_int_less_iff)
  moreover have "?j = ?k + int (Suc d)" using e by (simp add: d_def)
  then have "(2 :: real) powi ?j = 2 powi ?k * 2 ^ Suc d" by (simp only: powi_mult_split)
  ultimately show ?thesis by (simp add: fmag_def)
qed

lemma umag_inj:
  fixes a b :: "'a word"
  assumes "umag a = umag b" shows "exp_of a = exp_of b" "mant_of a = mant_of b"
proof -
  have "umag c mod 2 ^ M = uint (mant_of c)" "umag c div 2 ^ M = exp_of c" for c :: "'a word"
    by (simp_all add: umag_fields uint_mant)
  then show "exp_of a = exp_of b" "mant_of a = mant_of b" using assms by (metis word_uint_eq_iff)+
qed

lemma fmag_le_iff: "fmag a \<le> fmag b \<longleftrightarrow> umag a \<le> umag b"
    and fmag_less_iff: "fmag a < fmag b \<longleftrightarrow> umag a < umag b"
    and fmag_eq_iff: "fmag a = fmag b \<longleftrightarrow> umag a = umag b" for a b :: "'a word"
proof -
  have "fmag a = fmag b" if "umag a = umag b" using umag_inj[OF that] by (simp add: fmag_def fsig_def fexp_def)
  then show "fmag a \<le> fmag b \<longleftrightarrow> umag a \<le> umag b" "fmag a < fmag b \<longleftrightarrow> umag a < umag b" "fmag a = fmag b \<longleftrightarrow> umag a = umag b"
    using fmag_less[of a b] fmag_less[of b a] by linarith+
qed

lemma umag_zero: "umag a = 0 \<longleftrightarrow> is_zero a" for a :: "'a word"
  using exp_bounds(1)[of a] mant_bounds(1)[of a] zero_less_power[of "2 :: int" M]
  by (auto simp: umag_fields is_zero_def uint_0_iff add_nonneg_eq_0_iff)

lemma fmag_zero: "fmag a = 0 \<longleftrightarrow> is_zero a" for a :: "'a word"
proof -
  have "fmag a = 0 \<longleftrightarrow> fsig a = 0" by (simp add: fmag_def)
  also have "\<dots> \<longleftrightarrow> is_zero a"
  proof -
    have "uint (mant_of a) + 2 ^ M \<noteq> 0" using mant_bounds(1)[of a] zero_less_power[of "2 :: int" M] by linarith
    then show ?thesis by (auto simp: fsig_def is_zero_def uint_0_iff)
  qed
  finally show ?thesis .
qed

end

section \<open>Addition\<close>

text \<open>Rounding of a result of either sign; a zero result has the sign \<open>z\<close> and leaves the flags.\<close>

definition rounds_real :: "RoundingModeEnum \<Rightarrow> bool \<Rightarrow> real \<Rightarrow> u32 \<Rightarrow> 'a::len word \<times> u32 \<Rightarrow> bool" where
  "rounds_real rm z v fl r \<longleftrightarrow>
     (if v = 0 then r = (pack_sf z 0 0, fl) else rounds_to rm (v < 0) \<bar>v\<bar> fl r)"

lemma sticky_plus_even:
  assumes "sticky 0 m y" "even a"
  shows "sticky 0 (a + m) (of_int a + y)" "sticky 0 (a - m) (of_int a - y)"
proof -
  obtain k where k: "a = 2 * k" using assms(2) by (elim evenE)
  from assms(1) consider "y = of_int m" | j where "m = 2 * j + 1" "\<bar>y - of_int m\<bar> < 1" by (auto simp: sticky_def)
  then have "sticky 0 (a + m) (of_int a + y) \<and> sticky 0 (a - m) (of_int a - y)"
  proof cases
    case (2 j)
    have "a + m = 2 * (k + j) + 1" "a - m = 2 * (k - j - 1) + 1" by (simp_all add: k 2(1))
    moreover have "\<bar>of_int a + y - of_int (a + m)\<bar> < 1" "\<bar>of_int a - y - of_int (a - m)\<bar> < 1" using 2(2) by simp_all
    ultimately show ?thesis unfolding sticky_def power_0 mult_1_right by blast
  qed (auto simp: sticky_def)
  then show "sticky 0 (a + m) (of_int a + y)" "sticky 0 (a - m) (of_int a - y)" by blast+
qed

lemma sticky_shift_8:
  assumes "d \<le> 3" shows "of_int (8 * s) / 2 ^ d = (of_int (sticky_shift d (8 * s)) :: real)"
proof -
  have "(8 :: int) = 2 ^ (3 - d) * 2 ^ d" using assms by (simp flip: power_add)
  then have e: "8 * s = (s * 2 ^ (3 - d)) * 2 ^ d" by simp
  show ?thesis unfolding e sticky_shift_def by simp
qed

context sf_format
begin

lemma round_pack_zero: "round_pack_sf s e (0 :: 'a word) rm fl = (pack_sf s 0 0, fl)"
proof -
  have "rshift_rnd (0 :: 'a word) d = 0" for d by (simp add: rshift_rnd_def)
  moreover have "rnd_bits_of (0 :: 'a word) = 0" by (simp add: rnd_bits_of_def)
  moreover have "rnd_mant (0 :: 'a word) rm s = 0"
    using uint_rnd_mant[of 0 rm s] uint_addend(3,4)[of rm s]
    by (simp add: rnd_shift_def Let_def word_uint_eq_iff div_eq_0_iff_pos split: if_splits)
  ultimately show ?thesis by (simp add: round_pack_sf_def Let_def flag_def)
qed

lemma clz_zero: "clz (0 :: 'b::len word) = LENGTH('b)"
proof -
  have "top_bit (0 :: 'b word) n = 0" for n by (induction n) simp_all
  then show ?thesis by (simp add: clz_def)
qed

lemma normalize_zero: "normalize_sf s e (0 :: 'a word) rm fl = Some (pack_sf s 0 0, fl)"
  using sizes(1) by (simp add: normalize_sf_def Let_def clz_zero IMANT_SIZE_def round_pack_zero)

lemma with_hidden_eq:
  fixes a :: "'a word"
  assumes "with_hidden 3 (exp_of a) (push_bit 3 (mant_of a)) = (e, m)"
  shows "e = fexp a" "uint m = 8 * fsig a"
proof -
  have "M + 4 \<le> LENGTH('a)" using sizes(1,3) by linarith
  then have p: "(2 :: int) ^ (M + 4) \<le> 2 ^ LENGTH('a)" by (intro power_increasing) auto
  have pm: "(2 :: int) ^ (M + 3) = 8 * 2 ^ M" "(2 :: int) ^ (M + 4) = 16 * 2 ^ M" by (simp_all add: power_add)
  have u: "uint (push_bit 3 (mant_of a)) = 8 * uint (mant_of a)"
  proof -
    have "uint (mant_of a) * 2 ^ 3 < 2 ^ LENGTH('a)"
      using mant_bounds[of a] p unfolding pm power3_eq_cube by linarith
    then show ?thesis by (simp add: uint_shl)
  qed
  have lt: "8 * uint (mant_of a) < 2 ^ (M + 3)" "(2 :: int) ^ (M + 3) < 2 ^ LENGTH('a)"
    using mant_bounds[of a] p zero_less_power[of "2 :: int" M] unfolding pm by linarith+
  have "uint (push_bit (M + 3) 1 OR push_bit 3 (mant_of a)) = 2 ^ (M + 3) + 8 * uint (mant_of a)"
    using lt u by (subst uint_or_shl) (simp_all del: push_bit_of_1)
  then show "e = fexp a" "uint m = 8 * fsig a"
    using assms u by (auto simp: with_hidden_def fexp_def fsig_def or.commute pm simp del: push_bit_of_1 split: if_splits)
qed

lemma fval_sum:
  fixes a b :: "'a word"
  assumes "d = nat (fexp a - fexp b)" "fexp b \<le> fexp a" "sign_of b \<longleftrightarrow> (sign_of a \<longleftrightarrow> same)"
  defines "y \<equiv> of_int (8 * fsig a) + (if same then 1 else -1) * (of_int (8 * fsig b) / 2 ^ d)"
  shows "fval a + fval b = (if sign_of a then -1 else 1) * (y * 2 powi (fexp a - bias (LENGTH('a)) - int M - 3))"
proof -
  let ?k = "fexp a - bias (LENGTH('a)) - int M - 3"
  have "(2 :: real) powi (fexp a - bias (LENGTH('a)) - int M) = 2 powi ?k * 2 ^ 3" using powi_mult_split[of ?k 3] by simp
  then have A: "fmag a = of_int (8 * fsig a) * 2 powi ?k" by (simp add: fmag_def)
  have "(2 :: real) powi (fexp b - bias (LENGTH('a)) - int M) * 2 ^ d = 2 powi ?k * 2 ^ 3"
    using assms(1,2) by (intro powi_balance) simp
  then have "2 powi (fexp b - bias (LENGTH('a)) - int M) = 2 powi ?k * 8 / (2 :: real) ^ d" by (simp add: field_simps)
  then have B: "fmag b = of_int (8 * fsig b) / 2 ^ d * 2 powi ?k" by (simp add: fmag_def)
  show ?thesis using assms(3) unfolding fval_def A B y_def by (auto simp: algebra_simps)
qed

lemma umag_order:
  fixes a b :: "'a word"
  assumes "umag b \<le> umag a"
  shows "fexp b \<le> fexp a" "fexp a = fexp b \<Longrightarrow> fsig b \<le> fsig a" "fexp b < fexp a \<Longrightarrow> 2 ^ M \<le> fsig a"
proof -
  have "fexp b \<le> fexp a \<and> (fexp a = fexp b \<longrightarrow> fsig b \<le> fsig a) \<and> (fexp b < fexp a \<longrightarrow> 2 ^ M \<le> fsig a)"
  proof (cases "umag b = umag a")
    case True
    then show ?thesis using umag_inj[OF True] by (simp add: fexp_def fsig_def)
  next
    case False
    then show ?thesis using umag_cases[of b a] assms by linarith
  qed
  then show "fexp b \<le> fexp a" "fexp a = fexp b \<Longrightarrow> fsig b \<le> fsig a" "fexp b < fexp a \<Longrightarrow> 2 ^ M \<le> fsig a" by blast+
qed

text \<open>The aligned smaller mantissa: not above the larger one, and either exact or small.\<close>

lemma aligned_bounds:
  fixes a b :: "'a word"
  assumes "umag b \<le> umag a" "d = nat (fexp a - fexp b)"
  defines "s \<equiv> sticky_shift d (8 * fsig b)"
  shows "0 \<le> s" "s \<le> 8 * fsig a" "of_int s = (of_int (8 * fsig b) / 2 ^ d :: real) \<or> s < 2 ^ M \<and> 2 ^ M \<le> fsig a"
proof -
  note o = umag_order[OF assms(1)]
  have nn: "0 \<le> 8 * fsig b" and lt: "8 * fsig b < 2 ^ (M + 4)" using fsig_bounds(1,2)[of b] by (simp_all add: power_add)
  show "0 \<le> s" unfolding s_def
    using sticky_shift_bounds(1)[OF nn, of d] nn pos_imp_zdiv_nonneg_iff[of "2 ^ d" "8 * fsig b"] by simp
  have sl: "s < 2 ^ k" if "4 + M \<le> k + d" "0 < k" for k
  proof -
    have "(2 :: int) ^ (M + 4) \<le> 2 ^ (k + d)" using that(1) by (intro power_increasing) auto
    then show ?thesis unfolding s_def using lt that(2) by (intro sticky_shift_less) linarith+
  qed
  show "s \<le> 8 * fsig a"
  proof (cases "d = 0")
    case True
    then show ?thesis using o(1,2) assms(2) by (simp add: s_def sticky_shift_def)
  next
    case False
    then have "s < 2 ^ (M + 3)" "2 ^ M \<le> fsig a" using sl[of "M + 3"] o(1,3) assms(2) by simp_all
    then show ?thesis by (simp add: power_add)
  qed
  show "of_int s = (of_int (8 * fsig b) / 2 ^ d :: real) \<or> s < 2 ^ M \<and> 2 ^ M \<le> fsig a"
  proof (cases "d \<le> 3")
    case True
    then show ?thesis unfolding s_def using sticky_shift_8 by metis
  next
    case False
    then show ?thesis using sl[of M] o(3) assms(2) sizes(7) by simp
  qed
qed

lemma add_ordered:
  fixes a b :: "'a word"
  assumes "is_finite a" "is_finite b" "umag b \<le> umag a"
  shows "\<exists>r. add_sf a b rm fl = Some r
    \<and> rounds_real rm (if sign_of a = sign_of b then sign_of a else rm = RM_RDN) (fval a + fval b) fl r"
proof -
  let ?B = "bias (LENGTH('a))" and ?F = "LENGTH('a)"
  define same where "same \<longleftrightarrow> (sign_of a = sign_of b)"
  define d where "d = nat (fexp a - fexp b)"
  obtain ea ma eb mb where na: "with_hidden 3 (exp_of a) (push_bit 3 (mant_of a)) = (ea, ma)"
    and nb: "with_hidden 3 (exp_of b) (push_bit 3 (mant_of b)) = (eb, mb)" by (metis surj_pair)
  note A = with_hidden_eq[OF na] and B = with_hidden_eq[OF nb]
  define s where "s = sticky_shift d (8 * fsig b)"
  note S = aligned_bounds[OF assms(3) d_def, folded s_def]
  have us: "uint (rshift_rnd mb d) = s" by (simp only: uint_rshift_rnd B s_def)
  define m where "m = (if same then ma + rshift_rnd mb d else ma - rshift_rnd mb d)"
  define v where "v = (if same then 8 * fsig a + s else 8 * fsig a - s)"
  define y where "y = of_int (8 * fsig a) + (if same then 1 else -1) * (of_int (8 * fsig b) / 2 ^ d :: real)"
  have A4: "8 * fsig a < 2 ^ (M + 4)" using fsig_bounds(2)[of a] by (simp add: power_add)
  have "(2 :: int) ^ (M + 5) \<le> 2 ^ (?F - 1)" using sizes(1,3) by (intro power_increasing) linarith+
  then have vb: "0 \<le> v" "v < 2 ^ (?F - 1)" using S(1,2) A4 unfolding v_def by (auto simp: power_add)
  have um: "uint m = v"
  proof (cases same)
    case True
    then have "uint ma + uint (rshift_rnd mb d) < 2 ^ ?F"
      using vb(2) pow_split(1) zero_less_power[of "2 :: int" "?F - 1"] unfolding v_def us A(2) if_P[OF True] by linarith
    then show ?thesis using True uint_add_lem[of ma "rshift_rnd mb d"] by (simp add: m_def v_def us A(2))
  next
    case False
    then show ?thesis using S(2) uint_sub_lem[of "rshift_rnd mb d" ma] by (simp add: m_def v_def us A(2))
  qed
  have st: "sticky 0 v y"
    using sticky_plus_even[OF sticky_shift_exact[of d "8 * fsig b"], of "8 * fsig a"] unfolding v_def y_def s_def by simp
  have big: "y = of_int v \<or> 2 ^ (M + 2) \<le> v"
    using S(3)
  proof
    assume e: "of_int s = (of_int (8 * fsig b) / 2 ^ d :: real)"
    show ?thesis unfolding y_def v_def e[symmetric] by simp
  next
    assume "s < 2 ^ M \<and> 2 ^ M \<le> fsig a"
    then show ?thesis using S(1) unfolding v_def by (simp add: power_add)
  qed
  have yv: "y = 0 \<longleftrightarrow> v = 0" "0 \<le> y" using sticky_less(2,3)[OF st, of 0] vb(1) by (simp_all add: not_less[symmetric])
  have sum: "fval a + fval b = (if sign_of a then -1 else 1) * (y * 2 powi (fexp a - ?B - int M - 3))"
    unfolding y_def using fval_sum[OF d_def umag_order(1)[OF assms(3)], of same] by (auto simp: same_def)
  define rs where "rs \<longleftrightarrow> (if sign_of a \<noteq> sign_of b \<and> m = 0 then rm = RM_RDN else sign_of a)"
  have eq: "add_sf a b rm fl = normalize_sf rs (fexp a + (int R - 3)) m rm fl"
  proof -
    have "\<not> a AND NOT SIGN_MASK < b AND NOT SIGN_MASK" using assms(3) by (simp add: umag_def word_less_def)
    then show ?thesis using assms(1) unfolding add_sf_def Let_def is_finite_def
      by (simp only: na nb A(1) B(1) R case_prod_conv if_False d_def[symmetric] m_def[unfolded same_def, symmetric] rs_def[symmetric])
  qed
  show ?thesis
  proof (cases "m = 0")
    case True
    then have "fval a + fval b = 0" using um yv(1) by (simp add: sum)
    then show ?thesis unfolding eq True normalize_zero by (simp add: rounds_real_def rs_def True)
  next
    case False
    then have "v \<noteq> 0" using um by (metis uint_0_iff)
    then have y: "0 < y" using yv by simp
    have "fexp a + (int R - 3) - ?B - int (?F - 2) = fexp a - ?B - int M - 3" using sizes(1) by simp
    then have "y * 2 powi (fexp a - ?B - int M - 3) = y * 2 powi (fexp a + (int R - 3) - ?B - int (?F - 2))" by (simp only:)
    note nc = normalize_correct[OF False, unfolded um, OF vb(2) st big this, of rs rm fl]
    define x where "x = y * 2 powi (fexp a - ?B - int M - 3)"
    note nc[folded x_def]
    moreover have "0 < x" using y by (simp add: x_def)
    moreover have "fval a + fval b = (if sign_of a then - x else x)" by (simp add: sum x_def)
    ultimately show ?thesis unfolding eq using False by (auto simp: rounds_real_def rs_def less_asym)
  qed
qed

lemma add_swap:
  fixes a b :: "'a word"
  assumes "umag a < umag b" shows "add_sf a b rm fl = add_sf b a rm fl"
proof -
  have "a AND NOT SIGN_MASK < b AND NOT SIGN_MASK" "\<not> b AND NOT SIGN_MASK < a AND NOT SIGN_MASK"
    using assms by (simp_all add: umag_def word_less_def)
  then show ?thesis unfolding add_sf_def by (simp only: if_True if_False case_prod_conv)
qed

lemma add_finite:
  fixes a b :: "'a word"
  assumes "is_finite a" "is_finite b"
  shows "\<exists>r. add_sf a b rm fl = Some r
    \<and> rounds_real rm (if sign_of a = sign_of b then sign_of a else rm = RM_RDN) (fval a + fval b) fl r"
proof (cases "umag b \<le> umag a")
  case False
  then show ?thesis using add_ordered[OF assms(2,1), of rm fl] add_swap[of a b rm fl] by (auto simp: add.commute split: if_splits)
qed (rule add_ordered[OF assms])

end

section \<open>Signs, subtraction and comparisons\<close>

context sf_format
begin

lemma sign_of_bit: "sign_of a = bit a (LENGTH('a) - 1)" for a :: "'a word"
proof
  assume "sign_of a"
  then obtain n where "bit (drop_bit (LENGTH('a) - 1) a) n" unfolding sign_of_def by (auto simp: bit_eq_iff)
  then have b: "bit a (LENGTH('a) - 1 + n)" by (simp add: bit_drop_bit_eq)
  then have "n = 0" using bit_imp_le_length[OF b] by simp
  then show "bit a (LENGTH('a) - 1)" using b by simp
qed (auto simp: sign_of_def bit_eq_iff bit_drop_bit_eq intro: exI[of _ 0])

lemma uint_split: "uint a = of_bool (sign_of a) * 2 ^ (LENGTH('a) - 1) + umag a" for a :: "'a word"
proof -
  have "uint a div 2 ^ (LENGTH('a) - 1) = of_bool (sign_of a)"
  proof (cases "sign_of a")
    case True
    then have "2 ^ (LENGTH('a) - 1) \<le> uint a" by (simp add: sign_of_eq)
    then show ?thesis using True uint_bounded[of a] pow_split(1) by (intro int_div_pos_eq[where r = "uint a - 2 ^ (LENGTH('a) - 1)"]) auto
  qed (simp add: sign_of_eq)
  then show ?thesis using div_mult_mod_eq[of "uint a" "2 ^ (LENGTH('a) - 1)"] by (simp add: umag_eq)
qed

lemma flip_sign:
  fixes b :: "'a word"
  shows "sign_of (b XOR SIGN_MASK) \<longleftrightarrow> \<not> sign_of b" "umag (b XOR SIGN_MASK) = umag b"
    "fval (b XOR SIGN_MASK) = - fval b" "is_finite (b XOR SIGN_MASK) = is_finite b"
proof -
  show s: "sign_of (b XOR SIGN_MASK) \<longleftrightarrow> \<not> sign_of b" by (simp add: sign_of_bit SIGN_MASK_def bit_simps)
  have "(b XOR SIGN_MASK) AND NOT SIGN_MASK = b AND NOT SIGN_MASK" by (rule bit_eqI) (auto simp: bit_simps)
  then show u: "umag (b XOR SIGN_MASK) = umag b" by (simp add: umag_def)
  show "fval (b XOR SIGN_MASK) = - fval b" using s fmag_eq_iff[THEN iffD2, OF u] by (simp add: fval_def)
  show "is_finite (b XOR SIGN_MASK) = is_finite b" using umag_inj(1)[OF u] by (simp add: is_finite_def)
qed

lemma sub_finite:
  fixes a b :: "'a word"
  assumes "is_finite a" "is_finite b"
  shows "\<exists>r. sub_sf a b rm fl = Some r
    \<and> rounds_real rm (if sign_of a \<noteq> sign_of b then sign_of a else rm = RM_RDN) (fval a - fval b) fl r"
  using add_finite[of a "b XOR SIGN_MASK" rm fl] assms by (auto simp: sub_sf_def flip_sign split: if_splits)

lemma both_zero: "push_bit 1 (a OR b) = 0 \<longleftrightarrow> is_zero a \<and> is_zero b" for a b :: "'a word"
proof -
  have z: "is_zero c \<longleftrightarrow> c AND NOT SIGN_MASK = 0" for c :: "'a word"
    by (simp add: umag_zero[symmetric] umag_def uint_0_iff)
  have p: "push_bit 1 c = 0 \<longleftrightarrow> (\<forall>n < LENGTH('a) - 1. \<not> bit c n)" for c :: "'a word"
  proof
    assume "push_bit 1 c = 0"
    then have "\<not> bit (push_bit 1 c) (Suc n)" for n by (simp del: push_bit_of_1)
    then show "\<forall>n < LENGTH('a) - 1. \<not> bit c n" by (auto simp: bit_push_bit_iff simp del: push_bit_Suc)
  next
    assume "\<forall>n < LENGTH('a) - 1. \<not> bit c n"
    then show "push_bit 1 c = 0" by (intro bit_word_eqI) (simp add: bit_push_bit_iff del: One_nat_def)
  qed
  have q: "c AND NOT SIGN_MASK = 0 \<longleftrightarrow> (\<forall>n < LENGTH('a) - 1. \<not> bit c n)" for c :: "'a word"
  proof
    assume "c AND NOT SIGN_MASK = 0"
    then have "\<not> bit (c AND NOT SIGN_MASK) n" for n by simp
    then show "\<forall>n < LENGTH('a) - 1. \<not> bit c n" by (auto simp: bit_simps SIGN_MASK_def)
  next
    assume "\<forall>n < LENGTH('a) - 1. \<not> bit c n"
    then have "n = LENGTH('a) - 1" if "bit c n" for n using that bit_imp_le_length[OF that] by (cases "n < LENGTH('a) - 1") auto
    then show "c AND NOT SIGN_MASK = 0" by (intro bit_word_eqI) (auto simp: bit_simps SIGN_MASK_def)
  qed
  show ?thesis unfolding z q p by (auto simp: bit_or_iff)
qed

lemma word_order:
  fixes a b :: "'a word"
  assumes "sign_of a = sign_of b"
  shows "a \<le> b \<longleftrightarrow> umag a \<le> umag b" "a < b \<longleftrightarrow> umag a < umag b" "a = b \<longleftrightarrow> umag a = umag b"
  using assms uint_split[of a] uint_split[of b] by (auto simp: word_le_def word_less_def word_uint_eq_iff)

lemma fval_order:
  fixes a b :: "'a word"
  shows "fval a \<le> fval b \<longleftrightarrow> (if sign_of a \<noteq> sign_of b then sign_of a \<or> is_zero a \<and> is_zero b
      else if sign_of a then b \<le> a else a \<le> b)"
    "fval a < fval b \<longleftrightarrow> (if sign_of a \<noteq> sign_of b then sign_of a \<and> \<not> (is_zero a \<and> is_zero b)
      else if sign_of a then b < a else a < b)"
    "fval a = fval b \<longleftrightarrow> is_zero a \<and> is_zero b \<or> a = b"
proof -
  have z: "fmag a + fmag b = 0 \<longleftrightarrow> is_zero a \<and> is_zero b" by (simp add: add_nonneg_eq_0_iff fmag_zero)
  have m: "fmag a \<le> - fmag b \<longleftrightarrow> fmag a + fmag b = 0" "- fmag a < fmag b \<longleftrightarrow> fmag a + fmag b \<noteq> 0"
      "- fmag a \<le> fmag b" "\<not> fmag a < - fmag b" "- fmag a = fmag b \<longleftrightarrow> fmag a + fmag b = 0" "fmag a = - fmag b \<longleftrightarrow> fmag a + fmag b = 0"
    using fmag_nonneg[of a] fmag_nonneg[of b] by linarith+
  show "fval a \<le> fval b \<longleftrightarrow> (if sign_of a \<noteq> sign_of b then sign_of a \<or> is_zero a \<and> is_zero b
      else if sign_of a then b \<le> a else a \<le> b)"
    using m(1,3) z by (cases "sign_of a"; cases "sign_of b") (simp_all add: fval_def fmag_le_iff word_order(1))
  show "fval a < fval b \<longleftrightarrow> (if sign_of a \<noteq> sign_of b then sign_of a \<and> \<not> (is_zero a \<and> is_zero b)
      else if sign_of a then b < a else a < b)"
    using m(2,4) z by (cases "sign_of a"; cases "sign_of b") (simp_all add: fval_def fmag_less_iff word_order(2))
  have e: "is_zero a \<Longrightarrow> is_zero b \<Longrightarrow> umag a = umag b" by (simp flip: umag_zero)
  show "fval a = fval b \<longleftrightarrow> is_zero a \<and> is_zero b \<or> a = b"
  proof (cases "sign_of a = sign_of b")
    case True
    then show ?thesis using e by (auto simp: fval_def fmag_eq_iff word_order(3)[OF True])
  next
    case False
    then have "a \<noteq> b" by auto
    then show ?thesis using False m(5,6) z by (cases "sign_of a") (simp_all add: fval_def)
  qed
qed

lemma le_correct: "\<not> isnan_sf a \<Longrightarrow> \<not> isnan_sf b \<Longrightarrow> le_sf a b fl = (fval a \<le> fval b, fl)" for a b :: "'a word"
  unfolding le_sf_def both_zero by (simp add: fval_order(1))

lemma lt_correct: "\<not> isnan_sf a \<Longrightarrow> \<not> isnan_sf b \<Longrightarrow> lt_sf a b fl = (fval a < fval b, fl)" for a b :: "'a word"
  unfolding lt_sf_def both_zero by (simp add: fval_order(2))

lemma eq_correct: "\<not> isnan_sf a \<Longrightarrow> \<not> isnan_sf b \<Longrightarrow> eq_quiet_sf a b fl = (fval a = fval b, fl)" for a b :: "'a word"
  unfolding eq_quiet_sf_def both_zero by (auto simp: fval_order(3))

lemma min_max_correct:
  fixes a b :: "'a word"
  assumes "\<not> isnan_sf a" "\<not> isnan_sf b"
  shows "fval (fst (min_sf a b fl)) = min (fval a) (fval b)" "fval (fst (max_sf a b fl)) = max (fval a) (fval b)"
  using assms fval_order(1)[of a b] fval_order(1)[of b a] fval_order(3)[of a b] by (auto simp: min_sf_def max_sf_def min_def max_def not_less)

end

end
