(* ===== verification/Softfp_Fma.thy ===== *)
theory Softfp_Fma
  imports Softfp_Add
begin

unbundle bit_operations_syntax

text \<open>
  The fused multiply-add rounds once. The product and the addend are held in two words, normalized
  alike; the smaller one is aligned by \<^verbatim>\<open>wide_shift\<close>. When it moves by more than one word the source drops
  the low word without a sticky bit; \<open>wide_shift_aligned\<close> and \<open>near_sum\<close> show that what remains still
  leaves a nonzero part below the rounding position, so that the result is the same.
\<close>

section \<open>Two-word mantissas\<close>

lemma near_shift:
  assumes "\<bar>y - of_int w\<bar> < 1" "w mod 2 ^ d \<noteq> 0"
  shows "sticky 0 (sticky_shift d w) (y / 2 ^ d)"
proof (rule sticky_shift_inexact[OF assms(2)])
  define q r where "q = w div 2 ^ d" and "r = w mod 2 ^ d"
  have "0 \<le> r" "r < 2 ^ d" "r \<noteq> 0" using assms(2) by (simp_all add: r_def)
  moreover have "w = q * 2 ^ d + r" unfolding q_def r_def by (rule div_mult_mod_eq[symmetric])
  ultimately have "q * 2 ^ d + 1 \<le> w" "w + 1 \<le> q * 2 ^ d + 2 ^ d" by linarith+
  then have "of_int (q * 2 ^ d + 1) \<le> (of_int w :: real)" "of_int (w + 1) \<le> (of_int (q * 2 ^ d + 2 ^ d) :: real)"
    by (simp_all only: of_int_le_iff)
  then have "of_int q * 2 ^ d < y" "y < (of_int q + 1) * 2 ^ d" using assms(1) by (simp_all add: algebra_simps abs_less_iff)
  then show "of_int (w div 2 ^ d) < y / 2 ^ d" "y / 2 ^ d < of_int (w div 2 ^ d) + 1"
    by (simp_all add: q_def field_simps)
qed

text \<open>The integer \<open>w\<close> stands for \<open>y\<close> well enough for normalization from two words of size \<open>f\<close>.\<close>

definition near :: "nat \<Rightarrow> int \<Rightarrow> real \<Rightarrow> bool" where
  "near f w y \<longleftrightarrow> sticky 0 w y \<and> (y = of_int w \<or> 2 ^ f \<le> w)
     \<or> \<bar>y - of_int w\<bar> < 1 \<and> 2 ^ (2 * f - 4) \<le> w \<and> w mod 2 ^ (f - 2) \<noteq> 0"

lemma clz_two:
  fixes h l :: "'b::len word"
  defines "w \<equiv> uint h * 2 ^ LENGTH('b) + uint l" and "c \<equiv> (if h = 0 then LENGTH('b) + clz l else clz h)"
  assumes "w \<noteq> 0"
  shows "c < 2 * LENGTH('b)" "2 ^ (2 * LENGTH('b) - 1 - c) \<le> w" "w < 2 ^ (2 * LENGTH('b) - c)"
proof -
  let ?F = "LENGTH('b)"
  have "c < 2 * ?F \<and> 2 ^ (2 * ?F - 1 - c) \<le> w \<and> w < 2 ^ (2 * ?F - c)"
  proof (cases "h = 0")
    case True
    then have "l \<noteq> 0" using assms(3) by (auto simp: w_def)
    from clz_bounds[OF this] True show ?thesis by (simp add: w_def c_def)
  next
    case False
    note b = clz_bounds[OF False]
    have "2 * ?F - 1 - clz h = (?F - 1 - clz h) + ?F" "2 * ?F - clz h = (?F - clz h) + ?F" using b(1) by linarith+
    then have p: "(2 :: int) ^ (2 * ?F - 1 - clz h) = 2 ^ (?F - 1 - clz h) * 2 ^ ?F"
        "(2 :: int) ^ (2 * ?F - clz h) = 2 ^ (?F - clz h) * 2 ^ ?F" by (simp_all only: power_add)
    have "2 ^ (?F - 1 - clz h) * 2 ^ ?F \<le> uint h * 2 ^ ?F" using b(2) by simp
    moreover have "w < 2 ^ (?F - clz h) * 2 ^ ?F" unfolding w_def using b(3) uint_bounded[of l] by (rule digits_less) simp
    ultimately have "2 ^ (2 * ?F - 1 - clz h) \<le> w" "w < 2 ^ (2 * ?F - clz h)" using uint_nonnegative[of l] unfolding p w_def by linarith+
    then show ?thesis using False b(1) unfolding c_def by simp
  qed
  then show "c < 2 * ?F" "2 ^ (2 * ?F - 1 - c) \<le> w" "w < 2 ^ (2 * ?F - c)" by blast+
qed

text \<open>Shifting two words left by \<open>k\<close> and keeping the high one.\<close>

lemma shift_two:
  fixes h l :: "'b::len word"
  defines "w \<equiv> uint h * 2 ^ LENGTH('b) + uint l"
  assumes "0 < k" "k < LENGTH('b)" "w < 2 ^ (2 * LENGTH('b) - k)"
  shows "uint (push_bit k h OR drop_bit (LENGTH('b) - k) l OR of_bool (push_bit k l \<noteq> 0)) = sticky_shift (LENGTH('b) - k) w"
proof -
  let ?F = "LENGTH('b)" and ?d = "LENGTH('b) - k"
  have F: "(2 :: int) ^ ?F = 2 ^ k * 2 ^ ?d" "2 * ?F - k = ?F + ?d" using assms(3) by (simp_all flip: power_add)
  have w: "w = uint h * 2 ^ k * 2 ^ ?d + uint l" by (simp add: w_def F(1))
  have dv: "w div 2 ^ ?d = uint h * 2 ^ k + uint l div 2 ^ ?d" "w mod 2 ^ ?d = uint l mod 2 ^ ?d" by (simp_all add: w)
  have "w < 2 ^ ?F * 2 ^ ?d" using assms(4) unfolding F(2) by (simp only: power_add)
  then have "w div 2 ^ ?d < 2 ^ ?F" by (intro div_less_mult) simp_all
  then have hk: "uint h * 2 ^ k < 2 ^ ?F" unfolding dv(1) using pos_imp_zdiv_nonneg_iff[of "2 ^ ?d" "uint l"] by simp
  have "uint l div 2 ^ ?d < 2 ^ k" using uint_bounded[of l] unfolding F(1) by (intro div_less_mult) simp_all
  then have hd: "uint (push_bit k h OR drop_bit ?d l) = w div 2 ^ ?d"
    unfolding dv(1) uint_drop[symmetric] using hk by (intro uint_or_shl)
  have "push_bit k l = 0 \<longleftrightarrow> uint l mod 2 ^ ?d = 0"
  proof -
    have "uint (push_bit k l) = take_bit ?F (push_bit k (uint l))" by (rule unsigned_push_bit_eq)
    also have "\<dots> = uint l * 2 ^ k mod (2 ^ ?d * 2 ^ k)" by (simp only: take_bit_eq_mod push_bit_eq_mult F(1) mult.commute)
    also have "\<dots> = uint l mod 2 ^ ?d * 2 ^ k" by (simp only: mult_mod_left)
    finally show ?thesis by (simp add: word_uint_eq_iff del: uint_mod)
  qed
  then show ?thesis unfolding or.assoc[symmetric] uint_or_flag hd sticky_shift_def dv(2) by simp
qed

context sf_format
begin

lemma normalize2_correct:
  fixes h l :: "'a word"
  defines "w \<equiv> uint h * 2 ^ LENGTH('a) + uint l"
  assumes w: "w \<noteq> 0" "w < 2 ^ (2 * LENGTH('a) - 1)" and nr: "near (LENGTH('a)) w y"
    and x: "x = y * 2 powi (e - bias (LENGTH('a)) - int (2 * LENGTH('a) - 2))"
  shows "\<exists>r. normalize2_sf s e h l rm fl = Some r \<and> rounds_to rm s x fl r"
proof -
  let ?F = "LENGTH('a)" and ?B = "bias (LENGTH('a))"
  define c where "c = (if h = 0 then ?F + clz l else clz h)"
  note C = clz_two[OF w(1)[unfolded w_def], folded w_def c_def]
  have F8: "8 \<le> ?F" using sizes(1,3) by linarith
  have "(2 :: int) ^ (2 * ?F - 1 - c) < 2 ^ (2 * ?F - 1)" using C(2) w(2) by linarith
  then have "2 * ?F - 1 - c < 2 * ?F - 1" by (rule power_less_imp_less_exp[rotated]) simp
  then have c: "0 < c" by simp
  define k where "k = c - 1"
  define m where "m = (if k = 0 then h OR of_bool (l \<noteq> 0)
      else if k < ?F then push_bit k h OR drop_bit (?F - k) l OR of_bool (push_bit k l \<noteq> 0) else push_bit (k - ?F) l)"
  have n: "normalize2_sf s e h l rm fl = Some (round_pack_sf s (e - int k) m rm fl)"
  proof -
    have "?F - 1 - IMANT_SIZE ?F = 1" using sizes(1) by (simp add: IMANT_SIZE_def)
    then show ?thesis using c by (simp add: normalize2_sf_def Let_def k_def m_def c_def[symmetric] nat_diff_distrib' of_nat_diff)
  qed
  have kb: "2 ^ (2 * ?F - 2 - k) \<le> w" "w < 2 ^ (2 * ?F - 1 - k)" "k \<le> 2 * ?F - 2" using C c by (simp_all add: k_def)
  have "2 ^ (?F - 2) \<le> uint m \<and> uint m < 2 ^ (?F - 1) \<and> (\<exists>y'. sticky 0 (uint m) y' \<and> x = y' * 2 powi (e - int k - ?B - int (?F - 2)))"
  proof (cases "k < ?F")
    case True
    define d where "d = ?F - k"
    have um: "uint m = sticky_shift d w"
    proof (cases "k = 0")
      case True
      then show ?thesis by (simp add: m_def d_def uint_or_flag sticky_shift_def w_def uint_0_iff)
    next
      case False
      have "(2 :: int) ^ (2 * ?F - 1 - k) \<le> 2 ^ (2 * ?F - k)" by (intro power_increasing) auto
      then have "w < 2 ^ (2 * ?F - k)" using kb(2) by linarith
      with shift_two[of k h l] False True show ?thesis by (simp add: m_def d_def w_def)
    qed
    have dd: "2 * ?F - 2 - k = ?F - 2 + d" "2 * ?F - 1 - k = ?F - 1 + d" using True F8 by (simp_all add: d_def)
    have w0: "0 \<le> w" by (simp add: w_def)
    have "2 ^ (?F - 2) * 2 ^ d \<le> w" using kb(1) unfolding dd by (simp only: power_add)
    then have lo: "2 ^ (?F - 2) \<le> uint m"
      unfolding um using zdiv_mono1[of "2 ^ (?F - 2) * 2 ^ d" w "2 ^ d"] sticky_shift_bounds(1)[OF w0, of d] by simp
    have hi: "uint m < 2 ^ (?F - 1)" unfolding um using kb(2)[unfolded dd] F8 by (intro sticky_shift_less) simp_all
    from nr consider "sticky 0 w y" | "\<bar>y - of_int w\<bar> < 1" "2 ^ (2 * ?F - 4) \<le> w" "w mod 2 ^ (?F - 2) \<noteq> 0"
      unfolding near_def by (elim disjE conjE)
    then have st: "sticky 0 (sticky_shift d w) (y / 2 ^ d)"
    proof cases
      case 1
      from sticky_shift[OF this, of d] show ?thesis by simp
    next
      case b: 2
      have "(2 :: int) ^ (2 * ?F - 4) < 2 ^ (2 * ?F - 1 - k)" using b(2) kb(2) by linarith
      then have "2 * ?F - 4 < 2 * ?F - 1 - k" by (rule power_less_imp_less_exp[rotated]) simp
      then have "(2 :: int) ^ (?F - 2) dvd 2 ^ d" by (intro le_imp_power_dvd) (simp add: d_def)
      then have "w mod 2 ^ d \<noteq> 0" using b(3) by (metis dvd_trans mod_0_imp_dvd dvd_imp_mod_0)
      from near_shift[OF b(1) this] show ?thesis .
    qed
    have "e - int k - ?B - int (?F - 2) = e - ?B - int (2 * ?F - 2) + int d" using True F8 by (simp add: d_def)
    then have "(2 :: real) powi (e - int k - ?B - int (?F - 2)) = 2 powi (e - ?B - int (2 * ?F - 2)) * 2 ^ d"
      by (simp only: powi_mult_split)
    then have "x = y / 2 ^ d * 2 powi (e - int k - ?B - int (?F - 2))" by (simp add: x)
    with st lo hi show ?thesis unfolding um by blast
  next
    case False
    define d where "d = k - ?F"
    have "(2 :: int) ^ (2 * ?F - 1 - k) \<le> 2 ^ (?F - 1)" using False F8 by (intro power_increasing) linarith+
    then have wF: "w < 2 ^ (?F - 1)" using kb(2) by linarith
    then have y: "y = of_int w"
    proof -
      have "(2 :: int) ^ (?F - 1) \<le> 2 ^ ?F" "(2 :: int) ^ (?F - 1) \<le> 2 ^ (2 * ?F - 4)" using F8 by (intro power_increasing; simp)+
      then show ?thesis using nr wF unfolding near_def by linarith
    qed
    have "h = 0"
    proof (rule ccontr)
      assume "h \<noteq> 0"
      then have "1 \<le> uint h" using uint_nonnegative[of h] by (metis uint_0_iff int_one_le_iff_zero_less order_less_le)
      then have "1 * 2 ^ ?F \<le> uint h * 2 ^ ?F" by (intro mult_right_mono) simp_all
      then have "2 ^ ?F \<le> w" unfolding w_def using uint_nonnegative[of l] by linarith
      then show False using wF pow_split(1) zero_less_power[of "2 :: int" "?F - 1"] by linarith
    qed
    then have wl: "w = uint l" by (simp add: w_def)
    have dd: "2 * ?F - 2 - k + d = ?F - 2" "2 * ?F - 1 - k + d = ?F - 1" using False kb(3) by (simp_all add: d_def)
    have "2 ^ (2 * ?F - 2 - k) * 2 ^ d \<le> w * 2 ^ d" "w * 2 ^ d < 2 ^ (2 * ?F - 1 - k) * 2 ^ d" using kb by simp_all
    then have b: "2 ^ (?F - 2) \<le> w * 2 ^ d" "w * 2 ^ d < 2 ^ (?F - 1)" by (simp_all only: dd flip: power_add)
    have um: "uint m = w * 2 ^ d"
    proof -
      have "uint l * 2 ^ d < 2 ^ ?F" using b(2) pow_split(1) zero_less_power[of "2 :: int" "?F - 1"] unfolding wl by linarith
      from uint_shl[OF this] show ?thesis using False F8 by (simp add: m_def d_def wl)
    qed
    have "e - ?B - int (2 * ?F - 2) = e - int k - ?B - int (?F - 2) + int d" using False F8 by (simp add: d_def)
    then have "(2 :: real) powi (e - ?B - int (2 * ?F - 2)) = 2 powi (e - int k - ?B - int (?F - 2)) * 2 ^ d"
      by (simp only: powi_mult_split)
    then have "x = of_int (uint m) * 2 powi (e - int k - ?B - int (?F - 2))" unfolding x y um by simp
    then show ?thesis using b sticky_exact[of 0 "uint m"] unfolding um by blast
  qed
  then obtain y' where R: "2 ^ (?F - 2) \<le> uint m" "uint m < 2 ^ (?F - 1)" "sticky 0 (uint m) y'"
      "x = y' * 2 powi (e - int k - ?B - int (?F - 2))" by blast
  have "0 + 2 \<le> R" using sizes(3) by linarith
  from round_pack_correct[OF R(1,2,3) this R(4)] n show ?thesis by blast
qed

lemma normalize2_zero: "normalize2_sf s e 0 (0 :: 'a word) rm fl = Some (pack_sf s 0 0, fl)"
  using sizes(1) by (simp add: normalize2_sf_def Let_def clz_zero IMANT_SIZE_def round_pack_zero)


end

section \<open>Alignment and addition of two-word mantissas\<close>

definition two :: "'b::len word \<Rightarrow> 'b word \<Rightarrow> int" where
  "two h l = uint h * 2 ^ LENGTH('b) + uint l"

lemma two_nonneg [simp]: "0 \<le> two h l" by (simp add: two_def)

lemma two_bounded: "two h l < 2 ^ (2 * LENGTH('b))" for h l :: "'b::len word"
  unfolding two_def mult_2 power_add using uint_bounded[of h] uint_bounded[of l] by (rule digits_less) simp

lemma two_zero: "two h l = 0 \<longleftrightarrow> h = 0 \<and> l = 0" for h l :: "'b::len word"
  by (auto simp: two_def add_nonneg_eq_0_iff uint_0_iff)

text \<open>The shift drops the low word when it moves by more than one word; the result is still near.\<close>

definition aligned :: "nat \<Rightarrow> int \<Rightarrow> real \<Rightarrow> bool" where
  "aligned f s z \<longleftrightarrow> sticky 0 s z \<or> \<bar>z - of_int s\<bar> < 1 \<and> 0 < s \<and> s < 2 ^ (f - 3)"

lemma wide_shift_less:
  fixes h l :: "'b::len word"
  assumes "0 < k" "k < LENGTH('b)" "wide_shift k h l = (c1, c2)"
  shows "two c1 c2 = sticky_shift k (two h l)"
proof -
  let ?F = "LENGTH('b)" and ?d = "LENGTH('b) - k"
  have F: "(2 :: int) ^ ?F = 2 ^ ?d * 2 ^ k" using assms(2) by (simp flip: power_add)
  have c: "c1 = drop_bit k h" "c2 = push_bit ?d h OR drop_bit k l OR of_bool (l AND (push_bit k 1 - 1) \<noteq> 0)"
    using assms by (simp_all add: wide_shift_def Let_def)
  have mz: "l AND (push_bit k 1 - 1) \<noteq> 0 \<longleftrightarrow> uint l mod 2 ^ k \<noteq> 0"
  proof -
    have "l AND (push_bit k 1 - 1) = take_bit k l" by (simp add: take_bit_eq_mask mask_eq_exp_minus_1)
    then show ?thesis by (simp only: word_uint_eq_iff uint_take uint_0_eq)
  qed
  have dl: "uint (drop_bit k l) < 2 ^ ?d" unfolding uint_drop
    using uint_bounded[of l] F by (intro div_less_mult) simp_all
  have ph: "push_bit ?d h = push_bit ?d (take_bit k h)"
    using assms(2) by (intro bit_word_eqI) (auto simp: bit_simps)
  have "uint (take_bit k h) * 2 ^ ?d < 2 ^ k * 2 ^ ?d" unfolding uint_take by simp
  then have "uint (take_bit k h) * 2 ^ ?d < 2 ^ ?F" by (simp add: F mult.commute)
  from uint_or_shl[OF dl this] have u2: "uint (push_bit ?d h OR drop_bit k l) = uint h mod 2 ^ k * 2 ^ ?d + uint l div 2 ^ k"
    by (simp only: ph uint_take uint_drop)
  let ?t = "uint h mod 2 ^ k * 2 ^ ?d + uint l div 2 ^ k"
  have w: "two h l = (uint h * 2 ^ ?d) * 2 ^ k + uint l" by (simp add: two_def F)
  have dv: "two h l div 2 ^ k = uint h * 2 ^ ?d + uint l div 2 ^ k" "two h l mod 2 ^ k = uint l mod 2 ^ k" by (simp_all add: w)
  have "uint h * 2 ^ ?d = (uint h div 2 ^ k) * 2 ^ ?F + uint h mod 2 ^ k * 2 ^ ?d"
  proof -
    have "(uint h div 2 ^ k) * 2 ^ ?F + uint h mod 2 ^ k * 2 ^ ?d = (uint h div 2 ^ k * 2 ^ k + uint h mod 2 ^ k) * 2 ^ ?d"
      unfolding F distrib_right by simp
    then show ?thesis by (simp only: div_mult_mod_eq)
  qed
  then have q: "two h l div 2 ^ k = uint h div 2 ^ k * 2 ^ ?F + ?t" unfolding dv(1) by simp
  have ev: "even (uint h div 2 ^ k * 2 ^ ?F)" using len_gt_0 by simp
  have "(uint h div 2 ^ k * 2 ^ ?F + ?t) OR 1 = uint h div 2 ^ k * 2 ^ ?F + (?t OR 1)"
    unfolding or_1_int using ev by auto
  moreover have "two c1 c2 = uint h div 2 ^ k * 2 ^ ?F + (if uint l mod 2 ^ k \<noteq> 0 then ?t OR 1 else ?t)"
    unfolding two_def c uint_drop or.assoc[symmetric] uint_or_flag u2 mz by (rule refl)
  ultimately show ?thesis unfolding sticky_shift_def dv(2) q by simp
qed

lemma wide_shift_aligned:
  fixes h l :: "'b::len word"
  assumes "wide_shift k h l = (c1, c2)" "two h l < 2 ^ (2 * LENGTH('b) - 2)" "h \<noteq> 0" "3 \<le> LENGTH('b)"
  shows "aligned (LENGTH('b)) (two c1 c2) (of_int (two h l) / 2 ^ k)"
    "k \<le> LENGTH('b) \<or> l = 0 \<Longrightarrow> two c1 c2 = sticky_shift k (two h l)"
    "two c1 c2 \<le> sticky_shift k (two h l)"
proof -
  let ?F = "LENGTH('b)" and ?w = "two h l"
  have "(k \<le> ?F \<or> l = 0 \<longrightarrow> two c1 c2 = sticky_shift k ?w) \<and> two c1 c2 \<le> sticky_shift k ?w \<and> aligned ?F (two c1 c2) (of_int ?w / 2 ^ k)"
  proof (cases "two c1 c2 = sticky_shift k ?w")
    case True
    then show ?thesis using sticky_shift_exact[of k ?w] by (simp add: aligned_def)
  next
    case False
    have k: "\<not> 2 * ?F \<le> k" "?F + 1 \<le> k"
    proof -
      show "\<not> 2 * ?F \<le> k"
      proof
        assume k: "2 * ?F \<le> k"
        then have "(2 :: int) ^ (2 * ?F) \<le> 2 ^ k" by (intro power_increasing) auto
        then have "?w < 2 ^ k" using two_bounded[of h l] by linarith
        moreover have "h OR l = 0 \<longleftrightarrow> ?w = 0" unfolding two_zero by (auto simp: or_eq_0_iff)
        moreover have "c1 = 0" "c2 = of_bool (l OR h \<noteq> 0)" using k assms(1) by (simp_all add: wide_shift_def Let_def)
        ultimately have "two c1 c2 = sticky_shift k ?w" by (simp add: two_def sticky_shift_def or.commute)
        then show False using False by simp
      qed
      show "?F + 1 \<le> k"
      proof (rule ccontr)
        assume n: "\<not> ?F + 1 \<le> k"
        consider "k = 0" | "0 < k" "k < ?F" | "k = ?F" using n by linarith
        then show False
        proof cases
          case 1
          then show False using False assms(1) by (simp add: wide_shift_def Let_def sticky_shift_def)
        next
          case 2
          then show False using False wide_shift_less[OF _ _ assms(1)] by simp
        next
          case 3
          then have "c1 = 0" "c2 = h OR of_bool (l \<noteq> 0)" using assms(1) by (simp_all add: wide_shift_def Let_def)
          then have "two c1 c2 = sticky_shift k ?w"
            using 3 by (simp add: two_def uint_or_flag sticky_shift_def uint_0_iff)
          then show False using False by simp
        qed
      qed
    qed
    define j where "j = k - ?F"
    have kj: "k = ?F + j" "0 < j" using k by (simp_all add: j_def)
    have c: "c1 = 0" "uint c2 = sticky_shift j (uint h)"
      using k assms(1) by (auto simp: wide_shift_def Let_def uint_rshift_rnd j_def)
    then have s: "two c1 c2 = sticky_shift j (uint h)" by (simp add: two_def)
    have dv: "?w div 2 ^ ?F = uint h" "?w mod 2 ^ ?F = uint l" by (simp_all add: two_def)
    have dk: "?w div 2 ^ k = uint h div 2 ^ j" unfolding kj(1) power_add using zdiv_zmult2_eq[of "2 ^ j" ?w "2 ^ ?F"] dv(1) by simp
    have mk: "?w mod 2 ^ k = 2 ^ ?F * (uint h mod 2 ^ j) + uint l"
      unfolding kj(1) power_add using zmod_zmult2_eq[of "2 ^ j" ?w "2 ^ ?F"] dv by simp
    have mj: "uint h mod 2 ^ j = 0"
    proof (rule ccontr)
      assume nz: "uint h mod 2 ^ j \<noteq> 0"
      moreover have "0 \<le> uint h mod 2 ^ j" by (rule pos_mod_sign) simp
      ultimately have "0 < uint h mod 2 ^ j" by linarith
      then have "0 < 2 ^ ?F * (uint h mod 2 ^ j)" by (intro mult_pos_pos) simp_all
      then have "?w mod 2 ^ k \<noteq> 0" unfolding mk using uint_nonnegative[of l] by linarith
      then show False using False nz by (simp add: s sticky_shift_def dk)
    qed
    then have l0: "l \<noteq> 0" using False mk dk by (auto simp: s sticky_shift_def)
    have sj: "two c1 c2 = uint h div 2 ^ j" using mj by (simp add: s sticky_shift_def)
    have le: "two c1 c2 \<le> sticky_shift k ?w" using sticky_shift_bounds(1)[OF two_nonneg[of h l], of k] by (simp add: sj dk)
    have wk: "?w = two c1 c2 * 2 ^ k + uint l" using div_mult_mod_eq[of ?w "2 ^ k"] mj by (simp add: dk mk sj)
    have hs: "uint h = two c1 c2 * 2 ^ j" using div_mult_mod_eq[of "uint h" "2 ^ j"] mj by (simp add: sj)
    have "two c1 c2 \<noteq> 0" using hs assms(3) by (auto simp: uint_0_iff)
    then have pos: "0 < two c1 c2" using two_nonneg[of c1 c2] by linarith
    have "uint h * 2 ^ ?F < 2 ^ (?F - 2) * 2 ^ ?F"
    proof -
      have "2 * ?F - 2 = ?F - 2 + ?F" using assms(4) by linarith
      then have "(2 :: int) ^ (2 * ?F - 2) = 2 ^ (?F - 2) * 2 ^ ?F" by (simp only: power_add)
      then show ?thesis using assms(2) uint_nonnegative[of l] unfolding two_def by linarith
    qed
    then have "uint h < 2 ^ (?F - 2)" by simp
    moreover have "two c1 c2 * 2 \<le> two c1 c2 * 2 ^ j"
      using kj(2) power_increasing[of 1 j "2 :: int"] by (intro mult_left_mono) auto
    moreover have "(2 :: int) ^ (?F - 2) = 2 ^ (?F - 3) * 2" using assms(4) by (metis Suc_diff_le diff_Suc_Suc numeral_3_eq_3 numeral_2_eq_2 power_Suc2)
    ultimately have lt: "two c1 c2 < 2 ^ (?F - 3)" using hs by linarith
    have "(2 :: int) ^ ?F \<le> 2 ^ k" using k by (intro power_increasing) auto
    then have "uint l < 2 ^ k" using uint_bounded[of l] by linarith
    then have "of_int (uint l) < (of_int (2 ^ k) :: real)" by (simp only: of_int_less_iff)
    moreover have "0 \<le> (of_int (uint l) :: real)" by (simp only: of_int_0_le_iff uint_nonnegative)
    moreover have "of_int ?w / 2 ^ k - of_int (two c1 c2) = of_int (uint l) / (2 :: real) ^ k" by (subst wk) (simp add: field_simps)
    ultimately have "\<bar>of_int ?w / 2 ^ k - of_int (two c1 c2)\<bar> < (1 :: real)" by simp
    then show ?thesis using pos lt le l0 k(2) by (simp add: aligned_def)
  qed
  then show "aligned ?F (two c1 c2) (of_int ?w / 2 ^ k)" "k \<le> ?F \<or> l = 0 \<Longrightarrow> two c1 c2 = sticky_shift k ?w"
    "two c1 c2 \<le> sticky_shift k ?w" by blast+
qed

lemma uint_plus3: "uint (a + (c + of_bool p)) = (uint a + uint c + of_bool p) mod 2 ^ LENGTH('b)" for a c :: "'b::len word"
  by (simp add: uint_word_ariths mod_simps add.assoc)

lemma two_add:
  fixes a1 a0 c1 c2 :: "'b::len word"
  assumes "two a1 a0 + two c1 c2 < 2 ^ (2 * LENGTH('b))"
  shows "two (a1 + (c1 + of_bool (a0 + c2 < c2))) (a0 + c2) = two a1 a0 + two c1 c2"
proof -
  let ?F = "LENGTH('b)"
  define p where "p \<longleftrightarrow> 2 ^ ?F \<le> uint a0 + uint c2"
  have lo: "uint (a0 + c2) = uint a0 + uint c2 - of_bool p * 2 ^ ?F" by (auto simp: uint_plus_if' p_def)
  have cy: "a0 + c2 < c2 \<longleftrightarrow> p" unfolding word_less_def lo using uint_bounded[of a0] by (auto simp: p_def)
  have eq: "two a1 a0 + two c1 c2 = (uint a1 + uint c1 + of_bool p) * 2 ^ ?F + uint (a0 + c2)"
    by (simp add: two_def lo algebra_simps)
  have "(uint a1 + uint c1 + of_bool p) * 2 ^ ?F < 2 ^ ?F * 2 ^ ?F"
    using assms uint_nonnegative[of "a0 + c2"] unfolding eq mult_2 power_add by linarith
  then have "uint a1 + uint c1 + of_bool p < 2 ^ ?F" by simp
  then have "uint (a1 + (c1 + of_bool p)) = uint a1 + uint c1 + of_bool p" unfolding uint_plus3 by (intro mod_pos_pos_trivial) simp_all
  then show ?thesis unfolding cy eq two_def[of "a1 + (c1 + of_bool p)"] by simp
qed

lemma two_sub:
  fixes a1 a0 c1 c2 :: "'b::len word"
  assumes "two c1 c2 \<le> two a1 a0"
  shows "two (a1 - c1 - of_bool (a0 - c2 > a0)) (a0 - c2) = two a1 a0 - two c1 c2"
proof -
  let ?F = "LENGTH('b)"
  define p where "p \<longleftrightarrow> uint a0 < uint c2"
  have lo: "uint (a0 - c2) = uint a0 - uint c2 + of_bool p * 2 ^ ?F" by (auto simp: uint_sub_if' p_def)
  have cy: "a0 - c2 > a0 \<longleftrightarrow> p" unfolding word_less_def lo using uint_bounded[of c2] uint_nonnegative[of c2] by (auto simp: p_def)
  have eq: "two a1 a0 - two c1 c2 = (uint a1 - uint c1 - of_bool p) * 2 ^ ?F + uint (a0 - c2)"
    by (simp add: two_def lo algebra_simps)
  have "- (2 ^ ?F) < (uint a1 - uint c1 - of_bool p) * 2 ^ ?F"
    using assms uint_bounded[of "a0 - c2"] eq by linarith
  then have "-1 * 2 ^ ?F < (uint a1 - uint c1 - of_bool p) * 2 ^ ?F" by simp
  then have nn: "0 \<le> uint a1 - uint c1 - of_bool p" by (simp only: mult_less_cancel_right_pos zero_less_power zero_less_numeral)
  have "uint (a1 - c1 - of_bool p) = (uint a1 - uint c1 - of_bool p) mod 2 ^ ?F" by (simp add: uint_word_ariths mod_simps)
  also have "\<dots> = uint a1 - uint c1 - of_bool p"
  proof (rule mod_pos_pos_trivial[OF nn])
    have "0 \<le> (of_bool p :: int)" by simp
    then show "uint a1 - uint c1 - of_bool p < 2 ^ ?F" using uint_bounded[of a1] uint_nonnegative[of c1] by linarith
  qed
  finally show ?thesis unfolding cy eq two_def[of "a1 - c1 - of_bool p"] by simp
qed

definition w_two :: "'b::len word wide \<Rightarrow> int" where "w_two w = two (w_hi w) (w_lo w)"

definition w_val :: "'b::len word wide \<Rightarrow> real" where
  "w_val w = (if w_sign w then -1 else 1) * (of_int (w_two w) * 2 powi (w_exp w - bias (LENGTH('b)) - int (2 * LENGTH('b) - 2)))"

definition w_normal :: "'b::len word wide \<Rightarrow> bool" where
  "w_normal w \<longleftrightarrow> 2 ^ (2 * LENGTH('b) - 3) \<le> w_two w \<and> w_two w < 2 ^ (2 * LENGTH('b) - 2) \<and> even (w_two w)"

lemma mod_near:
  fixes s :: int
  assumes "0 < s" "s < 2 ^ (f - 3)" "3 \<le> f"
  shows "(h * 2 ^ f + s) mod 2 ^ (f - 2) \<noteq> 0" "(h * 2 ^ f - s) mod 2 ^ (f - 2) \<noteq> 0"
proof -
  have "(2 :: int) ^ (f - 3) \<le> 2 ^ (f - 2)" using assms(3) by (intro power_increasing) auto
  then have "s < 2 ^ (f - 2)" using assms(2) by linarith
  then have n: "\<not> 2 ^ (f - 2) dvd s" using assms(1) by (auto dest: zdvd_imp_le)
  have d: "(2 :: int) ^ (f - 2) dvd h * 2 ^ f" by (intro dvd_mult le_imp_power_dvd) simp
  show "(h * 2 ^ f + s) mod 2 ^ (f - 2) \<noteq> 0" "(h * 2 ^ f - s) mod 2 ^ (f - 2) \<noteq> 0"
    using n d dvd_diff_right_iff[OF d] by (auto simp: mod_eq_0_iff_dvd dvd_add_right_iff)
qed

context sf_format
begin

lemma F_bounds: "8 \<le> LENGTH('a)" "3 \<le> LENGTH('a)" using sizes(1,3) by linarith+

lemma near_sum:
  fixes r c :: "'a word wide" and k :: nat
  assumes r: "w_normal r" and c: "w_normal c" and le: "k = 0 \<Longrightarrow> w_two c \<le> w_two r"
    and lo: "w_lo c = 0 \<or> w_lo r = 0" and sh: "wide_shift k (w_hi c) (w_lo c) = (c1, c2)"
  defines "z \<equiv> of_int (w_two c) / 2 ^ k :: real"
  shows "two c1 c2 \<le> w_two r" "two c1 c2 < 2 ^ (2 * LENGTH('a) - 2)"
    "near (LENGTH('a)) (w_two r + two c1 c2) (of_int (w_two r) + z)"
    "near (LENGTH('a)) (w_two r - two c1 c2) (of_int (w_two r) - z)"
proof -
  let ?F = "LENGTH('a)" and ?s = "two c1 c2"
  note r = r[unfolded w_normal_def] and c = c[unfolded w_normal_def]
  have "w_hi c \<noteq> 0"
  proof
    assume "w_hi c = 0"
    then have "w_two c < 2 ^ ?F" using uint_bounded[of "w_lo c"] by (simp add: w_two_def two_def)
    moreover have "(2 :: int) ^ ?F \<le> 2 ^ (2 * ?F - 3)" using F_bounds by (intro power_increasing) auto
    ultimately show False using c by linarith
  qed
  note W = wide_shift_aligned[OF sh _ this F_bounds(2), folded w_two_def]
  have al: "aligned ?F ?s z" unfolding z_def using W(1) c by simp
  have ss: "k \<le> ?F \<or> w_lo c = 0 \<Longrightarrow> ?s = sticky_shift k (w_two c)" "?s \<le> sticky_shift k (w_two c)" using W(2,3) c by simp_all
  have sl: "?s < 2 ^ j" if "2 * ?F - 2 \<le> j + k" "0 < j" for j
  proof -
    have "(2 :: int) ^ (2 * ?F - 2) \<le> 2 ^ (j + k)" using that(1) by (intro power_increasing) auto
    then have "w_two c < 2 ^ (j + k)" using c by linarith
    from sticky_shift_less[OF this that(2)] ss(2) show ?thesis by linarith
  qed
  have p: "(2 :: int) ^ (2 * ?F - 3) = 2 ^ (2 * ?F - 4) * 2" "(2 :: int) ^ ?F \<le> 2 ^ (2 * ?F - 4)"
  proof -
    have "2 * ?F - 3 = 2 * ?F - 4 + 1" using F_bounds by linarith
    then show "(2 :: int) ^ (2 * ?F - 3) = 2 ^ (2 * ?F - 4) * 2" by (simp only: power_add power_one_right)
    show "(2 :: int) ^ ?F \<le> 2 ^ (2 * ?F - 4)" using F_bounds by (intro power_increasing) linarith+
  qed
  show sle: "?s \<le> w_two r"
  proof (cases "k = 0")
    case True
    then show ?thesis using le ss(1) by (simp add: sticky_shift_def)
  next
    case False
    then have "2 * ?F - 2 \<le> 2 * ?F - 3 + k" "0 < 2 * ?F - 3" using F_bounds by linarith+
    from sl[OF this] show ?thesis using r by linarith
  qed
  show "?s < 2 ^ (2 * ?F - 2)" using sl[of "2 * ?F - 2"] F_bounds by simp
  have big: "2 ^ (2 * ?F - 4) \<le> w_two r - ?s" if "2 \<le> k"
  proof -
    have "2 * ?F - 2 \<le> 2 * ?F - 4 + k" "0 < 2 * ?F - 4" using that F_bounds by linarith+
    from sl[OF this] show ?thesis using r p(1) by linarith
  qed
  have big2: "2 ^ (2 * ?F - 4) \<le> w_two r + ?s" using r p(1) two_nonneg[of c1 c2] zero_less_power[of "2 :: int" "2 * ?F - 4"] by linarith
  from al consider "sticky 0 ?s z" | "\<not> sticky 0 ?s z" "\<bar>z - of_int ?s\<bar> < 1" "0 < ?s" "?s < 2 ^ (?F - 3)"
    unfolding aligned_def by blast
  then have "near ?F (w_two r + ?s) (of_int (w_two r) + z) \<and> near ?F (w_two r - ?s) (of_int (w_two r) - z)"
  proof cases
    case 1
    note sp = sticky_plus_even[OF 1, of "w_two r"]
    have ex: "z = of_int ?s" if "\<not> 2 \<le> k"
    proof -
      have "k \<le> ?F" using that F_bounds by linarith
      then have s: "?s = sticky_shift k (w_two c)" using ss(1) by blast
      have "k = 0 \<or> k = 1" using that by linarith
      then show ?thesis using c unfolding s z_def by (auto simp: sticky_shift_def elim!: evenE)
    qed
    show ?thesis
    proof (cases "2 \<le> k")
      case True
      then show ?thesis using sp r big big2 p(2) unfolding near_def by (smt (verit))
    next
      case False
      then show ?thesis using sp r ex unfolding near_def by simp
    qed
  next
    case 2
    then have "\<not> (k \<le> ?F \<or> w_lo c = 0)" using ss(1) sticky_shift_exact[of k "w_two c"] by (auto simp: z_def)
    then have k: "2 \<le> k" and "w_lo r = 0" using lo F_bounds by auto
    then have "w_two r = uint (w_hi r) * 2 ^ ?F" by (simp add: w_two_def two_def)
    with mod_near[OF 2(3,4) F_bounds(2)] have "(w_two r + ?s) mod 2 ^ (?F - 2) \<noteq> 0" "(w_two r - ?s) mod 2 ^ (?F - 2) \<noteq> 0" by simp_all
    then show ?thesis using 2(2) abs_minus_commute[of z "of_int ?s"] big[OF k] big2 unfolding near_def by simp
  qed
  then show "near ?F (w_two r + ?s) (of_int (w_two r) + z)" "near ?F (w_two r - ?s) (of_int (w_two r) - z)" by blast+
qed

lemma near_sign:
  assumes "near f w y" "0 \<le> w"
  shows "0 \<le> y" "y = 0 \<longleftrightarrow> w = 0"
proof -
  have "0 \<le> y \<and> (y = 0 \<longleftrightarrow> w = 0)"
    using assms(1) unfolding near_def
  proof (elim disjE conjE)
    assume b: "\<bar>y - of_int w\<bar> < 1" "2 ^ (2 * f - 4) \<le> w"
    then have "1 \<le> w" using zero_less_power[of "2 :: int" "2 * f - 4"] by linarith
    then have "1 \<le> (of_int w :: real)" by simp
    then show ?thesis using b(1) \<open>1 \<le> w\<close> by linarith
  qed (use sticky_less(2,3)[of 0 w y 0] assms(2) in \<open>auto simp: not_less[symmetric]\<close>)
  then show "0 \<le> y" "y = 0 \<longleftrightarrow> w = 0" by blast+
qed

text \<open>The sum of two aligned operands, the larger first.\<close>

lemma fma_sum:
  fixes r c :: "'a word wide"
  assumes r: "w_normal r" and c: "w_normal c" and ord: "w_exp c \<le> w_exp r" "w_exp c = w_exp r \<Longrightarrow> w_two c \<le> w_two r"
    and lo: "w_lo c = 0 \<or> w_lo r = 0" and sh: "wide_shift (nat (w_exp r - w_exp c)) (w_hi c) (w_lo c) = (c1, c2)"
  defines "l \<equiv> (if w_sign r = w_sign c then w_lo r + c2 else w_lo r - c2)"
    and "h \<equiv> (if w_sign r = w_sign c then w_hi r + (c1 + of_bool (w_lo r + c2 < c2))
        else w_hi r - c1 - of_bool (w_lo r - c2 > w_lo r))"
  shows "\<exists>q. normalize2_sf (if w_sign r \<noteq> w_sign c \<and> l OR h = 0 then rm = RM_RDN else w_sign r) (w_exp r) h l rm fl = Some q
    \<and> rounds_real rm (if w_sign r = w_sign c then w_sign r else rm = RM_RDN) (w_val r + w_val c) fl q"
proof -
  let ?F = "LENGTH('a)" and ?B = "bias (LENGTH('a))"
  define k where "k = nat (w_exp r - w_exp c)"
  define z where "z = (of_int (w_two c) / 2 ^ k :: real)"
  have "k = 0 \<Longrightarrow> w_two c \<le> w_two r" using ord by (simp add: k_def)
  note N = near_sum[OF r c this lo sh[folded k_def], folded z_def]
  define w where "w = (if w_sign r = w_sign c then w_two r + two c1 c2 else w_two r - two c1 c2)"
  define y where "y = (if w_sign r = w_sign c then of_int (w_two r) + z else of_int (w_two r) - z)"
  have nr: "near ?F w y" using N(3,4) by (simp add: w_def y_def)
  have P: "(2 :: int) ^ (2 * ?F - 1) = 2 ^ (2 * ?F - 2) * 2" "(2 :: int) ^ (2 * ?F - 1) \<le> 2 ^ (2 * ?F)"
  proof -
    have "2 * ?F - 1 = 2 * ?F - 2 + 1" using F_bounds by linarith
    then show "(2 :: int) ^ (2 * ?F - 1) = 2 ^ (2 * ?F - 2) * 2" by (simp only: power_add power_one_right)
    show "(2 :: int) ^ (2 * ?F - 1) \<le> 2 ^ (2 * ?F)" by (intro power_increasing) auto
  qed
  have wr: "0 \<le> w_two r" "w_two r < 2 ^ (2 * ?F - 2)" using r by (simp_all add: w_normal_def w_two_def)
  have "w_two r + two c1 c2 < 2 ^ (2 * ?F - 1)" "w_two r - two c1 c2 < 2 ^ (2 * ?F - 1)"
      "0 \<le> w_two r + two c1 c2" "0 \<le> w_two r - two c1 c2"
    using N(1,2) wr two_nonneg[of c1 c2] unfolding P(1) by linarith+
  then have wb: "0 \<le> w" "w < 2 ^ (2 * ?F - 1)" unfolding w_def by (cases "w_sign r = w_sign c"; simp only: if_True if_False)+
  have hl: "two h l = w"
  proof (cases "w_sign r = w_sign c")
    case True
    have "two (w_hi r) (w_lo r) + two c1 c2 < 2 ^ (2 * ?F)" using wb(2) P(2) unfolding w_def w_two_def if_P[OF True] by linarith
    from two_add[OF this] show ?thesis unfolding h_def l_def w_def w_two_def if_P[OF True] .
  next
    case False
    from two_sub[OF N(1)[unfolded w_two_def]] show ?thesis unfolding h_def l_def w_def w_two_def if_not_P[OF False] .
  qed
  have val: "w_val r + w_val c = (if w_sign r then -1 else 1) * (y * 2 powi (w_exp r - ?B - int (2 * ?F - 2)))"
  proof -
    have "w_exp r - ?B - int (2 * ?F - 2) = w_exp c - ?B - int (2 * ?F - 2) + int k" using ord(1) by (simp add: k_def)
    then have "(2 :: real) powi (w_exp r - ?B - int (2 * ?F - 2)) = 2 powi (w_exp c - ?B - int (2 * ?F - 2)) * 2 ^ k"
      by (simp only: powi_mult_split)
    then have "of_int (w_two c) * 2 powi (w_exp c - ?B - int (2 * ?F - 2)) = z * 2 powi (w_exp r - ?B - int (2 * ?F - 2))"
      by (simp add: z_def)
    then show ?thesis unfolding w_val_def y_def by (auto simp: algebra_simps)
  qed
  have hz: "l OR h = 0 \<longleftrightarrow> w = 0" using hl two_zero[of h l] by (auto simp: or_eq_0_iff)
  show ?thesis
  proof (cases "w = 0")
    case True
    then have "h = 0" "l = 0" using hl two_zero[of h l] by auto
    moreover have "w_val r + w_val c = 0" using near_sign(2)[OF nr wb(1)] True by (simp add: val)
    ultimately show ?thesis by (auto simp: normalize2_zero rounds_real_def)
  next
    case False
    define x where "x = y * 2 powi (w_exp r - ?B - int (2 * ?F - 2))"
    have "0 < y" using near_sign[OF nr wb(1)] False by linarith
    then have x: "0 < x" by (simp add: x_def)
    have v: "w_val r + w_val c = (if w_sign r then - x else x)" by (simp add: val x_def)
    have "\<exists>q. normalize2_sf (w_sign r) (w_exp r) h l rm fl = Some q \<and> rounds_to rm (w_sign r) x fl q"
      using normalize2_correct[of h l y x "w_exp r" "w_sign r" rm fl] False wb(2) nr x_def hl by (simp add: two_def)
    then show ?thesis using x False hz unfolding v by (auto simp: rounds_real_def less_asym)
  qed
qed

lemma fma_add_correct:
  fixes r0 c0 :: "'a word wide"
  assumes "w_normal r0" "w_normal c0" "w_lo c0 = 0"
  shows "\<exists>q. fma_add r0 c0 rm fl = Some q
    \<and> rounds_real rm (if w_sign r0 = w_sign c0 then w_sign r0 else rm = RM_RDN) (w_val r0 + w_val c0) fl q"
proof -
  have eq: "fma_add r0 c0 rm fl = normalize2_sf
      (if w_sign r \<noteq> w_sign c \<and> (if w_sign r = w_sign c then w_lo r + c2 else w_lo r - c2) OR
        (if w_sign r = w_sign c then w_hi r + (c1 + of_bool (w_lo r + c2 < c2)) else w_hi r - c1 - of_bool (w_lo r - c2 > w_lo r)) = 0
       then rm = RM_RDN else w_sign r) (w_exp r)
      (if w_sign r = w_sign c then w_hi r + (c1 + of_bool (w_lo r + c2 < c2)) else w_hi r - c1 - of_bool (w_lo r - c2 > w_lo r))
      (if w_sign r = w_sign c then w_lo r + c2 else w_lo r - c2) rm fl"
    if "(r, c) = (if w_exp r0 > w_exp c0 \<or> w_exp r0 = w_exp c0 \<and> w_hi r0 \<ge> w_hi c0 then (r0, c0) else (c0, r0))"
      "wide_shift (nat (w_exp r - w_exp c)) (w_hi c) (w_lo c) = (c1, c2)" for r c c1 c2
    unfolding fma_add_def that(1)[symmetric] Let_def case_prod_conv that(2) by simp
  show ?thesis
  proof (cases "w_exp r0 > w_exp c0 \<or> w_exp r0 = w_exp c0 \<and> w_hi r0 \<ge> w_hi c0")
    case True
    obtain c1 c2 where sh: "wide_shift (nat (w_exp r0 - w_exp c0)) (w_hi c0) (w_lo c0) = (c1, c2)" by (metis surj_pair)
    have "w_exp c0 = w_exp r0 \<Longrightarrow> w_two c0 \<le> w_two r0"
      using True assms(3) by (auto simp: w_two_def two_def word_le_def intro: add_increasing2)
    moreover have "w_exp c0 \<le> w_exp r0" using True by linarith
    moreover have ch: "(r0, c0) = (if w_exp r0 > w_exp c0 \<or> w_exp r0 = w_exp c0 \<and> w_hi r0 \<ge> w_hi c0 then (r0, c0) else (c0, r0))"
      using True by (simp only: if_True)
    ultimately show ?thesis unfolding eq[OF ch sh] by (intro fma_sum[OF assms(1,2) _ _ disjI1[OF assms(3)] sh])
  next
    case False
    obtain c1 c2 where sh: "wide_shift (nat (w_exp c0 - w_exp r0)) (w_hi r0) (w_lo r0) = (c1, c2)" by (metis surj_pair)
    have "w_exp r0 = w_exp c0 \<Longrightarrow> w_two r0 \<le> w_two c0"
    proof -
      assume "w_exp r0 = w_exp c0"
      then have "uint (w_hi r0) < uint (w_hi c0)" using False by (simp add: word_le_def)
      from digits_less[OF this uint_bounded[of "w_lo r0"]] show ?thesis by (simp add: w_two_def two_def assms(3))
    qed
    moreover have "w_exp r0 \<le> w_exp c0" using False by linarith
    moreover have ch: "(c0, r0) = (if w_exp r0 > w_exp c0 \<or> w_exp r0 = w_exp c0 \<and> w_hi r0 \<ge> w_hi c0 then (r0, c0) else (c0, r0))"
      using False by (simp only: if_False)
    ultimately have "\<exists>q. fma_add r0 c0 rm fl = Some q
        \<and> rounds_real rm (if w_sign c0 = w_sign r0 then w_sign c0 else rm = RM_RDN) (w_val c0 + w_val r0) fl q"
      unfolding eq[OF ch sh] by (intro fma_sum[OF assms(2,1) _ _ disjI2[OF assms(3)] sh])
    moreover have "(if w_sign c0 = w_sign r0 then w_sign c0 else rm = RM_RDN) = (if w_sign r0 = w_sign c0 then w_sign r0 else rm = RM_RDN)"
      by auto
    ultimately show ?thesis by (simp only: add.commute)
  qed
qed

end

section \<open>The product and the whole operation\<close>

lemma mul_u_two:
  fixes a b :: "'b::len word"
  assumes "mul_u a b = (h, l)" shows "two h l = uint a * uint b"
proof -
  let ?r = "uint a * uint b"
  have "?r < 2 ^ LENGTH('b) * 2 ^ LENGTH('b)" using uint_bounded[of a] uint_bounded[of b] by (intro mult_strict_mono) auto
  then have "?r div 2 ^ LENGTH('b) < 2 ^ LENGTH('b)" by (intro div_less_mult) simp_all
  moreover have "0 \<le> ?r div 2 ^ LENGTH('b)" by (simp add: pos_imp_zdiv_nonneg_iff)
  ultimately have "uint (word_of_int (?r div 2 ^ LENGTH('b)) :: 'b word) = ?r div 2 ^ LENGTH('b)" by (simp add: uint_word_of_int)
  moreover have h: "h = word_of_int (?r div 2 ^ LENGTH('b))" and l: "l = word_of_int ?r"
    using assms unfolding mul_u_def Let_def by (elim Pair_inject, simp only:)+
  have "uint l = ?r mod 2 ^ LENGTH('b)" unfolding l by (rule uint_word_of_int)
  ultimately show ?thesis unfolding two_def h by (simp only: div_mult_mod_eq)
qed

lemma two_double:
  fixes h l :: "'b::len word"
  assumes "uint h * 2 < 2 ^ LENGTH('b)"
  shows "two (push_bit 1 h OR drop_bit (LENGTH('b) - 1) l) (push_bit 1 l) = 2 * two h l"
proof -
  let ?F = "LENGTH('b)"
  have F: "(2 :: int) ^ ?F = 2 * 2 ^ (?F - 1)" by (metis len_gt_0 power_eq_if not_gr0 mult.commute)
  let ?t = "uint l div 2 ^ (?F - 1)"
  have "?t < 2" using uint_bounded[of l] unfolding F by (intro div_less_mult) simp_all
  then have "uint (push_bit 1 h OR drop_bit (?F - 1) l) = uint h * 2 ^ 1 + ?t"
    using assms by (subst uint_or_shl) (simp_all only: uint_drop power_one_right)
  moreover have "uint (push_bit 1 l) = 2 * (uint l mod 2 ^ (?F - 1))"
  proof -
    have "uint (push_bit 1 l) = take_bit ?F (push_bit 1 (uint l))" by (rule unsigned_push_bit_eq)
    also have "\<dots> = (2 * uint l) mod (2 * 2 ^ (?F - 1))" by (simp only: take_bit_eq_mod push_bit_eq_mult F power_one_right mult.commute)
    finally show ?thesis by (simp only: mult_mod_right)
  qed
  moreover have "uint l = ?t * 2 ^ (?F - 1) + uint l mod 2 ^ (?F - 1)" by (rule div_mult_mod_eq[symmetric])
  moreover define u v q where "u = uint (push_bit 1 h OR drop_bit (?F - 1) l)" and "v = uint (push_bit 1 l)" and "q = uint l mod 2 ^ (?F - 1)"
  ultimately have "u = uint h * 2 + ?t" "v = 2 * q" "uint l = ?t * 2 ^ (?F - 1) + q" by simp_all
  then show ?thesis unfolding two_def F u_def[symmetric] v_def[symmetric] by (simp add: algebra_simps)
qed

context sf_format
begin

lemma fma_product_correct:
  fixes a b :: "'a word"
  assumes "\<not> is_zero a" "\<not> is_zero b"
  shows "w_normal (fma_product a b)" "w_sign (fma_product a b) = (sign_of a \<noteq> sign_of b)"
    "w_val (fma_product a b) = fval a * fval b"
proof -
  let ?F = "LENGTH('a)" and ?B = "bias (LENGTH('a))" and ?r = "fma_product a b"
  obtain ea ma eb mb where na: "norm_operand (exp_of a) (mant_of a) = (ea, ma)"
    and nb: "norm_operand (exp_of b) (mant_of b) = (eb, mb)" by (metis surj_pair)
  note A = norm_operand_correct[OF assms(1) na] and B = norm_operand_correct[OF assms(2) nb]
  obtain h l where hl: "mul_u (push_bit R ma) (push_bit R mb) = (h, l)" by (metis surj_pair)
  define p where "p = (uint ma * 2 ^ R) * (uint mb * 2 ^ R)"
  have "uint ma * 2 ^ R < 2 ^ (M + 1) * 2 ^ R" "uint mb * 2 ^ R < 2 ^ (M + 1) * 2 ^ R"
      "2 ^ M * 2 ^ R \<le> uint ma * 2 ^ R" "2 ^ M * 2 ^ R \<le> uint mb * 2 ^ R" using A B by simp_all
  moreover have "M + 1 + R = ?F - 1" "M + R = ?F - 2" using sizes(1) by linarith+
  ultimately have bd: "uint ma * 2 ^ R < 2 ^ (?F - 1)" "uint mb * 2 ^ R < 2 ^ (?F - 1)"
      "2 ^ (?F - 2) \<le> uint ma * 2 ^ R" "2 ^ (?F - 2) \<le> uint mb * 2 ^ R" by (simp_all only: flip: power_add)
  have u: "uint (push_bit R ma) = uint ma * 2 ^ R" "uint (push_bit R mb) = uint mb * 2 ^ R"
    using bd pow_split(1) zero_less_power[of "2 :: int" "?F - 1"] by (intro uint_shl; linarith)+
  have t: "two h l = p" using mul_u_two[OF hl] by (simp only: u p_def)
  have "p < 2 ^ (?F - 1) * 2 ^ (?F - 1)" unfolding p_def using bd by (intro mult_strict_mono) auto
  moreover have "2 ^ (?F - 2) * 2 ^ (?F - 2) \<le> p" unfolding p_def using bd by (intro mult_mono) auto
  moreover have "?F - 1 + (?F - 1) = 2 * ?F - 2" "?F - 2 + (?F - 2) = 2 * ?F - 4" using F_bounds by linarith+
  ultimately have pb: "2 ^ (2 * ?F - 4) \<le> p" "p < 2 ^ (2 * ?F - 2)" by (simp_all only: flip: power_add)
  have pe: "even p" using sizes(3) by (simp add: p_def)
  have P: "(2 :: int) ^ (2 * ?F - 3) = 2 * 2 ^ (2 * ?F - 4)" "(2 :: int) ^ (2 * ?F - 2) = 2 * 2 ^ (2 * ?F - 3)"
      "(2 :: int) ^ (2 * ?F - 3) = 2 ^ (?F - 3) * 2 ^ ?F" "(2 :: int) ^ ?F = 2 ^ (?F - 3) * 8"
  proof -
    have "2 * ?F - 3 = Suc (2 * ?F - 4)" "2 * ?F - 2 = Suc (2 * ?F - 3)" "2 * ?F - 3 = (?F - 3) + ?F" "?F = (?F - 3) + 3" using F_bounds by linarith+
    then show "(2 :: int) ^ (2 * ?F - 3) = 2 * 2 ^ (2 * ?F - 4)" "(2 :: int) ^ (2 * ?F - 2) = 2 * 2 ^ (2 * ?F - 3)"
      "(2 :: int) ^ (2 * ?F - 3) = 2 ^ (?F - 3) * 2 ^ ?F" by (metis power_Suc, metis power_Suc, metis power_add)
    have "(2 :: int) ^ ?F = 2 ^ (?F - 3) * 2 ^ 3" using \<open>?F = (?F - 3) + 3\<close> by (metis power_add)
    then show "(2 :: int) ^ ?F = 2 ^ (?F - 3) * 8" by simp
  qed
  define small where "small \<longleftrightarrow> h < push_bit (?F - 3) 1"
  have up: "uint (push_bit (?F - 3) 1 :: 'a word) = 2 ^ (?F - 3)" using F_bounds by (intro uint_pow2) simp
  have small: "small \<longleftrightarrow> p < 2 ^ (2 * ?F - 3)"
  proof -
    have "small \<longleftrightarrow> uint h < 2 ^ (?F - 3)" unfolding small_def word_less_def up ..
    also have "\<dots> \<longleftrightarrow> p < 2 ^ (?F - 3) * 2 ^ ?F"
    proof
      assume "uint h < 2 ^ (?F - 3)"
      from digits_less[OF this uint_bounded[of l]] t show "p < 2 ^ (?F - 3) * 2 ^ ?F" by (simp add: two_def)
    next
      assume "p < 2 ^ (?F - 3) * 2 ^ ?F"
      then have "uint h * 2 ^ ?F < 2 ^ (?F - 3) * 2 ^ ?F" using t uint_nonnegative[of l] unfolding two_def by linarith
      then show "uint h < 2 ^ (?F - 3)" by simp
    qed
    finally show ?thesis by (simp only: P(3))
  qed
  define re where "re = ea + eb - ?B + 2"
  have e: "ea + eb - push_bit (E - 1) 1 + 3 = re" using bias_twice(2) by (simp add: push_bit_eq_mult re_def)
  have r: "?r = (if small then \<lparr>w_sign = (sign_of a \<noteq> sign_of b), w_exp = re - 1,
            w_hi = push_bit 1 h OR drop_bit (?F - 1) l, w_lo = push_bit 1 l\<rparr>
         else \<lparr>w_sign = (sign_of a \<noteq> sign_of b), w_exp = re, w_hi = h, w_lo = l\<rparr>)"
    unfolding fma_product_def Let_def na nb R E case_prod_conv hl e small_def[symmetric] ..
  show "w_sign ?r = (sign_of a \<noteq> sign_of b)" unfolding r by simp
  have w: "w_two ?r = (if small then 2 * p else p)" "w_exp ?r = (if small then re - 1 else re)"
  proof -
    have "uint h * 2 < 2 ^ ?F" if small
      using that zero_less_power[of "2 :: int" "?F - 3"] unfolding small_def word_less_def up P(4) by linarith
    then show "w_two ?r = (if small then 2 * p else p)" using two_double[of h l] t unfolding r w_two_def by simp
  qed (simp add: r)
  show "w_normal ?r" using pb pe small P unfolding w_normal_def w by (auto simp: not_less)
  have x: "fmag a * fmag b = of_int p * 2 powi (re - ?B - int (2 * ?F - 2))"
  proof -
    have "ea - ?B - int M + (eb - ?B - int M) + int 0 = re - ?B - int (2 * ?F - 2) + int (R + R)"
      using sizes(1) by (simp add: re_def)
    from powi_product[OF this, of "of_int (uint ma)" "of_int (uint mb)"] show ?thesis
      unfolding A(3) B(3) p_def by (simp add: power_add)
  qed
  have "of_int (w_two ?r) * 2 powi (w_exp ?r - ?B - int (2 * ?F - 2)) = fmag a * fmag b"
  proof (cases small)
    case True
    have "(2 :: real) powi (re - ?B - int (2 * ?F - 2)) = 2 powi (re - 1 - ?B - int (2 * ?F - 2)) * 2 ^ 1"
      using powi_mult_split[of "re - 1 - ?B - int (2 * ?F - 2)" 1] by (simp add: algebra_simps)
    then show ?thesis using True by (simp add: w x)
  qed (simp add: w x)
  then show "w_val ?r = fval a * fval b" unfolding w_val_def by (simp add: r fval_def)
qed

lemma fma_addend:
  fixes c :: "'a word"
  assumes "\<not> is_zero c" "norm_operand (exp_of c) (mant_of c) = (e, m)"
  defines "w \<equiv> \<lparr>w_sign = sign_of c, w_exp = e + 1, w_hi = push_bit (R - 1) m, w_lo = 0\<rparr>"
  shows "w_normal w" "w_val w = fval c"
proof -
  let ?F = "LENGTH('a)" and ?B = "bias (LENGTH('a))"
  note C = norm_operand_correct[OF assms(1,2)]
  have "2 ^ M * 2 ^ (R - 1) \<le> uint m * 2 ^ (R - 1)" "uint m * 2 ^ (R - 1) < 2 ^ (M + 1) * 2 ^ (R - 1)" using C by simp_all
  moreover have "M + (R - 1) = ?F - 3" "M + 1 + (R - 1) = ?F - 2" using sizes(1,3) by linarith+
  ultimately have b: "2 ^ (?F - 3) \<le> uint m * 2 ^ (R - 1)" "uint m * 2 ^ (R - 1) < 2 ^ (?F - 2)" by (simp_all only: flip: power_add)
  have "(2 :: int) ^ (?F - 2) \<le> 2 ^ ?F" by (intro power_increasing) auto
  then have u: "uint (push_bit (R - 1) m) = uint m * 2 ^ (R - 1)" using b by (intro uint_shl) linarith
  have t: "w_two w = uint m * 2 ^ (R - 1) * 2 ^ ?F" unfolding w_two_def w_def two_def by (simp only: wide.simps u uint_0_eq add_0_right)
  have "2 * ?F - 3 = (?F - 3) + ?F" "2 * ?F - 2 = (?F - 2) + ?F" using F_bounds by linarith+
  then have P: "(2 :: int) ^ (2 * ?F - 3) = 2 ^ (?F - 3) * 2 ^ ?F" "(2 :: int) ^ (2 * ?F - 2) = 2 ^ (?F - 2) * 2 ^ ?F"
    by (simp_all only: power_add)
  show "w_normal w" using b unfolding w_normal_def t P by simp
  have "of_int (uint m * 2 ^ (R - 1) * 2 ^ ?F) * 2 powi (e + 1 - ?B - int (2 * ?F - 2)) = fmag c"
  proof -
    have "e - ?B - int M + int 0 = e + 1 - ?B - int (2 * ?F - 2) + int (R - 1 + ?F)" using sizes(1,3) by simp
    from powi_balance[OF this] show ?thesis unfolding C(3) by (simp add: power_add)
  qed
  then show "w_val w = fval c" unfolding w_val_def t by (simp add: w_def fval_def)
qed

text \<open>A number of the format rounds to itself.\<close>

lemma round_exact:
  fixes c :: "'a word"
  assumes "is_finite c" "\<not> is_zero c"
  shows "rounds_to rm (sign_of c) (fmag c) fl (c, fl)"
proof -
  let ?F = "LENGTH('a)" and ?B = "bias (LENGTH('a))"
  obtain e m where n: "norm_operand (exp_of c) (mant_of c) = (e, m)" by (metis surj_pair)
  note C = norm_operand_correct[OF assms(2) n]
  have "2 ^ M * 2 ^ R \<le> uint m * 2 ^ R" "uint m * 2 ^ R < 2 ^ (M + 1) * 2 ^ R" using C by simp_all
  moreover have "M + R = ?F - 2" "M + 1 + R = ?F - 1" using sizes(1) by linarith+
  ultimately have "2 ^ (?F - 2) \<le> uint m * 2 ^ R" "uint m * 2 ^ R < 2 ^ (?F - 1)" by (simp_all only: flip: power_add)
  then have "of_int (2 ^ (?F - 2)) \<le> (of_int (uint m * 2 ^ R) :: real)" "of_int (uint m * 2 ^ R) < (of_int (2 ^ (?F - 1)) :: real)"
    by (simp_all only: of_int_le_iff of_int_less_iff)
  then have yb: "2 ^ (?F - 2) \<le> (of_int (uint m * 2 ^ R) :: real)" "of_int (uint m * 2 ^ R) < (2 :: real) ^ (?F - 1)" by simp_all
  have x: "fmag c = of_int (uint m * 2 ^ R) * 2 powi (e - ?B - int (?F - 2))"
  proof -
    have "e - ?B - int M + int 0 = e - ?B - int (?F - 2) + int R" using sizes(1) by simp
    from powi_balance[OF this] show ?thesis unfolding C(3) by simp
  qed
  have fe: "max e 1 = fexp c"
  proof (cases "exp_of c = 0")
    case True
    have "2 ^ M \<le> uint m" "uint (mant_of c) < 2 ^ M" using C mant_bounds by simp_all
    have "fst (norm_operand (exp_of c) (mant_of c)) \<le> 1"
    proof -
      have nz: "mant_of c \<noteq> 0" using assms(2) True by (simp add: is_zero_def)
      note cb = clz_bounds[OF nz]
      have "(2 :: int) ^ (?F - 1 - clz (mant_of c)) < 2 ^ M" using cb(2) mant_bounds(2)[of c] by linarith
      then have "?F - 1 - clz (mant_of c) < M" by (rule power_less_imp_less_exp[rotated]) simp
      then show ?thesis using True cb(1) by (simp add: norm_operand_def normalize_subnormal_sf_def Let_def)
    qed
    then show ?thesis using True n by (simp add: fexp_def)
  next
    case False
    then show ?thesis using n exp_bounds(1)[of c] by (auto simp: norm_operand_def fexp_def)
  qed
  have "ieee_ulp ?F (fmag c) = fexp c - ?B - int M" using ulp_of[OF yb x] fe by simp
  moreover have "fmag c / 2 powi (fexp c - ?B - int M) = of_int (fsig c)" by (simp add: fmag_def)
  ultimately have "ieee_round ?F rm (sign_of c) (fmag c) = fmag c"
    by (simp add: ieee_round_def) (simp add: fmag_def)
  then show ?thesis using assms(1) fmag_less_top[OF assms(1)] by (auto simp: rounds_to_def Let_def)
qed

lemma round_exact_real:
  fixes c :: "'a word"
  assumes "is_finite c" "\<not> is_zero c"
  shows "rounds_real rm z (fval c) fl (c, fl)"
proof -
  have p: "0 < fmag c" using fmag_nonneg[of c] fmag_zero[of c] assms(2) by (simp add: order_less_le)
  then have "fval c < 0 \<longleftrightarrow> sign_of c" "\<bar>fval c\<bar> = fmag c" "fval c \<noteq> 0" by (auto simp: fval_def)
  then show ?thesis using round_exact[OF assms] by (simp add: rounds_real_def)
qed

lemma fma_no_addend:
  fixes a b :: "'a word"
  assumes "\<not> is_zero a" "\<not> is_zero b"
  defines "r \<equiv> fma_product a b"
  shows "\<exists>q. normalize_sf (sign_of a \<noteq> sign_of b) (w_exp r) (w_hi r OR of_bool (w_lo r \<noteq> 0)) rm fl = Some q
    \<and> rounds_to rm (sign_of a \<noteq> sign_of b) (fmag a * fmag b) fl q"
proof -
  let ?F = "LENGTH('a)" and ?B = "bias (LENGTH('a))"
  note P = fma_product_correct[OF assms(1,2), folded r_def]
  have m: "uint (w_hi r OR of_bool (w_lo r \<noteq> 0)) = sticky_shift ?F (w_two r)"
    by (simp add: uint_or_flag sticky_shift_def w_two_def two_def uint_0_iff)
  have b: "2 ^ (2 * ?F - 3) \<le> w_two r" "w_two r < 2 ^ (2 * ?F - 2)" using P(1) by (simp_all add: w_normal_def)
  have "2 * ?F - 3 = (?F - 3) + ?F" "2 * ?F - 2 = (?F - 2) + ?F" using F_bounds by linarith+
  note b = b[unfolded this]
  have "2 ^ (?F - 3) * 2 ^ ?F \<le> w_two r" using b(1) by (simp only: power_add)
  then have "2 ^ (?F - 3) \<le> sticky_shift ?F (w_two r)"
    using zdiv_mono1[of "2 ^ (?F - 3) * 2 ^ ?F" "w_two r" "2 ^ ?F"] sticky_shift_bounds(1)[OF two_nonneg[of "w_hi r" "w_lo r"], of ?F]
    by (simp add: w_two_def)
  moreover have "(2 :: int) ^ (M + 2) \<le> 2 ^ (?F - 3)" using sizes(1,3) by (intro power_increasing) linarith+
  ultimately have lo: "2 ^ (M + 2) \<le> sticky_shift ?F (w_two r)" by linarith
  have "sticky_shift ?F (w_two r) < 2 ^ (?F - 2)" using b(2) F_bounds by (intro sticky_shift_less) simp_all
  moreover have "(2 :: int) ^ (?F - 2) \<le> 2 ^ (?F - 1)" by (intro power_increasing) auto
  ultimately have up: "sticky_shift ?F (w_two r) < 2 ^ (?F - 1)" by linarith
  have nz: "w_hi r OR of_bool (w_lo r \<noteq> 0) \<noteq> 0" using lo by (intro word_nonzero[of "M + 2"]) (simp only: m)
  have "\<bar>w_val r\<bar> = of_int (w_two r) * 2 powi (w_exp r - ?B - int (2 * ?F - 2))"
    by (simp add: w_val_def abs_mult w_two_def two_nonneg)
  also have "\<dots> = of_int (w_two r) / 2 ^ ?F * 2 powi (w_exp r - ?B - int (?F - 2))"
  proof -
    have "w_exp r - ?B - int (2 * ?F - 2) + int ?F = w_exp r - ?B - int (?F - 2) + int 0" using F_bounds by simp
    from powi_balance[OF this] show ?thesis by (simp add: field_simps)
  qed
  finally have "fmag a * fmag b = of_int (w_two r) / 2 ^ ?F * 2 powi (w_exp r - ?B - int (?F - 2))"
    using fmag_nonneg[of a] fmag_nonneg[of b] by (simp add: P(3) fval_def abs_mult split: if_splits)
  from normalize_correct[OF nz, unfolded m, OF up sticky_shift_exact disjI2[OF lo] this] show ?thesis .
qed

lemma fma_finite:
  fixes a b c :: "'a word"
  assumes "is_finite a" "is_finite b" "is_finite c"
  shows "\<exists>q. fma_sf a b c rm fl = Some q
    \<and> rounds_real rm (if (sign_of a \<noteq> sign_of b) = sign_of c then sign_of c else rm = RM_RDN) (fval a * fval b + fval c) fl q"
proof -
  define s where "s \<longleftrightarrow> sign_of a \<noteq> sign_of b"
  define z where "z \<longleftrightarrow> (if s = sign_of c then sign_of c else rm = RM_RDN)"
  have zv: "is_zero d \<Longrightarrow> fval d = 0" for d :: "'a word" using fmag_zero[of d] by (simp add: fval_def)
  have "\<exists>q. fma_sf a b c rm fl = Some q \<and> rounds_real rm z (fval a * fval b + fval c) fl q"
  proof (cases "is_zero a \<or> is_zero b")
    case True
    then have v: "fval a * fval b + fval c = fval c" using zv by auto
    have eq: "fma_sf a b c rm fl = (if is_zero c then Some (pack_sf (if sign_of c \<noteq> s then rm = RM_RDN else s) 0 0, fl) else Some (c, fl))"
      using assms True unfolding fma_sf_def Let_def is_finite_def is_zero_def[symmetric] s_def by (simp only: simp_thms if_True if_False)
    show ?thesis
    proof (cases "is_zero c")
      case True
      then show ?thesis unfolding v eq using zv[of c] by (auto simp: rounds_real_def z_def)
    next
      case False
      then show ?thesis unfolding v eq using round_exact_real[OF assms(3)] by simp
    qed
  next
    case False
    then have ab: "\<not> is_zero a" "\<not> is_zero b" by simp_all
    note P = fma_product_correct[OF ab]
    have eq: "fma_sf a b c rm fl = (if is_zero c then
         normalize_sf s (w_exp (fma_product a b)) (w_hi (fma_product a b) OR of_bool (w_lo (fma_product a b) \<noteq> 0)) rm fl
       else case norm_operand (exp_of c) (mant_of c) of (c_exp, c_mant) \<Rightarrow>
         fma_add (fma_product a b) \<lparr>w_sign = sign_of c, w_exp = c_exp + 1, w_hi = push_bit (R - 1) c_mant, w_lo = 0\<rparr> rm fl)"
      using assms False unfolding fma_sf_def Let_def is_finite_def is_zero_def[symmetric] s_def R by (simp only: simp_thms if_True if_False)
    show ?thesis
    proof (cases "is_zero c")
      case True
      define x where "x = fmag a * fmag b"
      have "0 < fmag a" "0 < fmag b" using ab fmag_zero[of a] fmag_zero[of b] fmag_nonneg[of a] fmag_nonneg[of b]
        by (simp_all add: order_less_le)
      then have "0 < x" by (simp add: x_def)
      moreover have "fval a * fval b + fval c = (if s then - x else x)" using zv[OF True] by (auto simp: fval_def s_def x_def)
      ultimately show ?thesis using fma_no_addend[OF ab, of rm fl, folded s_def x_def] True unfolding eq
        by (auto simp: rounds_real_def less_asym)
    next
      case False
      obtain e m where n: "norm_operand (exp_of c) (mant_of c) = (e, m)" by (metis surj_pair)
      note C = fma_addend[OF False n]
      from fma_add_correct[OF P(1) C(1), of rm fl] False show ?thesis
        unfolding eq n P C s_def[symmetric] z_def by (cases "s = sign_of c") (simp_all add: s_def[symmetric])
    qed
  qed
  then show ?thesis unfolding z_def s_def .
qed

end

end
