(* ===== verification/Softfp_Cvt.thy ===== *)
theory Softfp_Cvt
  imports Softfp_Add
begin

unbundle bit_operations_syntax

text \<open>
  Conversions between integers and floating-point numbers: from an integer of any width the result is
  the correctly rounded number; to an integer it is the rounded value, saturated at the bounds of the
  type with the invalid flag.
\<close>

section \<open>From integers\<close>

lemma sint_split: "sint a = uint a - (if sint a < 0 then 2 ^ LENGTH('i) else 0)" for a :: "'i::len word"
proof -
  have l: "Suc (LENGTH('i) - 1) = LENGTH('i)" by simp
  have "sint a = take_bit (Suc (LENGTH('i) - 1)) (uint a) - 2 ^ Suc (LENGTH('i) - 1) * of_bool (bit (uint a) (LENGTH('i) - 1))"
    unfolding sint_uint One_nat_def by (rule signed_take_bit_eq_take_bit_minus)
  then have "sint a = uint a - 2 ^ LENGTH('i) * of_bool (bit a (LENGTH('i) - 1))"
    unfolding l by (simp add: bit_uint_iff take_bit_int_eq_self)
  then show ?thesis using bit_last_iff[of a] by (cases "sint a < 0") simp_all
qed

lemma uint_abs:
  fixes a :: "'i::len word"
  shows "uint (if sint a < 0 then - a else a) = \<bar>sint a\<bar>"
proof (cases "sint a < 0")
  case True
  then have s: "sint a = uint a - 2 ^ LENGTH('i)" using sint_split[of a] by simp
  have "uint (- a) = (- uint a) mod 2 ^ LENGTH('i)" by (simp add: uint_word_ariths)
  also have "\<dots> = (2 ^ LENGTH('i) - uint a) mod 2 ^ LENGTH('i)" by (simp add: mod_diff_left_eq[symmetric])
  also have "\<dots> = 2 ^ LENGTH('i) - uint a"
  proof (rule mod_pos_pos_trivial)
    have "uint a \<noteq> 0" using True s sint_0 by (auto simp: uint_0_iff)
    then show "2 ^ LENGTH('i) - uint a < 2 ^ LENGTH('i)" using uint_nonnegative[of a] by linarith
  qed (use uint_bounded[of a] in linarith)
  finally show ?thesis using True s by (simp only: if_True abs_of_neg)
next
  case False
  then show ?thesis using sint_split[of a] by simp
qed

text \<open>The rounding shift of a wide integer.\<close>

lemma uint_drop_sticky: "uint (drop_bit l r OR of_bool (r AND (r AND (push_bit l 1 - 1)) \<noteq> 0)) = sticky_shift l (uint r)"
  for r :: "'i::len word"
proof -
  have "r AND (r AND (push_bit l 1 - 1)) = take_bit l r" by (simp add: take_bit_eq_mask mask_eq_exp_minus_1)
  then have "r AND (r AND (push_bit l 1 - 1)) = 0 \<longleftrightarrow> uint r mod 2 ^ l = 0" by (simp only: word_uint_eq_iff uint_take uint_0_eq)
  then show ?thesis by (simp add: uint_or_flag sticky_shift_def uint_drop del: push_bit_of_1)
qed

context sf_format
begin

lemma cvt_magnitude:
  fixes r :: "'i::len word"
  defines "l \<equiv> int (LENGTH('i)) - int (clz r) - (int (LENGTH('a)) - 1)"
  assumes "r \<noteq> 0"
  shows "\<exists>q. (let (r1, e1) = (if l > 0 then
              let msk = r AND (push_bit (nat l) 1 - 1)
              in (drop_bit (nat l) r OR of_bool (r AND msk \<noteq> 0), bias (LENGTH('a)) + int (LENGTH('a)) - 2 + l)
            else (r, bias (LENGTH('a)) + int (LENGTH('a)) - 2))
        in normalize_sf s e1 (ucast r1 :: 'a word) rm fl) = Some q \<and> rounds_to rm s (of_int (uint r)) fl q"
proof -
  let ?F = "LENGTH('a)" and ?B = "bias (LENGTH('a))"
  define b where "b = LENGTH('i) - clz r"
  note c = clz_bounds[OF assms(2)]
  have b: "2 ^ (b - 1) \<le> uint r" "uint r < 2 ^ b" "0 < b" using c by (simp_all add: b_def diff_commute)
  define n where "n = nat l"
  define m where "m = sticky_shift n (uint r)"
  have lb: "l = int b - (int ?F - 1)" using c(1) by (simp add: l_def b_def)
  then have nb: "b \<le> ?F - 1 + n" by (simp add: n_def)
  have big: "n = 0 \<or> 2 ^ (M + 2) \<le> m"
  proof (cases "n = 0")
    case False
    then have "b - 1 = (?F - 2) + n" using lb sizes(1) by (simp add: n_def)
    then have "2 ^ (?F - 2) * 2 ^ n \<le> uint r" using b(1) by (simp only: power_add)
    then have "2 ^ (?F - 2) \<le> m" using zdiv_mono1[of "2 ^ (?F - 2) * 2 ^ n" "uint r" "2 ^ n"] sticky_shift_bounds(1)[of "uint r" n]
      by (simp add: m_def)
    moreover have "(2 :: int) ^ (M + 2) \<le> 2 ^ (?F - 2)" using sizes(1,3) by (intro power_increasing) linarith+
    ultimately show ?thesis by simp
  qed simp
  have "(2 :: int) ^ b \<le> 2 ^ (?F - 1 + n)" using nb by (intro power_increasing) auto
  then have m1: "m < 2 ^ (?F - 1)" unfolding m_def using b(2) sizes(1) by (intro sticky_shift_less) linarith+
  have m0: "0 < m"
  proof (cases "n = 0")
    case True
    have "0 < uint r" using assms(2) by (simp add: order_less_le uint_0_iff)
    then show ?thesis using True by (simp add: m_def sticky_shift_def)
  next
    case False
    then show ?thesis using big zero_less_power[of "2 :: int" "M + 2"] by linarith
  qed
  define w where "w = (if l > 0 then drop_bit n r OR of_bool (r AND (r AND (push_bit n 1 - 1)) \<noteq> 0) else r)"
  have "uint w = m" unfolding w_def using uint_drop_sticky[of n r] by (simp add: m_def n_def sticky_shift_def)
  then have u: "uint (ucast w :: 'a word) = m"
    using m0 m1 pow_split(1) by (simp add: unsigned_ucast_eq take_bit_int_eq_self)
  have nz: "(ucast w :: 'a word) \<noteq> 0" using u m0 by auto
  have ex: "of_int (uint r) / 2 ^ n = (of_int m :: real) \<or> 2 ^ (M + 2) \<le> m"
    using big by (auto simp: m_def sticky_shift_def)
  have "of_int (uint r) = of_int (uint r) / 2 ^ n * (2 powi (?B + int ?F - 2 + int n - ?B - int (?F - 2)) :: real)"
    using sizes(1) by simp
  from normalize_correct[OF nz, unfolded u, OF m1 sticky_shift_exact[of n "uint r", folded m_def] ex this, of s rm fl]
  show ?thesis unfolding w_def Let_def n_def by (cases "l > 0") (simp_all del: push_bit_of_1)
qed

lemma cvt_from_int:
  fixes a :: "'i::len word"
  shows "\<exists>r :: 'a word \<times> u32. internal_cvt_i_sf a rm uns fl = Some r
    \<and> rounds_real rm False (of_int (if uns then uint a else sint a)) fl r"
proof -
  define v where "v = (if uns then uint a else sint a)"
  define s where "s \<longleftrightarrow> \<not> uns \<and> sint a < 0"
  define r where "r = (if s then - a else a)"
  have r: "uint r = \<bar>v\<bar>" unfolding r_def v_def s_def using uint_abs[of a] by auto
  have sv: "s \<longleftrightarrow> v < 0" by (auto simp: s_def v_def not_less)
  show ?thesis
  proof (cases "r = 0")
    case True
    then have "internal_cvt_i_sf a rm uns fl = normalize_sf s (EXP_MASK (LENGTH('a)) div 2 + int (LENGTH('a)) - 2) (0 :: 'a word) rm fl"
      using sizes(1) by (simp add: clz_zero internal_cvt_i_sf_def Let_def s_def[symmetric] r_def[symmetric])
    then show ?thesis using True r sv by (simp add: normalize_zero rounds_real_def v_def)
  next
    case False
    then have "v \<noteq> 0" using r by (auto simp: uint_0_iff)
    then have "rounds_real rm False (of_int v) fl q" if "rounds_to rm s (of_int (uint r)) fl q" for q :: "'a word \<times> u32"
      using that sv r by (simp add: rounds_real_def)
    then show ?thesis using cvt_magnitude[OF False, of s rm fl] unfolding internal_cvt_i_sf_def v_def
      by (simp only: Let_def bias_def s_def[symmetric] r_def[symmetric]) blast
  qed
qed

end

section \<open>To integers\<close>

definition int_lo :: "bool \<Rightarrow> nat \<Rightarrow> int" where "int_lo uns n = (if uns then 0 else - (2 ^ (n - 1)))"
definition int_hi :: "bool \<Rightarrow> nat \<Rightarrow> int" where "int_hi uns n = (if uns then 2 ^ n - 1 else 2 ^ (n - 1) - 1)"

text \<open>The value the code saturates to, as a magnitude and with its sign.\<close>

definition cvt_max :: "bool \<Rightarrow> bool \<Rightarrow> 'i::len word" where
  "cvt_max uns s = (if uns then of_bool s - 1 else push_bit (LENGTH('i) - 1) 1 - of_bool (\<not> s))"

lemma uint_cvt_max:
  "uint (cvt_max uns s :: 'i::len word) = (if s then - int_lo uns (LENGTH('i)) else int_hi uns (LENGTH('i)))"
proof -
  have p: "uint (push_bit (LENGTH('i) - 1) 1 :: 'i word) = 2 ^ (LENGTH('i) - 1)" by (rule uint_pow2) simp
  have "uint (push_bit (LENGTH('i) - 1) 1 - 1 :: 'i word) = 2 ^ (LENGTH('i) - 1) - 1"
    using uint_sub_lem[of 1 "push_bit (LENGTH('i) - 1) 1 :: 'i word"] p by (simp del: push_bit_of_1)
  then show ?thesis using p
    by (simp add: cvt_max_def int_lo_def int_hi_def unsigned_minus_1_eq_mask mask_eq_exp_minus_1 del: push_bit_of_1)
qed

lemma cvt_max_saturates:
  "(cvt_max uns s :: 'i::len word) = word_of_int (if s then int_lo uns (LENGTH('i)) else int_hi uns (LENGTH('i)))"
proof -
  have "(cvt_max uns s :: 'i word) = word_of_int (if s then - int_lo uns (LENGTH('i)) else int_hi uns (LENGTH('i)))"
    unfolding uint_cvt_max[symmetric] by simp
  moreover have "word_of_int (2 ^ (LENGTH('i) - 1)) = (word_of_int (- (2 ^ (LENGTH('i) - 1))) :: 'i word)"
  proof -
    have "(2 :: int) ^ (LENGTH('i) - 1) - - (2 ^ (LENGTH('i) - 1)) = 2 ^ LENGTH('i)"
      by (metis (no_types) diff_minus_eq_add len_gt_0 mult_2 power_minus_mult mult.commute)
    then show ?thesis by (metis word_of_int_eq_iff take_bit_eq_mod mod_eq_dvd_iff dvd_refl)
  qed
  ultimately show ?thesis by (simp add: int_lo_def)
qed

text \<open>Applying the sign to a magnitude below the limit, and saturating beyond it.\<close>

lemma cvt_clamp:
  fixes uns s defines "lo \<equiv> int_lo uns (LENGTH('i::len))" and "hi \<equiv> int_hi uns (LENGTH('i))"
  assumes "0 \<le> N" "v = (if s then - N else N)"
  shows "N \<le> uint (cvt_max uns s :: 'i word) \<longleftrightarrow> lo \<le> v \<and> v \<le> hi"
    "\<not> N \<le> uint (cvt_max uns s :: 'i word) \<Longrightarrow> (cvt_max uns s :: 'i word) = word_of_int (max lo (min hi v))"
    "N \<le> uint (cvt_max uns s :: 'i word) \<Longrightarrow> max lo (min hi v) = v"
proof -
  have b: "lo \<le> 0" "0 \<le> hi" by (simp_all add: lo_def hi_def int_lo_def int_hi_def)
  note u = uint_cvt_max[of uns s, where ?'i = 'i, folded lo_def hi_def]
  show r: "N \<le> uint (cvt_max uns s :: 'i word) \<longleftrightarrow> lo \<le> v \<and> v \<le> hi" using assms(3,4) b by (auto simp: u)
  show "(cvt_max uns s :: 'i word) = word_of_int (max lo (min hi v))" if "\<not> N \<le> uint (cvt_max uns s :: 'i word)"
  proof -
    have n: "\<not> N \<le> (if s then - lo else hi)" using that by (simp only: u not_False_eq_True)
    then have "(if s then lo else hi) = max lo (min hi v)" using assms(3,4) b by (cases s) (auto simp: max_def min_def)
    then show ?thesis unfolding cvt_max_saturates lo_def[symmetric] hi_def[symmetric] by (simp only:)
  qed
  show "N \<le> uint (cvt_max uns s :: 'i word) \<Longrightarrow> max lo (min hi v) = v" using r by auto
qed

context sf_format
begin

lemma hidden_eq:
  fixes a :: "'a word"
  assumes "with_hidden 0 (exp_of a) (mant_of a) = (e, m)"
  shows "e = fexp a" "uint m = fsig a"
proof -
  have "(2 :: int) ^ M < 2 ^ LENGTH('a)" using sizes(1) by (intro power_strict_increasing) auto
  then have "uint (push_bit M 1 OR mant_of a) = 1 * 2 ^ M + uint (mant_of a)"
    using mant_bounds(2)[of a] by (subst uint_or_shl) simp_all
  then show "e = fexp a" "uint m = fsig a"
    using assms by (auto simp: with_hidden_def fexp_def fsig_def or.commute simp del: push_bit_of_1 split: if_splits)
qed

lemma cvt_to_int:
  fixes a :: "'a word" and fl :: u32 and uns :: bool and rm
  defines "v \<equiv> (if sign_of a then - rnd_int rm True (fmag a) else rnd_int rm False (fmag a))"
    and "lo \<equiv> int_lo uns (LENGTH('i))" and "hi \<equiv> int_hi uns (LENGTH('i))"
  assumes "is_finite a"
  shows "internal_cvt_sf_i a rm uns fl
    = (word_of_int (max lo (min hi v)) :: 'i::len word, if lo \<le> v \<and> v \<le> hi then flag (of_int v \<noteq> fval a) 1 fl else fl OR 16)"
proof -
  let ?F = "LENGTH('a)" and ?B = "bias (LENGTH('a))" and ?n = "LENGTH('i)"
  obtain e m where h: "with_hidden 0 (exp_of a) (mant_of a) = (e, m)" by (metis surj_pair)
  note H = hidden_eq[OF h]
  define s where "s \<longleftrightarrow> sign_of a"
  define k where "k = fexp a - ?B - int M"
  define N where "N = rnd_int rm s (fmag a)"
  have v: "v = (if s then - N else N)" by (simp add: v_def N_def s_def)
  have mag: "fmag a = of_int (fsig a) * 2 powi k" by (simp add: fmag_def k_def)
  have ss: "(sign_of a \<and> \<not> isnan_sf a) = s" using assms(4) by (simp add: isnan_sf_def is_finite_def s_def)
  have "fsig a * 2 ^ R < 2 ^ (M + 1) * 2 ^ R" using fsig_bounds(2)[of a] by simp
  also have "\<dots> = 2 ^ (?F - 1)" using sizes(1) by (simp flip: power_add)
  finally have mr: "fsig a * 2 ^ R < 2 ^ (?F - 1)" .
  then have um: "uint (push_bit R m) = fsig a * 2 ^ R"
    using pow_split(1) zero_less_power[of "2 :: int" "?F - 1"] by (subst uint_shl) (simp_all only: H, linarith)
  have inx: "of_int v \<noteq> fval a \<longleftrightarrow> of_int N \<noteq> fmag a" by (simp add: v fval_def s_def)
  have neg: "(if s then - word_of_int N else word_of_int N) = (word_of_int v :: 'i word)" by (simp add: v)
  show ?thesis
  proof (cases "0 \<le> k")
    case True
    then have Nk: "N = fsig a * 2 ^ nat k"
    proof -
      have "fmag a = of_int (fsig a * 2 ^ nat k)" using True unfolding mag by (simp add: power_int_def)
      then show ?thesis unfolding N_def by (simp only: rnd_int_exact)
    qed
    have N0: "0 \<le> N" using fsig_bounds(1)[of a] by (simp add: Nk)
    note C = cvt_clamp[OF N0 v, of uns, where ?'i = 'i, folded lo_def hi_def]
    have ex: "of_int N = fmag a" using True by (simp add: Nk mag power_int_def)
    define r where "r = (push_bit (nat k) (ucast (drop_bit R (push_bit R m))) :: 'i word)"
    have dm: "drop_bit R (push_bit R m) = m" using um H(2) by (simp add: word_uint_eq_iff uint_drop)
    have fits: "uint r = N" if "k \<le> int ?n - 1 - int M"
    proof -
      have "N < 2 ^ (M + 1) * 2 ^ nat k" unfolding Nk using fsig_bounds(2)[of a] by simp
      also have "\<dots> \<le> 2 ^ ?n" unfolding power_add[symmetric] using that True by (intro power_increasing) auto
      finally have "N < 2 ^ ?n" .
      moreover have "fsig a \<le> N" unfolding Nk using mult_left_mono[of 1 "2 ^ nat k" "fsig a"] fsig_bounds(1)[of a] by simp
      ultimately have "uint (ucast m :: 'i word) = fsig a" using fsig_bounds(1)[of a]
        by (simp add: unsigned_ucast_eq take_bit_int_eq_self H)
      then show ?thesis using \<open>N < 2 ^ ?n\<close> unfolding r_def dm by (subst uint_shl) (simp_all add: Nk)
    qed
    have big: "\<not> N \<le> uint (cvt_max uns s :: 'i word)" if "\<not> k \<le> int ?n - 1 - int M"
    proof -
      have "exp_of a \<noteq> 0" using True sizes(7) bias_pos by (auto simp: k_def fexp_def)
      then have "2 ^ M * 2 ^ nat k \<le> N" unfolding Nk using fsig_bounds(3)[of a] by simp
      moreover have "(2 :: int) ^ ?n \<le> 2 ^ (M + nat k)" using that by (intro power_increasing) auto
      ultimately show ?thesis using uint_bounded[of "cvt_max uns s :: 'i word"] unfolding power_add by linarith
    qed
    have "internal_cvt_sf_i a rm uns fl
        = (if k \<le> int ?n - 1 - int M \<and> \<not> r > cvt_max uns s then (if s then - r else r, fl) else (cvt_max uns s, fl OR 16))"
      using True unfolding internal_cvt_sf_i_def Let_def h case_prod_conv ss H(1) bias_def[symmetric] M R k_def[symmetric] r_def
      by (simp only: cvt_max_def[symmetric] if_True)
    moreover have "r = word_of_int N" if "k \<le> int ?n - 1 - int M" using fits[OF that] by (metis word_of_int_uint)
    ultimately show ?thesis using fits big C neg inx ex by (auto simp: word_less_def flag_def)
  next
    case False
    define d where "d = nat (- k)"
    define m1 where "m1 = rshift_rnd (push_bit R m) d"
    have u1: "uint m1 = sticky_shift d (fsig a * 2 ^ R)" by (simp only: m1_def uint_rshift_rnd um)
    have st: "sticky 0 (uint m1) (of_int (fsig a * 2 ^ R) / 2 ^ d)" unfolding u1 by (rule sticky_shift_exact)
    have y: "of_int (fsig a * 2 ^ R) / 2 ^ d / 2 ^ R = fmag a"
    proof -
      have "(2 :: real) powi k = 1 / 2 ^ d" using False by (simp add: d_def power_int_def field_simps)
      then show ?thesis by (simp add: mag)
    qed
    have g: "0 + 2 \<le> R" using sizes(3) by linarith
    have lt: "uint m1 < 2 ^ (?F - 1)"
    proof -
      have "(2 :: int) ^ (?F - 1) \<le> 2 ^ (?F - 1 + d)" by (intro power_increasing) auto
      then show ?thesis unfolding u1 using mr sizes(1) by (intro sticky_shift_less) linarith+
    qed
    have ur: "uint (rnd_mant m1 rm s) = N"
      unfolding uint_rnd_mant[OF lt] rnd_shift_correct[OF st g, symmetric] by (simp only: y N_def)
    have N0: "0 \<le> N" using ur uint_nonnegative by metis
    note C = cvt_clamp[OF N0 v, of uns, where ?'i = 'i, folded lo_def hi_def]
    have ix: "rnd_bits_of m1 \<noteq> 0 \<longleftrightarrow> of_int N \<noteq> fmag a"
      using rnd_exact_iff[OF st g, of rm s] unfolding y N_def by (metis rnd_bits uint_0_iff)
    have uc: "ucast (rnd_mant m1 rm s) = (word_of_int N :: 'i word)" unfolding ur[symmetric] by simp
    have "internal_cvt_sf_i a rm uns fl
        = (if uint (rnd_mant m1 rm s) > uint (cvt_max uns s :: 'i word) then (cvt_max uns s :: 'i word, fl OR 16)
           else ((if s then - ucast (rnd_mant m1 rm s) else ucast (rnd_mant m1 rm s)), flag (rnd_bits_of m1 \<noteq> 0) 1 fl))"
      using False unfolding internal_cvt_sf_i_def Let_def h case_prod_conv ss H(1) bias_def[symmetric] M R k_def[symmetric] m1_def d_def
      by (simp only: cvt_max_def[symmetric] if_False)
    then show ?thesis unfolding ur uc neg ix inx using C by (auto simp: not_less)
  qed
qed

end

end
