(* ===== verification/Softfp_Theorems.thy ===== *)
theory Softfp_Theorems
  imports Softfp_Fma Softfp_Cvt
begin

unbundle bit_operations_syntax

text \<open>
  What the floating-point library promises, in single and double precision: results are rounded
  correctly, comparisons order the numbers, NaN operands give the default NaN, the assertions in
  \<^verbatim>\<open>normalize_sf\<close> and \<^verbatim>\<open>normalize2_sf\<close> never fail, and only the five exception flags are touched.
\<close>

section \<open>The flags\<close>

text \<open>Only the five flags of \<^verbatim>\<open>fflags\<close> are set.\<close>

definition low5 :: "u32 \<Rightarrow> bool" where "low5 fl \<longleftrightarrow> fl \<le> 31"

lemma low5_iff: "low5 fl \<longleftrightarrow> drop_bit 5 fl = 0"
proof -
  have "drop_bit 5 fl = 0 \<longleftrightarrow> uint fl div 32 = 0" using uint_drop[of 5 fl] by (simp add: word_uint_eq_iff)
  also have "\<dots> \<longleftrightarrow> uint fl < 32" by (simp add: div_eq_0_iff_pos)
  finally show ?thesis by (simp add: low5_def word_le_def) linarith
qed

lemma low5_or [simp]: "low5 (a OR b) \<longleftrightarrow> low5 a \<and> low5 b"
  by (simp add: low5_iff or_eq_0_iff)

lemma low5_consts [simp]: "low5 1" "low5 2" "low5 4" "low5 5" "low5 8" "low5 16"
  by (simp_all add: low5_def)

lemma low5_flag [simp]: "low5 fl \<Longrightarrow> low5 m \<Longrightarrow> low5 (flag c m fl)"
  by (simp add: flag_def)

lemma low5_round_pack [simp]: "low5 fl \<Longrightarrow> low5 (snd (round_pack_sf s e m rm fl))"
  by (simp add: round_pack_sf_def Let_def)

lemma low5_normalize: "normalize_sf s e m rm fl = Some r \<Longrightarrow> low5 fl \<Longrightarrow> low5 (snd r)"
  by (auto simp: normalize_sf_def Let_def split: if_splits)

lemma low5_normalize2: "normalize2_sf s e m1 m0 rm fl = Some r \<Longrightarrow> low5 fl \<Longrightarrow> low5 (snd r)"
  by (auto simp: normalize2_sf_def Let_def split: if_splits)

lemmas low5_norm = low5_normalize low5_normalize2

lemma low5_add: "add_sf a b rm fl = Some r \<Longrightarrow> low5 fl \<Longrightarrow> low5 (snd r)"
  by (auto simp: add_sf_def Let_def split_beta split: if_splits dest: low5_norm)

lemma low5_sub: "sub_sf a b rm fl = Some r \<Longrightarrow> low5 fl \<Longrightarrow> low5 (snd r)"
  by (simp add: sub_sf_def low5_add)

lemma low5_mul: "mul_sf a b rm fl = Some r \<Longrightarrow> low5 fl \<Longrightarrow> low5 (snd r)"
  by (auto simp: mul_sf_def Let_def split_beta split: if_splits dest: low5_norm)

lemma low5_div: "div_sf a b rm fl = Some r \<Longrightarrow> low5 fl \<Longrightarrow> low5 (snd r)"
  by (auto simp: div_sf_def Let_def split_beta split: if_splits dest: low5_norm)

lemma low5_sqrt: "sqrt_sf a rm fl = Some r \<Longrightarrow> low5 fl \<Longrightarrow> low5 (snd r)"
  by (auto simp: sqrt_sf_def Let_def split_beta split: if_splits dest: low5_norm)

lemma low5_fma_add: "fma_add w c rm fl = Some r \<Longrightarrow> low5 fl \<Longrightarrow> low5 (snd r)"
proof -
  assume r: "fma_add w c rm fl = Some r" and fl: "low5 fl"
  obtain x y where p: "(if w_exp w > w_exp c \<or> w_exp w = w_exp c \<and> w_hi w \<ge> w_hi c then (w, c) else (c, w)) = (x, y)" by (metis surj_pair)
  obtain c1 c2 where q: "wide_shift (nat (w_exp x - w_exp y)) (w_hi y) (w_lo y) = (c1, c2)" by (metis surj_pair)
  have "\<exists>s e h l. normalize2_sf s e h l rm fl = Some r"
  proof (cases "w_sign x = w_sign y")
    case True
    show ?thesis using r unfolding fma_add_def p Let_def case_prod_conv q if_P[OF True] by blast
  next
    case False
    show ?thesis using r unfolding fma_add_def p Let_def case_prod_conv q if_not_P[OF False] by blast
  qed
  then show ?thesis using low5_normalize2 fl by blast
qed

lemma low5_fma: "fma_sf a b c rm fl = Some r \<Longrightarrow> low5 fl \<Longrightarrow> low5 (snd r)"
proof -
  assume r: "fma_sf a b c rm fl = Some r" and fl: "low5 fl"
  have sp: "low5 (snd (fma_special a b c fl))" using fl by (simp add: fma_special_def Let_def)
  consider "r = fma_special a b c fl" | "snd r = fl" | s e m where "normalize_sf s e m rm fl = Some r" | w d where "fma_add w d rm fl = Some r"
    using r unfolding fma_sf_def Let_def split_beta by (metis option.inject snd_conv)
  then show ?thesis by cases (use fl sp low5_normalize low5_fma_add in blast)+
qed

lemma low5_cvt_i: "internal_cvt_i_sf a rm u fl = Some r \<Longrightarrow> low5 fl \<Longrightarrow> low5 (snd r)"
  by (auto simp: internal_cvt_i_sf_def Let_def split_beta dest: low5_norm)

lemma low5_cvt_sf32: "cvt_sf_sf32 a rm fl = Some r \<Longrightarrow> low5 fl \<Longrightarrow> low5 (snd r)"
  by (auto simp: cvt_sf_sf32_def unpack_sf_def Let_def split_beta split: if_splits dest: low5_norm)

lemma low5_simple [simp]:
  assumes "low5 fl"
  shows "low5 (snd (cvt_sf32_sf x fl))" "low5 (snd (internal_cvt_sf_i a rm u fl))" "low5 (snd (min_sf a b fl))" "low5 (snd (max_sf a b fl))"
    "low5 (snd (eq_quiet_sf a b fl))" "low5 (snd (le_sf a b fl))" "low5 (snd (lt_sf a b fl))"
  using assms
  by (simp_all add: cvt_sf32_sf_def unpack_sf_def internal_cvt_sf_i_def min_sf_def max_sf_def eq_quiet_sf_def le_sf_def lt_sf_def Let_def split_beta)

lemmas low5_ops = low5_add low5_sub low5_mul low5_div low5_sqrt low5_fma low5_cvt_sf32

section \<open>Not-a-number operands\<close>

context sf_format
begin

lemma finite_umag: "umag c < EXP_MASK (LENGTH('a)) * 2 ^ M \<longleftrightarrow> is_finite c" for c :: "'a word"
proof -
  have le: "exp_of c \<le> EXP_MASK (LENGTH('a))" using exp_bounds(2)[of c] sizes(8) by simp
  show ?thesis
  proof
    assume "umag c < EXP_MASK (LENGTH('a)) * 2 ^ M"
    then show "is_finite c" using mant_bounds(1)[of c] by (auto simp: umag_fields is_finite_def)
  next
    assume "is_finite c"
    then have "exp_of c < EXP_MASK (LENGTH('a))" using le by (simp add: is_finite_def)
    from digits_less[OF this mant_bounds(2)[of c]] show "umag c < EXP_MASK (LENGTH('a)) * 2 ^ M" by (simp add: umag_fields)
  qed
qed

lemma nan_umag: "EXP_MASK (LENGTH('a)) * 2 ^ M < umag c \<longleftrightarrow> isnan_sf c" for c :: "'a word"
proof -
  have m: "uint (mant_of c) = 0 \<longleftrightarrow> mant_of c = 0" by (simp add: uint_0_iff)
  show ?thesis
  proof (cases "is_finite c")
    case True
    then show ?thesis using finite_umag[of c] by (simp add: isnan_sf_def is_finite_def)
  next
    case False
    then show ?thesis using mant_bounds(1)[of c] m by (auto simp: umag_fields isnan_sf_def is_finite_def order_less_le)
  qed
qed

lemma issignan_eq: "issignan_sf a \<longleftrightarrow> isnan_sf a \<and> \<not> bit a (M - 1)" for a :: "'a word"
proof -
  let ?v = "drop_bit (M - 1) a AND (push_bit (E + 1) 1 - 1)" and ?q = "uint a div 2 ^ (M - 1)"
  have "(2 :: int) ^ M = 2 ^ (M - 1) * 2" using sizes(7) by (cases M) simp_all
  then have q: "?q div 2 = uint a div 2 ^ M" using zdiv_zmult2_eq[of 2 "uint a" "2 ^ (M - 1)"] by simp
  have "?v = drop_bit (M - 1) a AND mask (E + 1)" by (simp add: mask_eq_exp_minus_1)
  then have "uint ?v = ?q mod (2 * 2 ^ E)" by (simp only: uint_and_mask uint_drop power_add power_one_right mult.commute)
  also have "\<dots> = 2 * (?q div 2 mod 2 ^ E) + ?q mod 2" by (simp only: zmod_zmult2_eq zero_le_numeral zero_le_power)
  finally have v: "uint ?v = 2 * exp_of a + ?q mod 2" by (simp only: q exp_of_eq)
  have b: "bit a (M - 1) \<longleftrightarrow> odd ?q" by (simp only: bit_uint_iff[symmetric] bit_iff_odd)
      (metis bit_iff_odd bit_uint_iff bit_imp_le_length)
  have "2 * x + y mod 2 = 2 * z \<longleftrightarrow> x = z \<and> \<not> odd y" for x y z :: int by presburger
  then have "uint ?v = 2 * EXP_MASK (LENGTH('a)) \<longleftrightarrow> exp_of a = EXP_MASK (LENGTH('a)) \<and> \<not> bit a (M - 1)"
    unfolding v b .
  then show ?thesis by (auto simp: issignan_sf_def isnan_sf_def Let_def mant_of_def simp del: push_bit_of_1)
qed

lemma quiet_bit: "push_bit 3 (mant_of a) AND push_bit 3 QNAN_MASK = 0 \<longleftrightarrow> \<not> bit a (M - 1)" for a :: "'a word"
proof -
  have M: "M + 2 < LENGTH('a)" "1 \<le> M" using sizes(1,3,7) by linarith+
  have bits: "bit (push_bit 3 (mant_of a) AND push_bit 3 QNAN_MASK) n \<longleftrightarrow> n = M + 2 \<and> bit a (M - 1)" for n
    using M by (auto simp: bit_simps mant_of_def mant_mask QNAN_MASK_def)
  show ?thesis
  proof
    assume "push_bit 3 (mant_of a) AND push_bit 3 QNAN_MASK = 0"
    then show "\<not> bit a (M - 1)" using bits[of "M + 2"] by simp
  qed (auto intro: bit_eqI simp: bits)
qed

lemma nan_umag_less: "isnan_sf a \<Longrightarrow> \<not> isnan_sf b \<Longrightarrow> umag b < umag a" for a b :: "'a word"
  using nan_umag[of a] nan_umag[of b] by linarith

lemma nan_add:
  fixes a b :: "'a word"
  assumes "isnan_sf a \<or> isnan_sf b"
  shows "add_sf a b rm fl = Some (F_QNAN, flag (issignan_sf a \<or> issignan_sf b) 16 fl)"
proof -
  have main: "add_sf c d rm fl = Some (F_QNAN, flag (issignan_sf c \<or> issignan_sf d) 16 fl)"
    if "isnan_sf c" "umag d \<le> umag c" for c d :: "'a word"
  proof -
    have "\<not> c AND NOT SIGN_MASK < d AND NOT SIGN_MASK" using that(2) by (simp add: umag_def word_less_def)
    moreover have "push_bit 3 (mant_of c) \<noteq> 0"
    proof -
      have "(2 :: int) ^ (M + 3) < 2 ^ LENGTH('a)" using sizes(1,3) by (intro power_strict_increasing) auto
      then have "uint (push_bit 3 (mant_of c)) = uint (mant_of c) * 2 ^ 3" using mant_bounds(2)[of c] by (intro uint_shl) (simp add: power_add)
      then show ?thesis using that(1) by (auto simp: isnan_sf_def uint_0_iff)
    qed
    ultimately show ?thesis using that(1) unfolding add_sf_def Let_def quiet_bit issignan_eq[of c]
      by (simp add: isnan_sf_def)
  qed
  show ?thesis
  proof (cases "umag a < umag b")
    case True
    then have "isnan_sf b" using assms nan_umag_less[of a b] by auto
    then show ?thesis using main[of b a] True add_swap[OF True] by (simp add: disj_commute)
  next
    case False
    then have "isnan_sf a" using assms nan_umag_less[of b a] by auto
    then show ?thesis using main[of a b] False by simp
  qed
qed

lemma nan_rest:
  fixes a b :: "'a word"
  shows "isnan_sf a \<or> isnan_sf b \<Longrightarrow> mul_sf a b rm fl = Some (F_QNAN, flag (issignan_sf a \<or> issignan_sf b) 16 fl)"
    "isnan_sf a \<or> isnan_sf b \<Longrightarrow> div_sf a b rm fl = Some (F_QNAN, flag (issignan_sf a \<or> issignan_sf b) 16 fl)"
    "isnan_sf a \<Longrightarrow> sqrt_sf a rm fl = Some (F_QNAN, flag (issignan_sf a) 16 fl)"
  by (auto simp: mul_sf_def div_sf_def sqrt_sf_def Let_def isnan_sf_def)

end

section \<open>Totality\<close>

context sf_format
begin

lemma add_infinite:
  fixes a b :: "'a word"
  assumes "\<not> (is_finite a \<and> is_finite b)"
  shows "add_sf a b rm fl \<noteq> None"
proof -
  define p where "p \<longleftrightarrow> a AND NOT SIGN_MASK < b AND NOT SIGN_MASK"
  have p: "p \<longleftrightarrow> umag a < umag b" by (simp add: p_def word_less_def umag_def)
  have "exp_of (if p then b else a) = EXP_MASK (LENGTH('a))"
    using assms p finite_umag[of a] finite_umag[of b] by (auto simp: is_finite_def split: if_splits)
  then show ?thesis unfolding add_sf_def p_def[symmetric] by (auto simp: Let_def split: if_splits)
qed

lemma total:
  fixes a b c :: "'a word"
  shows "add_sf a b rm fl \<noteq> None" "sub_sf a b rm fl \<noteq> None" "mul_sf a b rm fl \<noteq> None" "div_sf a b rm fl \<noteq> None"
    "sqrt_sf a rm fl \<noteq> None" "fma_sf a b c rm fl \<noteq> None"
proof -
  show ad: "add_sf a b rm fl \<noteq> None" for a b :: "'a word"
    using add_finite[of a b rm fl] add_infinite[of a b rm fl] by blast
  show "sub_sf a b rm fl \<noteq> None" by (simp add: sub_sf_def ad)
  show "mul_sf a b rm fl \<noteq> None"
  proof (cases "is_finite a \<and> is_finite b \<and> \<not> is_zero a \<and> \<not> is_zero b")
    case True
    then show ?thesis using mul_finite[of a b rm fl] by blast
  next
    case False
    then show ?thesis by (auto simp: mul_sf_def Let_def is_finite_def is_zero_def)
  qed
  show "div_sf a b rm fl \<noteq> None"
  proof (cases "is_finite a \<and> is_finite b \<and> \<not> is_zero a \<and> \<not> is_zero b")
    case True
    then show ?thesis using div_finite[of a b rm fl] by blast
  next
    case False
    then show ?thesis by (auto simp: div_sf_def Let_def is_finite_def is_zero_def)
  qed
  show "sqrt_sf a rm fl \<noteq> None"
  proof (cases "is_finite a \<and> \<not> is_zero a \<and> \<not> sign_of a")
    case True
    then show ?thesis using sqrt_finite[of a rm fl] by blast
  next
    case False
    then show ?thesis by (auto simp: sqrt_sf_def Let_def is_finite_def is_zero_def)
  qed
  show "fma_sf a b c rm fl \<noteq> None"
  proof (cases "is_finite a \<and> is_finite b \<and> is_finite c")
    case True
    then show ?thesis using fma_finite[of a b c rm fl] by blast
  next
    case False
    then show ?thesis by (auto simp: fma_sf_def Let_def is_finite_def)
  qed
qed

lemma cvt_total: "(internal_cvt_i_sf i rm u fl :: ('a word \<times> u32) option) \<noteq> None"
  using cvt_from_int[of i rm u fl] by blast

end

section \<open>Between the formats\<close>

lemma format_consts [simp]:
  "bias 32 = 127" "bias 64 = 1023" "EXP_MASK 32 = 255" "EXP_MASK 64 = 2047" "MANT_SIZE 32 = 23" "MANT_SIZE 64 = 52"
  by (simp_all add: bias_def EXP_MASK_def EXP_SIZE_def MANT_SIZE_def push_bit_eq_mult)

lemma cvt32_64_exact:
  fixes a :: u32 and fl :: u32
  assumes "is_finite a"
  defines "r \<equiv> cvt_sf32_sf a fl :: u64 \<times> u32"
  shows "is_finite (fst r)" "sign_of (fst r) = sign_of a" "fval (fst r) = fval a" "snd r = fl"
proof -
  have "is_finite (fst r) \<and> sign_of (fst r) = sign_of a \<and> fmag (fst r) = fmag a \<and> snd r = fl"
  proof (cases "is_zero a")
    case True
    then have r: "r = (pack_sf (sign_of a) 0 0, fl)" by (simp add: r_def cvt_sf32_sf_def unpack_sf_def is_zero_def Let_def)
    have "fmag a = 0" using True sf32.fmag_zero by simp
    then show ?thesis using sf64.pack_small[of 0 "sign_of a"] by (simp add: r)
  next
    case False
    obtain e n where no: "norm_operand (exp_of a) (mant_of a) = (e, n)" by (metis surj_pair)
    note N = sf32.norm_operand_correct[OF False no]
    define m where "m = (if exp_of a = 0 then n else mant_of a)"
    have nm: "uint n = 2 ^ 23 + uint m mod 2 ^ 23"
    proof (cases "exp_of a = 0")
      case True
      have "uint n div 2 ^ 23 = 1" using N(1,2) by (intro int_div_pos_eq[where r = "uint n - 2 ^ 23"]) auto
      then show ?thesis using True div_mult_mod_eq[of "uint n" "2 ^ 23"] by (simp add: m_def)
    next
      case f: False
      then have "fmag a = of_int (uint (mant_of a) + 2 ^ 23) * 2 powi (e - bias 32 - 23)" "e = exp_of a"
        using no by (simp_all add: fmag_def fsig_def fexp_def norm_operand_def)
      with N(3) have "of_int (uint n) = (of_int (uint (mant_of a) + 2 ^ 23) :: real)" by simp
      then have "uint n = uint (mant_of a) + 2 ^ 23" by (simp only: of_int_eq_iff)
      then show ?thesis using f sf32.mant_bounds[of a] by (simp add: m_def)
    qed
    have eb: "- 22 \<le> e" "e \<le> 254"
    proof -
      have "- 22 \<le> e \<and> e \<le> 254"
      proof (cases "exp_of a = 0")
        case True
        then have nz: "mant_of a \<noteq> 0" using False by (simp add: is_zero_def)
        note c = clz_bounds[OF nz]
        have "(2 :: int) ^ (31 - clz (mant_of a)) < 2 ^ 23" using c(2) sf32.mant_bounds(2)[of a] by simp
        then have "31 - clz (mant_of a) < 23" by (rule power_less_imp_less_exp[rotated]) simp
        then show ?thesis using True no c(1) by (auto simp: norm_operand_def normalize_subnormal_sf_def Let_def)
      next
        case f: False
        have "exp_of a \<noteq> 255" using assms(1) by (simp add: is_finite_def)
        then show ?thesis using f no sf32.exp_bounds[of a] by (simp add: norm_operand_def)
      qed
      then show "- 22 \<le> e" "e \<le> 254" by blast+
    qed
    have r: "r = (pack_sf (sign_of a) (896 + e) (push_bit 29 (ucast m)), fl)"
      using False assms(1) no
      by (auto simp: r_def cvt_sf32_sf_def unpack_sf_def is_zero_def is_finite_def Let_def m_def norm_operand_def split: prod.splits)
    have um: "uint (push_bit 29 (ucast m :: u64)) = uint m * 2 ^ 29"
      using uint_bounded[of m] by (subst uint_shl) (simp_all add: uint_ucast_up)
    have "uint m * 2 ^ 29 mod 2 ^ 52 = uint m mod 2 ^ 23 * 2 ^ 29"
      using mult_mod_left[of "uint m" "2 ^ 23" "2 ^ 29"] by simp
    then have mm: "uint (mant_of (fst r)) = (uint n - 2 ^ 23) * 2 ^ 29"
      using sf64.pack_fields(3)[of "896 + e" "sign_of a" "push_bit 29 (ucast m)"] eb nm unfolding r um by simp
    have ex: "exp_of (fst r) = 896 + e" "sign_of (fst r) = sign_of a"
      using sf64.pack_fields(1,2)[of "896 + e" "sign_of a" "push_bit 29 (ucast m)"] eb by (simp_all add: r)
    have "fsig (fst r) = uint n * 2 ^ 29" using ex eb mm by (simp add: fsig_def)
    then have "fmag (fst r) = of_int (uint n * 2 ^ 29) * 2 powi (896 + e - 1023 - 52)" using ex eb by (simp add: fmag_def fexp_def)
    moreover have "(2 :: real) powi (e - 127 - 23) = 2 powi (896 + e - 1023 - 52) * 2 ^ 29"
      using powi_mult_split[of "896 + e - 1023 - 52" 29] by (simp add: algebra_simps)
    ultimately have "fmag (fst r) = fmag a" unfolding N(3) by simp
    then show ?thesis using ex eb by (simp add: is_finite_def r)
  qed
  then show "is_finite (fst r)" "sign_of (fst r) = sign_of a" "fval (fst r) = fval a" "snd r = fl" by (simp_all add: fval_def)
qed

text \<open>Far below the smallest subnormal number of single precision all values round alike.\<close>

lemma ieee_round_tiny:
  assumes "0 < x" "x < 2 powi (- 150)"
  shows "ieee_round 32 rm s x = (if rm = RM_RDN \<and> s \<or> rm = RM_RUP \<and> \<not> s then 2 powi (- 149) else 0)"
proof -
  have "log 2 x < log 2 (2 powi (- 150))" using assms by (subst log_less_cancel_iff) auto
  then have "log 2 x < - 150" by (simp only: log_powi)
  then have "\<lfloor>log 2 x\<rfloor> \<le> - 126" by linarith
  then have u: "ieee_ulp 32 x = - 149" by (simp add: ieee_ulp_def)
  define z where "z = x / 2 powi (- 149)"
  have "(2 :: real) powi (- 149) = 2 powi (- 150) * 2" using powi_mult_split[of "- 150" 1] by simp
  then have z: "0 < z" "z < 1 / 2" using assms by (simp_all add: z_def field_simps)
  then have fl: "\<lfloor>z\<rfloor> = 0" "\<lceil>z\<rceil> = 1" by linarith+
  have "rnd_int rm s z = (if rm = RM_RDN \<and> s \<or> rm = RM_RUP \<and> \<not> s then 1 else 0)"
    using z fl by (cases rm) (simp_all add: rnd_int_def)
  then show ?thesis unfolding ieee_round_def u z_def by simp
qed

lemma rounds_to_tiny:
  assumes "0 < x" "x < 2 powi (- 150)" "0 < x'" "x' < 2 powi (- 150)"
  shows "rounds_to rm s x fl (r :: u32 \<times> u32) \<longleftrightarrow> rounds_to rm s x' fl r"
proof -
  have "(2 :: real) powi (- 150) < 2 powi (- 149)" by (intro power_int_strict_increasing) auto
  then have n: "ieee_round 32 rm s y \<noteq> y" if "0 < y" "y < 2 powi (- 150)" for y
    using that ieee_round_tiny[OF that, of rm s] by (auto split: if_splits)
  have nx: "ieee_round (LENGTH(32)) rm s x \<noteq> x" "ieee_round (LENGTH(32)) rm s x' \<noteq> x'" using n assms by simp_all
  have e: "ieee_round (LENGTH(32)) rm s x = ieee_round (LENGTH(32)) rm s x'" using assms by (simp add: ieee_round_tiny)
  show ?thesis using nx unfolding rounds_to_def Let_def e by (simp only: simp_thms not_False_eq_True)
qed

lemma cvt64_32_correct:
  fixes a :: u64
  assumes "is_finite a" "\<not> is_zero a"
  shows "\<exists>r. cvt_sf_sf32 a rm fl = Some r \<and> rounds_to rm (sign_of a) (fmag a) fl r"
proof -
  define e where "e = (if exp_of a = 0 then fst (normalize_subnormal_sf (mant_of a)) else exp_of a)"
  define m where "m = (if exp_of a = 0 then mant_of a else mant_of a OR push_bit 52 1)"
  have mb: "uint (mant_of a) < 2 ^ 52" by (rule sf64.mant_bounds)
  have um: "uint m = fsig a"
  proof (cases "exp_of a = 0")
    case False
    have "uint (push_bit 52 1 OR mant_of a) = 1 * 2 ^ 52 + uint (mant_of a)"
      using mb by (subst uint_or_shl) simp_all
    then show ?thesis using False by (simp add: m_def fsig_def or.commute)
  qed (simp add: m_def fsig_def)
  define s where "s = sticky_shift 22 (fsig a)"
  have fb: "0 \<le> fsig a" "fsig a < 2 ^ 53" using sf64.fsig_bounds(1,2)[of a] by simp_all
  have sb: "s < 2 ^ 31" unfolding s_def using fb(2) by (intro sticky_shift_less) simp_all
  have s0: "0 \<le> s" using sticky_shift_bounds(1)[OF fb(1), of 22] fb(1) pos_imp_zdiv_nonneg_iff[of "2 ^ 22" "fsig a"] by (simp add: s_def)
  have us: "uint (ucast (rshift_rnd m 22) :: u32) = s"
    using sb s0 by (simp add: unsigned_ucast_eq take_bit_int_eq_self uint_rshift_rnd um s_def)
  have st: "sticky 0 s (of_int (fsig a) / 2 ^ 22)" unfolding s_def by (rule sticky_shift_exact)
  have fpos: "0 < fmag a" using sf64.fmag_nonneg[of a] sf64.fmag_zero[of a] assms(2) by (simp add: order_less_le)
  then have "fsig a \<noteq> 0" by (auto simp: fmag_def)
  then have nz: "s \<noteq> 0" using sticky_less(3)[OF st, of 0] by simp
  then have wz: "(ucast (rshift_rnd m 22) :: u32) \<noteq> 0" using us by auto
  have eq: "cvt_sf_sf32 a rm fl = normalize_sf (sign_of a) (e - 896) (ucast (rshift_rnd m 22) :: u32) rm fl"
    using assms by (auto simp: cvt_sf_sf32_def unpack_sf_def Let_def is_finite_def is_zero_def e_def m_def)
  show ?thesis
  proof (cases "exp_of a = 0")
    case False
    have "2 ^ 52 \<le> fsig a" using sf64.fsig_bounds(3)[OF False] by simp
    then have "2 ^ 30 \<le> s" using zdiv_mono1[of "2 ^ 52" "fsig a" "2 ^ 22"] sticky_shift_bounds(1)[OF fb(1), of 22] by (simp add: s_def)
    then have big: "of_int (fsig a) / 2 ^ 22 = (of_int s :: real) \<or> 2 ^ (23 + 2) \<le> s" by simp
    have "(2 :: real) powi (e - 1023 - 52) * 2 ^ 22 = 2 powi (e - 896 - 127 - 30) * 2 ^ 0" by (intro powi_balance) simp
    moreover have "fmag a = of_int (fsig a) * 2 powi (e - 1023 - 52)" using False by (simp add: fmag_def fexp_def e_def)
    ultimately have "fmag a = of_int (fsig a) / 2 ^ 22 * 2 powi (e - 896 - 127 - 30)" by simp
    then have "fmag a = of_int (fsig a) / 2 ^ 22 * 2 powi (e - 896 - bias (LENGTH(32)) - int (LENGTH(32) - 2))" by simp
    from sf32.normalize_correct[OF wz, unfolded us, OF _ st big this] sb show ?thesis by (simp add: eq)
  next
    case True
    then have mz: "mant_of a \<noteq> 0" using assms(2) by (simp add: is_zero_def)
    note c = clz_bounds[OF mz]
    have "(2 :: int) ^ (63 - clz (mant_of a)) < 2 ^ 52" using c(2) mb by simp
    then have "63 - clz (mant_of a) < 52" by (rule power_less_imp_less_exp[rotated]) simp
    then have e0: "e \<le> 0" using True c(1) by (simp add: e_def normalize_subnormal_sf_def Let_def)
    define x where "x = of_int s * (2 :: real) powi (e - 896 - 127 - 30)"
    have "of_int s < (2 :: real) ^ 31" using sb by (metis of_int_less_iff of_int_numeral of_int_power)
    moreover have "0 < (of_int s :: real)" using s0 nz by simp
    ultimately have x: "0 < x" "x < 2 powi (e - 896 - 127 - 30) * 2 ^ 31" by (simp_all add: x_def)
    have "(2 :: real) powi (e - 896 - 127 - 30) * 2 ^ 31 = 2 powi (e - 1022)" using powi_mult_split[of "e - 1053" 31] by simp
    also have "\<dots> \<le> 2 powi (- 150)" using e0 by (intro power_int_increasing) auto
    finally have xt: "x < 2 powi (- 150)" using x(2) by linarith
    have at: "fmag a < 2 powi (- 150)"
    proof -
      have "fmag a = of_int (fsig a) * 2 powi (- 1074)" using True by (simp add: fmag_def fexp_def)
      also have "\<dots> < 2 ^ 53 * 2 powi (- 1074)"
      proof -
        have "of_int (fsig a) < (2 :: real) ^ 53" using fb(2) by (metis of_int_less_iff of_int_numeral of_int_power)
        then show ?thesis by simp
      qed
      also have "\<dots> = 2 powi (- 1021)" using powi_mult_split[of "- 1074" 53] by simp
      also have "\<dots> \<le> 2 powi (- 150)" by (intro power_int_increasing) auto
      finally show ?thesis .
    qed
    have "x = of_int s * 2 powi (e - 896 - bias (LENGTH(32)) - int (LENGTH(32) - 2))" by (simp add: x_def)
    from sf32.normalize_correct[OF wz, unfolded us, OF _ sticky_exact disjI1[OF refl] this, of "sign_of a" rm fl] sb
    show ?thesis unfolding eq using rounds_to_tiny[OF x(1) xt fpos at] by auto
  qed
qed

lemma cvt64_32_total: "cvt_sf_sf32 a rm fl \<noteq> None" for a :: u64
proof (cases "is_finite a \<and> \<not> is_zero a")
  case True
  then show ?thesis using cvt64_32_correct[of a rm fl] by blast
next
  case False
  then show ?thesis by (auto simp: cvt_sf_sf32_def unpack_sf_def is_finite_def is_zero_def Let_def)
qed

section \<open>Properties of the library\<close>

text \<open>
  C2. Addition and subtraction of finite numbers, in both precisions and in every rounding mode, return the
  exact sum or difference rounded once as IEEE 754 prescribes, with the inexact and overflow flags; a
  zero result is negative for equal negative signs, and otherwise only when rounding down.
\<close>

theorem add_sub_rounded:
  fixes a b :: u32 and c d :: u64
  assumes "is_finite a" "is_finite b" "is_finite c" "is_finite d"
  shows "(\<exists>r. add_sf a b rm fl = Some r
      \<and> rounds_real rm (if sign_of a = sign_of b then sign_of a else rm = RM_RDN) (fval a + fval b) fl r)
    \<and> (\<exists>r. sub_sf a b rm fl = Some r
      \<and> rounds_real rm (if sign_of a \<noteq> sign_of b then sign_of a else rm = RM_RDN) (fval a - fval b) fl r)
    \<and> (\<exists>r. add_sf c d rm fl = Some r
      \<and> rounds_real rm (if sign_of c = sign_of d then sign_of c else rm = RM_RDN) (fval c + fval d) fl r)
    \<and> (\<exists>r. sub_sf c d rm fl = Some r
      \<and> rounds_real rm (if sign_of c \<noteq> sign_of d then sign_of c else rm = RM_RDN) (fval c - fval d) fl r)"
  using sf32.add_finite[OF assms(1,2)] sf32.sub_finite[OF assms(1,2)]
    sf64.add_finite[OF assms(3,4)] sf64.sub_finite[OF assms(3,4)] by (intro conjI)

theorem add_sub_rounded_witness:
  "add_sf (0x7fefffffffffffff :: u64) 0x7fefffffffffffff RM_RNE 0 = Some (0x7ff0000000000000, 5)
   \<and> rounds_real RM_RNE False (fval (0x7fefffffffffffff :: u64) + fval (0x7fefffffffffffff :: u64)) 0 (0x7ff0000000000000 :: u64, 5)"
proof -
  have f: "is_finite (0x7fefffffffffffff :: u64)" "is_finite (0x40400000 :: u32)" "\<not> sign_of (0x7fefffffffffffff :: u64)" by code_simp+
  have "add_sf (0x7fefffffffffffff :: u64) 0x7fefffffffffffff RM_RNE 0 = Some (0x7ff0000000000000, 5)" by code_simp
  with add_sub_rounded[OF f(2,2,1,1), of RM_RNE 0] f(3) show ?thesis by simp
qed

text \<open>
  C4. Multiplication and division of finite nonzero numbers return the exact product or quotient rounded
  once as IEEE 754 prescribes, with the inexact and overflow flags and the product of the signs.
\<close>

theorem mul_div_rounded:
  fixes a b :: u32 and c d :: u64
  assumes "is_finite a" "is_finite b" "\<not> is_zero a" "\<not> is_zero b" "is_finite c" "is_finite d" "\<not> is_zero c" "\<not> is_zero d"
  shows "(\<exists>r. mul_sf a b rm fl = Some r \<and> rounds_to rm (sign_of a \<noteq> sign_of b) (fmag a * fmag b) fl r)
    \<and> (\<exists>r. div_sf a b rm fl = Some r \<and> rounds_to rm (sign_of a \<noteq> sign_of b) (fmag a / fmag b) fl r)
    \<and> (\<exists>r. mul_sf c d rm fl = Some r \<and> rounds_to rm (sign_of c \<noteq> sign_of d) (fmag c * fmag d) fl r)
    \<and> (\<exists>r. div_sf c d rm fl = Some r \<and> rounds_to rm (sign_of c \<noteq> sign_of d) (fmag c / fmag d) fl r)"
  using sf32.mul_finite[OF assms(1-4)] sf32.div_finite[OF assms(1-4)]
    sf64.mul_finite[OF assms(5-8)] sf64.div_finite[OF assms(5-8)] by (intro conjI)

theorem mul_div_rounded_witness:
  "div_sf (0x3ff0000000000000 :: u64) 0xc008000000000000 RM_RDN 0 = Some (0xbfd5555555555556, 1)
   \<and> rounds_to RM_RDN True (fmag (0x3ff0000000000000 :: u64) / fmag (0xc008000000000000 :: u64)) 0 (0xbfd5555555555556 :: u64, 1)"
proof -
  have f: "is_finite (0x3ff0000000000000 :: u64)" "is_finite (0xc008000000000000 :: u64)" "\<not> is_zero (0x3ff0000000000000 :: u64)"
    "\<not> is_zero (0xc008000000000000 :: u64)" "\<not> sign_of (0x3ff0000000000000 :: u64)" "sign_of (0xc008000000000000 :: u64)"
    "is_finite (0x40400000 :: u32)" "\<not> is_zero (0x40400000 :: u32)" by code_simp+
  have "div_sf (0x3ff0000000000000 :: u64) 0xc008000000000000 RM_RDN 0 = Some (0xbfd5555555555556, 1)" by code_simp
  with mul_div_rounded[OF f(7,7,8,8,1,2,3,4), of RM_RDN 0] f(5,6) show ?thesis by simp
qed

text \<open>
  C5. The square root of a positive finite number is the exact root rounded once: the Newton iteration ends
  at the integer square root, whose remainder decides the sticky bit.
\<close>

theorem sqrt_rounded:
  fixes a :: u32 and c :: u64
  assumes "is_finite a" "\<not> is_zero a" "\<not> sign_of a" "is_finite c" "\<not> is_zero c" "\<not> sign_of c"
  shows "(\<exists>r. sqrt_sf a rm fl = Some r \<and> rounds_to rm False (sqrt (fmag a)) fl r)
    \<and> (\<exists>r. sqrt_sf c rm fl = Some r \<and> rounds_to rm False (sqrt (fmag c)) fl r)"
  using sf32.sqrt_finite[OF assms(1-3)] sf64.sqrt_finite[OF assms(4-6)] by (intro conjI)

theorem sqrt_rounded_witness:
  "sqrt_sf (0x40000000 :: u32) RM_RNE 0 = Some (0x3fb504f3, 1)
   \<and> rounds_to RM_RNE False (sqrt (fmag (0x40000000 :: u32))) 0 (0x3fb504f3 :: u32, 1)"
proof -
  have f: "is_finite (0x40000000 :: u32)" "\<not> is_zero (0x40000000 :: u32)" "\<not> sign_of (0x40000000 :: u32)"
    "is_finite (0x3ff0000000000000 :: u64)" "\<not> is_zero (0x3ff0000000000000 :: u64)" "\<not> sign_of (0x3ff0000000000000 :: u64)" by code_simp+
  have "sqrt_sf (0x40000000 :: u32) RM_RNE 0 = Some (0x3fb504f3, 1)" by code_simp
  with sqrt_rounded[OF f, of RM_RNE 0] show ?thesis by simp
qed

text \<open>
  C3. The fused multiply-add of finite numbers returns \<open>a * b + c\<close> rounded once, although the alignment of
  the smaller operand drops its low word when it moves by more than one word.
\<close>

theorem fma_rounded:
  fixes a b c :: u32 and a' b' c' :: u64
  assumes "is_finite a" "is_finite b" "is_finite c" "is_finite a'" "is_finite b'" "is_finite c'"
  shows "(\<exists>r. fma_sf a b c rm fl = Some r
      \<and> rounds_real rm (if (sign_of a \<noteq> sign_of b) = sign_of c then sign_of c else rm = RM_RDN) (fval a * fval b + fval c) fl r)
    \<and> (\<exists>r. fma_sf a' b' c' rm fl = Some r
      \<and> rounds_real rm (if (sign_of a' \<noteq> sign_of b') = sign_of c' then sign_of c' else rm = RM_RDN) (fval a' * fval b' + fval c') fl r)"
  using sf32.fma_finite[OF assms(1-3)] sf64.fma_finite[OF assms(4-6)] by (intro conjI)

theorem fma_rounded_witness:
  "fma_sf (0x3f800001 :: u32) 0x3f800001 0xbf800002 RM_RNE 0 = Some (0x28800000, 0)
   \<and> rounds_real RM_RNE False (fval (0x3f800001 :: u32) * fval (0x3f800001 :: u32) + fval (0xbf800002 :: u32)) 0 (0x28800000 :: u32, 0)"
proof -
  have f: "is_finite (0x3f800001 :: u32)" "is_finite (0xbf800002 :: u32)" "\<not> sign_of (0x3f800001 :: u32)" "sign_of (0xbf800002 :: u32)"
    "is_finite (0x3ff0000000000000 :: u64)" by code_simp+
  have "fma_sf (0x3f800001 :: u32) 0x3f800001 0xbf800002 RM_RNE 0 = Some (0x28800000, 0)" by code_simp
  with fma_rounded[OF f(1,1,2,5,5,5), of RM_RNE 0] f(3,4) show ?thesis by simp
qed

text \<open>
  C8. Conversion of a finite number to a 32-bit or 64-bit integer, signed or unsigned, returns the value
  rounded in the given mode and saturated at the bounds of the integer type; saturation raises the
  invalid flag and only it, and an in-range result raises inexact exactly when it differs.
\<close>

theorem to_int_saturates:
  fixes a :: u32 and c :: u64 and uns :: bool and fl :: u32 and rm
  assumes "is_finite a" "is_finite c"
  defines "v \<equiv> (if sign_of a then - rnd_int rm True (fmag a) else rnd_int rm False (fmag a))"
    and "w \<equiv> (if sign_of c then - rnd_int rm True (fmag c) else rnd_int rm False (fmag c))"
  shows "(internal_cvt_sf_i a rm uns fl :: u32 \<times> u32)
      = (word_of_int (max (int_lo uns 32) (min (int_hi uns 32) v)),
         if int_lo uns 32 \<le> v \<and> v \<le> int_hi uns 32 then flag (of_int v \<noteq> fval a) 1 fl else fl OR 16)
    \<and> (internal_cvt_sf_i a rm uns fl :: u64 \<times> u32)
      = (word_of_int (max (int_lo uns 64) (min (int_hi uns 64) v)),
         if int_lo uns 64 \<le> v \<and> v \<le> int_hi uns 64 then flag (of_int v \<noteq> fval a) 1 fl else fl OR 16)
    \<and> (internal_cvt_sf_i c rm uns fl :: u32 \<times> u32)
      = (word_of_int (max (int_lo uns 32) (min (int_hi uns 32) w)),
         if int_lo uns 32 \<le> w \<and> w \<le> int_hi uns 32 then flag (of_int w \<noteq> fval c) 1 fl else fl OR 16)
    \<and> (internal_cvt_sf_i c rm uns fl :: u64 \<times> u32)
      = (word_of_int (max (int_lo uns 64) (min (int_hi uns 64) w)),
         if int_lo uns 64 \<le> w \<and> w \<le> int_hi uns 64 then flag (of_int w \<noteq> fval c) 1 fl else fl OR 16)"
  unfolding v_def w_def
  using sf32.cvt_to_int[OF assms(1), where ?'i = 32, of rm uns fl] sf32.cvt_to_int[OF assms(1), where ?'i = 64, of rm uns fl]
    sf64.cvt_to_int[OF assms(2), where ?'i = 32, of rm uns fl] sf64.cvt_to_int[OF assms(2), where ?'i = 64, of rm uns fl]
  by simp

theorem to_int_saturates_witness:
  "fst (internal_cvt_sf_i (0xc0200000 :: u32) RM_RNE False 0 :: u32 \<times> u32) = - 2
   \<and> fst (internal_cvt_sf_i (0xc0200000 :: u32) RM_RNE False 0 :: u32 \<times> u32)
     = word_of_int (max (- (2 ^ 31)) (min (2 ^ 31 - 1) (- rnd_int RM_RNE True (fmag (0xc0200000 :: u32)))))"
proof -
  have f: "is_finite (0xc0200000 :: u32)" "sign_of (0xc0200000 :: u32)" "is_finite (0x3ff0000000000000 :: u64)" by code_simp+
  have "fst (internal_cvt_sf_i (0xc0200000 :: u32) RM_RNE False 0 :: u32 \<times> u32) = - 2" by code_simp
  with to_int_saturates[OF f(1,3), of RM_RNE False 0] f(2) show ?thesis by (simp add: int_lo_def int_hi_def)
qed

text \<open>
  C9. Conversion from an integer of 32 or 64 bits, signed or unsigned, returns the correctly rounded number,
  in both precisions.
\<close>

theorem from_int_rounded:
  fixes i :: u32 and j :: u64
  shows "(\<exists>r :: u32 \<times> u32. internal_cvt_i_sf i rm uns fl = Some r \<and> rounds_real rm False (of_int (if uns then uint i else sint i)) fl r)
    \<and> (\<exists>r :: u64 \<times> u32. internal_cvt_i_sf i rm uns fl = Some r \<and> rounds_real rm False (of_int (if uns then uint i else sint i)) fl r)
    \<and> (\<exists>r :: u32 \<times> u32. internal_cvt_i_sf j rm uns fl = Some r \<and> rounds_real rm False (of_int (if uns then uint j else sint j)) fl r)
    \<and> (\<exists>r :: u64 \<times> u32. internal_cvt_i_sf j rm uns fl = Some r \<and> rounds_real rm False (of_int (if uns then uint j else sint j)) fl r)"
  by (intro conjI sf32.cvt_from_int sf64.cvt_from_int)

text \<open>
  C10. Widening a finite number from single to double precision is exact and leaves the flags; narrowing a
  finite nonzero number rounds it once, although for a subnormal operand the source uses a mantissa that
  does not match the exponent.
\<close>

theorem widen_narrow:
  fixes a :: u32 and c :: u64
  assumes "is_finite a" "is_finite c" "\<not> is_zero c"
  shows "fval (fst (cvt_sf32_sf a fl) :: u64) = fval a \<and> snd (cvt_sf32_sf a fl :: u64 \<times> u32) = fl
    \<and> (\<exists>r. cvt_sf_sf32 c rm fl = Some r \<and> rounds_to rm (sign_of c) (fmag c) fl r)"
  using cvt32_64_exact(3,4)[OF assms(1)] cvt64_32_correct[OF assms(2,3)] by blast

theorem widen_narrow_witness:
  "cvt_sf_sf32 (0x3ff0000000000001 :: u64) RM_RUP 0 = Some (0x3f800001, 1)
   \<and> rounds_to RM_RUP False (fmag (0x3ff0000000000001 :: u64)) 0 (0x3f800001 :: u32, 1)"
proof -
  have f: "is_finite (0x40400000 :: u32)" "is_finite (0x3ff0000000000001 :: u64)" "\<not> is_zero (0x3ff0000000000001 :: u64)"
    "\<not> sign_of (0x3ff0000000000001 :: u64)" by code_simp+
  have "cvt_sf_sf32 (0x3ff0000000000001 :: u64) RM_RUP 0 = Some (0x3f800001, 1)" by code_simp
  with widen_narrow[OF f(1-3), of 0 RM_RUP] f(4) show ?thesis by simp
qed

text \<open>
  C11. On operands that are not NaN the comparisons decide the order of the values and raise no flag, minimum
  and maximum select the smaller and the larger value; zeros of both signs are equal. An infinity counts
  as \<open>2 ^ (bias + 1)\<close> with its sign, beyond every finite number.
\<close>

theorem comparisons_order:
  fixes a b :: u32 and c d :: u64
  assumes "\<not> isnan_sf a" "\<not> isnan_sf b" "\<not> isnan_sf c" "\<not> isnan_sf d"
  shows "le_sf a b fl = (fval a \<le> fval b, fl) \<and> lt_sf a b fl = (fval a < fval b, fl) \<and> eq_quiet_sf a b fl = (fval a = fval b, fl)
    \<and> le_sf c d fl = (fval c \<le> fval d, fl) \<and> lt_sf c d fl = (fval c < fval d, fl) \<and> eq_quiet_sf c d fl = (fval c = fval d, fl)
    \<and> fval (fst (min_sf a b fl)) = min (fval a) (fval b) \<and> fval (fst (max_sf a b fl)) = max (fval a) (fval b)
    \<and> fval (fst (min_sf c d fl)) = min (fval c) (fval d) \<and> fval (fst (max_sf c d fl)) = max (fval c) (fval d)"
  using assms
  by (intro conjI sf32.le_correct sf32.lt_correct sf32.eq_correct sf64.le_correct sf64.lt_correct sf64.eq_correct
      sf32.min_max_correct sf64.min_max_correct)

theorem comparisons_order_witness:
  "lt_sf (0xc0400000 :: u32) 0x80000000 0 = (True, 0) \<and> fval (0xc0400000 :: u32) < fval (0x80000000 :: u32)"
proof -
  have f: "\<not> isnan_sf (0xc0400000 :: u32)" "\<not> isnan_sf (0x80000000 :: u32)" "\<not> isnan_sf (0x3ff0000000000000 :: u64)" by code_simp+
  have "lt_sf (0xc0400000 :: u32) 0x80000000 0 = (True, 0)" by code_simp
  with comparisons_order[OF f(1,2,3,3), of 0] show ?thesis by simp
qed

text \<open>
  An operation on a NaN returns the default NaN, and raises the invalid flag exactly when an operand is a
  signaling NaN.
\<close>

theorem nan_operands:
  fixes a b :: u32 and c d :: u64
  assumes "isnan_sf a \<or> isnan_sf b" "isnan_sf c \<or> isnan_sf d"
  shows "add_sf a b rm fl = Some (F_QNAN, flag (issignan_sf a \<or> issignan_sf b) 16 fl)
    \<and> mul_sf a b rm fl = Some (F_QNAN, flag (issignan_sf a \<or> issignan_sf b) 16 fl)
    \<and> div_sf a b rm fl = Some (F_QNAN, flag (issignan_sf a \<or> issignan_sf b) 16 fl)
    \<and> add_sf c d rm fl = Some (F_QNAN, flag (issignan_sf c \<or> issignan_sf d) 16 fl)
    \<and> mul_sf c d rm fl = Some (F_QNAN, flag (issignan_sf c \<or> issignan_sf d) 16 fl)
    \<and> div_sf c d rm fl = Some (F_QNAN, flag (issignan_sf c \<or> issignan_sf d) 16 fl)"
  using sf32.nan_add[OF assms(1)] sf32.nan_rest(1,2)[OF assms(1)] sf64.nan_add[OF assms(2)] sf64.nan_rest(1,2)[OF assms(2)]
  by (intro conjI)

theorem nan_operands_witness:
  "add_sf (0x7f800001 :: u32) 0x3f800000 RM_RNE 0 = Some (0x7fc00000, 16)"
proof -
  have f: "isnan_sf (0x7f800001 :: u32)" "isnan_sf (0x7ff8000000000000 :: u64)" "issignan_sf (0x7f800001 :: u32)" by code_simp+
  have q: "(F_QNAN :: u32) = 0x7fc00000" by code_simp
  show ?thesis using nan_operands[of "0x7f800001" "0x3f800000" "0x7ff8000000000000" 0 RM_RNE 0] f q by (simp add: flag_def)
qed


end
