(* ===== verification/Devices.thy ===== *)
theory Devices
  imports Fpu_Theorems
begin

unbundle bit_operations_syntax

text \<open>
  The state of the machine and the devices of \<^verbatim>\<open>riscv_machine.cpp\<close> and \<^verbatim>\<open>dw_apb_uart.cpp\<close>: the SiFive UART,
  the DesignWare UART, the core-local interruptor (CLINT) and the platform interrupt controller
  (PLIC), with their read and write callbacks, the interrupt line \<^verbatim>\<open>plic_set_irq\<close>, the write-TLB flush
  callback and \<^verbatim>\<open>virt_machine_get_sleep_duration\<close>. The virtio devices, whose state is declared here, are
  the subject of \<^verbatim>\<open>Virtio\<close>.

  The harts are the array \<^verbatim>\<open>cpu_state\<close>; the hart that executes at the moment is the \<open>cpu\<close> of the system
  state, the others are in the device state. The console behind a UART is a queue of input bytes and
  the list of bytes written. A failed \<^verbatim>\<open>assert\<close>, the use of the null pointer \<^verbatim>\<open>cpu_state[i]\<close> for
  \<open>i \<ge> ncpus\<close>, any other access outside an object and a call that never returns stop the program;
  the flag \<open>aborted\<close> records it. Messages to \<^verbatim>\<open>stderr\<close> are left out.
\<close>

section \<open>State\<close>

record SiFiveUARTState =
  rx_fifo_len :: nat
  ie :: u32
  ip :: u32
  txctrl :: u32
  rxctrl :: u32
  uart_div :: u32

record DW_apb_uart_state =
  div_latch :: u16
  rbr :: u8
  ier :: u8
  fcr :: u8
  iid :: u8
  lcr :: u8
  lsr :: u8

text \<open>
  A virtio device (\<^verbatim>\<open>virtio.cpp\<close>): the transport's registers and queues, and per kind of device the fields
  of the structures that extend \<^verbatim>\<open>VIRTIODevice\<close>. \<open>vd_irq\<close> is the index of its signal in \<^verbatim>\<open>plic_irq\<close>. The
  callbacks \<^verbatim>\<open>device_recv\<close> and \<^verbatim>\<open>config_write\<close> are determined by the kind. The block back end is a file of
  \<^verbatim>\<open>dromajo_main.cpp\<close> (its bytes), the network the list of packets sent. \<open>junk\<close> is what uninitialised
  locals and blocks of \<^verbatim>\<open>malloc\<close> contain.
\<close>

record QueueState =
  ready :: u32
  num :: u32
  last_avail_idx :: u16
  desc_addr :: u64
  avail_addr :: u64
  used_addr :: u64
  manual_recv :: bool

datatype VirtioInputTypeEnum = VIRTIO_INPUT_TYPE_KEYBOARD | VIRTIO_INPUT_TYPE_MOUSE | VIRTIO_INPUT_TYPE_TABLET

datatype virtio_kind = VirtioNet | VirtioBlock | VirtioConsole | VirtioInput VirtioInputTypeEnum

datatype BlockDeviceModeEnum = BF_MODE_RO | BF_MODE_RW | BF_MODE_SNAPSHOT

record BlockDeviceFile =
  bf_file :: "u8 list"
  nb_sectors :: int
  bf_mode :: BlockDeviceModeEnum
  sector_table :: "nat \<Rightarrow> u8 list option"

record BlockRequest =
  req_type :: u32
  req_buf :: "u8 list"
  req_write_size :: int
  req_queue_idx :: nat
  req_desc_idx :: u16

record VIRTIODevice =
  vd_irq :: nat
  int_status :: u32
  vd_status :: u32
  device_features_sel :: u32
  queue_sel :: u32
  queue :: "nat \<Rightarrow> QueueState"
  device_id :: u32
  vendor_id :: u32
  device_features :: u32
  vd_kind :: virtio_kind
  config_space_size :: u32
  config_space :: "nat \<Rightarrow> u8"
  bs :: BlockDeviceFile
  req_in_progress :: bool
  req :: BlockRequest
  net_out :: "u8 list list"
  buttons_state :: u32
  junk :: "nat \<Rightarrow> u8"

record RISCVMachine =
  ncpus :: nat
  cur_hart :: nat
  cpu_state :: "nat \<Rightarrow> RISCVCPUState"
  plic_pending_irq :: u32
  plic_served_irq :: u32
  plic_priority :: "nat \<Rightarrow> u32"
  uart :: SiFiveUARTState
  dw_uart :: DW_apb_uart_state
  virtio :: "nat \<Rightarrow> VIRTIODevice"
  console_in :: "u8 list"
  console_out :: "u8 list"
  aborted :: bool

type_synonym msys = "RISCVMachine sys"

definition upd_dev :: "(RISCVMachine \<Rightarrow> RISCVMachine) \<Rightarrow> msys \<Rightarrow> msys" where
  "upd_dev f y = y\<lparr>dev := f (dev y)\<rparr>"

lemma upd_dev_sel [simp]:
  "cpu (upd_dev f y) = cpu y" "host (upd_dev f y) = host y" "mem_map (upd_dev f y) = mem_map y"
  "vm (upd_dev f y) = vm y" "dev (upd_dev f y) = f (dev y)"
  by (simp_all add: upd_dev_def)

text \<open>\<^verbatim>\<open>m->cpu_state[hartid]\<close>, read and updated.\<close>

definition hart :: "nat \<Rightarrow> msys \<Rightarrow> RISCVCPUState" where
  "hart h y = (if h = cur_hart (dev y) then cpu y else cpu_state (dev y) h)"

definition upd_hart :: "nat \<Rightarrow> (RISCVCPUState \<Rightarrow> RISCVCPUState) \<Rightarrow> msys \<Rightarrow> msys" where
  "upd_hart h f y =
     (if h = cur_hart (dev y) then upd_cpu f y
      else upd_dev (\<lambda>m. m\<lparr>cpu_state := (cpu_state m)(h := f (cpu_state m h))\<rparr>) y)"

definition abort :: "msys \<Rightarrow> msys" where
  "abort y = upd_dev (\<lambda>m. m\<lparr>aborted := True\<rparr>) y"

lemma hart_upd_same [simp]: "hart h (upd_hart h f y) = f (hart h y)"
  by (simp add: hart_def upd_hart_def)

lemma hart_upd_other [simp]: "h \<noteq> h' \<Longrightarrow> hart h (upd_hart h' f y) = hart h y"
  by (simp add: hart_def upd_hart_def)

lemma upd_hart_sel [simp]:
  "ncpus (dev (upd_hart h f y)) = ncpus (dev y)" "cur_hart (dev (upd_hart h f y)) = cur_hart (dev y)"
  "plic_pending_irq (dev (upd_hart h f y)) = plic_pending_irq (dev y)"
  "plic_served_irq (dev (upd_hart h f y)) = plic_served_irq (dev y)" "vm (upd_hart h f y) = vm y"
  "aborted (dev (upd_hart h f y)) = aborted (dev y)" "host (upd_hart h f y) = host y"
  "mem_map (upd_hart h f y) = mem_map y"
  by (simp_all add: upd_hart_def)

section \<open>Console and UARTs\<close>

definition console_read :: "msys \<Rightarrow> u8 option \<times> msys" where
  "console_read y = (case console_in (dev y) of [] \<Rightarrow> (None, y)
     | c # cs \<Rightarrow> (Some c, upd_dev (\<lambda>m. m\<lparr>console_in := cs\<rparr>) y))"

definition console_write :: "u8 \<Rightarrow> msys \<Rightarrow> msys" where
  "console_write c y = upd_dev (\<lambda>m. m\<lparr>console_out := console_out m @ [c]\<rparr>) y"

definition mmio_read :: "u32 \<Rightarrow> nat \<Rightarrow> msys \<Rightarrow> u32 \<times> msys" where
  "mmio_read offset size_log2 y = (0, y)"

definition mmio_write :: "u32 \<Rightarrow> u32 \<Rightarrow> nat \<Rightarrow> msys \<Rightarrow> msys" where
  "mmio_write offset val size_log2 y = y"

definition uart_read :: "u32 \<Rightarrow> nat \<Rightarrow> msys \<Rightarrow> u32 \<times> msys" where
  "uart_read offset size_log2 y =
     (let s = uart (dev y) in
      if offset = 4 then (case console_read y of (Some r, y1) \<Rightarrow> (ucast r, y1) | (None, y1) \<Rightarrow> (0x80000000, y1))
      else if offset = 0 then (0, y)
      else if offset = 16 then (ie s, y)
      else if offset = 20 then (if rx_fifo_len s \<noteq> 0 then 2 else 0, y)
      else if offset = 8 then (txctrl s, y)
      else if offset = 12 then (rxctrl s, y)
      else if offset = 24 then (uart_div s, y)
      else (0, y))"

definition uart_write :: "u32 \<Rightarrow> u32 \<Rightarrow> nat \<Rightarrow> msys \<Rightarrow> msys" where
  "uart_write offset val size_log2 y =
     (let set = (\<lambda>f. upd_dev (\<lambda>m. m\<lparr>uart := f (uart m)\<rparr>) y) in
      if offset = 0 then console_write (ucast val) y
      else if offset = 16 then set (\<lambda>s. s\<lparr>ie := val\<rparr>)
      else if offset = 8 then set (\<lambda>s. s\<lparr>txctrl := val\<rparr>)
      else if offset = 12 then set (\<lambda>s. s\<lparr>rxctrl := val\<rparr>)
      else if offset = 24 then set (\<lambda>s. s\<lparr>uart_div := val\<rparr>)
      else y)"

definition upd_dw :: "(DW_apb_uart_state \<Rightarrow> DW_apb_uart_state) \<Rightarrow> msys \<Rightarrow> msys" where
  "upd_dw f y = upd_dev (\<lambda>m. m\<lparr>dw_uart := f (dw_uart m)\<rparr>) y"

definition dw_offset_ok :: "u32 \<Rightarrow> bool" where
  "dw_offset_ok offset \<longleftrightarrow> offset mod 4 = 0 \<and> offset div 4 < 64"

text \<open>Reading the line status clears the error bits and, when no byte waits, polls the console.\<close>

definition dw_line_status :: "msys \<Rightarrow> u32 \<times> msys" where
  "dw_line_status y =
     (let res = ucast (lsr (dw_uart (dev y)));
          y1 = upd_dw (\<lambda>s. s\<lparr>lsr := (lsr s OR push_bit 6 1 OR push_bit 5 1) AND NOT 30\<rparr>) y
      in if lsr (dw_uart (dev y1)) AND 1 = 0 then
           (case console_read y1 of
              (None, y2) \<Rightarrow> (res, y2)
            | (Some buf, y2) \<Rightarrow> (res, upd_dw (\<lambda>s. s\<lparr>lsr := lsr s OR 1, rbr := buf\<rparr>) y2))
         else (res, y1))"

definition dw_apb_uart_read :: "u32 \<Rightarrow> nat \<Rightarrow> msys \<Rightarrow> u32 \<times> msys" where
  "dw_apb_uart_read offset size_log2 y =
     (let s = dw_uart (dev y) in
      if \<not> dw_offset_ok offset then (0, abort y)
      else if offset = 0x00 then
        if lcr s AND push_bit 7 1 \<noteq> 0 then (ucast (div_latch s AND 255), y)
        else (ucast (rbr s), upd_dw (\<lambda>s. s\<lparr>lsr := (lsr s AND NOT 1) AND NOT 30\<rparr>) y)
      else if offset = 0x04 then
        if lcr s AND push_bit 7 1 \<noteq> 0 then (ucast (drop_bit 8 (div_latch s)), y) else (ucast (ier s), y)
      else if offset = 0x08 then
        ((if fcr s AND 1 \<noteq> 0 then 0xc0 else 0) + 1, upd_dw (\<lambda>s. s\<lparr>iid := 1\<rparr>) y)
      else if offset = 0x0c then (ucast (lcr s), y)
      else if offset = 0x14 then dw_line_status y
      else (0, y))"

definition dw_apb_uart_write :: "u32 \<Rightarrow> u32 \<Rightarrow> nat \<Rightarrow> msys \<Rightarrow> msys" where
  "dw_apb_uart_write offset val0 size_log2 y =
     (let val = val0 AND 255; s = dw_uart (dev y) in
      if \<not> dw_offset_ok offset then abort y
      else if offset = 0x00 then
        if lcr s AND push_bit 7 1 \<noteq> 0
        then upd_dw (\<lambda>s. s\<lparr>div_latch := (div_latch s AND NOT 255) + ucast val\<rparr>) y
        else upd_dw (\<lambda>s. s\<lparr>lsr := lsr s AND NOT (push_bit 5 1) AND NOT (push_bit 6 1)\<rparr>) (console_write (ucast val) y)
      else if offset = 0x04 then
        if lcr s AND push_bit 7 1 \<noteq> 0
        then upd_dw (\<lambda>s. s\<lparr>div_latch := (div_latch s AND 255) + ucast (val * 256)\<rparr>) y
        else upd_dw (\<lambda>s. s\<lparr>ier := ucast (val AND 0xff)\<rparr>) y
      else if offset = 0x08 then upd_dw (\<lambda>s. s\<lparr>fcr := ucast val\<rparr>) y
      else if offset = 0x0c then upd_dw (\<lambda>s. s\<lparr>lcr := ucast val\<rparr>) y
      else y)"

section \<open>The CLINT\<close>

abbreviation (input) RTC_FREQ_DIV :: u64 where "RTC_FREQ_DIV \<equiv> 16"

definition rtc_get_time :: "msys \<Rightarrow> u64" where
  "rtc_get_time y = mcycle (hart 0 y) div RTC_FREQ_DIV"

definition size_mask :: "nat \<Rightarrow> u32 \<Rightarrow> u32" where
  "size_mask size_log2 val = (if size_log2 = 1 then val AND 0xffff
     else if size_log2 = 2 then val AND 0xffffffff else val)"

definition clint_read :: "u32 \<Rightarrow> nat \<Rightarrow> msys \<Rightarrow> u32 \<times> msys" where
  "clint_read offset size_log2 y =
     (let n = ncpus (dev y);
          val = (if offset < 0x4000 then
                   let hartid = unat (drop_bit 2 offset) in
                   if n \<le> hartid then 0
                   else of_bool (riscv_cpu_get_mip (hart hartid y) AND MIP_MSIP \<noteq> 0)
                 else if offset = 0xbff8 then ucast (rtc_get_time y)
                 else if offset = 0xbffc then ucast (drop_bit 32 (rtc_get_time y))
                 else if 0x4000 \<le> offset \<and> offset < 0xbff8 then
                   let hartid = unat (drop_bit 3 (offset - 0x4000)) in
                   if n \<le> hartid then 0
                   else if drop_bit 2 offset AND 1 \<noteq> 0 then ucast (drop_bit 32 (timecmp (hart hartid y)))
                   else ucast (timecmp (hart hartid y))
                 else 0)
      in (size_mask size_log2 val, y))"

text \<open>
  In the update of the low half of \<^verbatim>\<open>timecmp\<close> the mask \<^verbatim>\<open>~0xffffffff\<close> is computed in 32 bits, as the C
  literal is an \<^verbatim>\<open>unsigned int\<close>.
\<close>

definition clint_write :: "u32 \<Rightarrow> u32 \<Rightarrow> nat \<Rightarrow> msys \<Rightarrow> msys" where
  "clint_write offset val0 size_log2 y =
     (let n = ncpus (dev y); val = size_mask size_log2 val0; mtime = rtc_get_time y in
      if offset < 0x4000 then
        let hartid = unat (drop_bit 2 offset) in
        if n \<le> hartid then y
        else if val AND 1 \<noteq> 0 then upd_hart hartid (riscv_cpu_set_mip (vm y) MIP_MSIP) y
        else upd_hart hartid (riscv_cpu_reset_mip MIP_MSIP) y
      else if offset = 0xbff8 then
        let mtime' = (mtime AND 0xFFFFFFFF00000000) + ucast val
        in upd_hart 0 (\<lambda>s. s\<lparr>mcycle := mtime' * RTC_FREQ_DIV\<rparr>) y
      else if offset = 0xbffc then
        let mtime' = (mtime AND 0x00000000FFFFFFFF) + push_bit 32 (ucast val)
        in upd_hart 0 (\<lambda>s. s\<lparr>mcycle := mtime' * RTC_FREQ_DIV\<rparr>) y
      else if 0x4000 \<le> offset \<and> offset < 0xbff8 then
        let hartid = unat (drop_bit 3 (offset - 0x4000)) in
        if n \<le> hartid then y
        else if drop_bit 2 offset AND 1 \<noteq> 0 then
          upd_hart hartid (\<lambda>s. riscv_cpu_reset_mip MIP_MTIP
            (s\<lparr>timecmp := (timecmp s AND 0xffffffff) OR push_bit 32 (ucast val)\<rparr>)) y
        else
          upd_hart hartid (\<lambda>s. riscv_cpu_reset_mip MIP_MTIP
            (s\<lparr>timecmp := (timecmp s AND ucast (NOT (0xffffffff :: u32))) OR ucast val\<rparr>)) y
      else y)"

section \<open>The PLIC\<close>

definition plic_mask :: "msys \<Rightarrow> u32" where
  "plic_mask y = plic_pending_irq (dev y) AND NOT (plic_served_irq (dev y))"

definition plic_update_mip :: "nat \<Rightarrow> msys \<Rightarrow> msys" where
  "plic_update_mip hartid y =
     (if hartid < ncpus (dev y) then
        if plic_mask y \<noteq> 0 then upd_hart hartid (riscv_cpu_set_mip (vm y) (MIP_MEIP OR MIP_SEIP)) y
        else upd_hart hartid (riscv_cpu_reset_mip (MIP_MEIP OR MIP_SEIP)) y
      else abort y)"

text \<open>Reading the claim register of a context.\<close>

definition plic_claim :: "nat \<Rightarrow> msys \<Rightarrow> u32 \<times> msys" where
  "plic_claim hartid y =
     (let m = plic_mask y in
      if m \<noteq> 0 then
        let i = ctz32 m;
            y1 = upd_dev (\<lambda>d. d\<lparr>plic_served_irq := plic_served_irq d OR push_bit i 1\<rparr>) y
        in (of_nat (i + 1), plic_update_mip hartid y1)
      else (0, y))"

text \<open>
  Writing the claim register: the source is complete. For the value 0 the C code shifts by -1, which
  the host's shift instruction takes as 31.
\<close>

definition plic_complete :: "u32 \<Rightarrow> msys \<Rightarrow> msys" where
  "plic_complete val y =
     (let irq = unat (val AND 31); m = push_bit ((irq + 31) mod 32) 1
      in upd_dev (\<lambda>d. d\<lparr>plic_served_irq := plic_served_irq d AND NOT m\<rparr>) y)"

definition plic_read :: "u32 \<Rightarrow> nat \<Rightarrow> msys \<Rightarrow> u32 \<times> msys" where
  "plic_read offset size_log2 y =
     (if size_log2 \<noteq> 2 then (0, abort y)
      else if 4 \<le> offset \<and> offset < 4 + 127 * 4 then
        let irq = unat (drop_bit 2 (offset - 4)) + 1 in
        if \<not> irq < 127 then (0, abort y) else (plic_priority (dev y) irq, y)
      else if 0x1000 \<le> offset \<and> offset < 0x1000 + 15 then
        (if offset = 0x1000 then plic_pending_irq (dev y) else 0, y)
      else if 0x2000 \<le> offset \<and> offset < 0x2000 + 0x80 * 8 then
        let hartid = unat ((offset - 0x2000) div 0x80) div 2 in
        if hartid \<le> ncpus (dev y) then
          if hartid < ncpus (dev y) then (plic_enable_irq (hart hartid y), y) else (0, abort y)
        else (0, y)
      else if 0x200000 \<le> offset \<and> offset < 0x200000 + 0x1000 * 8 then
        let hartid = unat ((offset - 0x200000) div 0x1000); wordid = drop_bit 2 (offset AND 0xfff) in
        if wordid = 0 then (0, y)
        else if wordid = 4 then plic_claim hartid y
        else (0, y)
      else (0, y))"

definition plic_write :: "u32 \<Rightarrow> u32 \<Rightarrow> nat \<Rightarrow> msys \<Rightarrow> msys" where
  "plic_write offset val size_log2 y =
     (if size_log2 \<noteq> 2 then abort y
      else if 4 \<le> offset \<and> offset < 4 + 127 * 4 then
        let irq = unat (drop_bit 2 (offset - 4)) + 1 in
        if \<not> irq < 127 then abort y
        else upd_dev (\<lambda>d. d\<lparr>plic_priority := (plic_priority d)(irq := val AND 7)\<rparr>) y
      else if 0x1000 \<le> offset \<and> offset < 0x1000 + 15 then y
      else if 0x2000 \<le> offset \<and> offset < 0x2000 + 0x80 * 8 then
        let hartid = unat ((offset - 0x2000) div 0x80) div 2 in
        if hartid \<le> ncpus (dev y) then
          if hartid < ncpus (dev y) then upd_hart hartid (\<lambda>s. s\<lparr>plic_enable_irq := val\<rparr>) y else abort y
        else y
      else if 0x200000 \<le> offset \<and> offset < 0x200000 + 0x1000 * 8 then
        let wordid = drop_bit 2 (offset AND 0xfff) in
        if wordid = 0 then upd_dev (\<lambda>d. d\<lparr>plic_priority := (plic_priority d)(0 := val)\<rparr>) y
        else if wordid = 4 then plic_complete val y
        else y
      else y)"

definition plic_set_irq :: "nat \<Rightarrow> bool \<Rightarrow> msys \<Rightarrow> msys" where
  "plic_set_irq irq_num state y =
     (let m = push_bit (irq_num - 1) 1;
          y1 = upd_dev (\<lambda>d. d\<lparr>plic_pending_irq := (if state then plic_pending_irq d OR m
                                                else plic_pending_irq d AND NOT m)\<rparr>) y
      in fold plic_update_mip [0..<ncpus (dev y1)] y1)"

text \<open>Interrupt signals of \<^verbatim>\<open>iomem.cpp\<close>: a callback with the number it is called with.\<close>

record IRQSignal =
  set_irq_func :: "nat \<Rightarrow> bool \<Rightarrow> msys \<Rightarrow> msys"
  irq_num :: nat

definition irq_init :: "(nat \<Rightarrow> bool \<Rightarrow> msys \<Rightarrow> msys) \<Rightarrow> nat \<Rightarrow> IRQSignal" where
  "irq_init f n = \<lparr>set_irq_func = f, irq_num = n\<rparr>"

definition set_irq :: "IRQSignal \<Rightarrow> bool \<Rightarrow> msys \<Rightarrow> msys" where
  "set_irq irq level y = set_irq_func irq (irq_num irq) level y"

section \<open>Callbacks of the machine\<close>

definition riscv_flush_tlb_write_range :: "u64 \<Rightarrow> u64 \<Rightarrow> msys \<Rightarrow> msys" where
  "riscv_flush_tlb_write_range ram_addr ram_size y =
     fold (\<lambda>i. upd_hart i (riscv_cpu_flush_tlb_write_range_ram ram_addr ram_size)) [0..<ncpus (dev y)] y"

abbreviation (input) RTC_FREQ :: int where "RTC_FREQ \<equiv> 10000000"

definition virt_machine_get_sleep_duration :: "nat \<Rightarrow> int \<Rightarrow> msys \<Rightarrow> int \<times> msys" where
  "virt_machine_get_sleep_duration hartid ms_delay y =
     (let (d, y1) =
        (if riscv_cpu_get_mip (hart hartid y) AND MIP_MTIP = 0 \<and> rtc_get_time y > 0 then
           let ms_delay1 = sint (timecmp (hart hartid y) - rtc_get_time y) in
           if ms_delay1 \<le> 0 then (0, upd_hart hartid (riscv_cpu_set_mip (vm y) MIP_MTIP) y)
           else let d1 = ms_delay1 div (RTC_FREQ div 1000) in (if d1 < ms_delay then d1 else ms_delay, y)
         else (ms_delay, y))
      in (if \<not> riscv_cpu_get_power_down (hart hartid y1) then 0 else d, y1))"

section \<open>The devices meet the interface of the hart\<close>

lemma dev_frame_upd_dev: "dev_frame y (upd_dev f y)"
  unfolding dev_frame_def
  by (intro conjI exI[of _ "mip (cpu y)"] exI[of _ "power_down_flag (cpu y)"] exI[of _ "timecmp (cpu y)"]
      exI[of _ "plic_enable_irq (cpu y)"] exI[of _ "mcycle (cpu y)"]) simp_all

lemma dev_frame_cpu_eq:
  "f (cpu y) = (cpu y)\<lparr>mip := m, power_down_flag := b, timecmp := t, plic_enable_irq := e, mcycle := c\<rparr>
   \<Longrightarrow> dev_frame y (upd_cpu f y)"
  unfolding dev_frame_def
  by (intro conjI exI[of _ m] exI[of _ b] exI[of _ t] exI[of _ e] exI[of _ c]) simp_all

lemma dev_frame_hart_upds:
  "dev_frame y (upd_hart h (\<lambda>s. s\<lparr>mcycle := v\<rparr>) y)"
  "dev_frame y (upd_hart h (\<lambda>s. s\<lparr>plic_enable_irq := w\<rparr>) y)"
  "dev_frame y (upd_hart h (riscv_cpu_reset_mip k) y)"
  "dev_frame y (upd_hart h (riscv_cpu_set_mip vmc k) y)"
  "dev_frame y (upd_hart h (\<lambda>s. riscv_cpu_reset_mip k (s\<lparr>timecmp := g s\<rparr>)) y)"
proof -
  let ?s = "cpu y"
  note e = dev_frame_cpu_eq[where y = y]
  show "dev_frame y (upd_hart h (\<lambda>s. s\<lparr>mcycle := v\<rparr>) y)"
    by (simp add: upd_hart_def dev_frame_upd_dev e[where m = "mip ?s" and b = "power_down_flag ?s" and t = "timecmp ?s" and e = "plic_enable_irq ?s" and c = v])
  show "dev_frame y (upd_hart h (\<lambda>s. s\<lparr>plic_enable_irq := w\<rparr>) y)"
    by (simp add: upd_hart_def dev_frame_upd_dev e[where m = "mip ?s" and b = "power_down_flag ?s" and t = "timecmp ?s" and e = w and c = "mcycle ?s"])
  show "dev_frame y (upd_hart h (riscv_cpu_reset_mip k) y)"
    by (simp add: upd_hart_def dev_frame_upd_dev riscv_cpu_reset_mip_def
        e[where m = "mip ?s AND NOT k" and b = "power_down_flag ?s" and t = "timecmp ?s" and e = "plic_enable_irq ?s" and c = "mcycle ?s"])
  show "dev_frame y (upd_hart h (riscv_cpu_set_mip vmc k) y)"
    by (simp add: upd_hart_def dev_frame_upd_dev riscv_cpu_set_mip_def Let_def
        e[where m = "mip ?s OR k" and b = "power_down_flag (riscv_cpu_set_mip vmc k ?s)" and t = "timecmp ?s" and e = "plic_enable_irq ?s" and c = "mcycle ?s"])
  show "dev_frame y (upd_hart h (\<lambda>s. riscv_cpu_reset_mip k (s\<lparr>timecmp := g s\<rparr>)) y)"
    by (simp add: upd_hart_def dev_frame_upd_dev riscv_cpu_reset_mip_def
        e[where m = "mip ?s AND NOT k" and b = "power_down_flag ?s" and t = "g ?s" and e = "plic_enable_irq ?s" and c = "mcycle ?s"])
qed

lemma console_frame: "dev_frame y (snd (console_read y))" "dev_frame y (console_write c y)"
  by (simp_all add: console_read_def console_write_def dev_frame_upd_dev split: list.splits)

lemma upd_dw_frame: "dev_frame y (upd_dw f y)"
  by (simp add: upd_dw_def dev_frame_upd_dev)

lemma abort_frame: "dev_frame y (abort y)"
  by (simp add: abort_def dev_frame_upd_dev)

lemma plic_claim_frame: "dev_frame y (snd (plic_claim h y))"
proof -
  have "dev_frame x (plic_update_mip h x)" for x
    by (simp add: plic_update_mip_def dev_frame_hart_upds abort_frame)
  then show ?thesis
    using dev_frame_trans dev_frame_upd_dev by (simp add: plic_claim_def Let_def) blast
qed

lemma dw_line_status_frame: "dev_frame y (snd (dw_line_status y))"
proof -
  let ?y1 = "upd_dw (\<lambda>s. s\<lparr>lsr := (lsr s OR push_bit 6 1 OR push_bit 5 1) AND NOT 30\<rparr>) y"
  have "dev_frame y (snd (console_read ?y1))" "dev_frame y ?y1"
    using upd_dw_frame console_frame(1) dev_frame_trans by blast+
  moreover have "dev_frame y (upd_dw f (snd (console_read ?y1)))" for f
    using calculation(1) upd_dw_frame dev_frame_trans by blast
  ultimately show ?thesis
    by (auto simp: dw_line_status_def Let_def split: prod.splits option.splits)
qed

lemma read_callbacks_frame:
  "dev_frame y (snd (uart_read off k y))" "dev_frame y (snd (dw_apb_uart_read off k y))"
  "dev_frame y (snd (plic_read off k y))" "dev_frame y (snd (clint_read off k y))"
  "dev_frame y (snd (mmio_read off k y))"
proof -
  show "dev_frame y (snd (uart_read off k y))"
    using console_frame(1)[of y]
    by (auto simp: uart_read_def Let_def split: prod.splits option.splits)
  show "dev_frame y (snd (dw_apb_uart_read off k y))"
    by (simp add: dw_apb_uart_read_def Let_def abort_frame upd_dw_frame dw_line_status_frame)
  show "dev_frame y (snd (plic_read off k y))"
    by (simp add: plic_read_def Let_def abort_frame plic_claim_frame)
  show "dev_frame y (snd (clint_read off k y))" "dev_frame y (snd (mmio_read off k y))"
    by (simp_all add: mmio_read_def clint_read_def Let_def abort_frame)
qed

lemma write_callbacks_frame:
  "dev_frame y (uart_write off v k y)" "dev_frame y (dw_apb_uart_write off v k y)"
  "dev_frame y (clint_write off v k y)" "dev_frame y (plic_write off v k y)" "dev_frame y (mmio_write off v k y)"
proof -
  show "dev_frame y (uart_write off v k y)"
    by (simp add: uart_write_def Let_def console_frame dev_frame_upd_dev)
  show "dev_frame y (dw_apb_uart_write off v k y)"
    using dev_frame_trans[OF console_frame(2) upd_dw_frame]
    by (simp add: dw_apb_uart_write_def Let_def abort_frame upd_dw_frame)
  show "dev_frame y (clint_write off v k y)"
    by (simp add: clint_write_def Let_def dev_frame_hart_upds)
  show "dev_frame y (plic_write off v k y)"
    by (simp add: plic_write_def plic_complete_def Let_def abort_frame dev_frame_upd_dev dev_frame_hart_upds)
  show "dev_frame y (mmio_write off v k y)" by (simp add: mmio_write_def)
qed

lemma plic_set_irq_frame: "dev_frame y (plic_set_irq i l y)"
proof -
  have step: "dev_frame x (plic_update_mip h x)" for h x
    by (simp add: plic_update_mip_def dev_frame_hart_upds abort_frame)
  have "dev_frame x (fold plic_update_mip hs x)" for hs x
    by (induction hs arbitrary: x) (auto intro: dev_frame_trans[OF step])
  then show ?thesis
    unfolding plic_set_irq_def Let_def by (rule dev_frame_trans[OF dev_frame_upd_dev])
qed

end
