(* ===== verification/Fdt.thy ===== *)
theory Fdt
  imports Cpu_State
begin

unbundle bit_operations_syntax

text \<open>
  The flattened device tree that \<^verbatim>\<open>riscv_machine.cpp\<close> puts behind the boot ROM: the builder \<open>FDTState\<close>
  with its growing token and string tables, the property and node operations, \<^verbatim>\<open>fdt_output\<close>, and
  \<^verbatim>\<open>riscv_build_fdt\<close>, which describes the machine.

  \<open>tab\<close> holds the \<^verbatim>\<open>tab_len\<close> words written so far and \<open>tab_size\<close> the allocated number, likewise for the
  string table; the \<^verbatim>\<open>int\<close> lengths are natural numbers. A C string is a \<open>string\<close> without its terminator.
  A sequence of calls on the builder is a list of state transformers run by \<open>calls\<close>.
\<close>

section \<open>Bytes, words and strings\<close>

definition byte_of :: "char \<Rightarrow> u8" where
  "byte_of c = word_of_nat (of_char c)"

text \<open>A C string with its terminator, as the bytes at its address.\<close>

definition cstr :: "string \<Rightarrow> u8 list" where
  "cstr name = map byte_of name @ [0]"

definition bswap_32 :: "u32 \<Rightarrow> u32" where
  "bswap_32 v = drop_bit 24 (v AND 0xff000000) OR drop_bit 8 (v AND 0x00ff0000)
     OR push_bit 8 (v AND 0x0000ff00) OR push_bit 24 (v AND 0x000000ff)"

definition cpu_to_be32 :: "u32 \<Rightarrow> u32" where
  "cpu_to_be32 v = bswap_32 v"

text \<open>A word in the memory of the little-endian host, and back.\<close>

definition word_bytes :: "u32 \<Rightarrow> u8 list" where
  "word_bytes w = [ucast w, ucast (drop_bit 8 w), ucast (drop_bit 16 w), ucast (drop_bit 24 w)]"

fun words_of :: "u8 list \<Rightarrow> u32 list" where
  "words_of (a # b # c # d # bs) =
     (ucast a OR push_bit 8 (ucast b) OR push_bit 16 (ucast c) OR push_bit 24 (ucast d)) # words_of bs"
| "words_of _ = []"

text \<open>\<^verbatim>\<open>%x\<close> of \<^verbatim>\<open>printf\<close>.\<close>

definition hex_digit :: "u64 \<Rightarrow> char" where
  "hex_digit d = (if d < 10 then char_of (48 + unat d) else char_of (87 + unat d))"

function hex_string :: "u64 \<Rightarrow> string" where
  "hex_string n =
     (if n < 16 then [hex_digit n] else hex_string (drop_bit 4 n) @ [hex_digit (n AND 15)])"
  by pat_completeness auto
termination
proof (relation "measure unat")
  fix n :: u64 assume "\<not> n < 16"
  then have "0 < unat n" by (simp add: word_less_nat_alt)
  then show "(drop_bit 4 n, n) \<in> measure unat"
    by (simp add: drop_bit_eq_div unat_div_distrib)
qed simp

declare hex_string.simps [simp del]

section \<open>The builder\<close>

record FDTState =
  tab :: "u32 list"
  tab_size :: nat
  open_node_count :: int
  string_table :: "u8 list"
  string_table_size :: nat

definition FDT_MAGIC :: u32 where "FDT_MAGIC = 0xd00dfeed"
definition FDT_VERSION :: u32 where "FDT_VERSION = 17"
definition FDT_BEGIN_NODE :: u32 where "FDT_BEGIN_NODE = 1"
definition FDT_END_NODE :: u32 where "FDT_END_NODE = 2"
definition FDT_PROP :: u32 where "FDT_PROP = 3"
definition FDT_END :: u32 where "FDT_END = 9"

lemmas fdt_consts = FDT_MAGIC_def FDT_VERSION_def FDT_BEGIN_NODE_def FDT_END_NODE_def FDT_PROP_def FDT_END_def

definition fdt_init :: FDTState where
  "fdt_init = \<lparr>tab = [], tab_size = 0, open_node_count = 0, string_table = [], string_table_size = 0\<rparr>"

definition fdt_alloc_len :: "nat \<Rightarrow> FDTState \<Rightarrow> FDTState" where
  "fdt_alloc_len len s =
     (if len > tab_size s then s\<lparr>tab_size := max len (tab_size s * 3 div 2)\<rparr> else s)"

definition fdt_put32 :: "u32 \<Rightarrow> FDTState \<Rightarrow> FDTState" where
  "fdt_put32 v s =
     (let s1 = fdt_alloc_len (length (tab s) + 1) s in s1\<lparr>tab := tab s1 @ [cpu_to_be32 v]\<rparr>)"

text \<open>\<^verbatim>\<open>-len & 3\<close> zero bytes fill the last word.\<close>

definition fdt_put_data :: "u8 list \<Rightarrow> FDTState \<Rightarrow> FDTState" where
  "fdt_put_data data s =
     (let len1 = (length data + 3) div 4;
          s1 = fdt_alloc_len (length (tab s) + len1) s
      in s1\<lparr>tab := tab s1 @ words_of (data @ replicate (nat ((- int (length data)) mod 4)) 0)\<rparr>)"

definition fdt_begin_node :: "string \<Rightarrow> FDTState \<Rightarrow> FDTState" where
  "fdt_begin_node name s =
     (let s1 = fdt_put_data (cstr name) (fdt_put32 FDT_BEGIN_NODE s)
      in s1\<lparr>open_node_count := open_node_count s1 + 1\<rparr>)"

text \<open>\<^verbatim>\<open>snprintf\<close> into a buffer of 256 characters.\<close>

definition fdt_begin_node_num :: "string \<Rightarrow> u64 \<Rightarrow> FDTState \<Rightarrow> FDTState" where
  "fdt_begin_node_num name n s = fdt_begin_node (take 255 (name @ ''@'' @ hex_string n)) s"

definition fdt_end_node :: "FDTState \<Rightarrow> FDTState" where
  "fdt_end_node s =
     (let s1 = fdt_put32 FDT_END_NODE s in s1\<lparr>open_node_count := open_node_count s1 - 1\<rparr>)"

text \<open>The string that starts at \<open>pos\<close> (\<^verbatim>\<open>string_table + pos\<close>), and the search loop.\<close>

definition string_at :: "u8 list \<Rightarrow> nat \<Rightarrow> u8 list" where
  "string_at st pos = takeWhile (\<lambda>b. b \<noteq> 0) (drop pos st)"

function string_search :: "u8 list \<Rightarrow> u8 list \<Rightarrow> nat \<Rightarrow> nat option" where
  "string_search st name pos =
     (if pos < length st then
        (if string_at st pos = name then Some pos
         else string_search st name (pos + length (string_at st pos) + 1))
      else None)"
  by pat_completeness auto
termination
  by (relation "measure (\<lambda>(st, name, pos). length st - pos)") auto

declare string_search.simps [simp del]

definition fdt_get_string_offset :: "string \<Rightarrow> FDTState \<Rightarrow> nat \<times> FDTState" where
  "fdt_get_string_offset name s =
     (case string_search (string_table s) (map byte_of name) 0 of
        Some pos \<Rightarrow> (pos, s)
      | None \<Rightarrow>
          (let new_len = length (string_table s) + length (cstr name);
               s1 = (if new_len > string_table_size s
                     then s\<lparr>string_table_size := max new_len (string_table_size s * 3 div 2)\<rparr> else s)
           in (length (string_table s1), s1\<lparr>string_table := string_table s1 @ cstr name\<rparr>)))"

text \<open>\<^verbatim>\<open>fdt_put32(s, fdt_get_string_offset(s, prop_name))\<close>.\<close>

definition fdt_put_name :: "string \<Rightarrow> FDTState \<Rightarrow> FDTState" where
  "fdt_put_name prop_name s =
     (case fdt_get_string_offset prop_name s of (pos, s1) \<Rightarrow> fdt_put32 (of_nat pos) s1)"

definition fdt_prop :: "string \<Rightarrow> u8 list \<Rightarrow> FDTState \<Rightarrow> FDTState" where
  "fdt_prop prop_name data s =
     fdt_put_data data (fdt_put_name prop_name (fdt_put32 (of_nat (length data)) (fdt_put32 FDT_PROP s)))"

definition fdt_prop_tab_u32 :: "string \<Rightarrow> u32 list \<Rightarrow> FDTState \<Rightarrow> FDTState" where
  "fdt_prop_tab_u32 prop_name vs s =
     fold fdt_put32 vs (fdt_put_name prop_name (fdt_put32 (of_nat (length vs * 4)) (fdt_put32 FDT_PROP s)))"

definition fdt_prop_u32 :: "string \<Rightarrow> u32 \<Rightarrow> FDTState \<Rightarrow> FDTState" where
  "fdt_prop_u32 prop_name val s = fdt_prop_tab_u32 prop_name [val] s"

definition fdt_prop_u64 :: "string \<Rightarrow> u64 \<Rightarrow> FDTState \<Rightarrow> FDTState" where
  "fdt_prop_u64 prop_name val s = fdt_prop_tab_u32 prop_name [ucast (drop_bit 32 val), ucast val] s"

definition fdt_prop_tab_u64_2 :: "string \<Rightarrow> u64 \<Rightarrow> u64 \<Rightarrow> FDTState \<Rightarrow> FDTState" where
  "fdt_prop_tab_u64_2 prop_name v0 v1 s =
     fdt_prop_tab_u32 prop_name [ucast (drop_bit 32 v0), ucast v0, ucast (drop_bit 32 v1), ucast v1] s"

definition fdt_prop_str :: "string \<Rightarrow> string \<Rightarrow> FDTState \<Rightarrow> FDTState" where
  "fdt_prop_str prop_name str s = fdt_prop prop_name (cstr str) s"

definition fdt_prop_tab_str :: "string \<Rightarrow> string list \<Rightarrow> FDTState \<Rightarrow> FDTState" where
  "fdt_prop_tab_str prop_name strs s = fdt_prop prop_name (concat (map cstr strs)) s"

section \<open>Output\<close>

text \<open>The loops \<^verbatim>\<open>while ((pos & 7) != 0) dst[pos++] = 0\<close>; \<open>dst\<close> is what has been written.\<close>

lemma align8_decreases:
  "n mod 8 \<noteq> 0 \<Longrightarrow> (8 - Suc n mod 8) mod 8 < (8 - n mod 8) mod (8 :: nat)"
proof -
  assume "n mod 8 \<noteq> 0"
  then have "n mod 8 \<in> {1, 2, 3, 4, 5, 6, 7}" using mod_less_divisor[of 8 n] by auto
  then show ?thesis by (auto simp: mod_Suc)
qed

function align8 :: "u8 list \<Rightarrow> u8 list" where
  "align8 dst = (if length dst mod 8 \<noteq> 0 then align8 (dst @ [0]) else dst)"
  by pat_completeness auto
termination
  by (relation "measure (\<lambda>dst. (8 - length dst mod 8) mod 8)", simp)
    (simp only: in_measure length_append list.size One_nat_def add_0_right add_Suc_right align8_decreases not_False_eq_True)

declare align8.simps [simp del]

definition be_bytes :: "nat \<Rightarrow> u8 list" where
  "be_bytes n = word_bytes (cpu_to_be32 (of_nat n))"

definition fdt_header :: "nat \<Rightarrow> nat \<Rightarrow> nat \<Rightarrow> nat \<Rightarrow> nat \<Rightarrow> nat \<Rightarrow> u8 list" where
  "fdt_header totalsize off_dt_struct off_dt_strings off_mem_rsvmap size_dt_strings size_dt_struct =
     word_bytes (cpu_to_be32 FDT_MAGIC) @ be_bytes totalsize @ be_bytes off_dt_struct
     @ be_bytes off_dt_strings @ be_bytes off_mem_rsvmap @ word_bytes (cpu_to_be32 FDT_VERSION)
     @ be_bytes 16 @ be_bytes 0 @ be_bytes size_dt_strings @ be_bytes size_dt_struct"

text \<open>
  The header's fields are filled in as the offsets become known; the body grows from 40, the size of
  the header, on. \<open>None\<close> is the failed assertion on \<^verbatim>\<open>open_node_count\<close>.
\<close>

definition fdt_output :: "FDTState \<Rightarrow> u8 list option" where
  "fdt_output s0 =
     (if open_node_count s0 \<noteq> 0 then None
      else
        let s = fdt_put32 FDT_END s0;
            dt_struct = concat (map word_bytes (tab s));
            d1 = align8 (replicate 40 0 @ dt_struct);
            d2 = d1 @ replicate 16 0;
            d3 = align8 (d2 @ string_table s)
        in Some (fdt_header (length d3) 40 (length d2) (length d1) (length (string_table s)) (length dt_struct)
                 @ drop 40 d3))"

section \<open>The description of the machine\<close>

text \<open>The \<^verbatim>\<open>int\<close> fields of a frame buffer that the device tree mentions.\<close>

record FBDevice =
  fb_size :: u32
  fb_width :: u32
  fb_height :: u32
  fb_stride :: u32

text \<open>The fields of \<^verbatim>\<open>RISCVMachine\<close> that say how the machine is laid out.\<close>

record machine_layout =
  ram_size :: u64
  ram_base_addr :: u64
  plic_base_addr :: u64
  plic_size :: u64
  clint_base_addr :: u64
  clint_size :: u64
  virtio_count :: nat
  compact_bootrom :: bool
  fb_dev :: "FBDevice option"

definition RTC_FREQ :: u32 where "RTC_FREQ = 10000000"
definition VIRTIO_BASE_ADDR :: u64 where "VIRTIO_BASE_ADDR = 0x40010000"
definition VIRTIO_SIZE :: u64 where "VIRTIO_SIZE = 0x1000"
definition VIRTIO_IRQ :: u32 where "VIRTIO_IRQ = 1"
definition FRAMEBUFFER_BASE_ADDR :: u64 where "FRAMEBUFFER_BASE_ADDR = 0x41000000"
definition UART0_BASE_ADDR :: u64 where "UART0_BASE_ADDR = 0x54000000"
definition UART0_SIZE :: u64 where "UART0_SIZE = 32"
definition DW_APB_UART0_BASE_ADDR :: u64 where "DW_APB_UART0_BASE_ADDR = 0x12002000"
definition DW_APB_UART0_SIZE :: u64 where "DW_APB_UART0_SIZE = 0x1000"

lemmas layout_consts = RTC_FREQ_def VIRTIO_BASE_ADDR_def VIRTIO_SIZE_def VIRTIO_IRQ_def
  FRAMEBUFFER_BASE_ADDR_def UART0_BASE_ADDR_def UART0_SIZE_def DW_APB_UART0_BASE_ADDR_def
  DW_APB_UART0_SIZE_def

definition calls :: "(FDTState \<Rightarrow> FDTState) list \<Rightarrow> FDTState \<Rightarrow> FDTState" where
  "calls ops s = fold (\<lambda>f t. f t) ops s"

text \<open>The letters of the extensions in \<^verbatim>\<open>misa\<close>, after \<^verbatim>\<open>rv64\<close>.\<close>

definition isa_string :: "u32 \<Rightarrow> string" where
  "isa_string m = ''rv64'' @ map (\<lambda>i. char_of (97 + i)) (filter (\<lambda>i. bit m i) [0..<26])"

definition fdt_cpu :: "nat \<Rightarrow> RISCVCPUState \<Rightarrow> u32 \<Rightarrow> FDTState \<Rightarrow> FDTState" where
  "fdt_cpu hartid c intc_phandle = calls [
     fdt_begin_node_num ''cpu'' (of_nat hartid),
     fdt_prop_str ''device_type'' ''cpu'',
     fdt_prop_u32 ''reg'' (of_nat hartid),
     fdt_prop_str ''status'' ''okay'',
     fdt_prop_str ''compatible'' ''riscv'',
     fdt_prop_str ''riscv,isa'' (isa_string (riscv_cpu_get_misa c)),
     fdt_prop_str ''mmu-type'' ''riscv,sv48'',
     fdt_prop_u32 ''clock-frequency'' 2000000000,
     fdt_begin_node ''interrupt-controller'',
     fdt_prop_u32 ''#interrupt-cells'' 1,
     fdt_prop ''interrupt-controller'' [],
     fdt_prop_str ''compatible'' ''riscv,cpu-intc'',
     fdt_prop_u32 ''phandle'' intc_phandle,
     fdt_prop_u32 ''linux,phandle'' intc_phandle,
     fdt_end_node,
     fdt_end_node]"

text \<open>The loop over the harts: the builder, \<^verbatim>\<open>cur_phandle\<close> and \<^verbatim>\<open>hartid2handle\<close>.\<close>

primrec fdt_cpus :: "RISCVCPUState list \<Rightarrow> nat \<Rightarrow> u32 \<Rightarrow> FDTState \<Rightarrow> FDTState \<times> u32 \<times> u32 list" where
  "fdt_cpus [] hartid cur_phandle s = (s, cur_phandle, [])"
| "fdt_cpus (c # cs) hartid cur_phandle s =
     (case fdt_cpus cs (hartid + 1) (cur_phandle + 1) (fdt_cpu hartid c cur_phandle s) of
        (s1, cur1, hs) \<Rightarrow> (s1, cur1, cur_phandle # hs))"

definition interrupts_tab :: "u32 list \<Rightarrow> u32 \<Rightarrow> u32 \<Rightarrow> u32 list" where
  "interrupts_tab hartid2handle irq1 irq2 = concat (map (\<lambda>h. [h, irq1, h, irq2]) hartid2handle)"

definition fdt_virtio :: "u32 \<Rightarrow> nat \<Rightarrow> FDTState \<Rightarrow> FDTState" where
  "fdt_virtio plic_phandle i = calls [
     fdt_begin_node_num ''virtio'' (VIRTIO_BASE_ADDR + of_nat i * VIRTIO_SIZE),
     fdt_prop_str ''compatible'' ''virtio,mmio'',
     fdt_prop_tab_u64_2 ''reg'' (VIRTIO_BASE_ADDR + of_nat i * VIRTIO_SIZE) VIRTIO_SIZE,
     fdt_prop_tab_u32 ''interrupts-extended'' [plic_phandle, VIRTIO_IRQ + of_nat i],
     fdt_end_node]"

definition fdt_framebuffer :: "FBDevice \<Rightarrow> FDTState \<Rightarrow> FDTState" where
  "fdt_framebuffer fb = calls [
     fdt_begin_node_num ''framebuffer'' FRAMEBUFFER_BASE_ADDR,
     fdt_prop_str ''compatible'' ''simple-framebuffer'',
     fdt_prop_tab_u64_2 ''reg'' FRAMEBUFFER_BASE_ADDR (scast (fb_size fb)),
     fdt_prop_u32 ''width'' (fb_width fb),
     fdt_prop_u32 ''height'' (fb_height fb),
     fdt_prop_u32 ''stride'' (fb_stride fb),
     fdt_prop_str ''format'' ''a8r8g8b8'',
     fdt_end_node]"

text \<open>From the root node to the end of the list of harts.\<close>

definition fdt_machine_head :: "RISCVCPUState list \<Rightarrow> FDTState \<Rightarrow> FDTState \<times> u32 \<times> u32 list" where
  "fdt_machine_head harts s =
     (case fdt_cpus harts 0 1 (calls [
        fdt_begin_node [],
        fdt_prop_u32 ''#address-cells'' 2,
        fdt_prop_u32 ''#size-cells'' 2,
        fdt_prop_str ''compatible'' ''ucbbar,dromajo-bar_dev'',
        fdt_prop_str ''model'' ''ucbbar,dromajo-bare'',
        fdt_begin_node ''cpus'',
        fdt_prop_u32 ''#address-cells'' 1,
        fdt_prop_u32 ''#size-cells'' 0,
        fdt_prop_u32 ''timebase-frequency'' RTC_FREQ] s) of
      (s1, cur_phandle, hs) \<Rightarrow> (fdt_end_node s1, cur_phandle, hs))"

definition fdt_memory :: "machine_layout \<Rightarrow> FDTState \<Rightarrow> FDTState" where
  "fdt_memory m = calls [
     fdt_begin_node_num ''memory'' (ram_base_addr m),
     fdt_prop_str ''device_type'' ''memory'',
     fdt_prop_tab_u32 ''reg'' [ucast (drop_bit 32 (ram_base_addr m)), ucast (ram_base_addr m),
       ucast (drop_bit 32 (ram_size m)), ucast (ram_size m)],
     fdt_end_node]"

definition fdt_soc :: "machine_layout \<Rightarrow> u32 list \<Rightarrow> u32 \<Rightarrow> FDTState \<Rightarrow> FDTState" where
  "fdt_soc m hs plic_phandle = calls ([
     fdt_begin_node ''soc'',
     fdt_prop_u32 ''#address-cells'' 2,
     fdt_prop_u32 ''#size-cells'' 2,
     fdt_prop_tab_str ''compatible'' [''ucbbar,dromajo-bar-soc'', ''simple-bus''],
     fdt_prop ''ranges'' [],
     fdt_begin_node_num ''clint'' (clint_base_addr m),
     fdt_prop_str ''compatible'' ''riscv,clint0'',
     fdt_prop_tab_u32 ''interrupts-extended'' (interrupts_tab hs 3 7),
     fdt_prop_tab_u64_2 ''reg'' (clint_base_addr m) (clint_size m),
     fdt_end_node,
     fdt_begin_node_num ''plic'' (plic_base_addr m),
     fdt_prop_u32 ''#interrupt-cells'' 1,
     fdt_prop ''interrupt-controller'' [],
     fdt_prop_str ''compatible'' ''riscv,plic0'',
     fdt_prop_u32 ''riscv,ndev'' 31,
     fdt_prop_tab_u64_2 ''reg'' (plic_base_addr m) (plic_size m),
     fdt_prop_tab_u32 ''interrupts-extended'' (interrupts_tab hs 9 11),
     fdt_prop_u32 ''phandle'' plic_phandle,
     fdt_end_node]
     @ map (fdt_virtio plic_phandle) [0..<virtio_count m]
     @ [fdt_begin_node_num ''uart'' UART0_BASE_ADDR,
     fdt_prop_str ''compatible'' ''sifive,uart0'',
     fdt_prop_tab_u64_2 ''reg'' UART0_BASE_ADDR UART0_SIZE,
     fdt_end_node,
     fdt_begin_node_num ''uart'' DW_APB_UART0_BASE_ADDR,
     fdt_prop_str ''compatible'' ''ns16550'',
     fdt_prop_tab_u64_2 ''reg'' DW_APB_UART0_BASE_ADDR DW_APB_UART0_SIZE,
     fdt_prop_u32 ''reg-shift'' 2,
     fdt_prop_u32 ''reg-io-width'' 4,
     fdt_end_node]
     @ (case fb_dev m of None \<Rightarrow> [] | Some fb \<Rightarrow> [fdt_framebuffer fb])
     @ [fdt_end_node])"

definition fdt_chosen :: "string option \<Rightarrow> u64 \<Rightarrow> u64 \<Rightarrow> FDTState \<Rightarrow> FDTState" where
  "fdt_chosen cmd_line initrd_start initrd_end = calls ([
     fdt_begin_node ''chosen'',
     fdt_prop_str ''bootargs'' (case cmd_line of Some c \<Rightarrow> c | None \<Rightarrow> [])]
     @ (if initrd_start \<noteq> 0 \<and> initrd_start < initrd_end
        then [fdt_prop_u64 ''linux,initrd-start'' initrd_start, fdt_prop_u64 ''linux,initrd-end'' initrd_end]
        else [])
     @ [fdt_end_node])"

definition fdt_machine ::
  "machine_layout \<Rightarrow> RISCVCPUState list \<Rightarrow> string option \<Rightarrow> u64 \<Rightarrow> u64 \<Rightarrow> FDTState" where
  "fdt_machine m harts cmd_line initrd_start initrd_end =
     (case fdt_machine_head harts fdt_init of
        (s, plic_phandle, hs) \<Rightarrow>
          calls [fdt_memory m, fdt_soc m hs plic_phandle, fdt_chosen cmd_line initrd_start initrd_end,
                 fdt_end_node] s)"

text \<open>
  \<^verbatim>\<open>riscv_build_fdt\<close>. \<open>dtb\<close> is the file \<^verbatim>\<open>dtb_name\<close> when one is given: its bytes, or \<open>None\<close> inside when
  it cannot be read in full. \<open>dump_ok\<close> tells whether \<^verbatim>\<open>dromajo.dtb\<close> can be opened for the dump that
  \<^verbatim>\<open>DUMP_DTB\<close> asks for. The result is what is written at \<^verbatim>\<open>dst\<close>.
\<close>

datatype fdt_error = FdtAssertion | FdtRead | FdtDump

definition riscv_build_fdt ::
  "machine_layout \<Rightarrow> RISCVCPUState list \<Rightarrow> u8 list option option \<Rightarrow> bool \<Rightarrow> string option \<Rightarrow> u64 \<Rightarrow> u64
   \<Rightarrow> fdt_error + u8 list" where
  "riscv_build_fdt m harts dtb dump_ok cmd_line initrd_start initrd_end =
     (case (case dtb of
              None \<Rightarrow> (case fdt_output (fdt_machine m harts cmd_line initrd_start initrd_end) of
                         None \<Rightarrow> Inl FdtAssertion | Some dst \<Rightarrow> Inr dst)
            | Some None \<Rightarrow> Inl FdtRead
            | Some (Some file) \<Rightarrow> Inr file) of
        Inl e \<Rightarrow> Inl e
      | Inr dst \<Rightarrow> if \<not> dump_ok then Inl FdtDump else Inr dst)"

end
