(* ===== verification/Virtio.thy ===== *)
theory Virtio
  imports Devices Fdt
begin

unbundle bit_operations_syntax

text \<open>
  The virtio devices of \<^verbatim>\<open>virtio.cpp\<close> on the MMIO transport: registers, queues in guest memory, descriptor
  chains, and the console, block, network and input devices with the block file of \<^verbatim>\<open>dromajo_main.cpp\<close>.

  A device is named by its number \<open>d\<close> in the state of the machine. A loop over a chain of descriptors
  ends only if the guest's chain does, so these loops are partial functions: the outer \<open>None\<close> of a
  result is a call that does not return. An access outside a buffer sets \<open>aborted\<close>. The PCI transport
  and the 9p file system are left out.
\<close>

section \<open>State and registers\<close>

definition vdev :: "nat \<Rightarrow> msys \<Rightarrow> VIRTIODevice" where
  "vdev d y = virtio (dev y) d"

definition upd_vdev :: "nat \<Rightarrow> (VIRTIODevice \<Rightarrow> VIRTIODevice) \<Rightarrow> msys \<Rightarrow> msys" where
  "upd_vdev d f y = upd_dev (\<lambda>m. m\<lparr>virtio := (virtio m)(d := f (virtio m d))\<rparr>) y"

definition upd_queue :: "nat \<Rightarrow> nat \<Rightarrow> (QueueState \<Rightarrow> QueueState) \<Rightarrow> msys \<Rightarrow> msys" where
  "upd_queue d q f y = upd_vdev d (\<lambda>s. s\<lparr>queue := (queue s)(q := f (queue s q))\<rparr>) y"

text \<open>\<^verbatim>\<open>set_irq(s->irq, level)\<close> on the signal \<^verbatim>\<open>plic_irq[vd_irq]\<close>.\<close>

definition virtio_set_irq :: "nat \<Rightarrow> bool \<Rightarrow> msys \<Rightarrow> msys" where
  "virtio_set_irq d level y = set_irq (irq_init plic_set_irq (vd_irq (vdev d y))) level y"

definition MAX_QUEUE :: nat where "MAX_QUEUE = 8"
definition MAX_QUEUE_NUM :: u32 where "MAX_QUEUE_NUM = 16"
definition VIRTIO_PAGE_SIZE :: u64 where "VIRTIO_PAGE_SIZE = 4096"
definition VRING_DESC_F_NEXT :: u16 where "VRING_DESC_F_NEXT = 1"
definition VRING_DESC_F_WRITE :: u16 where "VRING_DESC_F_WRITE = 2"

definition virtio_reset :: "nat \<Rightarrow> msys \<Rightarrow> msys" where
  "virtio_reset d y = upd_vdev d (\<lambda>s. s\<lparr>vd_status := 0, queue_sel := 0, device_features_sel := 0,
     int_status := 0,
     queue := (\<lambda>i. if i < MAX_QUEUE then (queue s i)\<lparr>ready := 0, num := MAX_QUEUE_NUM, desc_addr := 0,
       avail_addr := 0, used_addr := 0, last_avail_idx := 0\<rparr> else queue s i)\<rparr>) y"

section \<open>Guest memory\<close>

text \<open>The null pointer is 0.\<close>

definition virtio_mmio_get_ram_ptr :: "u64 \<Rightarrow> msys \<Rightarrow> u64" where
  "virtio_mmio_get_ram_ptr paddr y =
     (case get_phys_mem_range (mem_map y) paddr of
        None \<Rightarrow> 0
      | Some i \<Rightarrow> if \<not> pr_is_ram (mem_map y ! i) then 0 else ram_ptr (mem_map y ! i) paddr)"

definition virtio_read16 :: "u64 \<Rightarrow> msys \<Rightarrow> u16" where
  "virtio_read16 addr y =
     (if addr AND 1 \<noteq> 0 then 0
      else let ptr = virtio_mmio_get_ram_ptr addr y in
        if ptr = 0 then 0 else ucast (le_load (host y) ptr 2))"

definition virtio_write16 :: "u64 \<Rightarrow> u16 \<Rightarrow> msys \<Rightarrow> msys" where
  "virtio_write16 addr val y =
     (if addr AND 1 \<noteq> 0 then y
      else let ptr = virtio_mmio_get_ram_ptr addr y in
        if ptr = 0 then y else y\<lparr>host := le_store (host y) ptr 2 (ucast val)\<rparr>)"

definition virtio_write32 :: "u64 \<Rightarrow> u32 \<Rightarrow> msys \<Rightarrow> msys" where
  "virtio_write32 addr val y =
     (if addr AND 3 \<noteq> 0 then y
      else let ptr = virtio_mmio_get_ram_ptr addr y in
        if ptr = 0 then y else y\<lparr>host := le_store (host y) ptr 4 (ucast val)\<rparr>)"

text \<open>
  The copy loops go page by page; the pointer of a page is looked up anew. The first result is false
  when a page is not RAM, which ends the copy: \<open>virtio_memcpy_from_ram\<close> returns the bytes copied so far.
\<close>

definition page_left :: "u64 \<Rightarrow> int" where
  "page_left addr = uint (VIRTIO_PAGE_SIZE - (addr AND (VIRTIO_PAGE_SIZE - 1)))"

lemma page_left_pos: "0 < page_left addr"
proof -
  have "addr AND (VIRTIO_PAGE_SIZE - 1) \<le> 0xfff"
    by (simp add: VIRTIO_PAGE_SIZE_def word_and_le1)
  then have "VIRTIO_PAGE_SIZE - (addr AND (VIRTIO_PAGE_SIZE - 1)) \<noteq> 0"
    by (auto simp: VIRTIO_PAGE_SIZE_def)
  then show ?thesis by (simp add: page_left_def less_le uint_0_iff)
qed

function virtio_memcpy_from_ram :: "u64 \<Rightarrow> int \<Rightarrow> msys \<Rightarrow> bool \<times> u8 list" where
  "virtio_memcpy_from_ram addr count y =
     (if count > 0 then
        let l = min count (page_left addr); ptr = virtio_mmio_get_ram_ptr addr y in
        if ptr = 0 then (False, [])
        else case virtio_memcpy_from_ram (addr + of_int l) (count - l) y of
               (ok, rest) \<Rightarrow> (ok, load_bytes (host y) ptr (nat l) @ rest)
      else (True, []))"
  by pat_completeness auto
termination
  using page_left_pos by (relation "measure (\<lambda>(addr, count, y). nat count)") (auto simp: min_def)

declare virtio_memcpy_from_ram.simps [simp del]

function virtio_memcpy_to_ram :: "u64 \<Rightarrow> u8 list \<Rightarrow> msys \<Rightarrow> bool \<times> msys" where
  "virtio_memcpy_to_ram addr buf y =
     (if buf \<noteq> [] then
        let l = nat (min (int (length buf)) (page_left addr)); ptr = virtio_mmio_get_ram_ptr addr y in
        if ptr = 0 then (False, y)
        else virtio_memcpy_to_ram (addr + of_nat l) (drop l buf) (y\<lparr>host := store_bytes (host y) ptr (take l buf)\<rparr>)
      else (True, y))"
  by pat_completeness auto
termination
  using page_left_pos by (relation "measure (\<lambda>(addr, buf, y). length buf)") (auto simp: min_def)

declare virtio_memcpy_to_ram.simps [simp del]

section \<open>Descriptors\<close>

text \<open>
  A \<^verbatim>\<open>VIRTIODesc\<close> is its sixteen bytes. \<^verbatim>\<open>get_desc\<close> fills the local structure; where the copy fails the
  structure keeps what it had.
\<close>

type_synonym VIRTIODesc = "u8 list"

definition le_bytes :: "u8 list \<Rightarrow> u64" where
  "le_bytes l = foldr (\<lambda>b w. ucast b OR push_bit 8 w) l 0"

definition d_addr :: "VIRTIODesc \<Rightarrow> u64" where "d_addr b = le_bytes (take 8 b)"
definition d_len :: "VIRTIODesc \<Rightarrow> u32" where "d_len b = ucast (le_bytes (take 4 (drop 8 b)))"
definition d_flags :: "VIRTIODesc \<Rightarrow> u16" where "d_flags b = ucast (le_bytes (take 2 (drop 12 b)))"
definition d_next :: "VIRTIODesc \<Rightarrow> u16" where "d_next b = ucast (le_bytes (take 2 (drop 14 b)))"

definition is_write :: "VIRTIODesc \<Rightarrow> bool" where
  "is_write b \<longleftrightarrow> d_flags b AND VRING_DESC_F_WRITE \<noteq> 0"

definition has_next :: "VIRTIODesc \<Rightarrow> bool" where
  "has_next b \<longleftrightarrow> d_flags b AND VRING_DESC_F_NEXT \<noteq> 0"

definition get_desc :: "nat \<Rightarrow> nat \<Rightarrow> u16 \<Rightarrow> VIRTIODesc \<Rightarrow> msys \<Rightarrow> VIRTIODesc" where
  "get_desc d queue_idx desc_idx desc y =
     (let bytes = snd (virtio_memcpy_from_ram (desc_addr (queue (vdev d y) queue_idx) + ucast desc_idx * 16) 16 y)
      in bytes @ drop (length bytes) desc)"

definition uninit :: "nat \<Rightarrow> nat \<Rightarrow> msys \<Rightarrow> u8 list" where
  "uninit d n y = map (junk (vdev d y)) [0..<n]"

text \<open>
  The loops of \<^verbatim>\<open>memcpy_to_from_queue\<close>: the first writable descriptor, the descriptor at an offset, and
  the copy. \<open>w\<close> is the direction (\<^verbatim>\<open>f_write_flag\<close>), an inner \<open>None\<close> the return value -1. In the copy, \<open>pos\<close>
  is where \<^verbatim>\<open>buf\<close> points to.
\<close>

partial_function (option) find_write :: "nat \<Rightarrow> nat \<Rightarrow> msys \<Rightarrow> VIRTIODesc \<Rightarrow> VIRTIODesc option option" where
  "find_write d q y desc =
     (if is_write desc then Some (Some desc)
      else if \<not> has_next desc then Some None
      else find_write d q y (get_desc d q (d_next desc) desc y))"

partial_function (option) find_offset ::
  "nat \<Rightarrow> nat \<Rightarrow> bool \<Rightarrow> msys \<Rightarrow> VIRTIODesc \<Rightarrow> int \<Rightarrow> (VIRTIODesc \<times> int) option option" where
  "find_offset d q w y desc offset =
     (if is_write desc \<noteq> w then Some None
      else if offset < sint (d_len desc) then Some (Some (desc, offset))
      else if \<not> has_next desc then Some None
      else find_offset d q w y (get_desc d q (d_next desc) desc y) (sint (word_of_int offset - d_len desc)))"

definition chunk :: "VIRTIODesc \<Rightarrow> int \<Rightarrow> int \<Rightarrow> int" where
  "chunk desc offset count = min count (sint (d_len desc - word_of_int offset))"

partial_function (option) copy_from ::
  "nat \<Rightarrow> nat \<Rightarrow> VIRTIODesc \<Rightarrow> int \<Rightarrow> int \<Rightarrow> int \<Rightarrow> u8 list \<Rightarrow> msys \<Rightarrow> (bool \<times> u8 list \<times> msys) option" where
  "copy_from d q desc offset pos count buf y =
     (let l = chunk desc offset count in
      if l > 0 \<and> \<not> (0 \<le> pos \<and> pos + l \<le> int (length buf)) then Some (False, buf, abort y)
      else
        let bytes = snd (virtio_memcpy_from_ram (d_addr desc + word_of_int offset) l y);
            buf1 = take (nat pos) buf @ bytes @ drop (nat pos + length bytes) buf
        in if count - l = 0 then Some (True, buf1, y)
           else if offset + l = sint (d_len desc) then
             if \<not> has_next desc then Some (False, buf1, y)
             else let desc1 = get_desc d q (d_next desc) desc y in
               if is_write desc1 then Some (False, buf1, y)
               else copy_from d q desc1 0 (pos + l) (count - l) buf1 y
           else copy_from d q desc (offset + l) (pos + l) (count - l) buf1 y)"

partial_function (option) copy_to ::
  "nat \<Rightarrow> nat \<Rightarrow> VIRTIODesc \<Rightarrow> int \<Rightarrow> int \<Rightarrow> int \<Rightarrow> u8 list \<Rightarrow> msys \<Rightarrow> (bool \<times> msys) option" where
  "copy_to d q desc offset pos count buf y =
     (let l = chunk desc offset count in
      if l > 0 \<and> \<not> (0 \<le> pos \<and> pos + l \<le> int (length buf)) then Some (False, abort y)
      else
        let y1 = snd (virtio_memcpy_to_ram (d_addr desc + word_of_int offset) (take (nat l) (drop (nat pos) buf)) y)
        in if count - l = 0 then Some (True, y1)
           else if offset + l = sint (d_len desc) then
             if \<not> has_next desc then Some (False, y1)
             else let desc1 = get_desc d q (d_next desc) desc y1 in
               if \<not> is_write desc1 then Some (False, y1)
               else copy_to d q desc1 0 (pos + l) (count - l) buf y1
           else copy_to d q desc (offset + l) (pos + l) (count - l) buf y1)"

text \<open>
  \<^verbatim>\<open>memcpy_from_queue\<close> into a buffer whose contents before are \<open>buf\<close>, and \<^verbatim>\<open>memcpy_to_queue\<close>; the Boolean
  is false for the return value -1.
\<close>

definition memcpy_from_queue ::
  "nat \<Rightarrow> nat \<Rightarrow> u16 \<Rightarrow> int \<Rightarrow> int \<Rightarrow> u8 list \<Rightarrow> msys \<Rightarrow> (bool \<times> u8 list \<times> msys) option" where
  "memcpy_from_queue d q desc_idx offset count buf y =
     (if count = 0 then Some (True, buf, y)
      else Option.bind (find_offset d q False y (get_desc d q desc_idx (uninit d 16 y) y) offset)
        (\<lambda>r. case r of
               None \<Rightarrow> Some (False, buf, y)
             | Some (desc, off) \<Rightarrow> copy_from d q desc off 0 count buf y))"

definition memcpy_to_queue ::
  "nat \<Rightarrow> nat \<Rightarrow> u16 \<Rightarrow> int \<Rightarrow> u8 list \<Rightarrow> msys \<Rightarrow> (bool \<times> msys) option" where
  "memcpy_to_queue d q desc_idx offset buf y =
     (if buf = [] then Some (True, y)
      else Option.bind (find_write d q y (get_desc d q desc_idx (uninit d 16 y) y))
        (\<lambda>r. case r of
               None \<Rightarrow> Some (False, y)
             | Some desc0 \<Rightarrow> Option.bind (find_offset d q True y desc0 offset)
                 (\<lambda>r1. case r1 of
                         None \<Rightarrow> Some (False, y)
                       | Some (desc, off) \<Rightarrow> copy_to d q desc off 0 (int (length buf)) buf y)))"

definition virtio_consume_desc :: "nat \<Rightarrow> nat \<Rightarrow> u16 \<Rightarrow> u32 \<Rightarrow> msys \<Rightarrow> msys" where
  "virtio_consume_desc d q desc_idx desc_len y =
     (let qs = queue (vdev d y) q;
          addr = used_addr qs + 2;
          index = (ucast (virtio_read16 addr y) :: u32);
          y1 = virtio_write16 addr (ucast (index + 1)) y;
          addr1 = used_addr qs + 4 + ucast ((index AND (num qs - 1)) * 8);
          y2 = virtio_write32 addr1 (ucast desc_idx) y1;
          y3 = virtio_write32 (addr1 + 4) desc_len y2;
          y4 = upd_vdev d (\<lambda>s. s\<lparr>int_status := int_status s OR 1\<rparr>) y3
      in virtio_set_irq d True y4)"

text \<open>\<^verbatim>\<open>get_desc_rw_size\<close>: the two loops over the readable and the writable part of a chain.\<close>

partial_function (option) rw_size_write ::
  "nat \<Rightarrow> nat \<Rightarrow> msys \<Rightarrow> VIRTIODesc \<Rightarrow> u32 \<Rightarrow> u32 \<Rightarrow> (u32 \<times> u32) option option" where
  "rw_size_write d q y desc read_size write_size =
     (if \<not> is_write desc then Some None
      else if \<not> has_next desc then Some (Some (read_size, write_size + d_len desc))
      else rw_size_write d q y (get_desc d q (d_next desc) desc y) read_size (write_size + d_len desc))"

partial_function (option) rw_size_read ::
  "nat \<Rightarrow> nat \<Rightarrow> msys \<Rightarrow> VIRTIODesc \<Rightarrow> u32 \<Rightarrow> (u32 \<times> u32) option option" where
  "rw_size_read d q y desc read_size =
     (if is_write desc then rw_size_write d q y desc read_size 0
      else if \<not> has_next desc then Some (Some (read_size + d_len desc, 0))
      else rw_size_read d q y (get_desc d q (d_next desc) desc y) (read_size + d_len desc))"

definition get_desc_rw_size :: "nat \<Rightarrow> nat \<Rightarrow> u16 \<Rightarrow> msys \<Rightarrow> (u32 \<times> u32) option option" where
  "get_desc_rw_size d q desc_idx y = rw_size_read d q y (get_desc d q desc_idx (uninit d 16 y) y) 0"

section \<open>Block device\<close>

text \<open>
  The file behind a block device. Reading past the end of the file fails the assertion on the number
  of bytes read, and a sector number beyond the snapshot table is an access outside the array: both
  are the first result \<open>False\<close>. A file offset that does not fit \<^verbatim>\<open>off_t\<close> counts as past the end.
\<close>

definition SECTOR_SIZE :: nat where "SECTOR_SIZE = 512"

definition bf_get_sector_count :: "BlockDeviceFile \<Rightarrow> int" where
  "bf_get_sector_count bf = nb_sectors bf"

primrec bf_read_sectors :: "BlockDeviceFile \<Rightarrow> u64 \<Rightarrow> nat \<Rightarrow> bool \<times> u8 list" where
  "bf_read_sectors bf sector_num 0 = (True, [])"
| "bf_read_sectors bf sector_num (Suc n) =
     (if \<not> uint sector_num < nb_sectors bf then (False, [])
      else
        let sect = (case sector_table bf (unat sector_num) of
                      None \<Rightarrow> take SECTOR_SIZE (drop (unat sector_num * SECTOR_SIZE) (bf_file bf))
                    | Some t \<Rightarrow> t)
        in if length sect \<noteq> SECTOR_SIZE then (False, [])
           else case bf_read_sectors bf (sector_num + 1) n of (ok, rest) \<Rightarrow> (ok, sect @ rest))"

definition bf_read_async :: "BlockDeviceFile \<Rightarrow> u64 \<Rightarrow> nat \<Rightarrow> bool \<times> u8 list" where
  "bf_read_async bf sector_num n =
     (if bf_mode bf = BF_MODE_SNAPSHOT then bf_read_sectors bf sector_num n
      else let bytes = take (n * SECTOR_SIZE) (drop (unat (sector_num * of_nat SECTOR_SIZE)) (bf_file bf))
        in (length bytes = n * SECTOR_SIZE, bytes))"

primrec bf_write_sectors :: "BlockDeviceFile \<Rightarrow> u64 \<Rightarrow> u8 list \<Rightarrow> nat \<Rightarrow> bool \<times> BlockDeviceFile" where
  "bf_write_sectors bf sector_num buf 0 = (True, bf)"
| "bf_write_sectors bf sector_num buf (Suc n) =
     (if \<not> uint sector_num < nb_sectors bf then (False, bf)
      else bf_write_sectors
        (bf\<lparr>sector_table := (sector_table bf)(unat sector_num := Some (take SECTOR_SIZE buf))\<rparr>)
        (sector_num + 1) (drop SECTOR_SIZE buf) n)"

definition file_write :: "u8 list \<Rightarrow> nat \<Rightarrow> u8 list \<Rightarrow> u8 list" where
  "file_write f off data =
     take off (f @ replicate (off - length f) 0) @ data @ drop (off + length data) f"

text \<open>The results: no access outside the table, the return value, the file.\<close>

definition bf_write_async :: "BlockDeviceFile \<Rightarrow> u64 \<Rightarrow> u8 list \<Rightarrow> nat \<Rightarrow> bool \<times> int \<times> BlockDeviceFile" where
  "bf_write_async bf sector_num buf n =
     (case bf_mode bf of
        BF_MODE_RO \<Rightarrow> (True, - 1, bf)
      | BF_MODE_RW \<Rightarrow> (True, 0, if n = 0 then bf else bf\<lparr>bf_file := file_write (bf_file bf)
            (unat (sector_num * of_nat SECTOR_SIZE)) (take (n * SECTOR_SIZE) buf)\<rparr>)
      | BF_MODE_SNAPSHOT \<Rightarrow>
          if uint (ucast (sector_num + of_nat n) :: u32) > nb_sectors bf then (True, - 1, bf)
          else case bf_write_sectors bf sector_num buf n of (ok, bf1) \<Rightarrow> (ok, 0, bf1))"

text \<open>\<open>None\<close> for a file that cannot be opened, which ends the program.\<close>

definition block_device_init :: "u8 list option \<Rightarrow> BlockDeviceModeEnum \<Rightarrow> BlockDeviceFile option" where
  "block_device_init f mode = map_option (\<lambda>c. \<lparr>bf_file = c, nb_sectors = int (length c) div 512, bf_mode = mode,
     sector_table = (\<lambda>_. None)\<rparr>) f"

definition VIRTIO_BLK_T_IN :: u32 where "VIRTIO_BLK_T_IN = 0"
definition VIRTIO_BLK_T_OUT :: u32 where "VIRTIO_BLK_T_OUT = 1"
definition VIRTIO_BLK_S_OK :: u8 where "VIRTIO_BLK_S_OK = 0"
definition VIRTIO_BLK_S_IOERR :: u8 where "VIRTIO_BLK_S_IOERR = 1"

text \<open>\<^verbatim>\<open>buf[write_size - 1]\<close> is outside the buffer when the request has no writable byte.\<close>

definition virtio_block_req_end :: "nat \<Rightarrow> int \<Rightarrow> msys \<Rightarrow> msys option" where
  "virtio_block_req_end d ret y =
     (let r = req (vdev d y); q = req_queue_idx r; idx = req_desc_idx r;
          st = (if ret < 0 then VIRTIO_BLK_S_IOERR else VIRTIO_BLK_S_OK)
      in if req_type r = VIRTIO_BLK_T_IN then
           (if req_write_size r < 1 then Some (abort y)
            else Option.bind (memcpy_to_queue d q idx 0 ((req_buf r)[nat (req_write_size r) - 1 := st]) y)
              (\<lambda>(ok, y1). Some (virtio_consume_desc d q idx (word_of_int (req_write_size r)) y1)))
         else if req_type r = VIRTIO_BLK_T_OUT then
           Option.bind (memcpy_to_queue d q idx 0 [st] y)
             (\<lambda>(ok, y1). Some (virtio_consume_desc d q idx 1 y1))
         else Some (abort y))"

definition virtio_block_finish :: "nat \<Rightarrow> int \<Rightarrow> msys \<Rightarrow> msys option" where
  "virtio_block_finish d ret y =
     (if ret > 0 then Some (upd_vdev d (\<lambda>s. s\<lparr>req_in_progress := True\<rparr>) y)
      else virtio_block_req_end d ret y)"

text \<open>The two kinds of request, after the header \<open>h\<close> has been read. Sizes are \<^verbatim>\<open>int\<close>s.\<close>

definition virtio_block_in :: "nat \<Rightarrow> u8 list \<Rightarrow> int \<Rightarrow> msys \<Rightarrow> msys option" where
  "virtio_block_in d h write_size y =
     (if write_size < 0 then Some (abort y)
      else
        let n = nat (write_size - 1) div SECTOR_SIZE in
        case bf_read_async (bs (vdev d y)) (le_bytes (take 8 (drop 8 h))) n of
          (ok, bytes) \<Rightarrow>
            if \<not> ok then Some (abort y)
            else virtio_block_finish d 0 (upd_vdev d (\<lambda>s. s\<lparr>req := (req s)\<lparr>req_write_size := write_size,
                   req_buf := bytes @ drop (length bytes) (uninit d (nat write_size) y)\<rparr>\<rparr>) y))"

definition virtio_block_out :: "nat \<Rightarrow> nat \<Rightarrow> u16 \<Rightarrow> u8 list \<Rightarrow> int \<Rightarrow> int \<Rightarrow> msys \<Rightarrow> msys option" where
  "virtio_block_out d q desc_idx h read_size write_size y =
     (let len = read_size - 16 in
      if \<not> write_size \<ge> 1 \<or> len < 0 then Some (abort y)
      else Option.bind (memcpy_from_queue d q desc_idx 16 len (uninit d (nat len) y) y)
        (\<lambda>(ok, buf, y1).
           case bf_write_async (bs (vdev d y1)) (le_bytes (take 8 (drop 8 h))) buf (nat len div SECTOR_SIZE) of
             (ok1, ret, bf) \<Rightarrow>
               if \<not> ok1 then Some (abort y1)
               else virtio_block_finish d ret (upd_vdev d (\<lambda>s. s\<lparr>bs := bf\<rparr>) y1)))"

definition virtio_block_recv_request :: "nat \<Rightarrow> nat \<Rightarrow> u16 \<Rightarrow> int \<Rightarrow> int \<Rightarrow> msys \<Rightarrow> (int \<times> msys) option" where
  "virtio_block_recv_request d q desc_idx read_size write_size y =
     (if req_in_progress (vdev d y) then Some (- 1, y)
      else Option.bind (memcpy_from_queue d q desc_idx 0 16 (uninit d 16 y) y)
        (\<lambda>(ok, h, y1).
           if \<not> ok then Some (0, y1)
           else
             let t = (ucast (le_bytes (take 4 h)) :: u32);
                 y2 = upd_vdev d (\<lambda>s. s\<lparr>req := (req s)\<lparr>req_type := t, req_queue_idx := q, req_desc_idx := desc_idx\<rparr>\<rparr>) y1
             in map_option (Pair 0)
                  (if t = VIRTIO_BLK_T_IN then virtio_block_in d h write_size y2
                   else if t = VIRTIO_BLK_T_OUT then virtio_block_out d q desc_idx h read_size write_size y2
                   else Some y2)))"

section \<open>Network, console and input: requests of the guest\<close>

text \<open>A negative size is a huge one for \<^verbatim>\<open>malloc\<close>, whose null pointer is then used.\<close>

definition virtio_net_recv_request :: "nat \<Rightarrow> nat \<Rightarrow> u16 \<Rightarrow> int \<Rightarrow> int \<Rightarrow> msys \<Rightarrow> (int \<times> msys) option" where
  "virtio_net_recv_request d q desc_idx read_size write_size y =
     (if q = 1 then
        Option.bind (memcpy_from_queue d q desc_idx 0 12 (uninit d 12 y) y)
          (\<lambda>(ok, h, y1).
             if \<not> ok then Some (0, y1)
             else if read_size - 12 < 0 then Some (0, abort y1)
             else Option.bind (memcpy_from_queue d q desc_idx 12 (read_size - 12) (uninit d (nat (read_size - 12)) y1) y1)
               (\<lambda>(ok1, buf, y2). Some (0, virtio_consume_desc d q desc_idx 0
                    (upd_vdev d (\<lambda>s. s\<lparr>net_out := net_out s @ [buf]\<rparr>) y2))))
      else Some (0, y))"

definition virtio_console_recv_request :: "nat \<Rightarrow> nat \<Rightarrow> u16 \<Rightarrow> int \<Rightarrow> int \<Rightarrow> msys \<Rightarrow> (int \<times> msys) option" where
  "virtio_console_recv_request d q desc_idx read_size write_size y =
     (if q = 1 then
        (if read_size < 0 then Some (0, abort y)
         else Option.bind (memcpy_from_queue d q desc_idx 0 read_size (uninit d (nat read_size) y) y)
           (\<lambda>(ok, buf, y1). Some (0, virtio_consume_desc d q desc_idx 0
                (upd_dev (\<lambda>m. m\<lparr>console_out := console_out m @ buf\<rparr>) y1))))
      else Some (0, y))"

definition virtio_input_recv_request :: "nat \<Rightarrow> nat \<Rightarrow> u16 \<Rightarrow> int \<Rightarrow> int \<Rightarrow> msys \<Rightarrow> (int \<times> msys) option" where
  "virtio_input_recv_request d q desc_idx read_size write_size y =
     Some (0, if q = 1 then virtio_consume_desc d q desc_idx 0 y else y)"

definition device_recv :: "nat \<Rightarrow> nat \<Rightarrow> u16 \<Rightarrow> int \<Rightarrow> int \<Rightarrow> msys \<Rightarrow> (int \<times> msys) option" where
  "device_recv d q desc_idx read_size write_size y =
     (case vd_kind (vdev d y) of
        VirtioNet \<Rightarrow> virtio_net_recv_request d q desc_idx read_size write_size y
      | VirtioBlock \<Rightarrow> virtio_block_recv_request d q desc_idx read_size write_size y
      | VirtioConsole \<Rightarrow> virtio_console_recv_request d q desc_idx read_size write_size y
      | VirtioInput t \<Rightarrow> virtio_input_recv_request d q desc_idx read_size write_size y)"

section \<open>Queues\<close>

definition avail_index :: "nat \<Rightarrow> nat \<Rightarrow> msys \<Rightarrow> u16" where
  "avail_index d q y = virtio_read16 (avail_addr (queue (vdev d y) q) + 2) y"

text \<open>The descriptor at \<^verbatim>\<open>last_avail_idx\<close> of the ring of available descriptors.\<close>

definition avail_desc :: "nat \<Rightarrow> nat \<Rightarrow> msys \<Rightarrow> u16" where
  "avail_desc d q y =
     (let qs = queue (vdev d y) q
      in virtio_read16 (avail_addr qs + 4 + ucast ((ucast (last_avail_idx qs) AND (num qs - 1)) * 2)) y)"

definition next_avail :: "nat \<Rightarrow> nat \<Rightarrow> msys \<Rightarrow> msys" where
  "next_avail d q y = upd_queue d q (\<lambda>qs. qs\<lparr>last_avail_idx := last_avail_idx qs + 1\<rparr>) y"

partial_function (option) queue_loop :: "nat \<Rightarrow> nat \<Rightarrow> u16 \<Rightarrow> msys \<Rightarrow> msys option" where
  "queue_loop d q avail_idx y =
     (if last_avail_idx (queue (vdev d y) q) = avail_idx then Some y
      else Option.bind (get_desc_rw_size d q (avail_desc d q y) y)
        (\<lambda>r. case r of
               None \<Rightarrow> queue_loop d q avail_idx (next_avail d q y)
             | Some (read_size, write_size) \<Rightarrow>
                 Option.bind (device_recv d q (avail_desc d q y) (sint read_size) (sint write_size) y)
                   (\<lambda>(ret, y1). if ret < 0 then Some y1
                                else queue_loop d q avail_idx (next_avail d q y1))))"

definition queue_notify :: "nat \<Rightarrow> nat \<Rightarrow> msys \<Rightarrow> msys option" where
  "queue_notify d q y =
     (if manual_recv (queue (vdev d y) q) then Some y
      else queue_loop d q (avail_index d q y) y)"

definition virtio_block_req_cb :: "nat \<Rightarrow> int \<Rightarrow> msys \<Rightarrow> msys option" where
  "virtio_block_req_cb d ret y =
     Option.bind (virtio_block_req_end d ret y)
       (\<lambda>y1. let y2 = upd_vdev d (\<lambda>s. s\<lparr>req_in_progress := False\<rparr>) y1
             in queue_notify d (req_queue_idx (req (vdev d y2))) y2)"

section \<open>Configuration space\<close>

definition cfg_put :: "nat \<Rightarrow> u8 list \<Rightarrow> (nat \<Rightarrow> u8) \<Rightarrow> nat \<Rightarrow> u8" where
  "cfg_put k bytes c = (\<lambda>i. if k \<le> i \<and> i < k + length bytes then bytes ! (i - k) else c i)"

definition put_le16 :: "u16 \<Rightarrow> u8 list" where
  "put_le16 v = [ucast v, ucast (drop_bit 8 v)]"

definition put_le32 :: "u32 \<Rightarrow> u8 list" where
  "put_le32 v = [ucast v, ucast (drop_bit 8 v), ucast (drop_bit 16 v), ucast (drop_bit 24 v)]"

text \<open>\<^verbatim>\<open>set_bit(config + 8, k)\<close>.\<close>

definition set_bit8 :: "nat \<Rightarrow> (nat \<Rightarrow> u8) \<Rightarrow> nat \<Rightarrow> u8" where
  "set_bit8 k c = c(8 + k div 8 := c (8 + k div 8) OR push_bit (k mod 8) 1)"

definition buttons_list :: "u16 list" where
  "buttons_list = [0x110, 0x111, 0x112]"

definition set_buttons :: "(nat \<Rightarrow> u8) \<Rightarrow> nat \<Rightarrow> u8" where
  "set_buttons c = fold (\<lambda>b. set_bit8 (unat b)) buttons_list (cfg_put 8 (replicate 64 0) (c(2 := 64)))"

definition input_name :: "VirtioInputTypeEnum \<Rightarrow> string" where
  "input_name t = (case t of VIRTIO_INPUT_TYPE_KEYBOARD \<Rightarrow> ''virtio_keyboard''
     | VIRTIO_INPUT_TYPE_MOUSE \<Rightarrow> ''virtio_mouse'' | VIRTIO_INPUT_TYPE_TABLET \<Rightarrow> ''virtio_tablet'')"

text \<open>\<^verbatim>\<open>VIRTIO_INPUT_CFG_EV_BITS\<close>: which events of type \<^verbatim>\<open>config[1]\<close> the device sends.\<close>

definition input_ev_bits :: "VirtioInputTypeEnum \<Rightarrow> (nat \<Rightarrow> u8) \<Rightarrow> nat \<Rightarrow> u8" where
  "input_ev_bits t c0 =
     (let c = c0(2 := 0) in
      case t of
        VIRTIO_INPUT_TYPE_KEYBOARD \<Rightarrow>
          (if c 1 = 1 then cfg_put 8 (replicate 16 0xff) (c(2 := 16))
           else if c 1 = 0x14 then c(2 := 1)
           else c)
      | VIRTIO_INPUT_TYPE_MOUSE \<Rightarrow>
          (if c 1 = 1 then set_buttons c
           else if c 1 = 2 then set_bit8 8 (set_bit8 1 (set_bit8 0 (c(2 := 2, 8 := 0, 9 := 0))))
           else c)
      | VIRTIO_INPUT_TYPE_TABLET \<Rightarrow>
          (if c 1 = 1 then set_buttons c
           else if c 1 = 2 then set_bit8 8 (c(2 := 2, 8 := 0, 9 := 0))
           else if c 1 = 3 then set_bit8 1 (set_bit8 0 (c(2 := 1, 8 := 0)))
           else c))"

definition virtio_input_config_write :: "VirtioInputTypeEnum \<Rightarrow> (nat \<Rightarrow> u8) \<Rightarrow> nat \<Rightarrow> u8" where
  "virtio_input_config_write t c =
     (if c 0 = 0 then c
      else if c 0 = 1 then cfg_put 8 (map byte_of (input_name t)) (c(2 := of_nat (length (input_name t))))
      else if c 0 = 0x11 then input_ev_bits t c
      else if c 0 = 0x12 then
        (if t = VIRTIO_INPUT_TYPE_TABLET \<and> c 1 \<le> 1
         then cfg_put 8 (put_le32 0 @ put_le32 (32768 - 1) @ put_le32 0 @ put_le32 0 @ put_le32 0) (c(2 := 20))
         else c)
      else c(2 := 0))"

text \<open>\<open>None\<close> is the call of \<^verbatim>\<open>abort\<close> for another access size.\<close>

definition virtio_config_read :: "VIRTIODevice \<Rightarrow> u32 \<Rightarrow> nat \<Rightarrow> u32 option" where
  "virtio_config_read s offset size_log2 =
     (let c = (\<lambda>k. (ucast (config_space s (unat offset + k)) :: u32)) in
      if size_log2 = 0 then Some (if offset < config_space_size s then c 0 else 0)
      else if size_log2 = 1 then
        Some (if offset < config_space_size s - 1 then c 0 OR push_bit 8 (c 1) else 0)
      else if size_log2 = 2 then
        Some (if offset < config_space_size s - 3
              then c 0 OR push_bit 8 (c 1) OR push_bit 16 (c 2) OR push_bit 24 (c 3) else 0)
      else None)"

definition config_changed :: "VIRTIODevice \<Rightarrow> VIRTIODevice" where
  "config_changed s =
     (case vd_kind s of
        VirtioInput t \<Rightarrow> s\<lparr>config_space := virtio_input_config_write t (config_space s)\<rparr>
      | _ \<Rightarrow> s)"

definition virtio_config_write :: "nat \<Rightarrow> u32 \<Rightarrow> u32 \<Rightarrow> nat \<Rightarrow> msys \<Rightarrow> msys" where
  "virtio_config_write d offset val size_log2 y =
     (let sz = config_space_size (vdev d y);
          put = (\<lambda>bytes. upd_vdev d (\<lambda>s. config_changed
                  (s\<lparr>config_space := cfg_put (unat offset) bytes (config_space s)\<rparr>)) y)
      in if size_log2 = 0 then (if offset < sz then put [ucast val] else y)
         else if size_log2 = 1 then (if offset < sz - 1 then put (put_le16 (ucast val)) else y)
         else if size_log2 = 2 then (if offset < sz - 3 then put (put_le32 val) else y)
         else y)"

section \<open>The MMIO transport\<close>

definition set_low32 :: "u32 \<Rightarrow> u64 \<Rightarrow> u64" where
  "set_low32 val paddr = (paddr AND NOT 0xffffffff) OR ucast val"

definition set_high32 :: "u32 \<Rightarrow> u64 \<Rightarrow> u64" where
  "set_high32 val paddr = (paddr AND 0xffffffff) OR push_bit 32 (ucast val)"

definition virtio_reg_read :: "VIRTIODevice \<Rightarrow> u32 \<Rightarrow> u32" where
  "virtio_reg_read s offset =
     (let q = queue s (unat (queue_sel s)) in
      if offset = 0x000 then 0x74726976
      else if offset = 0x004 then 2
      else if offset = 0x008 then device_id s
      else if offset = 0x00c then vendor_id s
      else if offset = 0x010 then
        (if device_features_sel s = 0 then device_features s else if device_features_sel s = 1 then 1 else 0)
      else if offset = 0x014 then device_features_sel s
      else if offset = 0x030 then queue_sel s
      else if offset = 0x034 then MAX_QUEUE_NUM
      else if offset = 0x038 then num q
      else if offset = 0x080 then ucast (desc_addr q)
      else if offset = 0x090 then ucast (avail_addr q)
      else if offset = 0x0a0 then ucast (used_addr q)
      else if offset = 0x084 then ucast (drop_bit 32 (desc_addr q))
      else if offset = 0x094 then ucast (drop_bit 32 (avail_addr q))
      else if offset = 0x0a4 then ucast (drop_bit 32 (used_addr q))
      else if offset = 0x044 then ready q
      else if offset = 0x060 then int_status s
      else if offset = 0x070 then vd_status s
      else 0)"

definition virtio_mmio_read :: "nat \<Rightarrow> u32 \<Rightarrow> nat \<Rightarrow> msys \<Rightarrow> u32 \<times> msys" where
  "virtio_mmio_read d offset size_log2 y =
     (if offset \<ge> 0x100 then
        (case virtio_config_read (vdev d y) (offset - 0x100) size_log2 of
           None \<Rightarrow> (0, abort y)
         | Some val \<Rightarrow> (val, y))
      else if size_log2 = 2 then (virtio_reg_read (vdev d y) offset, y)
      else (0, y))"

text \<open>A write to the queue registers goes to the selected queue.\<close>

definition virtio_reg_write :: "nat \<Rightarrow> u32 \<Rightarrow> u32 \<Rightarrow> msys \<Rightarrow> msys option" where
  "virtio_reg_write d offset val y =
     (let upq = (\<lambda>f. Some (upd_queue d (unat (queue_sel (vdev d y))) f y)) in
      if offset = 0x014 then Some (upd_vdev d (\<lambda>s. s\<lparr>device_features_sel := val\<rparr>) y)
      else if offset = 0x030 then
        Some (if unat val < MAX_QUEUE then upd_vdev d (\<lambda>s. s\<lparr>queue_sel := val\<rparr>) y else y)
      else if offset = 0x038 then
        (if val AND (val - 1) = 0 \<and> val > 0 then upq (\<lambda>q. q\<lparr>num := val\<rparr>) else Some y)
      else if offset = 0x080 then upq (\<lambda>q. q\<lparr>desc_addr := set_low32 val (desc_addr q)\<rparr>)
      else if offset = 0x090 then upq (\<lambda>q. q\<lparr>avail_addr := set_low32 val (avail_addr q)\<rparr>)
      else if offset = 0x0a0 then upq (\<lambda>q. q\<lparr>used_addr := set_low32 val (used_addr q)\<rparr>)
      else if offset = 0x084 then upq (\<lambda>q. q\<lparr>desc_addr := set_high32 val (desc_addr q)\<rparr>)
      else if offset = 0x094 then upq (\<lambda>q. q\<lparr>avail_addr := set_high32 val (avail_addr q)\<rparr>)
      else if offset = 0x0a4 then upq (\<lambda>q. q\<lparr>used_addr := set_high32 val (used_addr q)\<rparr>)
      else if offset = 0x070 then
        Some (let y1 = upd_vdev d (\<lambda>s. s\<lparr>vd_status := val\<rparr>) y
              in if val = 0 then virtio_reset d (virtio_set_irq d False y1) else y1)
      else if offset = 0x044 then upq (\<lambda>q. q\<lparr>ready := val AND 1\<rparr>)
      else if offset = 0x050 then (if unat val < MAX_QUEUE then queue_notify d (unat val) y else Some y)
      else if offset = 0x064 then
        Some (let y1 = upd_vdev d (\<lambda>s. s\<lparr>int_status := int_status s AND NOT val\<rparr>) y
              in if int_status (vdev d y1) = 0 then virtio_set_irq d False y1 else y1)
      else Some y)"

definition virtio_mmio_write :: "nat \<Rightarrow> u32 \<Rightarrow> u32 \<Rightarrow> nat \<Rightarrow> msys \<Rightarrow> msys option" where
  "virtio_mmio_write d offset val size_log2 y =
     (if offset \<ge> 0x100 then Some (virtio_config_write d (offset - 0x100) val size_log2 y)
      else if size_log2 = 2 then virtio_reg_write d offset val y
      else Some y)"

definition virtio_config_change_notify :: "nat \<Rightarrow> msys \<Rightarrow> msys" where
  "virtio_config_change_notify d y =
     virtio_set_irq d True (upd_vdev d (\<lambda>s. s\<lparr>int_status := int_status s OR 2\<rparr>) y)"

section \<open>From the host to the guest\<close>

definition can_write :: "nat \<Rightarrow> msys \<Rightarrow> bool" where
  "can_write d y \<longleftrightarrow> ready (queue (vdev d y) 0) \<noteq> 0
     \<and> last_avail_idx (queue (vdev d y) 0) \<noteq> avail_index d 0 y"

definition virtio_net_can_write_packet :: "nat \<Rightarrow> msys \<Rightarrow> bool" where
  "virtio_net_can_write_packet d y = can_write d y"

definition virtio_net_write_packet :: "nat \<Rightarrow> u8 list \<Rightarrow> msys \<Rightarrow> msys option" where
  "virtio_net_write_packet d buf y =
     (if \<not> can_write d y then Some y
      else
        let desc_idx = avail_desc d 0 y; len = 12 + length buf in
        Option.bind (get_desc_rw_size d 0 desc_idx y)
          (\<lambda>r. case r of
                 None \<Rightarrow> Some y
               | Some (read_size, write_size) \<Rightarrow>
                   if int len > sint write_size then Some y
                   else Option.bind (memcpy_to_queue d 0 desc_idx 0 (replicate 12 0) y)
                     (\<lambda>(ok, y1). Option.bind (memcpy_to_queue d 0 desc_idx 12 buf y1)
                       (\<lambda>(ok1, y2). Some (next_avail d 0 (virtio_consume_desc d 0 desc_idx (of_nat len) y2))))))"

definition virtio_console_can_write_data :: "nat \<Rightarrow> msys \<Rightarrow> bool" where
  "virtio_console_can_write_data d y = can_write d y"

definition virtio_console_get_write_len :: "nat \<Rightarrow> msys \<Rightarrow> int option" where
  "virtio_console_get_write_len d y =
     (if \<not> can_write d y then Some 0
      else map_option (\<lambda>r. case r of None \<Rightarrow> 0 | Some (read_size, write_size) \<Rightarrow> sint write_size)
             (get_desc_rw_size d 0 (avail_desc d 0 y) y))"

text \<open>\<open>queue_put\<close>: the common end of \<^verbatim>\<open>virtio_console_write_data\<close> and \<^verbatim>\<open>virtio_input_queue_event\<close>.\<close>

definition queue_put :: "nat \<Rightarrow> u8 list \<Rightarrow> msys \<Rightarrow> msys option" where
  "queue_put d buf y =
     (let desc_idx = avail_desc d 0 y in
      Option.bind (memcpy_to_queue d 0 desc_idx 0 buf y)
        (\<lambda>(ok, y1). Some (next_avail d 0 (virtio_consume_desc d 0 desc_idx (of_nat (length buf)) y1))))"

definition virtio_console_write_data :: "nat \<Rightarrow> u8 list \<Rightarrow> msys \<Rightarrow> (int \<times> msys) option" where
  "virtio_console_write_data d buf y =
     (if \<not> can_write d y then Some (0, y)
      else map_option (Pair (int (length buf))) (queue_put d buf y))"

definition virtio_console_resize_event :: "nat \<Rightarrow> u16 \<Rightarrow> u16 \<Rightarrow> msys \<Rightarrow> msys" where
  "virtio_console_resize_event d width height y =
     virtio_config_change_notify d
       (upd_vdev d (\<lambda>s. s\<lparr>config_space := cfg_put 2 (put_le16 height) (cfg_put 0 (put_le16 width) (config_space s))\<rparr>) y)"

definition virtio_input_queue_event :: "nat \<Rightarrow> u16 \<Rightarrow> u16 \<Rightarrow> u32 \<Rightarrow> msys \<Rightarrow> (int \<times> msys) option" where
  "virtio_input_queue_event d t code val y =
     (if \<not> can_write d y then Some (- 1, y)
      else map_option (Pair 0) (queue_put d (put_le16 t @ put_le16 code @ put_le32 val) y))"

text \<open>A sequence of events stops at the first that cannot be sent.\<close>

primrec send_events :: "nat \<Rightarrow> (u16 \<times> u16 \<times> u32) list \<Rightarrow> msys \<Rightarrow> (int \<times> msys) option" where
  "send_events d [] y = Some (0, y)"
| "send_events d (e # es) y =
     Option.bind (virtio_input_queue_event d (fst e) (fst (snd e)) (snd (snd e)) y)
       (\<lambda>(ret, y1). if ret \<noteq> 0 then Some (ret, y1) else send_events d es y1)"

definition virtio_input_send_key_event :: "nat \<Rightarrow> bool \<Rightarrow> u16 \<Rightarrow> msys \<Rightarrow> (int \<times> msys) option" where
  "virtio_input_send_key_event d down key_code y =
     (if vd_kind (vdev d y) \<noteq> VirtioInput VIRTIO_INPUT_TYPE_KEYBOARD then Some (- 1, y)
      else send_events d [(1, key_code, of_bool down), (0, 0, 0)] y)"

definition button_events :: "u32 \<Rightarrow> u32 \<Rightarrow> (u16 \<times> u16 \<times> u32) list" where
  "button_events old buttons =
     concat (map (\<lambda>i. let b = drop_bit i buttons AND 1; last_b = drop_bit i old AND 1
                      in if b \<noteq> last_b then [(1, buttons_list ! i, b)] else []) [0..<length buttons_list])"

definition virtio_input_send_mouse_event ::
  "nat \<Rightarrow> u32 \<Rightarrow> u32 \<Rightarrow> u32 \<Rightarrow> u32 \<Rightarrow> msys \<Rightarrow> (int \<times> msys) option" where
  "virtio_input_send_mouse_event d dx dy dz buttons y =
     (let k = vd_kind (vdev d y); old = buttons_state (vdev d y) in
      if k \<noteq> VirtioInput VIRTIO_INPUT_TYPE_MOUSE \<and> k \<noteq> VirtioInput VIRTIO_INPUT_TYPE_TABLET then Some (- 1, y)
      else
        let t = (if k = VirtioInput VIRTIO_INPUT_TYPE_MOUSE then 2 else 3) in
        Option.bind (send_events d ([(t, 0, dx), (t, 1, dy)] @ (if dz \<noteq> 0 then [(2, 8, dz)] else [])
                       @ button_events old buttons) y)
          (\<lambda>(ret, y1). if ret \<noteq> 0 then Some (ret, y1)
             else virtio_input_queue_event d 0 0 0
                    (if buttons \<noteq> old then upd_vdev d (\<lambda>s. s\<lparr>buttons_state := buttons\<rparr>) y1 else y1)))"

section \<open>Initialisation\<close>

definition zero_queue :: QueueState where
  "zero_queue = \<lparr>ready = 0, num = 0, last_avail_idx = 0, desc_addr = 0, avail_addr = 0, used_addr = 0,
     manual_recv = False\<rparr>"

definition no_block :: BlockDeviceFile where
  "no_block = \<lparr>bf_file = [], nb_sectors = 0, bf_mode = BF_MODE_RO, sector_table = (\<lambda>_. None)\<rparr>"

definition zero_device :: "(nat \<Rightarrow> u8) \<Rightarrow> VIRTIODevice" where
  "zero_device jk = \<lparr>vd_irq = 0, int_status = 0, vd_status = 0, device_features_sel = 0, queue_sel = 0,
     queue = (\<lambda>_. zero_queue), device_id = 0, vendor_id = 0, device_features = 0, vd_kind = VirtioConsole,
     config_space_size = 0, config_space = (\<lambda>_. 0), bs = no_block, req_in_progress = False,
     req = \<lparr>req_type = 0, req_buf = [], req_write_size = 0, req_queue_idx = 0, req_desc_idx = 0\<rparr>,
     net_out = [], buttons_state = 0, junk = jk\<rparr>"

text \<open>
  \<^verbatim>\<open>virtio_init\<close> without the PCI branch: the device \<open>d\<close> on the bus address \<open>addr\<close> with the interrupt
  \<open>irq\<close>. The memory is cleared first; \<open>junk\<close> is not part of it.
\<close>

definition virtio_init ::
  "nat \<Rightarrow> u64 \<Rightarrow> nat \<Rightarrow> u32 \<Rightarrow> u32 \<Rightarrow> virtio_kind \<Rightarrow> msys \<Rightarrow> iomem_error + msys" where
  "virtio_init d addr irq dev_id config_size kind y =
     (case cpu_register_device (mem_map y) addr VIRTIO_PAGE_SIZE (DevVirtio d)
             (DEVIO_SIZE8 OR DEVIO_SIZE16 OR DEVIO_SIZE32) of
        Inl e \<Rightarrow> Inl e
      | Inr m \<Rightarrow> Inr (virtio_reset d (upd_vdev d (\<lambda>s. (zero_device (junk s))\<lparr>vd_irq := irq, device_id := dev_id,
                   vendor_id := 0xffff, config_space_size := config_size, vd_kind := kind\<rparr>)
                   (y\<lparr>mem_map := m\<rparr>))))"

definition virtio_console_init :: "nat \<Rightarrow> u64 \<Rightarrow> nat \<Rightarrow> msys \<Rightarrow> iomem_error + msys" where
  "virtio_console_init d addr irq y =
     (case virtio_init d addr irq 3 4 VirtioConsole y of
        Inl e \<Rightarrow> Inl e
      | Inr y1 \<Rightarrow> Inr (upd_queue d 0 (\<lambda>q. q\<lparr>manual_recv := True\<rparr>) (upd_vdev d (\<lambda>s. s\<lparr>device_features := 1\<rparr>) y1)))"

definition virtio_net_init :: "u8 list \<Rightarrow> nat \<Rightarrow> u64 \<Rightarrow> nat \<Rightarrow> msys \<Rightarrow> iomem_error + msys" where
  "virtio_net_init mac_addr d addr irq y =
     (case virtio_init d addr irq 1 8 VirtioNet y of
        Inl e \<Rightarrow> Inl e
      | Inr y1 \<Rightarrow> Inr (upd_vdev d (\<lambda>s. s\<lparr>device_features := 32,
                   config_space := cfg_put 6 [0, 0] (cfg_put 0 (take 6 mac_addr) (config_space s))\<rparr>)
                   (upd_queue d 0 (\<lambda>q. q\<lparr>manual_recv := True\<rparr>) y1)))"

definition virtio_block_init :: "BlockDeviceFile \<Rightarrow> nat \<Rightarrow> u64 \<Rightarrow> nat \<Rightarrow> msys \<Rightarrow> iomem_error + msys" where
  "virtio_block_init bf d addr irq y =
     (case virtio_init d addr irq 2 8 VirtioBlock y of
        Inl e \<Rightarrow> Inl e
      | Inr y1 \<Rightarrow> Inr (upd_vdev d (\<lambda>s. s\<lparr>bs := bf,
                   config_space := (let n = (word_of_int (bf_get_sector_count bf) :: u64)
                     in cfg_put 4 (put_le32 (ucast (drop_bit 32 n))) (cfg_put 0 (put_le32 (ucast n)) (config_space s)))\<rparr>) y1))"

definition virtio_input_init :: "VirtioInputTypeEnum \<Rightarrow> nat \<Rightarrow> u64 \<Rightarrow> nat \<Rightarrow> msys \<Rightarrow> iomem_error + msys" where
  "virtio_input_init t d addr irq y =
     (case virtio_init d addr irq 18 256 (VirtioInput t) y of
        Inl e \<Rightarrow> Inl e
      | Inr y1 \<Rightarrow> Inr (upd_vdev d (\<lambda>s. s\<lparr>device_features := 0\<rparr>) (upd_queue d 0 (\<lambda>q. q\<lparr>manual_recv := True\<rparr>) y1)))"

end
