(* ===== verification/Virtio_Steps.thy ===== *)
theory Virtio_Steps
  imports Virtio
begin

unbundle bit_operations_syntax

text \<open>
  What every operation of a virtio device keeps, stated once for all of them. A relation between
  states that is reflexive, transitive and holds for the elementary steps of a device (an update of
  the devices' own state, a change of an interrupt line, a write to RAM through a page pointer)
  holds between the states before and after any operation, whatever the guest put in its queues.
\<close>

section \<open>Well-formed device registers\<close>

text \<open>
  The selected queue exists, the sizes of the queues are powers of two, the ready flags are bits and
  the configuration space fits its array.
\<close>

definition pow2 :: "u32 \<Rightarrow> bool" where
  "pow2 n \<longleftrightarrow> n > 0 \<and> n AND (n - 1) = 0"

definition vd_ok :: "VIRTIODevice \<Rightarrow> bool" where
  "vd_ok s \<longleftrightarrow> queue_sel s < 8 \<and> 4 \<le> config_space_size s \<and> config_space_size s \<le> 256
     \<and> (\<forall>q < MAX_QUEUE. pow2 (num (queue s q)) \<and> ready (queue s q) \<le> 1)"

definition legal :: "(VIRTIODevice \<Rightarrow> VIRTIODevice) \<Rightarrow> bool" where
  "legal f \<longleftrightarrow> (\<forall>s. vd_ok s \<longrightarrow> vd_ok (f s))"

named_theorems legal_intros \<open>updates that keep the registers well formed\<close>

lemma legal_fields [legal_intros]:
  "legal (\<lambda>s. s\<lparr>int_status := f1 s\<rparr>)" "legal (\<lambda>s. s\<lparr>vd_status := f2 s\<rparr>)" "legal (\<lambda>s. s\<lparr>device_features_sel := f3 s\<rparr>)"
  "legal (\<lambda>s. s\<lparr>req := f4 s\<rparr>)" "legal (\<lambda>s. s\<lparr>req_in_progress := f5 s\<rparr>)" "legal (\<lambda>s. s\<lparr>bs := f6 s\<rparr>)"
  "legal (\<lambda>s. s\<lparr>net_out := f7 s\<rparr>)" "legal (\<lambda>s. s\<lparr>config_space := f8 s\<rparr>)" "legal (\<lambda>s. s\<lparr>buttons_state := f9 s\<rparr>)"
  by (simp_all add: legal_def vd_ok_def)

lemma legal_queue [legal_intros]:
  assumes "\<And>s. pow2 (num s) \<and> ready s \<le> 1 \<Longrightarrow> pow2 (num (f s)) \<and> ready (f s) \<le> 1"
  shows "legal (\<lambda>s. s\<lparr>queue := (queue s)(q := f (queue s q))\<rparr>)"
  using assms by (auto simp: legal_def vd_ok_def)

lemma legal_config [legal_intros]: "legal (\<lambda>s. config_changed (s\<lparr>config_space := f s\<rparr>))"
  by (auto simp: legal_def vd_ok_def config_changed_def split: virtio_kind.split)

section \<open>The operations of a device\<close>

text \<open>
  A step of the device \<open>d\<close>: a register access of the guest that returns, data or an event from the host,
  or the completion of a block request.
\<close>

inductive virtio_step :: "nat \<Rightarrow> msys \<Rightarrow> msys \<Rightarrow> bool" for d where
  guest_read: "virtio_step d y (snd (virtio_mmio_read d off k y))"
| guest_write: "virtio_mmio_write d off v k y = Some y' \<Longrightarrow> virtio_step d y y'"
| net_packet: "virtio_net_write_packet d buf y = Some y' \<Longrightarrow> virtio_step d y y'"
| console_data: "virtio_console_write_data d buf y = Some (n, y') \<Longrightarrow> virtio_step d y y'"
| console_resize: "virtio_step d y (virtio_console_resize_event d width height y)"
| key_event: "virtio_input_send_key_event d down key_code y = Some (n, y') \<Longrightarrow> virtio_step d y y'"
| mouse_event: "virtio_input_send_mouse_event d dx dy dz buttons y = Some (n, y') \<Longrightarrow> virtio_step d y y'"
| block_done: "virtio_block_req_cb d ret y = Some y' \<Longrightarrow> virtio_step d y y'"

inductive_cases virtio_stepE: "virtio_step d y y'"

section \<open>What the elementary steps keep, every operation keeps\<close>

locale virtio_steps =
  fixes R :: "msys \<Rightarrow> msys \<Rightarrow> bool"
  assumes R_refl: "R y y"
    and R_trans: "R x y \<Longrightarrow> R y z \<Longrightarrow> R x z"
    and R_dev: "(\<And>m e. vd_ok (virtio m e) \<Longrightarrow> vd_ok (virtio (f m) e)) \<Longrightarrow> R y (upd_dev f y)"
    and R_irq: "R y (plic_set_irq i l y)"
    and R_write: "virtio_mmio_get_ram_ptr addr y \<noteq> 0 \<Longrightarrow> addr AND (of_nat n - 1) = 0 \<Longrightarrow> n \<in> {2, 4}
      \<Longrightarrow> R y (y\<lparr>host := le_store (host y) (virtio_mmio_get_ram_ptr addr y) n v\<rparr>)"
    and R_copy: "virtio_mmio_get_ram_ptr addr y \<noteq> 0 \<Longrightarrow> int (length data) \<le> page_left addr
      \<Longrightarrow> R y (y\<lparr>host := store_bytes (host y) (virtio_mmio_get_ram_ptr addr y) data\<rparr>)"
begin

lemma R_vdev: "legal f \<Longrightarrow> R y (upd_vdev d f y)"
  unfolding upd_vdev_def by (rule R_dev) (auto simp: legal_def)

lemmas R_field = legal_fields[THEN R_vdev]

lemma R_queue:
  "(\<And>s. pow2 (num s) \<and> ready s \<le> 1 \<Longrightarrow> pow2 (num (f s)) \<and> ready (f s) \<le> 1) \<Longrightarrow> R y (upd_queue d q f y)"
  unfolding upd_queue_def by (rule R_vdev) (rule legal_queue)

lemma R_next: "R y (next_avail d q y)"
  unfolding next_avail_def by (rule R_queue) simp

lemma R_abort: "R y (abort y)"
  unfolding abort_def by (rule R_dev) simp

lemma R_output: "R y (upd_dev (\<lambda>m. m\<lparr>console_out := g m\<rparr>) y)"
  by (rule R_dev) simp

lemma R_set_irq: "R y (virtio_set_irq d l y)"
  by (simp add: virtio_set_irq_def set_irq_def irq_init_def R_irq)

lemma R_to_ram: "R y (snd (virtio_memcpy_to_ram addr buf y))"
proof (induction addr buf y rule: virtio_memcpy_to_ram.induct)
  case (1 addr buf y)
  let ?l = "nat (min (int (length buf)) (page_left addr))"
  let ?p = "virtio_mmio_get_ram_ptr addr y"
  let ?y = "y\<lparr>host := store_bytes (host y) ?p (take ?l buf)\<rparr>"
  show ?case
  proof (cases "buf \<noteq> [] \<and> ?p \<noteq> 0")
    case True
    then have "R y ?y" using page_left_pos[of addr] by (intro R_copy) auto
    moreover have "R ?y (snd (virtio_memcpy_to_ram (addr + of_nat ?l) (drop ?l buf) ?y))"
      using 1 True by (simp add: Let_def)
    ultimately have "R y (snd (virtio_memcpy_to_ram (addr + of_nat ?l) (drop ?l buf) ?y))" by (rule R_trans)
    then show ?thesis
      using True by (subst virtio_memcpy_to_ram.simps) (simp add: Let_def)
  next
    case False
    then show ?thesis by (subst virtio_memcpy_to_ram.simps) (auto simp: Let_def R_refl)
  qed
qed

lemma R_copy_to: "copy_to d q desc offset pos count buf y = Some r \<Longrightarrow> R y (snd r)"
proof (erule copy_to.raw_induct[rotated])
  fix loop d q desc offset pos count buf y r
  assume ih: "\<And>d q desc offset pos count buf y r. loop d q desc offset pos count buf y = Some r \<Longrightarrow> R y (snd r)"
    and eq: "(let l = chunk desc offset count in
      if l > 0 \<and> \<not> (0 \<le> pos \<and> pos + l \<le> int (length buf)) then Some (False, abort y)
      else
        let y1 = snd (virtio_memcpy_to_ram (d_addr desc + word_of_int offset) (take (nat l) (drop (nat pos) buf)) y)
        in if count - l = 0 then Some (True, y1)
           else if offset + l = sint (d_len desc) then
             if \<not> has_next desc then Some (False, y1)
             else let desc1 = get_desc d q (d_next desc) desc y1 in
               if \<not> is_write desc1 then Some (False, y1)
               else loop d q desc1 0 (pos + l) (count - l) buf y1
           else loop d q desc (offset + l) (pos + l) (count - l) buf y1) = Some r"
  let ?y = "snd (virtio_memcpy_to_ram (d_addr desc + word_of_int offset)
     (take (nat (chunk desc offset count)) (drop (nat pos) buf)) y)"
  have y1: "R y ?y" by (rule R_to_ram)
  show "R y (snd r)"
    using eq R_abort[of y] y1 by (auto simp: Let_def split: if_splits intro: R_trans[OF y1 ih])
qed

lemma R_copy_from: "copy_from d q desc offset pos count buf y = Some r \<Longrightarrow> R y (snd (snd r))"
proof (erule copy_from.raw_induct[rotated])
  fix loop d q desc offset pos count buf y r
  assume ih: "\<And>d q desc offset pos count buf y r. loop d q desc offset pos count buf y = Some r \<Longrightarrow> R y (snd (snd r))"
    and eq: "(let l = chunk desc offset count in
      if l > 0 \<and> \<not> (0 \<le> pos \<and> pos + l \<le> int (length buf)) then Some (False, buf, abort y)
      else
        let bytes = snd (virtio_memcpy_from_ram (d_addr desc + word_of_int offset) l y);
            buf1 = take (nat pos) buf @ bytes @ drop (nat pos + length bytes) buf
        in if count - l = 0 then Some (True, buf1, y)
           else if offset + l = sint (d_len desc) then
             if \<not> has_next desc then Some (False, buf1, y)
             else let desc1 = get_desc d q (d_next desc) desc y in
               if is_write desc1 then Some (False, buf1, y)
               else loop d q desc1 0 (pos + l) (count - l) buf1 y
           else loop d q desc (offset + l) (pos + l) (count - l) buf1 y) = Some r"
  show "R y (snd (snd r))"
    using eq R_abort[of y] R_refl[of y] by (auto simp: Let_def split: if_splits intro: ih)
qed

lemma R_from_queue: "memcpy_from_queue d q i off n buf y = Some (ok, buf', y') \<Longrightarrow> R y y'"
  using R_copy_from R_refl
  by (fastforce simp: memcpy_from_queue_def bind_eq_Some_conv split: if_splits option.splits)

lemma R_to_queue: "memcpy_to_queue d q i off buf y = Some (ok, y') \<Longrightarrow> R y y'"
  using R_copy_to R_refl
  by (fastforce simp: memcpy_to_queue_def bind_eq_Some_conv split: if_splits option.splits)

lemma R_write16: "R y (virtio_write16 addr v y)"
  using R_write[of addr y 2] by (simp add: virtio_write16_def Let_def R_refl)

lemma R_write32: "R y (virtio_write32 addr v y)"
  using R_write[of addr y 4] by (simp add: virtio_write32_def Let_def R_refl)

lemma R_consume: "R y (virtio_consume_desc d q i n y)"
  unfolding virtio_consume_desc_def Let_def
  by (rule R_trans[OF R_trans[OF R_trans[OF R_trans[OF R_write16 R_write32] R_write32] R_field(1)] R_set_irq])

lemma R_block_end: "virtio_block_req_end d ret y = Some y' \<Longrightarrow> R y y'"
  using R_trans[OF R_to_queue R_consume] R_abort[of y]
  by (auto simp: virtio_block_req_end_def Let_def bind_eq_Some_conv split: if_splits)

lemma R_block_finish: "virtio_block_finish d ret y = Some y' \<Longrightarrow> R y y'"
  using R_block_end R_field(5) by (auto simp: virtio_block_finish_def split: if_splits)

lemma R_block_in: "virtio_block_in d h n y = Some y' \<Longrightarrow> R y y'"
  using R_trans[OF R_field(4) R_block_finish] R_abort[of y]
  by (auto simp: virtio_block_in_def Let_def split: if_splits prod.splits)

lemma R_block_out:
  assumes eq: "virtio_block_out d q i h n m y = Some y'"
  shows "R y y'"
proof (cases "\<not> m \<ge> 1 \<or> n - 16 < 0")
  case True
  then show ?thesis using eq R_abort[of y] by (auto simp: virtio_block_out_def)
next
  case False
  then obtain ok buf y1 where m: "memcpy_from_queue d q i 16 (n - 16) (uninit d (nat (n - 16)) y) y = Some (ok, buf, y1)"
    using eq by (auto simp: virtio_block_out_def Let_def bind_eq_Some_conv)
  obtain ok1 ret bf where w: "bf_write_async (bs (vdev d y1)) (le_bytes (take 8 (drop 8 h))) buf
      (nat (n - 16) div SECTOR_SIZE) = (ok1, ret, bf)"
    by (metis prod_cases3)
  note y1 = R_from_queue[OF m]
  show ?thesis
    using eq False m w R_trans[OF y1 R_abort] R_trans[OF y1 R_trans[OF R_field(6) R_block_finish]]
    by (auto simp: virtio_block_out_def Let_def split: if_splits)
qed

lemma R_block: "virtio_block_recv_request d q i n m y = Some (ret, y') \<Longrightarrow> R y y'"
proof -
  assume eq: "virtio_block_recv_request d q i n m y = Some (ret, y')"
  show "R y y'"
  proof (cases "req_in_progress (vdev d y)")
    case True
    with eq show ?thesis by (auto simp: virtio_block_recv_request_def R_refl)
  next
    case False
    then obtain ok h y1 where m: "memcpy_from_queue d q i 0 16 (uninit d 16 y) y = Some (ok, h, y1)"
      using eq by (auto simp: virtio_block_recv_request_def bind_eq_Some_conv)
    note y1 = R_from_queue[OF m]
    show ?thesis
      using eq False m y1 R_trans[OF y1 R_trans[OF R_field(4) R_block_in]]
        R_trans[OF y1 R_trans[OF R_field(4) R_block_out]] R_trans[OF y1 R_field(4)]
      by (auto simp: virtio_block_recv_request_def Let_def split: if_splits)
  qed
qed

lemma R_recv: "device_recv d q i n m y = Some (ret, y') \<Longrightarrow> R y y'"
proof -
  have net: "R y y'" if "virtio_net_recv_request d q i n m y = Some (ret, y')"
    using that R_trans[OF R_from_queue R_abort] R_from_queue R_refl
      R_trans[OF R_from_queue R_trans[OF R_from_queue R_trans[OF R_field(7) R_consume]]]
    by (auto simp: virtio_net_recv_request_def bind_eq_Some_conv split: if_splits)
  have con: "R y y'" if "virtio_console_recv_request d q i n m y = Some (ret, y')"
    using that R_abort[of y] R_refl R_trans[OF R_from_queue R_trans[OF R_output R_consume]]
    by (auto simp: virtio_console_recv_request_def bind_eq_Some_conv split: if_splits)
  have inp: "R y y'" if "virtio_input_recv_request d q i n m y = Some (ret, y')"
    using that R_consume R_refl by (auto simp: virtio_input_recv_request_def split: if_splits)
  assume "device_recv d q i n m y = Some (ret, y')"
  then show "R y y'" using net con inp R_block by (auto simp: device_recv_def split: virtio_kind.splits)
qed

lemma R_queue_loop: "queue_loop d q a y = Some y' \<Longrightarrow> R y y'"
proof (erule queue_loop.raw_induct[rotated])
  fix loop d q a y y'
  assume ih: "\<And>d q a y y'. loop d q a y = Some y' \<Longrightarrow> R y y'"
    and eq: "(if last_avail_idx (queue (vdev d y) q) = a then Some y
      else Option.bind (get_desc_rw_size d q (avail_desc d q y) y)
        (\<lambda>r. case r of
               None \<Rightarrow> loop d q a (next_avail d q y)
             | Some (read_size, write_size) \<Rightarrow>
                 Option.bind (device_recv d q (avail_desc d q y) (sint read_size) (sint write_size) y)
                   (\<lambda>(ret, y1). if ret < 0 then Some y1 else loop d q a (next_avail d q y1)))) = Some y'"
  show "R y y'"
    using eq R_refl[of y] R_trans[OF R_next ih] R_recv R_trans[OF R_recv R_trans[OF R_next ih]]
    by (fastforce simp: bind_eq_Some_conv split: if_splits option.splits)
qed

lemma R_notify: "queue_notify d q y = Some y' \<Longrightarrow> R y y'"
  using R_queue_loop R_refl by (auto simp: queue_notify_def split: if_splits)

lemma R_reset: "R y (virtio_reset d y)"
  unfolding virtio_reset_def by (rule R_vdev) (auto simp: legal_def vd_ok_def pow2_def MAX_QUEUE_NUM_def)

lemma R_reg_write: "virtio_reg_write d off v y = Some y' \<Longrightarrow> R y y'"
proof -
  let ?q = "unat (queue_sel (vdev d y))"
  have q: "R y (upd_queue d ?q (\<lambda>q. q\<lparr>desc_addr := f q\<rparr>) y)" "R y (upd_queue d ?q (\<lambda>q. q\<lparr>avail_addr := f q\<rparr>) y)"
    "R y (upd_queue d ?q (\<lambda>q. q\<lparr>used_addr := f q\<rparr>) y)" for f by (rule R_queue; simp)+
  have ready: "R y (upd_queue d ?q (\<lambda>q. q\<lparr>ready := v AND 1\<rparr>) y)"
    by (rule R_queue) (simp add: word_and_le1)
  have num: "R y (upd_queue d ?q (\<lambda>q. q\<lparr>num := v\<rparr>) y)" if "v AND (v - 1) = 0" "0 < v"
    using that by (intro R_queue) (simp add: pow2_def)
  have sel: "R y (upd_vdev d (\<lambda>s. s\<lparr>queue_sel := v\<rparr>) y)" if "unat v < MAX_QUEUE"
    using that by (intro R_vdev) (simp add: legal_def vd_ok_def MAX_QUEUE_def word_less_nat_alt)
  show "virtio_reg_write d off v y = Some y' \<Longrightarrow> R y y'"
    unfolding virtio_reg_write_def Let_def
    using q ready num sel R_refl[of y] R_notify[of d "unat v" y y'] R_field(1,2,3)
      R_trans[OF R_field(1) R_set_irq] R_trans[OF R_field(2) R_trans[OF R_set_irq R_reset]]
    by (auto split: if_splits)
qed

lemma R_mmio_write: "virtio_mmio_write d off v k y = Some y' \<Longrightarrow> R y y'"
proof -
  have "R y (virtio_config_write d o2 v k y)" for o2
    by (simp add: virtio_config_write_def Let_def R_vdev legal_config R_refl)
  then show "virtio_mmio_write d off v k y = Some y' \<Longrightarrow> R y y'"
    using R_reg_write R_refl by (auto simp: virtio_mmio_write_def split: if_splits)
qed

lemma R_mmio_read: "R y (snd (virtio_mmio_read d off k y))"
  by (auto simp: virtio_mmio_read_def R_abort R_refl split: option.splits)

lemma R_queue_put: "queue_put d buf y = Some y' \<Longrightarrow> R y y'"
  using R_trans[OF R_to_queue R_trans[OF R_consume R_next]]
  by (auto simp: queue_put_def Let_def bind_eq_Some_conv)

lemma R_net_packet:
  assumes eq: "virtio_net_write_packet d buf y = Some y'" shows "R y y'"
proof (cases "get_desc_rw_size d 0 (avail_desc d 0 y) y")
  case (Some r)
  then show ?thesis
    using eq R_refl R_trans[OF R_to_queue R_trans[OF R_to_queue R_trans[OF R_consume R_next]]]
    by (cases r) (auto simp: virtio_net_write_packet_def Let_def bind_eq_Some_conv split: if_splits)
qed (use eq R_refl in \<open>auto simp: virtio_net_write_packet_def split: if_splits\<close>)

lemma R_console_data: "virtio_console_write_data d buf y = Some (n, y') \<Longrightarrow> R y y'"
  using R_refl R_queue_put by (auto simp: virtio_console_write_data_def split: if_splits)

lemma R_notify_config: "R y (virtio_config_change_notify d y)"
  unfolding virtio_config_change_notify_def by (rule R_trans[OF R_field(1) R_set_irq])

lemma R_event: "virtio_input_queue_event d t code val y = Some (n, y') \<Longrightarrow> R y y'"
  using R_refl R_queue_put by (auto simp: virtio_input_queue_event_def split: if_splits)

lemma R_events: "send_events d es y = Some (n, y') \<Longrightarrow> R y y'"
proof (induction es arbitrary: y)
  case (Cons e es)
  then show ?case using R_event R_trans[OF R_event] by (auto simp: bind_eq_Some_conv split: if_splits)
qed (simp add: R_refl)

lemma R_mouse:
  assumes eq: "virtio_input_send_mouse_event d dx dy dz buttons y = Some (n, y')" shows "R y y'"
proof (cases "vd_kind (vdev d y) \<noteq> VirtioInput VIRTIO_INPUT_TYPE_MOUSE \<and> vd_kind (vdev d y) \<noteq> VirtioInput VIRTIO_INPUT_TYPE_TABLET")
  case True
  then show ?thesis using eq by (simp add: virtio_input_send_mouse_event_def Let_def R_refl)
next
  case False
  obtain es where "Option.bind (send_events d es y) (\<lambda>(ret, y1). if ret \<noteq> 0 then Some (ret, y1)
       else virtio_input_queue_event d 0 0 0 (if buttons \<noteq> buttons_state (vdev d y)
         then upd_vdev d (\<lambda>s. s\<lparr>buttons_state := buttons\<rparr>) y1 else y1)) = Some (n, y')"
    using eq False unfolding virtio_input_send_mouse_event_def Let_def by (simp only: if_False)
  then show ?thesis
    using R_events R_trans[OF R_events R_event] R_trans[OF R_events R_trans[OF R_field(9) R_event]]
    by (auto simp: bind_eq_Some_conv split: if_splits)
qed

lemma R_block_done: "virtio_block_req_cb d ret y = Some y' \<Longrightarrow> R y y'"
  using R_trans[OF R_block_end R_trans[OF R_field(5) R_notify]]
  by (auto simp: virtio_block_req_cb_def Let_def bind_eq_Some_conv)

lemma R_step: "virtio_step d y y' \<Longrightarrow> R y y'"
proof (induction rule: virtio_step.induct)
  case (console_resize y width height)
  show ?case unfolding virtio_console_resize_event_def by (rule R_trans[OF R_field(8) R_notify_config])
next
  case (key_event down key_code y n y')
  then show ?case using R_refl R_events by (auto simp: virtio_input_send_key_event_def simp del: send_events.simps split: if_splits)
qed (auto intro: R_mmio_read R_mmio_write R_net_packet R_console_data R_mouse R_block_done)

lemma R_reachable: "(virtio_step d)\<^sup>*\<^sup>* y y' \<Longrightarrow> R y y'"
  by (induction rule: rtranclp_induct) (auto intro: R_refl R_trans R_step)

end

end
