(* ===== verification/Machine.thy ===== *)
theory Machine
  imports Virtio_Steps
begin

unbundle bit_operations_syntax

text \<open>
  The machine as a whole: an access to a device range is dispatched to the callback that
  \<^verbatim>\<open>virt_machine_init\<close> registered for it. Every callback, a queue notification of a virtio device with all
  that follows from it included, changes of the executing hart only what devices may change, so the
  invariant of the interpreter holds on the machine.
\<close>

section \<open>Dispatch\<close>

text \<open>
  No range has the null callback \<open>DevNone\<close>. A write that starts the processing of a queue and never
  returns stops the program.
\<close>

definition machine_mmio :: "RISCVMachine mmio" where
  "machine_mmio = \<lparr>
     read_func = (\<lambda>d offset size_log2 y. case d of
         DevNone \<Rightarrow> (0, abort y)
       | DevMmio \<Rightarrow> mmio_read offset size_log2 y
       | DevUart \<Rightarrow> uart_read offset size_log2 y
       | DevDwApbUart \<Rightarrow> dw_apb_uart_read offset size_log2 y
       | DevClint \<Rightarrow> clint_read offset size_log2 y
       | DevPlic \<Rightarrow> plic_read offset size_log2 y
       | DevVirtio i \<Rightarrow> virtio_mmio_read i offset size_log2 y),
     write_func = (\<lambda>d offset val size_log2 y. case d of
         DevNone \<Rightarrow> abort y
       | DevMmio \<Rightarrow> mmio_write offset val size_log2 y
       | DevUart \<Rightarrow> uart_write offset val size_log2 y
       | DevDwApbUart \<Rightarrow> dw_apb_uart_write offset val size_log2 y
       | DevClint \<Rightarrow> clint_write offset val size_log2 y
       | DevPlic \<Rightarrow> plic_write offset val size_log2 y
       | DevVirtio i \<Rightarrow> (case virtio_mmio_write i offset val size_log2 y of Some y1 \<Rightarrow> y1 | None \<Rightarrow> abort y))\<rparr>"

section \<open>The machine keeps the hart invariant\<close>

lemma dev_frame_host: "dev_frame y (y\<lparr>host := h\<rparr>)"
  unfolding dev_frame_def
  by (intro conjI exI[of _ "mip (cpu y)"] exI[of _ "power_down_flag (cpu y)"] exI[of _ "timecmp (cpu y)"]
      exI[of _ "plic_enable_irq (cpu y)"] exI[of _ "mcycle (cpu y)"]) simp_all

interpretation frame: virtio_steps dev_frame
  by unfold_locales (auto intro: dev_frame_trans dev_frame_upd_dev plic_set_irq_frame dev_frame_host)

lemma machine_read_frame: "dev_frame y (snd (read_func machine_mmio d off k y))"
  by (auto simp: machine_mmio_def read_callbacks_frame abort_frame frame.R_mmio_read split: devid.split)

lemma machine_write_frame: "dev_frame y (write_func machine_mmio d off v k y)"
  by (auto simp: machine_mmio_def write_callbacks_frame abort_frame frame.R_mmio_write split: devid.split option.split)

interpretation machine: mmio_frame machine_mmio
  by unfold_locales (rule machine_read_frame, rule machine_write_frame)

text \<open>
  C1. The interpreter keeps the hart invariant on the whole machine: after any number of cycles,
  whatever the instructions, traps, interrupts and device accesses, the control registers are legal,
  the program counter is even and \<^verbatim>\<open>x0\<close> is zero.
\<close>

theorem machine_keeps_hart_inv:
  assumes "hart_inv (cpu y)"
  shows "hart_inv (cpu (snd (riscv_cpu_interp machine_mmio dromajo_fpu n y)))"
  using dromajo_fpu_ok assms by (rule machine.interp_hart_inv)

text \<open>
  A machine with two harts fresh from \<^verbatim>\<open>riscv_cpu_init\<close>, one RAM range, interrupt sources 3 and 5 pending
  and two characters waiting on the console.
\<close>

definition demo_hart :: "nat \<Rightarrow> RISCVCPUState" where
  "demo_hart h = (riscv_cpu_init 0x10000 False (of_nat h))\<lparr>physical_addr_len := 56\<rparr>"

definition demo_machine :: msys where
  "demo_machine = \<lparr>cpu = demo_hart 0, host = (\<lambda>_. 0), mem_map = [demo_ram],
     vm = \<lparr>maxinsns = 0, cosim = False, vm_pending_interrupt = - 1, vm_pending_exception = - 1\<rparr>,
     dev = \<lparr>ncpus = 2, cur_hart = 0, cpu_state = demo_hart, plic_pending_irq = 0x14, plic_served_irq = 0,
       plic_priority = (\<lambda>_. 0),
       uart = \<lparr>rx_fifo_len = 0, ie = 0, ip = 0, txctrl = 0, rxctrl = 0, uart_div = 0\<rparr>,
       dw_uart = \<lparr>div_latch = 0, rbr = 0, ier = 0, fcr = 0, iid = 1, lcr = 0, lsr = 0x60\<rparr>,
       virtio = (\<lambda>_. zero_device (\<lambda>_. 0)), console_in = [0x68, 0x69], console_out = [], aborted = False\<rparr>\<rparr>"

theorem machine_keeps_hart_inv_witness:
  "hart_inv (cpu (snd (riscv_cpu_interp machine_mmio dromajo_fpu 1000 demo_machine)))"
  by (rule machine_keeps_hart_inv) (simp add: demo_machine_def demo_hart_def hart_inv_init)

end
