(* ===== verification/Device_Theorems.thy ===== *)
theory Device_Theorems
  imports Machine
begin

unbundle bit_operations_syntax

text \<open>
  What the devices promise to software: the PLIC hands out each pending source once until it is
  completed and keeps the external-interrupt bits of the harts up to date, the CLINT timer registers
  read back what was written, and the UARTs deliver bytes in order.
\<close>

section \<open>PLIC\<close>

lemma ctz_bit: "m \<noteq> 0 \<Longrightarrow> bit (push_bit (ctz32 m) 1 :: u32) n \<longleftrightarrow> n = ctz32 m"
  using ctz32_lowest(3)[of m] by (simp add: bit_pow2 del: push_bit_of_1)

text \<open>The external-interrupt bits of a hart reflect whether a source is waiting.\<close>

definition ext_pending :: "RISCVCPUState \<Rightarrow> bool" where
  "ext_pending s \<longleftrightarrow> bit (mip s) 9 \<and> bit (mip s) 11"

definition ext_clear :: "RISCVCPUState \<Rightarrow> bool" where
  "ext_clear s \<longleftrightarrow> \<not> bit (mip s) 9 \<and> \<not> bit (mip s) 11"

lemma update_mip_ext:
  assumes "h < ncpus (dev y)"
  shows "if plic_mask y \<noteq> 0 then ext_pending (hart h (plic_update_mip h y)) else ext_clear (hart h (plic_update_mip h y))"
  using assms by (simp add: plic_update_mip_def ext_pending_def ext_clear_def riscv_cpu_set_mip_def
      riscv_cpu_reset_mip_def Let_def bit_or_iff bit_and_iff bit_not_iff bit_of)

lemma update_mip_mask [simp]: "plic_mask (plic_update_mip h y) = plic_mask y"
  by (simp add: plic_update_mip_def plic_mask_def abort_def)

lemma update_mip_dev [simp]:
  "ncpus (dev (plic_update_mip h y)) = ncpus (dev y)"
  "plic_served_irq (dev (plic_update_mip h y)) = plic_served_irq (dev y)"
  by (simp_all add: plic_update_mip_def abort_def)

text \<open>
  C40. Claiming an interrupt: when some source is pending and not being served, the claim returns the
  lowest such source (numbered from 1), takes exactly this source out of the waiting set, and sets
  the hart's external-interrupt bits if and only if another source is still waiting.
\<close>

theorem plic_claim_lowest:
  assumes "plic_mask y \<noteq> 0" "h < ncpus (dev y)"
  shows "\<exists>i < 32. bit (plic_mask y) i \<and> (\<forall>j < i. \<not> bit (plic_mask y) j)
    \<and> fst (plic_claim h y) = of_nat (i + 1)
    \<and> (\<forall>n. bit (plic_mask (snd (plic_claim h y))) n \<longleftrightarrow> bit (plic_mask y) n \<and> n \<noteq> i)
    \<and> (if plic_mask (snd (plic_claim h y)) \<noteq> 0 then ext_pending (hart h (snd (plic_claim h y)))
       else ext_clear (hart h (snd (plic_claim h y))))"
proof -
  let ?i = "ctz32 (plic_mask y)"
  let ?y1 = "upd_dev (\<lambda>d. d\<lparr>plic_served_irq := plic_served_irq d OR push_bit ?i 1\<rparr>) y"
  have c: "plic_claim h y = (of_nat (?i + 1), plic_update_mip h ?y1)"
    using assms(1) by (simp add: plic_claim_def Let_def)
  have m: "bit (plic_mask ?y1) n \<longleftrightarrow> bit (plic_mask y) n \<and> n \<noteq> ?i" for n
    using ctz_bit[OF assms(1), of n]
    by (auto simp: plic_mask_def bit_and_iff bit_or_iff bit_not_iff simp del: push_bit_of_1)
  have "h < ncpus (dev ?y1)" using assms(2) by simp
  from update_mip_ext[OF this] show ?thesis
    using ctz32_lowest[OF assms(1)] unfolding c fst_conv snd_conv update_mip_mask m
    by (intro exI[of _ ?i]) simp
qed

lemma and_31_of_nat: "unat ((of_nat k :: u32) AND 31) = k mod 32"
proof -
  have "(of_nat k :: u32) AND 31 = take_bit 5 (of_nat k)"
    by (simp add: take_bit_eq_mask mask_eq_exp_minus_1)
  then show ?thesis
    by (simp add: unsigned_take_bit_eq unsigned_of_nat) (simp add: take_bit_eq_mod)
qed

text \<open>
  Claim and complete are inverse on the set of sources in service: completing the number a claim
  returned makes exactly the claimed source available again.
\<close>

theorem plic_claim_complete:
  assumes "plic_mask y \<noteq> 0"
  shows "plic_served_irq (dev (plic_complete (fst (plic_claim h y)) (snd (plic_claim h y)))) = plic_served_irq (dev y)"
proof -
  let ?i = "ctz32 (plic_mask y)"
  have i: "?i < 32" "bit (plic_mask y) ?i" using ctz32_lowest[OF assms] by auto
  have s: "(unat ((of_nat (Suc ?i) :: u32) AND 31) + 31) mod 32 = ?i"
    using i(1) by (cases "?i = 31") (simp_all only: and_31_of_nat, simp_all)
  have free: "\<not> bit (plic_served_irq (dev y)) ?i" using i(2) by (simp add: plic_mask_def bit_and_iff bit_not_iff)
  have "(plic_served_irq (dev y) OR push_bit ?i 1) AND NOT (push_bit ?i 1) = plic_served_irq (dev y)"
    by (rule bit_eqI) (use free ctz_bit[OF assms] in \<open>auto simp: bit_and_iff bit_or_iff bit_not_iff simp del: push_bit_of_1\<close>)
  then show ?thesis
    using assms by (simp add: plic_claim_def plic_complete_def Let_def s del: push_bit_of_1 of_nat_Suc of_nat_add)
qed

lemma fold_update_mip_frame:
  "plic_mask (fold plic_update_mip hs y) = plic_mask y" "ncpus (dev (fold plic_update_mip hs y)) = ncpus (dev y)"
  by (induction hs arbitrary: y) auto

lemma hart_abort: "hart h (abort y) = hart h y"
  by (simp add: abort_def hart_def)

lemma update_mip_other: "h \<noteq> h' \<Longrightarrow> hart h (plic_update_mip h' y) = hart h y"
  by (cases "h' < ncpus (dev y)") (simp_all add: plic_update_mip_def hart_abort)

lemma fold_update_mip:
  assumes "h \<in> set hs" "h < ncpus (dev y)"
  shows "if plic_mask y \<noteq> 0 then ext_pending (hart h (fold plic_update_mip hs y))
    else ext_clear (hart h (fold plic_update_mip hs y))"
  using assms
proof (induction hs arbitrary: y rule: rev_induct)
  case (snoc k hs)
  let ?y = "fold plic_update_mip hs y"
  show ?case
  proof (cases "k = h")
    case True
    then show ?thesis using snoc.prems update_mip_ext[of h ?y] by (simp add: fold_update_mip_frame)
  next
    case False
    then show ?thesis using snoc by (simp add: update_mip_other)
  qed
qed simp

lemma update_all_harts:
  assumes "h < ncpus (dev y)"
  shows "if plic_mask (fold plic_update_mip [0..<ncpus (dev y)] y) \<noteq> 0
    then ext_pending (hart h (fold plic_update_mip [0..<ncpus (dev y)] y))
    else ext_clear (hart h (fold plic_update_mip [0..<ncpus (dev y)] y))"
  unfolding fold_update_mip_frame(1) by (rule fold_update_mip) (use assms in simp_all)

text \<open>
  Raising or lowering an interrupt line updates every hart: afterwards each hart has its
  external-interrupt bits set if a source is pending and unserved, and clear otherwise.
\<close>

theorem plic_set_irq_updates_all:
  assumes "h < ncpus (dev y)"
  shows "if plic_mask (plic_set_irq irq st y) \<noteq> 0 then ext_pending (hart h (plic_set_irq irq st y))
    else ext_clear (hart h (plic_set_irq irq st y))"
proof -
  let ?y1 = "upd_dev (\<lambda>d. d\<lparr>plic_pending_irq := (if st then plic_pending_irq d OR push_bit (irq - 1) 1
      else plic_pending_irq d AND NOT (push_bit (irq - 1) 1))\<rparr>) y"
  have "h < ncpus (dev ?y1)" using assms by simp
  then show ?thesis unfolding plic_set_irq_def Let_def by (rule update_all_harts)
qed

section \<open>CLINT\<close>

lemma unat_drop_bit: "unat (drop_bit k (a :: u32)) = unat a div 2 ^ k"
proof -
  have "unat a < 2 ^ LENGTH(32)" by (rule unsigned_less)
  then show ?thesis by (simp add: unsigned_drop_bit_eq take_bit_nat_eq_self flip: drop_bit_eq_div)
qed

lemma size_mask_word [simp]: "size_mask 2 v = v"
proof -
  have m: "(0xffffffff :: u32) = - 1" by simp
  show ?thesis unfolding size_mask_def m by simp
qed

lemma drop_bit_and_1: "(drop_bit 2 a AND 1 = (0 :: u32)) \<longleftrightarrow> unat a div 4 mod 2 = 0"
  by (simp add: and_one_eq word_unat_eq_iff unat_mod_distrib unat_drop_bit)

text \<open>The address decoding of the compare registers.\<close>

lemma timecmp_decode:
  assumes "h < 0xfff"
  shows "\<not> (0x4000 + 8 * of_nat h :: u32) < 0x4000" "\<not> (0x4004 + 8 * of_nat h :: u32) < 0x4000"
    and "(0x4000 :: u32) \<le> 0x4000 + 8 * of_nat h" "(0x4000 :: u32) \<le> 0x4004 + 8 * of_nat h"
    and "(0x4000 + 8 * of_nat h :: u32) < 0xbff8" "(0x4004 + 8 * of_nat h :: u32) < 0xbff8"
    and "(0x4000 + 8 * of_nat h :: u32) \<noteq> 0xbff8" "(0x4004 + 8 * of_nat h :: u32) \<noteq> 0xbff8"
    and "(0x4000 + 8 * of_nat h :: u32) \<noteq> 0xbffc" "(0x4004 + 8 * of_nat h :: u32) \<noteq> 0xbffc"
    and "unat (drop_bit 3 (0x4000 + 8 * of_nat h - 0x4000 :: u32)) = h"
    and "unat (drop_bit 3 (0x4004 + 8 * of_nat h - 0x4000 :: u32)) = h"
    and "drop_bit 2 (0x4000 + 8 * of_nat h :: u32) AND 1 = 0" "drop_bit 2 (0x4004 + 8 * of_nat h :: u32) AND 1 \<noteq> 0"
proof -
  have u: "unat (of_nat k :: u32) = k" if "k < 2 ^ 32" for k
    using that by (simp add: unsigned_of_nat take_bit_nat_eq_self)
  have a: "unat (0x4000 + 8 * of_nat h :: u32) = 0x4000 + 8 * h" and b: "unat (0x4004 + 8 * of_nat h :: u32) = 0x4004 + 8 * h"
    using u[of "0x4000 + 8 * h"] u[of "0x4004 + 8 * h"] assms by simp_all
  have c: "unat (8 * of_nat h :: u32) = 8 * h" and d: "unat (4 + 8 * of_nat h :: u32) = 4 + 8 * h"
    using u[of "8 * h"] u[of "4 + 8 * h"] assms by simp_all
  note w = word_less_nat_alt word_le_nat_alt word_unat_eq_iff a b
  show "\<not> (0x4000 + 8 * of_nat h :: u32) < 0x4000" "\<not> (0x4004 + 8 * of_nat h :: u32) < 0x4000"
    "(0x4000 :: u32) \<le> 0x4000 + 8 * of_nat h" "(0x4000 :: u32) \<le> 0x4004 + 8 * of_nat h"
    "(0x4000 + 8 * of_nat h :: u32) < 0xbff8" "(0x4004 + 8 * of_nat h :: u32) < 0xbff8"
    "(0x4000 + 8 * of_nat h :: u32) \<noteq> 0xbff8" "(0x4004 + 8 * of_nat h :: u32) \<noteq> 0xbff8"
    "(0x4000 + 8 * of_nat h :: u32) \<noteq> 0xbffc" "(0x4004 + 8 * of_nat h :: u32) \<noteq> 0xbffc"
    using assms by (simp_all add: w)
  show "unat (drop_bit 3 (0x4000 + 8 * of_nat h - 0x4000 :: u32)) = h"
    "unat (drop_bit 3 (0x4004 + 8 * of_nat h - 0x4000 :: u32)) = h" by (simp_all add: unat_drop_bit c d)
  show "drop_bit 2 (0x4000 + 8 * of_nat h :: u32) AND 1 = 0" unfolding drop_bit_and_1 a by presburger
  show "drop_bit 2 (0x4004 + 8 * of_nat h :: u32) AND 1 \<noteq> 0" unfolding drop_bit_and_1 b by presburger
qed

lemma clint_timecmp_low:
  assumes "h < 0xfff" "h < ncpus (dev y)"
  shows "clint_write (0x4000 + 8 * of_nat h) v 2 y = upd_hart h (\<lambda>s. riscv_cpu_reset_mip MIP_MTIP (s\<lparr>timecmp := ucast v\<rparr>)) y"
  using assms(2) timecmp_decode[OF assms(1)] by (simp add: clint_write_def Let_def)

lemma clint_timecmp_high:
  assumes "h < 0xfff" "h < ncpus (dev y)"
  shows "clint_write (0x4004 + 8 * of_nat h) v 2 y = upd_hart h (\<lambda>s. riscv_cpu_reset_mip MIP_MTIP
    (s\<lparr>timecmp := (timecmp s AND 0xffffffff) OR push_bit 32 (ucast v)\<rparr>)) y"
  using assms(2) timecmp_decode[OF assms(1)] by (simp add: clint_write_def Let_def)

lemma clint_timecmp_read:
  assumes "h < 0xfff" "h < ncpus (dev y)"
  shows "fst (clint_read (0x4000 + 8 * of_nat h) 2 y) = ucast (timecmp (hart h y))"
    and "fst (clint_read (0x4004 + 8 * of_nat h) 2 y) = ucast (drop_bit 32 (timecmp (hart h y)))"
  using assms(2) timecmp_decode[OF assms(1)] by (simp_all add: clint_read_def Let_def)


lemma reset_mip_timecmp [simp]: "timecmp (riscv_cpu_reset_mip m s) = timecmp s"
  by (simp add: riscv_cpu_reset_mip_def)

lemma halves: "ucast ((ucast (v :: u32) AND 0xffffffff) OR push_bit 32 (ucast (w :: u32)) :: u64) = v"
  "ucast (drop_bit 32 ((ucast v AND 0xffffffff) OR push_bit 32 (ucast w) :: u64)) = w"
proof -
  have m: "(0xffffffff :: u64) = mask 32" by (simp add: mask_eq_exp_minus_1)
  show "ucast ((ucast v AND 0xffffffff) OR push_bit 32 (ucast w) :: u64) = v"
    "ucast (drop_bit 32 ((ucast v AND 0xffffffff) OR push_bit 32 (ucast w) :: u64)) = w"
    unfolding m by (auto intro!: bit_eqI simp: bit_simps)
qed

text \<open>
  The compare register of a hart, written low half first and then high half, reads back what was
  written in both halves, and the write clears the hart's pending timer interrupt.
\<close>

theorem clint_timecmp_roundtrip:
  assumes "h < 0xfff" "h < ncpus (dev y)"
    and y': "y' = clint_write (0x4004 + 8 * of_nat h) w 2 (clint_write (0x4000 + 8 * of_nat h) v 2 y)"
  shows "fst (clint_read (0x4000 + 8 * of_nat h) 2 y') = v \<and> fst (clint_read (0x4004 + 8 * of_nat h) 2 y') = w
    \<and> \<not> bit (mip (hart h y')) 7"
proof -
  let ?y1 = "clint_write (0x4000 + 8 * of_nat h) v 2 y"
  have n: "h < ncpus (dev ?y1)" "h < ncpus (dev y')" using assms(2) unfolding y'
    by (simp_all add: clint_timecmp_low[OF assms(1,2)] clint_timecmp_high[OF assms(1)])
  have "hart h y' = riscv_cpu_reset_mip MIP_MTIP ((hart h ?y1)
      \<lparr>timecmp := (timecmp (hart h ?y1) AND 0xffffffff) OR push_bit 32 (ucast w)\<rparr>)"
    unfolding y' clint_timecmp_high[OF assms(1) n(1)] by simp
  moreover have "timecmp (hart h ?y1) = ucast v" unfolding clint_timecmp_low[OF assms(1,2)] by simp
  ultimately have t: "timecmp (hart h y') = (ucast v AND 0xffffffff) OR push_bit 32 (ucast w)" and "\<not> bit (mip (hart h y')) 7"
    by (simp_all add: riscv_cpu_reset_mip_def bit_and_iff bit_not_iff bit_of)
  then show ?thesis unfolding clint_timecmp_read[OF assms(1) n(2)] t halves by simp
qed

text \<open>
  Writing only the low half of a compare register does not keep the high half: it becomes zero,
  whatever it was, so a driver that moves a deadline by rewriting the low half gets a different
  deadline.
\<close>

theorem clint_low_write_clears_high:
  assumes "h < 0xfff" "h < ncpus (dev y)"
  shows "fst (clint_read (0x4004 + 8 * of_nat h) 2 (clint_write (0x4000 + 8 * of_nat h) v 2 y)) = 0"
proof -
  have "ucast (drop_bit 32 (ucast v :: u64)) = (0 :: u32)" by (rule bit_eqI) (auto simp: bit_simps dest: bit_imp_le_length)
  then show ?thesis using assms by (simp add: clint_timecmp_low clint_timecmp_read)
qed

lemma mtime_trunc: "(m * 16) div 16 = take_bit 60 (m :: u64)"
proof -
  have "m * 16 = push_bit 4 m" by (simp add: push_bit_eq_mult)
  moreover have "x div 16 = drop_bit 4 x" for x :: u64 by (simp add: drop_bit_eq_div)
  ultimately show ?thesis by (auto intro!: bit_eqI simp: bit_simps)
qed

text \<open>
  Writing the low half of the machine timer and reading it back gives the written value. The
  timer has 60 bits, as it is the cycle counter divided by 16: the high half reads back without its
  four top bits.
\<close>

theorem clint_mtime_roundtrip:
  "fst (clint_read 0xbff8 2 (clint_write 0xbff8 v 2 y)) = v
    \<and> fst (clint_read 0xbffc 2 (clint_write 0xbffc v 2 y)) = v AND 0x0fffffff"
proof -
  let ?t = "rtc_get_time y"
  have m: "(0xFFFFFFFF00000000 :: u64) = push_bit 32 (mask 32)" "(0xFFFFFFFF :: u64) = mask 32" "(0x0fffffff :: u32) = mask 28"
    by (simp_all add: mask_eq_exp_minus_1 push_bit_eq_mult)
  have l: "(?t AND push_bit 32 (mask 32)) + ucast v = (?t AND push_bit 32 (mask 32)) OR ucast v"
    and h: "(?t AND mask 32) + push_bit 32 (ucast v) = (?t AND mask 32) OR push_bit 32 (ucast v)"
    by (rule disjunctive_add; auto simp: bit_simps)+
  have "ucast (take_bit 60 ((?t AND 0xFFFFFFFF00000000) + ucast v)) = v"
    unfolding m l by (auto intro!: bit_eqI simp: bit_simps)
  moreover have "ucast (drop_bit 32 (take_bit 60 ((?t AND 0xFFFFFFFF) + push_bit 32 (ucast v)))) = v AND 0x0fffffff"
    unfolding m h by (auto intro!: bit_eqI simp: bit_simps)
  moreover have "rtc_get_time (upd_hart 0 (\<lambda>s. s\<lparr>mcycle := x * 16\<rparr>) y) = take_bit 60 x" for x
    by (simp add: rtc_get_time_def mtime_trunc)
  ultimately show ?thesis unfolding clint_read_def clint_write_def Let_def by (simp del: distrib_right_numeral)
qed

text \<open>
  \<^verbatim>\<open>virt_machine_get_sleep_duration\<close> raises the timer interrupt exactly when it is not pending yet, the
  clock runs and the deadline has passed; then the hart does not sleep. The delay it returns is never
  longer than the one asked for, and is zero unless the hart waits for an interrupt.
\<close>

theorem sleep_duration_timer:
  assumes "0 \<le> ms_delay" and r: "virt_machine_get_sleep_duration h ms_delay y = (d, y')"
  defines "due \<equiv> \<not> bit (mip (hart h y)) 7 \<and> 0 < rtc_get_time y \<and> sint (timecmp (hart h y) - rtc_get_time y) \<le> 0"
  shows "y' = (if due then upd_hart h (riscv_cpu_set_mip (vm y) MIP_MTIP) y else y)
    \<and> (bit (mip (hart h y')) 7 \<longleftrightarrow> bit (mip (hart h y)) 7 \<or> due)
    \<and> 0 \<le> d \<and> d \<le> ms_delay \<and> (due \<or> \<not> power_down_flag (hart h y') \<longrightarrow> d = 0)"
proof -
  have m: "riscv_cpu_get_mip s AND MIP_MTIP = 0 \<longleftrightarrow> \<not> bit (mip s) 7" for s
    unfolding MIP_MTIP_def and_push_bit_1_eq_0_iff by (simp add: riscv_cpu_get_mip_def)
  have b: "bit (mip (riscv_cpu_set_mip vmc MIP_MTIP s)) 7" for vmc s
    by (simp add: riscv_cpu_set_mip_def Let_def bit_or_iff bit_of)
  show ?thesis
    using r assms(1) b pos_imp_zdiv_nonneg_iff[of 10000]
    unfolding virt_machine_get_sleep_duration_def m due_def
    by (auto simp: Let_def riscv_cpu_get_power_down_def split: if_splits prod.splits)
qed

section \<open>UARTs\<close>

text \<open>The driver's side of the SiFive UART: send a string, receive \<open>n\<close> characters.\<close>

definition uart_puts :: "u8 list \<Rightarrow> msys \<Rightarrow> msys" where
  "uart_puts cs y = fold (\<lambda>c. uart_write 0 (ucast c) 2) cs y"

fun uart_gets :: "nat \<Rightarrow> msys \<Rightarrow> u32 list \<times> msys" where
  "uart_gets 0 y = ([], y)"
| "uart_gets (Suc n) y = (let r = uart_read 4 2 y; q = uart_gets n (snd r) in (fst r # fst q, snd q))"

lemma uart_puts_out: "console_out (dev (uart_puts cs y)) = console_out (dev y) @ cs"
proof (induction cs arbitrary: y)
  case (Cons c cs)
  have "ucast (ucast c :: u32) = c" by (rule bit_eqI) (auto simp: bit_simps dest: bit_imp_le_length)
  then have "console_out (dev (uart_write 0 (ucast c) 2 y)) = console_out (dev y) @ [c]"
    by (simp add: uart_write_def console_write_def)
  then show ?case using Cons[of "uart_write 0 (ucast c) 2 y"] by (simp add: uart_puts_def)
qed (simp add: uart_puts_def)

lemma uart_gets_in:
  "n \<le> length (console_in (dev y)) \<Longrightarrow>
   fst (uart_gets n y) = map ucast (take n (console_in (dev y)))
   \<and> console_in (dev (snd (uart_gets n y))) = drop n (console_in (dev y))"
proof (induction n arbitrary: y)
  case (Suc n)
  then obtain c cs where c: "console_in (dev y) = c # cs" by (cases "console_in (dev y)") auto
  let ?y1 = "upd_dev (\<lambda>m. m\<lparr>console_in := cs\<rparr>) y"
  have "uart_read 4 2 y = (ucast c, ?y1)" using c by (simp add: uart_read_def console_read_def)
  then show ?case using Suc.IH[of ?y1] Suc.prems c by (simp add: Let_def)
qed simp

text \<open>
  The SiFive UART carries bytes in order: the characters sent reach the console in the order of
  the writes, and as many reads of the receive register as there are waiting characters return these
  characters in order, followed by the empty marker \<^verbatim>\<open>0x80000000\<close>.
\<close>

theorem uart_in_order:
  "console_out (dev (uart_puts cs y)) = console_out (dev y) @ cs
   \<and> fst (uart_gets (Suc (length (console_in (dev y)))) y) = map ucast (console_in (dev y)) @ [0x80000000]"
proof -
  have app: "fst (uart_gets (Suc n) y) = fst (uart_gets n y) @ [fst (uart_read 4 2 (snd (uart_gets n y)))]" for n
    by (induction n arbitrary: y) (simp_all add: Let_def)
  show ?thesis unfolding app using uart_gets_in[of "length (console_in (dev y))" y]
    by (simp add: uart_puts_out uart_read_def console_read_def)
qed

lemma divisor_join:
  fixes d :: u16 and a b :: u32
  shows "ucast ((((d AND - 256) + ucast (a AND 255)) AND 255) + ucast ((b AND 255) * 256) AND 255) = a AND 255"
    and "ucast (drop_bit 8 ((((d AND - 256) + ucast (a AND 255)) AND 255) + ucast ((b AND 255) * 256))) = b AND 255"
proof -
  have m: "x * 256 = push_bit 8 x" for x :: u32 by (simp add: push_bit_eq_mult)
  have k: "(255 :: u16) = mask 8" "(255 :: u32) = mask 8" "(- 256 :: u16) = NOT (mask 8)"
    by (simp_all add: mask_eq_exp_minus_1)
  have 1: "(d AND NOT (mask 8)) + ucast (a AND mask 8) = (d AND NOT (mask 8)) OR ucast (a AND mask 8)"
    by (rule disjunctive_add) (auto simp: bit_simps)
  have 2: "(x AND mask 8) + ucast (push_bit 8 (b AND mask 8)) = (x AND mask 8) OR ucast (push_bit 8 (b AND mask 8))" for x :: u16
    by (rule disjunctive_add) (auto simp: bit_simps)
  show "ucast ((((d AND - 256) + ucast (a AND 255)) AND 255) + ucast ((b AND 255) * 256) AND 255) = a AND 255"
    "ucast (drop_bit 8 ((((d AND - 256) + ucast (a AND 255)) AND 255) + ucast ((b AND 255) * 256))) = b AND 255"
    unfolding m k 1 2 by (auto intro!: bit_eqI simp: bit_simps)
qed

text \<open>
  With the divisor-latch bit set, the two bytes written to the divisor latch of the DesignWare
  UART read back unchanged.
\<close>

theorem dw_divisor_roundtrip:
  assumes "bit (lcr (dw_uart (dev y))) 7"
    and y': "y' = dw_apb_uart_write 4 b 2 (dw_apb_uart_write 0 a 2 y)"
  shows "fst (dw_apb_uart_read 0 2 y') = a AND 255 \<and> fst (dw_apb_uart_read 4 2 y') = b AND 255"
proof -
  have l: "lcr (dw_uart (dev y)) AND push_bit 7 1 \<noteq> 0"
    using assms(1) and_push_bit_1_eq_0_iff by metis
  show ?thesis using l unfolding y'
    by (simp add: dw_apb_uart_write_def dw_apb_uart_read_def dw_offset_ok_def Let_def upd_dw_def divisor_join del: push_bit_of_1)
qed

text \<open>
  The driver's receive loop on the DesignWare UART: poll the line status twice (the status returned is
  the one before the poll), and read the data register if a byte is ready.
\<close>

definition dw_getc :: "msys \<Rightarrow> u32 option \<times> msys" where
  "dw_getc y = (let y1 = snd (dw_apb_uart_read 0x14 0 y); (st, y2) = dw_apb_uart_read 0x14 0 y1
     in if bit st 0 then let (c, y3) = dw_apb_uart_read 0 0 y2 in (Some c, y3) else (None, y2))"

fun dw_gets :: "nat \<Rightarrow> msys \<Rightarrow> u32 option list \<times> msys" where
  "dw_gets 0 y = ([], y)"
| "dw_gets (Suc n) y = (let r = dw_getc y; q = dw_gets n (snd r) in (fst r # fst q, snd q))"

definition dw_idle :: "msys \<Rightarrow> bool" where
  "dw_idle y \<longleftrightarrow> \<not> bit (lcr (dw_uart (dev y))) 7 \<and> \<not> bit (lsr (dw_uart (dev y))) 0"

lemma lsr_ready_bit: "bit ((w OR 96) AND - 31 :: u8) 0 \<longleftrightarrow> bit w 0"
  by (simp add: bit_and_iff bit_or_iff)

lemma dw_lsr_empty:
  assumes "\<not> bit (lsr (dw_uart (dev y))) 0" "console_in (dev y) = c # cs"
  shows "snd (dw_apb_uart_read 0x14 0 y) = upd_dev (\<lambda>m. m\<lparr>console_in := cs, dw_uart := (dw_uart m)
    \<lparr>lsr := ((lsr (dw_uart m) OR 96) AND - 31) OR 1, rbr := c\<rparr>\<rparr>) y"
  using assms
  by (simp add: dw_apb_uart_read_def dw_line_status_def dw_offset_ok_def console_read_def Let_def upd_dw_def
      and_1_eq_0_iff lsr_ready_bit)

lemma dw_lsr_ready:
  assumes "bit (lsr (dw_uart (dev y))) 0"
  shows "dw_apb_uart_read 0x14 0 y = (ucast (lsr (dw_uart (dev y))),
    upd_dev (\<lambda>m. m\<lparr>dw_uart := (dw_uart m)\<lparr>lsr := (lsr (dw_uart m) OR 96) AND - 31\<rparr>\<rparr>) y)"
  using assms
  by (simp add: dw_apb_uart_read_def dw_line_status_def dw_offset_ok_def Let_def upd_dw_def and_1_eq_0_iff lsr_ready_bit)

lemma dw_rbr:
  assumes "\<not> bit (lcr (dw_uart (dev y))) 7"
  shows "dw_apb_uart_read 0 0 y = (ucast (rbr (dw_uart (dev y))),
    upd_dev (\<lambda>m. m\<lparr>dw_uart := (dw_uart m)\<lparr>lsr := (lsr (dw_uart m) AND NOT 1) AND NOT 30\<rparr>\<rparr>) y)"
proof -
  have "lcr (dw_uart (dev y)) AND push_bit 7 1 = 0" using assms unfolding and_push_bit_1_eq_0_iff .
  then show ?thesis unfolding dw_apb_uart_read_def dw_offset_ok_def Let_def upd_dw_def by simp
qed

lemma dw_getc_byte:
  assumes "dw_idle y" "console_in (dev y) = c # cs"
  shows "fst (dw_getc y) = Some (ucast c) \<and> dw_idle (snd (dw_getc y)) \<and> console_in (dev (snd (dw_getc y))) = cs"
proof -
  define y1 where "y1 = snd (dw_apb_uart_read 0x14 0 y)"
  have d1: "y1 = upd_dev (\<lambda>m. m\<lparr>console_in := cs, dw_uart := (dw_uart m)
    \<lparr>lsr := ((lsr (dw_uart m) OR 96) AND - 31) OR 1, rbr := c\<rparr>\<rparr>) y"
    using assms dw_lsr_empty by (auto simp: y1_def dw_idle_def)
  have b1: "bit (lsr (dw_uart (dev y1))) 0" by (simp add: d1 bit_or_iff)
  then have b2: "bit (ucast (lsr (dw_uart (dev y1))) :: u32) 0" by (simp add: bit_unsigned_iff)
  define y2 where "y2 = upd_dev (\<lambda>m. m\<lparr>dw_uart := (dw_uart m)\<lparr>lsr := (lsr (dw_uart m) OR 96) AND - 31\<rparr>\<rparr>) y1"
  have l2: "\<not> bit (lcr (dw_uart (dev y2))) 7" using assms(1) by (simp add: y2_def d1 dw_idle_def)
  have "dw_getc y = (Some (ucast (rbr (dw_uart (dev y2)))),
    upd_dev (\<lambda>m. m\<lparr>dw_uart := (dw_uart m)\<lparr>lsr := (lsr (dw_uart m) AND NOT 1) AND NOT 30\<rparr>\<rparr>) y2)"
    unfolding dw_getc_def Let_def y1_def[symmetric] dw_lsr_ready[OF b1] y2_def[symmetric]
    by (simp add: b2 dw_rbr[OF l2])
  then show ?thesis using assms(1) l2 by (simp add: y2_def d1 dw_idle_def bit_and_iff bit_not_iff)
qed

text \<open>
  The DesignWare UART delivers its input in order and loses no byte: when it is idle and \<open>n\<close> bytes
  wait on the console, \<open>n\<close> rounds of the receive loop return exactly these bytes.
\<close>

theorem dw_uart_in_order:
  assumes "dw_idle y" "n \<le> length (console_in (dev y))"
  shows "fst (dw_gets n y) = map (\<lambda>c. Some (ucast c)) (take n (console_in (dev y)))
    \<and> console_in (dev (snd (dw_gets n y))) = drop n (console_in (dev y)) \<and> dw_idle (snd (dw_gets n y))"
  using assms
proof (induction n arbitrary: y)
  case (Suc n)
  then obtain c cs where "console_in (dev y) = c # cs" by (cases "console_in (dev y)") auto
  then show ?case using Suc.IH[of "snd (dw_getc y)"] Suc.prems dw_getc_byte[of y c cs] by (simp add: Let_def)
qed simp

section \<open>The properties on a concrete machine\<close>

lemma demo_dev [simp]:
  "ncpus (dev demo_machine) = 2" "plic_mask demo_machine = 0x14" "console_in (dev demo_machine) = [0x68, 0x69]"
  "dw_idle demo_machine"
  by (simp_all add: demo_machine_def plic_mask_def dw_idle_def)

theorem plic_claim_lowest_witness:
  "\<exists>i < 32. bit (0x14 :: u32) i \<and> fst (plic_claim 1 demo_machine) = of_nat (i + 1)"
  using plic_claim_lowest[of demo_machine 1] by auto

theorem plic_claim_complete_witness:
  "plic_served_irq (dev (plic_complete (fst (plic_claim 1 demo_machine)) (snd (plic_claim 1 demo_machine))))
   = plic_served_irq (dev demo_machine)"
  by (rule plic_claim_complete) simp

theorem plic_set_irq_updates_all_witness:
  "if plic_mask (plic_set_irq 1 True demo_machine) \<noteq> 0 then ext_pending (hart 1 (plic_set_irq 1 True demo_machine))
   else ext_clear (hart 1 (plic_set_irq 1 True demo_machine))"
  by (rule plic_set_irq_updates_all) simp

theorem clint_timecmp_roundtrip_witness:
  "fst (clint_read 0x4008 2 (clint_write 0x400c 7 2 (clint_write 0x4008 9 2 demo_machine))) = 9"
  using clint_timecmp_roundtrip[of 1 demo_machine "clint_write 0x400c 7 2 (clint_write 0x4008 9 2 demo_machine)" 7 9] by simp

theorem clint_low_write_clears_high_witness:
  "fst (clint_read 0x400c 2 (clint_write 0x4008 9 2 demo_machine)) = 0"
  using clint_low_write_clears_high[of 1 demo_machine 9] by simp

theorem sleep_duration_timer_witness:
  "fst (virt_machine_get_sleep_duration 0 10 demo_machine) \<le> 10"
proof -
  obtain d y' where "virt_machine_get_sleep_duration 0 10 demo_machine = (d, y')" by force
  with sleep_duration_timer[OF _ this] show ?thesis by simp
qed

theorem dw_divisor_roundtrip_witness:
  "fst (dw_apb_uart_read 0 2 (dw_apb_uart_write 4 1 2 (dw_apb_uart_write 0 0x86 2
     (dw_apb_uart_write 0xc 0x80 2 demo_machine)))) = 0x86"
proof -
  have "bit (lcr (dw_uart (dev (dw_apb_uart_write 0xc 0x80 2 demo_machine)))) 7"
    by (simp add: dw_apb_uart_write_def dw_offset_ok_def upd_dw_def)
  from dw_divisor_roundtrip[OF this refl, of 1 "0x86"] show ?thesis by simp
qed

theorem dw_uart_in_order_witness:
  "fst (dw_gets 2 demo_machine) = [Some 0x68, Some 0x69]"
  using dw_uart_in_order[of demo_machine 2] by simp

end
