(* ===== verification/Boot_Rom.thy ===== *)
theory Boot_Rom
  imports Exec_Theorems
begin

unbundle bit_operations_syntax

text \<open>
  Checkpoints of \<^verbatim>\<open>riscv_cpu.cpp\<close>: the instruction encoders \<^verbatim>\<open>create_*\<close>, the generator \<^verbatim>\<open>create_boot_rom\<close> of
  the code that restores a hart, and the choice and contents of the memory images in
  \<^verbatim>\<open>riscv_cpu_serialize\<close> and \<^verbatim>\<open>riscv_cpu_deserialize\<close>.

  The ROM under construction is a list of words with the two positions \<^verbatim>\<open>code_pos\<close> and \<^verbatim>\<open>data_pos\<close>, which
  are natural numbers as they stay far below \<open>2 ^ 32\<close>; a store outside the array, which is undefined in
  C++, is dropped, and the flag \<open>overrun\<close> records it. The files of a checkpoint are the byte images.
  The text file of register values, the hexadecimal dumps and \<^verbatim>\<open>LIVECACHE\<close> are left out; an \<^verbatim>\<open>exit\<close>, \<^verbatim>\<open>err\<close>
  or failed \<^verbatim>\<open>assert\<close> is a value of \<open>ckpt_error\<close>.
\<close>

section \<open>Instruction encoders\<close>

definition create_csrrw :: "u32 \<Rightarrow> u32 \<Rightarrow> u32" where
  "create_csrrw rs csrn = 0x1073 OR push_bit 20 (csrn AND 0xFFF) OR push_bit 15 (rs AND 0x1F)"

definition create_csrrs :: "u32 \<Rightarrow> u32 \<Rightarrow> u32" where
  "create_csrrs rd csrn = 0x2073 OR push_bit 20 (csrn AND 0xFFF) OR push_bit 7 (rd AND 0x1F)"

definition create_auipc :: "u32 \<Rightarrow> u32 \<Rightarrow> u32" where
  "create_auipc rd addr0 =
     (let addr = (if addr0 AND 0x800 \<noteq> 0 then addr0 + 0x800 else addr0)
      in 0x17 OR push_bit 7 (rd AND 0x1F) OR push_bit 12 (drop_bit 12 addr))"

definition create_addi :: "u32 \<Rightarrow> u32 \<Rightarrow> u32" where
  "create_addi rd addr =
     (let pos = addr AND 0xFFF
      in 0x13 OR push_bit 7 (rd AND 0x1F) OR push_bit 15 (rd AND 0x1F) OR push_bit 20 (pos AND 0xFFF))"

definition create_seti :: "u32 \<Rightarrow> u32 \<Rightarrow> u32" where
  "create_seti rd data = 0x13 OR push_bit 7 (rd AND 0x1F) OR push_bit 20 (data AND 0xFFF)"

definition create_ld :: "u32 \<Rightarrow> u32 \<Rightarrow> u32" where
  "create_ld rd rs1 = 3 OR push_bit 7 (rd AND 0x1F) OR push_bit 12 3 OR push_bit 15 (rs1 AND 0x1F)"

definition create_sd :: "u32 \<Rightarrow> u32 \<Rightarrow> u32" where
  "create_sd rs1 rs2 = 0x23 OR push_bit 20 (rs2 AND 0x1F) OR push_bit 12 3 OR push_bit 15 (rs1 AND 0x1F)"

definition create_fld :: "u32 \<Rightarrow> u32 \<Rightarrow> u32" where
  "create_fld rd rs1 = 7 OR push_bit 7 (rd AND 0x1F) OR push_bit 12 3 OR push_bit 15 (rs1 AND 0x1F)"

section \<open>The ROM under construction\<close>

record boot_rom =
  rom :: "u32 list"
  code_pos :: nat
  data_pos :: nat
  overrun :: bool

text \<open>\<^verbatim>\<open>rom[(*code_pos)++] = w\<close> and \<^verbatim>\<open>rom[(*data_pos)++] = w\<close>.\<close>

definition put_code :: "u32 \<Rightarrow> boot_rom \<Rightarrow> boot_rom" where
  "put_code w b = b\<lparr>rom := (rom b)[code_pos b := w], code_pos := code_pos b + 1,
     overrun := (overrun b \<or> length (rom b) \<le> code_pos b)\<rparr>"

definition put_data :: "u32 \<Rightarrow> boot_rom \<Rightarrow> boot_rom" where
  "put_data w b = b\<lparr>rom := (rom b)[data_pos b := w], data_pos := data_pos b + 1,
     overrun := (overrun b \<or> length (rom b) \<le> data_pos b)\<rparr>"

definition put_codes :: "u32 list \<Rightarrow> boot_rom \<Rightarrow> boot_rom" where
  "put_codes ws b = fold put_code ws b"

text \<open>\<^verbatim>\<open>val & 0xFFFFFFFF\<close> and \<^verbatim>\<open>val >> 32\<close>, in this order.\<close>

definition put_data64 :: "u64 \<Rightarrow> boot_rom \<Rightarrow> boot_rom" where
  "put_data64 val b = put_data (ucast (drop_bit 32 val)) (put_data (ucast val) b)"

definition data_off :: "boot_rom \<Rightarrow> u32" where
  "data_off b = 4 * (of_nat (data_pos b) - of_nat (code_pos b))"

definition skip_csr_recovery :: "u64 list \<Rightarrow> u32 \<Rightarrow> bool" where
  "skip_csr_recovery missing_csrs csrn \<longleftrightarrow> ucast csrn \<in> set missing_csrs"

definition create_csr12_recovery :: "u64 list \<Rightarrow> u32 \<Rightarrow> u16 \<Rightarrow> boot_rom \<Rightarrow> boot_rom" where
  "create_csr12_recovery mc csrn val b =
     (if skip_csr_recovery mc csrn then b
      else put_codes [create_seti 1 (ucast (val AND 0xFFF)), create_csrrw 1 csrn] b)"

definition create_csr64_recovery :: "u64 list \<Rightarrow> u32 \<Rightarrow> u64 \<Rightarrow> boot_rom \<Rightarrow> boot_rom" where
  "create_csr64_recovery mc csrn val b =
     (if skip_csr_recovery mc csrn then b
      else put_data64 val (put_codes [create_auipc 1 (data_off b), create_addi 1 (data_off b), create_ld 1 1,
             create_csrrw 1 csrn] b))"

definition create_reg_recovery :: "u32 \<Rightarrow> u64 \<Rightarrow> boot_rom \<Rightarrow> boot_rom" where
  "create_reg_recovery rn val b =
     put_data64 val (put_codes [create_auipc rn (data_off b), create_addi rn (data_off b), create_ld rn rn] b)"

definition create_io64_recovery :: "u64 \<Rightarrow> u64 \<Rightarrow> boot_rom \<Rightarrow> boot_rom" where
  "create_io64_recovery addr val b =
     (let b1 = put_data64 addr (put_codes [create_auipc 1 (data_off b), create_addi 1 (data_off b), create_ld 1 1] b)
      in put_data64 val (put_codes [create_auipc 2 (data_off b1), create_addi 2 (data_off b1), create_ld 2 2,
           create_sd 1 2] b1))"

definition create_hang_nonzero_hart :: "boot_rom \<Rightarrow> boot_rom" where
  "create_hang_nonzero_hart b = put_codes [0xf1402573, 0x00050663, 0x10500073, 0xffdff06f] b"

text \<open>The body of the loop over the floating-point registers.\<close>

definition create_fp_recovery :: "RISCVCPUState \<Rightarrow> nat \<Rightarrow> boot_rom \<Rightarrow> boot_rom" where
  "create_fp_recovery s i b =
     put_data (ucast (drop_bit 32 (reg s (of_nat i))))
       (put_data (ucast (fp_reg s (of_nat i)))
         (put_codes [create_auipc 1 (data_off b), create_addi 1 (data_off b), create_fld (of_nat i) 1] b))"

section \<open>The boot ROM\<close>

datatype ckpt_error = UnsupportedPriv | RomTooSmall | InsideRom | UnexpectedPc | NoRam | DuplicateRam | SizeMismatch

abbreviation (input) ROM_SIZE :: nat where "ROM_SIZE \<equiv> 0x1000"
abbreviation (input) ROM_BASE_ADDR :: u64 where "ROM_BASE_ADDR \<equiv> 0x10000"
abbreviation (input) BOOT_BASE_ADDR :: u64 where "BOOT_BASE_ADDR \<equiv> 0x10000"

definition boot_rom_init :: boot_rom where
  "boot_rom_init = \<lparr>rom = replicate (ROM_SIZE div 4) 0, code_pos = unat (BOOT_BASE_ADDR - ROM_BASE_ADDR) div 4,
     data_pos = 0xB00 div 4, overrun = False\<rparr>"

definition boot_prologue :: "nat \<Rightarrow> u64 list \<Rightarrow> RISCVCPUState \<Rightarrow> boot_rom \<Rightarrow> boot_rom" where
  "boot_prologue ncpus mc s b =
     create_csr64_recovery mc 0x7b1 (pc s) (if ncpus = 1 then create_hang_nonzero_hart b else b)"

definition boot_status :: "u64 list \<Rightarrow> RISCVCPUState \<Rightarrow> boot_rom \<Rightarrow> boot_rom" where
  "boot_status mc s b =
     create_csr64_recovery mc 0x301 (ucast (misa s) OR push_bit 62 2)
      (create_csr64_recovery mc 0x300 (get_mstatus s (- 1))
        (create_csr12_recovery mc 0x7b0 (0x600 OR ucast (priv s)) b))"

definition boot_fpu :: "u64 list \<Rightarrow> RISCVCPUState \<Rightarrow> boot_rom \<Rightarrow> boot_rom" where
  "boot_fpu mc s b =
     (if fs s \<noteq> 0 then
        fold (create_fp_recovery s) [0..<32]
          (create_csr12_recovery mc 0x003 (ucast (fflags s OR push_bit 5 (ucast (frm s))))
            (create_csr12_recovery mc 0x002 (ucast (frm s))
              (create_csr12_recovery mc 0x001 (ucast (fflags s)) b)))
      else b)"

definition boot_hpm :: "u64 list \<Rightarrow> RISCVCPUState \<Rightarrow> nat \<Rightarrow> boot_rom \<Rightarrow> boot_rom" where
  "boot_hpm mc s i b =
     create_csr64_recovery mc (0x320 + of_nat i) (mhpmevent s (of_nat i))
       (create_csr12_recovery mc (0xb00 + of_nat i) 0 b)"

text \<open>The lists of registers restored one after the other by \<^verbatim>\<open>create_csr64_recovery\<close> and \<^verbatim>\<open>create_csr12_recovery\<close>.\<close>

definition csr64s :: "u64 list \<Rightarrow> (u32 \<times> u64) list \<Rightarrow> boot_rom \<Rightarrow> boot_rom" where
  "csr64s mc cvs b = fold (\<lambda>(csrn, v). create_csr64_recovery mc csrn v) cvs b"

definition csr12s :: "u64 list \<Rightarrow> (u32 \<times> u16) list \<Rightarrow> boot_rom \<Rightarrow> boot_rom" where
  "csr12s mc cvs b = fold (\<lambda>(csrn, v). create_csr12_recovery mc csrn v) cvs b"

definition boot_csrs :: "u64 list \<Rightarrow> RISCVCPUState \<Rightarrow> boot_rom \<Rightarrow> boot_rom" where
  "boot_csrs mc s b =
     (let b1 = csr64s mc [(0x7a0, ucast (tselect s))] (fold (boot_hpm mc s) [3..<32] b);
          b2 = csr64s mc [(0x302, ucast (medeleg s)), (0x303, ucast (mideleg s)), (0x304, ucast (mie s)),
                 (0x305, mtvec s), (0x105, stvec s)] b1;
          b3 = csr12s mc [(0x320, ucast (mcountinhibit s)), (0x306, ucast (mcounteren s)), (0x106, ucast (scounteren s))] b2;
          b4 = csr64s mc (map (\<lambda>i. (0x3b0 + of_nat i, csr_pmpaddr s (of_nat i))) [0..<16]) b3;
          b5 = csr64s mc [(0x3a0, csr_pmpcfg s 0), (0x3a2, csr_pmpcfg s 2)] b4
      in csr64s mc [(0x340, mscratch s), (0x341, mepc s), (0x342, mcause s), (0x343, mtval s), (0x140, sscratch s),
           (0x141, sepc s), (0x142, scause s), (0x143, stval s), (0x344, ucast (mip s))] b5)"

definition boot_regs :: "RISCVCPUState \<Rightarrow> nat list \<Rightarrow> boot_rom \<Rightarrow> boot_rom" where
  "boot_regs s is b = fold (\<lambda>i. create_reg_recovery (of_nat i) (reg s (of_nat i))) is b"

definition boot_clint :: "u64 list \<Rightarrow> RISCVCPUState \<Rightarrow> u64 \<Rightarrow> boot_rom \<Rightarrow> boot_rom" where
  "boot_clint mc s clint_base_addr b =
     create_io64_recovery (clint_base_addr + 0xbff8) (mcycle s div 16)
       (csr64s mc [(0xb02, minstret s), (0xb00, mcycle s)]
         (create_io64_recovery (clint_base_addr + 0x4000) (timecmp s) b))"

definition boot_epilogue :: "u64 list \<Rightarrow> RISCVCPUState \<Rightarrow> boot_rom \<Rightarrow> boot_rom" where
  "boot_epilogue mc s b =
     put_codes [create_csrrs 1 0x7b2, 0x7b200073]
       (create_csr64_recovery mc 0x180 (satp s) (put_codes [create_csrrw 1 0x7b2] b))"

text \<open>Everything \<^verbatim>\<open>create_boot_rom\<close> stores into the ROM; its two error exits are checked around it.\<close>

definition boot_body :: "nat \<Rightarrow> u64 list \<Rightarrow> u64 \<Rightarrow> RISCVCPUState \<Rightarrow> boot_rom" where
  "boot_body ncpus mc clint_base_addr s =
     boot_epilogue mc s (boot_regs s [1..<3] (boot_clint mc s clint_base_addr (boot_regs s [3..<32]
       (boot_csrs mc s (boot_fpu mc s (boot_status mc s (boot_prologue ncpus mc s boot_rom_init)))))))"

definition create_boot_rom :: "nat \<Rightarrow> u64 list \<Rightarrow> u64 \<Rightarrow> RISCVCPUState \<Rightarrow> ckpt_error + u32 list" where
  "create_boot_rom ncpus mc clint_base_addr s =
     (if priv s = 2 then Inl UnsupportedPriv
      else
        let b = boot_body ncpus mc clint_base_addr s in
        if length (rom b) \<le> data_pos b \<or> data_pos boot_rom_init \<le> code_pos b then Inl RomTooSmall
        else Inr (rom b))"

section \<open>Saving and restoring memory\<close>

text \<open>\<^verbatim>\<open>serialize_memory\<close> and \<^verbatim>\<open>deserialize_memory\<close>: the bytes of a block as the contents of a file.\<close>

definition serialize_memory :: "host_mem \<Rightarrow> u64 \<Rightarrow> u64 \<Rightarrow> u8 list" where
  "serialize_memory h base sz = map (\<lambda>i. h (base + of_nat i)) [0..<unat sz]"

definition deserialize_memory :: "u64 \<Rightarrow> u64 \<Rightarrow> u8 list \<Rightarrow> host_mem \<Rightarrow> ckpt_error + host_mem" where
  "deserialize_memory base sz file h =
     (if length file < unat sz then Inl SizeMismatch
      else Inr (\<lambda>q. if q - base < sz then file ! unat (q - base) else h q))"

text \<open>The little-endian bytes of the ROM array, as \<^verbatim>\<open>serialize_memory\<close> sees it.\<close>

definition rom_bytes :: "u32 list \<Rightarrow> u8 list" where
  "rom_bytes ws = concat (map (\<lambda>w. map (\<lambda>i. ucast (drop_bit (8 * i) w)) [0..<4]) ws)"

text \<open>
  The loop of \<^verbatim>\<open>riscv_cpu_serialize\<close> over the ranges, from the last to the first: the index of the boot
  RAM and the image of main memory.
\<close>

primrec ckpt_scan ::
  "PhysMemoryMap \<Rightarrow> host_mem \<Rightarrow> u64 \<Rightarrow> nat \<Rightarrow> nat option \<times> u8 list option \<Rightarrow> ckpt_error + (nat option \<times> u8 list option)" where
  "ckpt_scan m h ram_base 0 acc = Inr acc"
| "ckpt_scan m h ram_base (Suc i) acc =
     (let pr = m ! i in
      if pr_is_ram pr \<and> pr_addr pr = ROM_BASE_ADDR then
        if fst acc \<noteq> None then Inl DuplicateRam else ckpt_scan m h ram_base i (Some i, snd acc)
      else if pr_is_ram pr \<and> pr_addr pr = ram_base then
        if snd acc \<noteq> None then Inl DuplicateRam
        else ckpt_scan m h ram_base i (fst acc, Some (serialize_memory h (pr_phys_mem pr) (pr_size pr)))
      else ckpt_scan m h ram_base i acc)"

record checkpoint =
  mainram :: "u8 list"
  bootram :: "u8 list"

definition riscv_cpu_serialize ::
  "nat \<Rightarrow> u64 list \<Rightarrow> u64 \<Rightarrow> u64 \<Rightarrow> PhysMemoryMap \<Rightarrow> host_mem \<Rightarrow> RISCVCPUState \<Rightarrow> ckpt_error + checkpoint" where
  "riscv_cpu_serialize ncpus mc ram_base clint_base_addr m h s =
     (case ckpt_scan m h ram_base (length m) (None, None) of
        Inl e \<Rightarrow> Inl e
      | Inr (Some i, Some main) \<Rightarrow>
          if priv s \<noteq> 3 \<or> ROM_BASE_ADDR + of_nat ROM_SIZE < pc s then
            (case create_boot_rom ncpus mc clint_base_addr s of
               Inl e \<Rightarrow> Inl e
             | Inr ws \<Rightarrow> Inr \<lparr>mainram = main, bootram = rom_bytes ws\<rparr>)
          else if BOOT_BASE_ADDR < pc s then Inl InsideRom
          else if pc s = BOOT_BASE_ADDR
          then Inr \<lparr>mainram = main, bootram = serialize_memory h (pr_phys_mem (m ! i)) (pr_size (m ! i))\<rparr>
          else Inl UnexpectedPc
      | Inr _ \<Rightarrow> Inl NoRam)"

primrec ckpt_restore :: "PhysMemoryMap \<Rightarrow> u64 \<Rightarrow> checkpoint \<Rightarrow> nat \<Rightarrow> host_mem \<Rightarrow> ckpt_error + host_mem" where
  "ckpt_restore m ram_base c 0 h = Inr h"
| "ckpt_restore m ram_base c (Suc i) h =
     (let pr = m ! i in
      if pr_is_ram pr \<and> pr_addr pr = ROM_BASE_ADDR then
        (case deserialize_memory (pr_phys_mem pr) (pr_size pr) (bootram c) h of
           Inl e \<Rightarrow> Inl e | Inr h1 \<Rightarrow> ckpt_restore m ram_base c i h1)
      else if pr_is_ram pr \<and> pr_addr pr = ram_base then
        (case deserialize_memory (pr_phys_mem pr) (pr_size pr) (mainram c) h of
           Inl e \<Rightarrow> Inl e | Inr h1 \<Rightarrow> ckpt_restore m ram_base c i h1)
      else ckpt_restore m ram_base c i h)"

definition riscv_cpu_deserialize :: "PhysMemoryMap \<Rightarrow> u64 \<Rightarrow> checkpoint \<Rightarrow> host_mem \<Rightarrow> ckpt_error + host_mem" where
  "riscv_cpu_deserialize m ram_base c h = ckpt_restore m ram_base c (length m) h"

end
