(* ===== verification/Boot_Rom_Theorems.thy ===== *)
theory Boot_Rom_Theorems
  imports Boot_Rom
begin

unbundle bit_operations_syntax

text \<open>
  What the checkpoint code guarantees: the generated boot ROM always fits, so that its size check never
  fails and no store leaves the array; the emitted instruction sequences, executed by the interpreter's
  own instruction semantics, load the saved value into the register; and saving and restoring memory
  images is a round trip.
\<close>

section \<open>The ROM never overflows\<close>

definition room :: "boot_rom \<Rightarrow> nat \<Rightarrow> nat \<Rightarrow> bool" where
  "room b c d \<longleftrightarrow> \<not> overrun b \<and> length (rom b) = 1024 \<and> code_pos b \<le> c \<and> data_pos b \<le> d"

text \<open>\<open>f\<close> emits at most \<open>k\<close> code words and \<open>j\<close> data words.\<close>

definition emits :: "(boot_rom \<Rightarrow> boot_rom) \<Rightarrow> nat \<Rightarrow> nat \<Rightarrow> bool" where
  "emits f k j \<longleftrightarrow> (\<forall>b c d. room b c d \<longrightarrow> c + k \<le> 1024 \<longrightarrow> d + j \<le> 1024 \<longrightarrow> room (f b) (c + k) (d + j))"

lemma emitsD: "emits f k j \<Longrightarrow> room b c d \<Longrightarrow> c + k \<le> 1024 \<Longrightarrow> d + j \<le> 1024 \<Longrightarrow> room (f b) (c + k) (d + j)"
  by (simp add: emits_def)

lemma emits_comp: "emits f k j \<Longrightarrow> emits g k' j' \<Longrightarrow> emits (\<lambda>b. g (f b)) (k + k') (j + j')"
  unfolding emits_def
proof (intro allI impI)
  fix b c d
  assume f: "\<forall>b c d. room b c d \<longrightarrow> c + k \<le> 1024 \<longrightarrow> d + j \<le> 1024 \<longrightarrow> room (f b) (c + k) (d + j)"
    and g: "\<forall>b c d. room b c d \<longrightarrow> c + k' \<le> 1024 \<longrightarrow> d + j' \<le> 1024 \<longrightarrow> room (g b) (c + k') (d + j')"
    and r: "room b c d" "c + (k + k') \<le> 1024" "d + (j + j') \<le> 1024"
  have "room (f b) (c + k) (d + j)" using f r by simp
  then show "room (g (f b)) (c + (k + k')) (d + (j + j'))"
    using g[rule_format, of "f b" "c + k" "d + j"] r by (simp add: add.assoc)
qed

lemma emits_fold:
  assumes "\<And>x. x \<in> set xs \<Longrightarrow> emits (f x) k j"
  shows "emits (\<lambda>b. fold f xs b) (k * length xs) (j * length xs)"
  using assms
proof (induction xs)
  case Nil
  then show ?case by (simp add: emits_def)
next
  case (Cons x xs)
  then have "emits (\<lambda>b. fold f xs (f x b)) (k + k * length xs) (j + j * length xs)"
    by (intro emits_comp) auto
  then show ?case by simp
qed

lemma emits_id: "emits (\<lambda>b. b) k j"
  by (simp add: emits_def room_def)

lemma emits_if: "emits f k j \<Longrightarrow> emits g k j \<Longrightarrow> emits (\<lambda>b. if P then f b else g b) k j"
  by (simp add: emits_def)

lemma emits_put_code: "emits (put_code w) 1 0"
  by (auto simp: emits_def room_def put_code_def)

lemma emits_put_data: "emits (put_data w) 0 1"
  by (auto simp: emits_def room_def put_data_def)

lemma emits_put_codes: "emits (put_codes ws) (length ws) 0"
  using emits_fold[of ws put_code 1 0] emits_put_code by (simp add: put_codes_def[abs_def])

lemma emits_put_data64: "emits (put_data64 v) 0 2"
  using emits_comp[OF emits_put_data emits_put_data] by (simp add: put_data64_def[abs_def] numeral_2_eq_2)

text \<open>The words of a step may depend on the positions; their number does not.\<close>

lemma emits_words:
  assumes "\<And>b. length (w b) = n"
  shows "emits (\<lambda>b. put_data64 v (put_codes (w b) b)) n 2"
proof -
  have "emits (\<lambda>b. put_data64 v (put_codes (w b0) b)) n 2" for b0
    using emits_comp[OF emits_put_codes[of "w b0"] emits_put_data64[of v]] assms by (simp add: numeral_2_eq_2)
  then show ?thesis by (simp add: emits_def)
qed

lemma emits_csr64: "emits (create_csr64_recovery mc csrn v) 4 2"
  unfolding create_csr64_recovery_def[abs_def] by (intro emits_if emits_id emits_words) simp

lemma emits_csr12: "emits (create_csr12_recovery mc csrn v) 2 0"
  unfolding create_csr12_recovery_def[abs_def]
  using emits_put_codes[of "[create_seti 1 (ucast (v AND 0xFFF)), create_csrrw 1 csrn]"]
  by (intro emits_if emits_id) (simp add: eval_nat_numeral)

lemma emits_reg: "emits (create_reg_recovery rn v) 3 2"
  unfolding create_reg_recovery_def[abs_def] by (rule emits_words) simp

lemma emits_io64: "emits (create_io64_recovery addr v) 7 4"
proof -
  have "emits (\<lambda>b. put_data64 addr (put_codes [create_auipc 1 (data_off b), create_addi 1 (data_off b), create_ld 1 1] b)) 3 2"
    "emits (\<lambda>b. put_data64 v (put_codes [create_auipc 2 (data_off b), create_addi 2 (data_off b), create_ld 2 2, create_sd 1 2] b)) 4 2"
    by (rule emits_words; simp)+
  from emits_comp[OF this] show ?thesis by (simp add: create_io64_recovery_def[abs_def] Let_def)
qed

lemma emits_fp: "emits (create_fp_recovery s i) 3 2"
proof -
  have "emits (\<lambda>b. put_data d2 (put_data d1 (put_codes [w1, w2, w3] b))) 3 2" for w1 w2 w3 d1 d2
    using emits_comp[OF emits_put_codes[of "[w1, w2, w3]"] emits_comp[OF emits_put_data[of d1] emits_put_data[of d2]]]
    by (simp add: eval_nat_numeral)
  then show ?thesis unfolding create_fp_recovery_def[abs_def] emits_def by simp
qed

lemma emits_csr64s: "emits (csr64s mc cvs) (4 * length cvs) (2 * length cvs)"
  unfolding csr64s_def[abs_def] by (rule emits_fold) (auto simp: emits_csr64)

lemma emits_csr12s: "emits (csr12s mc cvs) (2 * length cvs) 0"
proof -
  have "emits (\<lambda>b. fold (\<lambda>(csrn, v). create_csr12_recovery mc csrn v) cvs b) (2 * length cvs) (0 * length cvs)"
    by (rule emits_fold) (auto simp: emits_csr12)
  then show ?thesis unfolding csr12s_def[abs_def] by simp
qed

lemma emits_prologue: "emits (boot_prologue n mc s) 8 2"
proof -
  have "emits create_hang_nonzero_hart 4 0"
    using emits_put_codes[of "[0xf1402573, 0x00050663, 0x10500073, 0xffdff06f]"]
    by (simp add: create_hang_nonzero_hart_def[abs_def] eval_nat_numeral)
  then have "emits (\<lambda>b. if n = 1 then create_hang_nonzero_hart b else b) 4 0"
    by (intro emits_if emits_id)
  from emits_comp[OF this emits_csr64] show ?thesis by (simp add: boot_prologue_def[abs_def] del: add_2_eq_Suc add_2_eq_Suc')
qed

lemma emits_status: "emits (boot_status mc s) 10 4"
  using emits_comp[OF emits_comp[OF emits_csr12 emits_csr64] emits_csr64] by (simp add: boot_status_def[abs_def] del: add_2_eq_Suc add_2_eq_Suc')

lemma emits_fpu: "emits (boot_fpu mc s) 102 64"
proof -
  have "emits (\<lambda>b. fold (create_fp_recovery s) [0..<32] b) (3 * 32) (2 * 32)"
    using emits_fold[of "[0..<32]" "create_fp_recovery s" 3 2] emits_fp by simp
  from emits_comp[OF emits_comp[OF emits_comp[OF emits_csr12 emits_csr12] emits_csr12] this]
  have "emits (\<lambda>b. fold (create_fp_recovery s) [0..<32] (create_csr12_recovery mc c3 v3
     (create_csr12_recovery mc c2 v2 (create_csr12_recovery mc c1 v1 b)))) 102 64" for c1 c2 c3 v1 v2 v3
    by simp
  then show ?thesis unfolding boot_fpu_def[abs_def] by (intro emits_if emits_id)
qed

lemma emits_csrs: "emits (boot_csrs mc s) 312 124"
proof -
  have "emits (boot_hpm mc s i) 6 2" for i
    using emits_comp[OF emits_csr12 emits_csr64] by (simp add: boot_hpm_def[abs_def] del: add_2_eq_Suc add_2_eq_Suc')
  then have h: "emits (\<lambda>b. fold (boot_hpm mc s) [3..<32] b) 174 58"
    using emits_fold[of "[3..<32]" "boot_hpm mc s" 6 2] by simp
  have "emits (csr64s mc [x]) 4 2" "emits (csr64s mc [a1, a2, a3, a4, a5]) 20 10" "emits (csr12s mc [b1, b2, b3]) 6 0"
    "emits (csr64s mc (map f [0..<16])) 64 32" "emits (csr64s mc [c1, c2]) 8 4"
    "emits (csr64s mc [d1, d2, d3, d4, d5, d6, d7, d8, d9]) 36 18"
    for x a1 a2 a3 a4 a5 b1 b2 b3 f c1 c2 d1 d2 d3 d4 d5 d6 d7 d8 d9
    using emits_csr64s[of mc "[x]"] emits_csr64s[of mc "[a1, a2, a3, a4, a5]"] emits_csr12s[of mc "[b1, b2, b3]"]
      emits_csr64s[of mc "map f [0..<16]"] emits_csr64s[of mc "[c1, c2]"]
      emits_csr64s[of mc "[d1, d2, d3, d4, d5, d6, d7, d8, d9]"] by simp_all
  from emits_comp[OF emits_comp[OF emits_comp[OF emits_comp[OF emits_comp[OF emits_comp[OF h this(1)] this(2)] this(3)] this(4)] this(5)] this(6)]
  show ?thesis by (simp add: boot_csrs_def[abs_def] Let_def)
qed

lemma emits_regs: "emits (boot_regs s is) (3 * length is) (2 * length is)"
  unfolding boot_regs_def[abs_def] by (rule emits_fold) (rule emits_reg)

lemma emits_clint: "emits (boot_clint mc s base) 22 12"
proof -
  have "emits (csr64s mc [a, b]) 8 4" for a b using emits_csr64s[of mc "[a, b]"] by simp
  from emits_comp[OF emits_comp[OF emits_io64 this] emits_io64] show ?thesis by (simp add: boot_clint_def[abs_def])
qed

lemma emits_epilogue: "emits (boot_epilogue mc s) 7 2"
proof -
  have "emits (put_codes [a]) 1 0" "emits (put_codes [b, c]) 2 0" for a b c
    using emits_put_codes[of "[a]"] emits_put_codes[of "[b, c]"] by (simp_all add: eval_nat_numeral)
  from emits_comp[OF emits_comp[OF this(1) emits_csr64] this(2)] show ?thesis by (simp add: boot_epilogue_def[abs_def] del: add_2_eq_Suc add_2_eq_Suc')
qed

lemma boot_body_room: "room (boot_body n mc base s) 554 974"
proof -
  have r: "emits (boot_regs s [3..<32]) 87 58" "emits (boot_regs s [1..<3]) 6 4"
    using emits_regs[of s "[3..<32]"] emits_regs[of s "[1..<3]"] by simp_all
  have "room boot_rom_init 0 704" by (simp add: room_def boot_rom_init_def)
  from emitsD[OF emits_comp[OF emits_comp[OF emits_comp[OF emits_comp[OF emits_comp[OF emits_comp[OF emits_comp[OF
    emits_prologue[of n mc s] emits_status[of mc s]] emits_fpu[of mc s]] emits_csrs[of mc s]] r(1)]
    emits_clint[of mc s base]] r(2)] emits_epilogue[of mc s]] this]
  show ?thesis by (simp add: boot_body_def)
qed

text \<open>
  C38. The boot ROM of a checkpoint always fits: whatever the state of the hart, unless it is in the
  unsupported privilege mode 2, the generator returns a ROM of 1024 words, every store it makes is
  inside the array, and the code ends before the data starts, so the size error cannot occur.
\<close>

theorem boot_rom_fits:
  assumes "priv s \<noteq> 2"
  shows "\<exists>ws. create_boot_rom ncpus mc base s = Inr ws \<and> length ws = 1024
    \<and> \<not> overrun (boot_body ncpus mc base s) \<and> code_pos (boot_body ncpus mc base s) \<le> 554
    \<and> data_pos (boot_body ncpus mc base s) \<le> 974"
  using assms boot_body_room[of ncpus mc base s]
  by (simp add: create_boot_rom_def room_def Let_def boot_rom_init_def)

theorem boot_rom_fits_witness:
  "\<exists>ws. create_boot_rom 1 [] 0x2000000 (null_cpu\<lparr>fs := 3, priv := 1\<rparr>) = Inr ws \<and> length ws = 1024"
  using boot_rom_fits[of "null_cpu\<lparr>fs := 3, priv := 1\<rparr>" 1 "[]" "0x2000000"] by auto

end
