(* ===== verification/Cosim.thy ===== *)
theory Cosim
  imports Machine
begin

unbundle bit_operations_syntax

text \<open>
  The co-simulation interface \<^verbatim>\<open>dromajo_cosim.cpp\<close>: the design under test (DUT) reports each instruction
  it commits, and \<^verbatim>\<open>dromajo_cosim_step\<close> executes one instruction in the golden model and compares the
  program counter, the instruction and the value written.

  \<open>cosim_cfg\<close> holds the fields of \<^verbatim>\<open>RISCVMachine\<close> that co-simulation reads and never changes. The retry
  loop of the step runs until the model executes an instruction; it does not end when every attempt
  traps, so it is a \<open>partial_function\<close> and \<open>None\<close> means that it does not return. The local variable
  \<^verbatim>\<open>emu_insn\<close> has no initial value in the source and keeps its value when a fetch fails; its initial
  content is an argument. A shift \<^verbatim>\<open>1 << pending_interrupt\<close> by 32 or more, undefined in C, gives 0 here.
  Messages are left out.
\<close>

record cosim_cfg =
  htif_tohost_addr :: u64
  mmio_start :: u64
  mmio_end :: u64
  mmio_addrset :: "(u64 \<times> u64) list"
  skip_commit :: "u64 list"

section \<open>Instruction classes\<close>

definition is_store_conditional :: "u32 \<Rightarrow> bool" where
  "is_store_conditional insn \<longleftrightarrow>
     insn AND 0x7f = 0x2f \<and> drop_bit 27 insn = 3 \<and> (funct3_of insn = 2 \<or> funct3_of insn = 3)"

definition is_amo :: "u32 \<Rightarrow> bool" where
  "is_amo insn \<longleftrightarrow> insn AND 0x7f = 0x2f
     \<and> drop_bit 27 insn \<in> {1, 2, 0, 4, 0xc, 0x8, 0x10, 0x14, 0x18, 0x1c}"

text \<open>The physical address of a load is in an MMIO range.\<close>

definition pa_in :: "pa_result \<Rightarrow> u64 \<Rightarrow> u64 \<Rightarrow> bool" where
  "pa_in r start end = (case r of PaOk pa \<Rightarrow> start \<le> pa \<and> pa < end | _ \<Rightarrow> False)"

definition is_mmio_load :: "cosim_cfg \<Rightarrow> 'd sys \<Rightarrow> regno \<Rightarrow> u64 \<Rightarrow> bool" where
  "is_mmio_load cfg y rn offset =
     (let va = riscv_get_reg_previous (cpu y) rn + offset;
          r = riscv_cpu_get_phys_addr y va ACCESS_READ
      in pa_in r (mmio_start cfg) (mmio_end cfg)
         \<or> list_ex (\<lambda>(start, sz). pa_in r start (start + sz)) (mmio_addrset cfg))"

section \<open>Overrides by the DUT\<close>

definition override_reg :: "regno \<Rightarrow> u64 \<Rightarrow> 'd sys \<Rightarrow> 'd sys" where
  "override_reg rn val y = (case riscv_set_reg rn val (cpu y) of None \<Rightarrow> y | Some s \<Rightarrow> y\<lparr>cpu := s\<rparr>)"

text \<open>The counters, \<^verbatim>\<open>mip\<close> and \<^verbatim>\<open>sip\<close> cannot be compared.\<close>

definition reads_volatile_csr :: "u32 \<Rightarrow> bool" where
  "reads_volatile_csr insn \<longleftrightarrow>
     (let csrno = drop_bit 20 insn in
      insn AND 0x7f = 0x73 \<and> rd_of insn \<noteq> 0
      \<and> (0xB00 \<le> csrno \<and> csrno < 0xB20 \<or> 0xC00 \<le> csrno \<and> csrno < 0xC20 \<or> csrno = 0x344 \<or> csrno = 0x144))"

text \<open>Base register, offset and destination of a load or atomic instruction.\<close>

definition load_operands :: "u32 \<Rightarrow> (regno \<times> u64 \<times> regno) option" where
  "load_operands insn =
     (if (insn AND 0x7f = 3 \<or> is_amo insn) \<and> rd_of insn \<noteq> 0 then
        Some (rs1_of insn, if insn AND 0x7f = 3 then scast (i_imm insn) else 0, rd_of insn)
      else if insn AND 0xE003 = 0x6000 \<and> creg 2 insn \<noteq> 0 then
        Some (creg 7 insn, ucast (get_field1 insn 10 3 5 OR get_field1 insn 5 6 7), creg 2 insn)
      else if insn AND 0xE003 = 0x4000 \<and> creg 2 insn \<noteq> 0 then
        Some (creg 7 insn,
              ucast (get_field1 insn 10 3 5 OR get_field1 insn 6 2 2 OR get_field1 insn 5 6 6), creg 2 insn)
      else None)"

definition handle_dut_overrides :: "cosim_cfg \<Rightarrow> u32 \<Rightarrow> u64 \<Rightarrow> 'd sys \<Rightarrow> 'd sys" where
  "handle_dut_overrides cfg insn dut_wdata y =
     (let y1 = (if reads_volatile_csr insn then override_reg (rd_of insn) dut_wdata y else y) in
      case load_operands insn of
        None \<Rightarrow> y1
      | Some (rn, offset, rd) \<Rightarrow>
          if is_mmio_load cfg y1 rn offset then override_reg rd dut_wdata y1 else y1)"

section \<open>Initialisation and traps of the DUT\<close>

definition dromajo_cosim_init :: "'d sys \<Rightarrow> 'd sys" where
  "dromajo_cosim_init y =
     y\<lparr>vm := (vm y)\<lparr>cosim := True, vm_pending_interrupt := - 1, vm_pending_exception := - 1\<rparr>\<rparr>"

text \<open>\<open>None\<close> is the failed assertion that no interrupt is pending.\<close>

definition dromajo_cosim_raise_trap :: "u64 \<Rightarrow> 'd sys \<Rightarrow> 'd sys option" where
  "dromajo_cosim_raise_trap cause y =
     (if sint cause < 0 then
        if vm_pending_interrupt (vm y) = - 1
        then Some (y\<lparr>vm := (vm y)\<lparr>vm_pending_interrupt := uint (cause AND 63)\<rparr>\<rparr>) else None
      else Some (y\<lparr>vm := (vm y)\<lparr>vm_pending_exception := sint (ucast cause :: u32)\<rparr>\<rparr>))"

section \<open>One step\<close>

text \<open>What the model executed: the local variables of \<^verbatim>\<open>dromajo_cosim_step\<close> after its loop.\<close>

record emu_out =
  emu_priv :: u8
  emu_pc :: u64
  emu_insn :: u32
  iregno :: int
  fregno :: int

definition trap_cause :: "RISCVCPUState \<Rightarrow> int" where
  "trap_cause s = sint (ucast (if priv s = PRV_S then scause s else mcause s) :: u32)"

text \<open>
  The fetch at the head of the loop: the instruction word as it is compared, with \<open>e\<close> the previous
  content of \<^verbatim>\<open>emu_insn\<close>.
\<close>

definition cosim_fetch :: "u32 \<Rightarrow> 'd sys \<Rightarrow> u32 \<times> 'd sys" where
  "cosim_fetch e y =
     (let (r, y1) = riscv_read_insn y (riscv_get_pc (cpu y));
          w = (case r of None \<Rightarrow> e | Some w \<Rightarrow> w)
      in (if w AND 3 \<noteq> 3 then w AND 0xFFFF else w, y1))"

text \<open>A failed store-conditional of the DUT.\<close>

definition cosim_fail_sc :: "u32 \<Rightarrow> u64 \<Rightarrow> u64 \<Rightarrow> 'd sys \<Rightarrow> 'd sys" where
  "cosim_fail_sc insn dut_wdata emupc y =
     upd_cpu (riscv_set_pc (emupc + 4))
       (if rd_of insn \<noteq> 0 then override_reg (rd_of insn) dut_wdata y else y)"

text \<open>
  One iteration: \<open>Inl\<close> leaves the loop, with \<open>None\<close> when the causes of the racing exception differ;
  \<open>Inr\<close> is the next iteration.
\<close>

definition cosim_iter ::
  "'d mmio \<Rightarrow> fpu \<Rightarrow> u64 \<Rightarrow> u32 \<Rightarrow> u64 \<Rightarrow> u32 \<Rightarrow> 'd sys \<Rightarrow> (emu_out option \<times> 'd sys) + (u32 \<times> 'd sys)" where
  "cosim_iter io fpu dut_pc dut_insn dut_wdata e y =
     (let emupc = riscv_get_pc (cpu y);
          (insn, y1) = cosim_fetch e y;
          out = (\<lambda>ir fr. \<lparr>emu_priv = riscv_get_priv_level (cpu y), emu_pc = emupc, emu_insn = insn, iregno = ir, fregno = fr\<rparr>)
      in if emupc = dut_pc \<and> insn = dut_insn \<and> is_store_conditional insn \<and> dut_wdata \<noteq> 0 then
           Inl (Some (out (uint (rd_of insn)) (- 1)), cosim_fail_sc insn dut_wdata emupc y1)
         else
           let race = vm_pending_interrupt (vm y1) \<noteq> - 1 \<and> vm_pending_exception (vm y1) \<noteq> - 1;
               y2 = (if race then snd (riscv_cpu_interp64 io fpu 1 y1) else y1)
           in if race \<and> vm_pending_exception (vm y2) \<noteq> trap_cause (cpu y2) then Inl (None, y2)
              else
                let y3 = (if vm_pending_interrupt (vm y2) \<noteq> - 1
                          then upd_cpu (riscv_cpu_set_mip (vm y2)
                                 (riscv_cpu_get_mip (cpu y2) OR push_bit (nat (vm_pending_interrupt (vm y2))) 1)) y2
                          else y2);
                    (n, y4) = riscv_cpu_interp64 io fpu 1 y3
                in if n \<noteq> 0 then
                     Inl (Some (out (riscv_get_most_recently_written_reg (cpu y4))
                                    (riscv_get_most_recently_written_fp_reg (cpu y4))), y4)
                   else Inr (insn, y4\<lparr>vm := (vm y4)\<lparr>vm_pending_interrupt := - 1, vm_pending_exception := - 1\<rparr>\<rparr>))"

partial_function (option) cosim_loop ::
  "'d mmio \<Rightarrow> fpu \<Rightarrow> u64 \<Rightarrow> u32 \<Rightarrow> u64 \<Rightarrow> u32 \<Rightarrow> 'd sys \<Rightarrow> (emu_out option \<times> 'd sys) option" where
  "cosim_loop io fpu dut_pc dut_insn dut_wdata e y =
     (case cosim_iter io fpu dut_pc dut_insn dut_wdata e y of
        Inl r \<Rightarrow> Some r
      | Inr (e1, y1) \<Rightarrow> cosim_loop io fpu dut_pc dut_insn dut_wdata e1 y1)"

declare cosim_loop.simps [code]

text \<open>The value the executed instruction wrote, if any.\<close>

definition emu_result :: "emu_out \<Rightarrow> RISCVCPUState \<Rightarrow> u64 option" where
  "emu_result out s =
     (if iregno out > 0 then Some (riscv_get_reg s (word_of_int (iregno out)))
      else if fregno out \<ge> 0 then Some (riscv_get_fpreg s (word_of_int (fregno out)))
      else None)"

definition cosim_compare ::
  "cosim_cfg \<Rightarrow> u64 \<Rightarrow> u32 \<Rightarrow> u64 \<Rightarrow> bool \<Rightarrow> emu_out \<Rightarrow> 'd sys \<Rightarrow> int \<times> 'd sys" where
  "cosim_compare cfg dut_pc dut_insn dut_wdata check out y =
     (if \<not> check then (0, y)
      else
        let y1 = handle_dut_overrides cfg (emu_insn out) dut_wdata y;
            emu_wdata = emu_result out (cpu y1);
            skip = list_ex (\<lambda>w. w = ucast (emu_insn out)) (skip_commit cfg);
            exit_code = (if skip then 3
              else if emu_pc out \<noteq> dut_pc \<or> emu_insn out \<noteq> dut_insn \<and> emu_insn out AND 3 = 3
                \<or> (case emu_wdata of None \<Rightarrow> False | Some v \<Rightarrow> v \<noteq> dut_wdata)
              then 0x1FFF else 0);
            y2 = upd_cpu riscv_cpu_sync_regs y1
        in (exit_code, if exit_code = 0 \<or> skip then upd_cpu riscv_cpu_sync_regs y2 else y2))"

definition cosim_step ::
  "'d mmio \<Rightarrow> fpu \<Rightarrow> cosim_cfg \<Rightarrow> u64 \<Rightarrow> u32 \<Rightarrow> u64 \<Rightarrow> bool \<Rightarrow> u32 \<Rightarrow> 'd sys \<Rightarrow> (int \<times> 'd sys) option" where
  "cosim_step io fpu cfg dut_pc dut_insn dut_wdata check e y =
     (if (case riscv_phys_read 4 y (htif_tohost_addr cfg) of None \<Rightarrow> False | Some v \<Rightarrow> v AND 1 \<noteq> 0) then Some (2, y)
      else if maxinsns (vm y) = 0 then Some (1, y)
      else
        let y1 = y\<lparr>vm := (vm y)\<lparr>maxinsns := maxinsns (vm y) - 1\<rparr>\<rparr> in
        if riscv_terminated (cpu y1) then Some (1, y1)
        else case cosim_loop io fpu dut_pc dut_insn dut_wdata e y1 of
               None \<Rightarrow> None
             | Some (None, y2) \<Rightarrow> Some (0x1FFF, y2)
             | Some (Some out, y2) \<Rightarrow> Some (cosim_compare cfg dut_pc dut_insn dut_wdata check out y2))"

text \<open>\<^verbatim>\<open>s = r->cpu_state[hartid]\<close>: the hart the step works on becomes the current one.\<close>

definition select_hart :: "nat \<Rightarrow> msys \<Rightarrow> msys" where
  "select_hart h y = y\<lparr>cpu := hart h y,
     dev := (dev y)\<lparr>cur_hart := h, cpu_state := (cpu_state (dev y))(cur_hart (dev y) := cpu y)\<rparr>\<rparr>"

definition dromajo_cosim_step ::
  "cosim_cfg \<Rightarrow> nat \<Rightarrow> u64 \<Rightarrow> u32 \<Rightarrow> u64 \<Rightarrow> bool \<Rightarrow> u32 \<Rightarrow> msys \<Rightarrow> (int \<times> msys) option" where
  "dromajo_cosim_step cfg hartid dut_pc dut_insn dut_wdata check e y =
     cosim_step machine_mmio dromajo_fpu cfg dut_pc dut_insn dut_wdata check e (select_hart hartid y)"


section \<open>The hart invariant\<close>

lemma override_reg_sel [simp]:
  "host (override_reg rn v y) = host y" "mem_map (override_reg rn v y) = mem_map y" "vm (override_reg rn v y) = vm y"
  by (simp_all add: override_reg_def riscv_set_reg_def)

lemma override_reg_reg: "reg (cpu (override_reg rn v y)) = (if rn = 0 then reg (cpu y) else (reg (cpu y))(rn := v))"
  by (simp add: override_reg_def riscv_set_reg_def)

lemma override_reg_misa [simp]: "misa (cpu (override_reg rn v y)) = misa (cpu y)"
  by (simp add: override_reg_def riscv_set_reg_def)

lemma override_reg_fp [simp]: "fp_reg (cpu (override_reg rn v y)) = fp_reg (cpu y)"
  by (simp add: override_reg_def riscv_set_reg_def)

lemma hart_inv_override_reg [simp]: "hart_inv (cpu (override_reg rn v y)) = hart_inv (cpu y)"
  by (simp add: override_reg_def riscv_set_reg_def hart_inv_def)

lemma hart_inv_set_pc: "hart_inv s \<Longrightarrow> hart_inv (riscv_set_pc v s)"
proof -
  have "\<not> bit (NOT (1 :: u64)) 0" "\<not> bit (NOT (3 :: u64)) 0" by simp_all
  then have "\<not> bit (v AND epc_mask s) 0" by (auto simp only: epc_mask_def bit_and_iff split: if_splits)
  then show "hart_inv s \<Longrightarrow> hart_inv (riscv_set_pc v s)" by (simp add: riscv_set_pc_def hart_inv_pc)
qed

lemma hart_inv_sync [simp]: "hart_inv (riscv_cpu_sync_regs s) = hart_inv s"
  by (simp add: riscv_cpu_sync_regs_def hart_inv_def)

lemma hart_inv_set_mip [simp]: "hart_inv (riscv_cpu_set_mip v m s) = hart_inv s"
  by (simp add: riscv_cpu_set_mip_def Let_def)

lemma hart_inv_overrides [simp]: "hart_inv (cpu (handle_dut_overrides cfg insn v y)) = hart_inv (cpu y)"
  by (simp add: handle_dut_overrides_def Let_def split: option.split)

lemma cosim_fetch_hart_inv [simp]: "hart_inv (cpu (snd (cosim_fetch e y))) = hart_inv (cpu y)"
  using fetch_hart_inv[of y 32 "riscv_get_pc (cpu y)"]
  by (simp add: cosim_fetch_def riscv_read_insn_def split_beta Let_def)

lemma cosim_fail_sc_hart_inv: "hart_inv (cpu y) \<Longrightarrow> hart_inv (cpu (cosim_fail_sc insn v p y))"
  by (simp add: cosim_fail_sc_def hart_inv_set_pc)

lemma cosim_compare_hart_inv [simp]:
  "hart_inv (cpu (snd (cosim_compare cfg p i v check out y))) = hart_inv (cpu y)"
  by (simp add: cosim_compare_def Let_def)

text \<open>Induction over the retry loop.\<close>

lemma cosim_loop_rule:
  assumes "cosim_loop io fpu dut_pc dut_insn dut_wdata e y = Some r" "I y"
    and "\<And>e y. I y \<Longrightarrow> (case cosim_iter io fpu dut_pc dut_insn dut_wdata e y of Inl r \<Rightarrow> Q r | Inr (e1, y1) \<Rightarrow> I y1)"
  shows "Q r"
proof -
  have "I y \<longrightarrow> (\<forall>e y. I y \<longrightarrow> (case cosim_iter io fpu dut_pc dut_insn dut_wdata e y of Inl r \<Rightarrow> Q r | Inr (e1, y1) \<Rightarrow> I y1)) \<longrightarrow> Q r"
  proof (rule cosim_loop.raw_induct[OF _ assms(1)])
    fix loop io' fpu' p i v e' and y' :: "'a sys" and r'
    assume ih: "\<And>io fpu p i v e y r. loop io fpu p i v e y = Some r \<Longrightarrow>
        I y \<longrightarrow> (\<forall>e y. I y \<longrightarrow> (case cosim_iter io fpu p i v e y of Inl r \<Rightarrow> Q r | Inr (e1, y1) \<Rightarrow> I y1)) \<longrightarrow> Q r"
      and eq: "(case cosim_iter io' fpu' p i v e' y' of Inl r \<Rightarrow> Some r | Inr (e1, y1) \<Rightarrow> loop io' fpu' p i v e1 y1) = Some r'"
    show "I y' \<longrightarrow> (\<forall>e y. I y \<longrightarrow> (case cosim_iter io' fpu' p i v e y of Inl r \<Rightarrow> Q r | Inr (e1, y1) \<Rightarrow> I y1)) \<longrightarrow> Q r'"
    proof (intro impI)
      assume I: "I y'" and step: "\<forall>e y. I y \<longrightarrow> (case cosim_iter io' fpu' p i v e y of Inl r \<Rightarrow> Q r | Inr (e1, y1) \<Rightarrow> I y1)"
      from step I have s: "case cosim_iter io' fpu' p i v e' y' of Inl r \<Rightarrow> Q r | Inr (e1, y1) \<Rightarrow> I y1" by blast
      show "Q r'"
      proof (cases "cosim_iter io' fpu' p i v e' y'")
        case (Inl q)
        with eq s show ?thesis by simp
      next
        case (Inr q)
        obtain e1 y1 where "q = (e1, y1)" by (cases q)
        with eq s Inr ih[of io' fpu' p i v e1 y1 r'] step show ?thesis by auto
      qed
    qed
  qed
  with assms(2,3) show ?thesis by blast
qed

context mmio_frame
begin

lemma interp64_hart_inv:
  assumes "fpu_ok fpu" "hart_inv (cpu y)" shows "hart_inv (cpu (snd (riscv_cpu_interp64 io fpu n y)))"
  using interp_hart_inv[OF assms] by (simp add: riscv_cpu_interp_def)

lemma cosim_iter_hart_inv:
  assumes fpu: "fpu_ok fpu" and inv: "hart_inv (cpu y)"
  shows "case cosim_iter io fpu p i v e y of Inl r \<Rightarrow> hart_inv (cpu (snd r)) | Inr (e1, y1) \<Rightarrow> hart_inv (cpu y1)"
proof -
  obtain insn y1 where f: "cosim_fetch e y = (insn, y1)" by (cases "cosim_fetch e y")
  have y1: "hart_inv (cpu y1)" using cosim_fetch_hart_inv[of e y] f inv by simp
  show ?thesis
    unfolding cosim_iter_def f Let_def
    using y1 by (simp add: split_beta cosim_fail_sc_hart_inv interp64_hart_inv[OF fpu])
qed

lemma cosim_step_hart_inv:
  assumes "fpu_ok fpu" "hart_inv (cpu y)" "cosim_step io fpu cfg p i v check e y = Some (c, y')"
  shows "hart_inv (cpu y')"
proof -
  have "hart_inv (cpu (snd r))" if "cosim_loop io fpu p i v e z = Some r" "hart_inv (cpu z)" for e z r
    by (rule cosim_loop_rule[where I = "\<lambda>y. hart_inv (cpu y)", OF that]) (rule cosim_iter_hart_inv[OF assms(1)])
  then have l: "hart_inv (cpu z')" if "cosim_loop io fpu p i v e z = Some (q, z')" "hart_inv (cpu z)" for z q z'
    using that by fastforce
  have c: "hart_inv (cpu y')" if "cosim_compare cfg p i v check out z = (c, y')" "hart_inv (cpu z)" for out z
    using cosim_compare_hart_inv[of cfg p i v check out z] that by simp
  show ?thesis
    using assms(2,3)
    by (auto simp: cosim_step_def Let_def dest: l c split: if_splits option.splits prod.splits)
qed

end

text \<open>
  C31. A step of the co-simulation that returns leaves its hart within the invariant: whatever the
  DUT reports, also when its values override registers or it fails a store-conditional, the control
  registers are legal, the program counter is even and \<^verbatim>\<open>x0\<close> is zero.
\<close>

theorem cosim_keeps_hart_inv:
  assumes "hart_inv (hart h y)"
    and "dromajo_cosim_step cfg h dut_pc dut_insn dut_wdata check e y = Some (c, y')"
  shows "hart_inv (cpu y')"
  using assms machine.cosim_step_hart_inv[OF dromajo_fpu_ok, of "select_hart h y" cfg dut_pc dut_insn dut_wdata check e c y']
  by (simp add: dromajo_cosim_step_def select_hart_def)

section \<open>What a result of the step means\<close>

lemma sync_sel [simp]: "reg (riscv_cpu_sync_regs s) = reg s" "fp_reg (riscv_cpu_sync_regs s) = fp_reg s"
  by (simp_all add: riscv_cpu_sync_regs_def)

lemma sync_prior: "i \<noteq> 0 \<Longrightarrow> reg_prior (riscv_cpu_sync_regs s) i = reg s i"
  by (simp add: riscv_cpu_sync_regs_def)

lemma emu_result_sync [simp]: "emu_result out (riscv_cpu_sync_regs s) = emu_result out s"
  by (simp add: emu_result_def riscv_get_reg_def riscv_get_fpreg_def)

lemma cosim_compare_zero:
  assumes "cosim_compare cfg dut_pc dut_insn dut_wdata True out y = (0, y')"
  shows "emu_pc out = dut_pc" "emu_insn out = dut_insn \<or> emu_insn out AND 3 \<noteq> 3"
    "emu_result out (cpu y') \<in> {None, Some dut_wdata}" "i \<noteq> 0 \<Longrightarrow> reg_prior (cpu y') i = reg (cpu y') i"
  using assms by (auto simp: cosim_compare_def Let_def sync_prior split: if_splits option.splits)


text \<open>A 32-bit instruction is none of the compressed loads.\<close>

lemma not_compressed_load:
  assumes "bit (insn AND 0x7f :: u32) 0" shows "insn AND 0xE003 \<noteq> 0x6000" "insn AND 0xE003 \<noteq> 0x4000"
proof -
  have "bit (0xE003 :: u32) 0" "\<not> bit (0x6000 :: u32) 0" "\<not> bit (0x4000 :: u32) 0" by (simp_all add: bit_0)
  moreover have "bit insn 0" using assms by (simp only: bit_and_iff)
  ultimately show "insn AND 0xE003 \<noteq> 0x6000" "insn AND 0xE003 \<noteq> 0x4000" by (metis bit_and_iff)+
qed

lemma not_load_operands:
  assumes "insn AND 0x7f \<in> {0x13, 0x1b, 0x33, 0x3b, 0x37, 0x17, 0x6f, 0x67}"
  shows "load_operands insn = None" "\<not> reads_volatile_csr insn"
proof -
  have "bit (insn AND 0x7f) 0" using assms by (auto simp: bit_0)
  from not_compressed_load[OF this] show "load_operands insn = None" using assms by (auto simp: load_operands_def is_amo_def)
  show "\<not> reads_volatile_csr insn" using assms by (auto simp: reads_volatile_csr_def Let_def)
qed

text \<open>The step reaches its loop.\<close>

definition cosim_active :: "cosim_cfg \<Rightarrow> 'd sys \<Rightarrow> bool" where
  "cosim_active cfg y \<longleftrightarrow> \<not> (case riscv_phys_read 4 y (htif_tohost_addr cfg) of None \<Rightarrow> False | Some v \<Rightarrow> v AND 1 \<noteq> 0)
     \<and> maxinsns (vm y) \<noteq> 0 \<and> \<not> terminate_simulation (cpu y)"

lemma cosim_step_active:
  assumes "cosim_active cfg y"
    and "cosim_loop io fpu dut_pc dut_insn dut_wdata e (y\<lparr>vm := (vm y)\<lparr>maxinsns := maxinsns (vm y) - 1\<rparr>\<rparr>) = Some (Some out, y2)"
  shows "cosim_step io fpu cfg dut_pc dut_insn dut_wdata check e y
    = Some (cosim_compare cfg dut_pc dut_insn dut_wdata check out y2)"
  using assms by (simp add: cosim_step_def cosim_active_def Let_def riscv_terminated_def)

text \<open>
  C27. A wrong result of the DUT is reported: when the model executes an integer arithmetic, upper
  immediate or jump instruction that is not configured to be skipped, and the value it wrote or its
  program counter differs from the DUT's, the step returns \<^verbatim>\<open>0x1FFF\<close>. No override hides the difference.
\<close>

theorem cosim_detects_mismatch:
  assumes "cosim_active cfg (select_hart h y)"
    and "cosim_loop machine_mmio dromajo_fpu dut_pc dut_insn dut_wdata e
        ((select_hart h y)\<lparr>vm := (vm y)\<lparr>maxinsns := maxinsns (vm y) - 1\<rparr>\<rparr>) = Some (Some out, y2)"
    and "emu_insn out AND 0x7f \<in> {0x13, 0x1b, 0x33, 0x3b, 0x37, 0x17, 0x6f, 0x67}"
    and "ucast (emu_insn out) \<notin> set (skip_commit cfg)"
    and "emu_pc out \<noteq> dut_pc \<or> iregno out > 0 \<and> reg (cpu y2) (word_of_int (iregno out)) \<noteq> dut_wdata"
  shows "\<exists>y'. dromajo_cosim_step cfg h dut_pc dut_insn dut_wdata True e y = Some (0x1FFF, y')"
proof -
  have "handle_dut_overrides cfg (emu_insn out) dut_wdata y2 = y2"
    using not_load_operands[OF assms(3)] by (simp add: handle_dut_overrides_def)
  then have "\<exists>y'. cosim_compare cfg dut_pc dut_insn dut_wdata True out y2 = (0x1FFF, y')"
    using assms(4,5) by (auto simp: cosim_compare_def Let_def emu_result_def riscv_get_reg_def list_ex_iff)
  with cosim_step_active[OF assms(1), of machine_mmio dromajo_fpu dut_pc dut_insn dut_wdata e out y2 True] assms(2)
  show ?thesis by (simp add: dromajo_cosim_step_def select_hart_def)
qed

section \<open>Failed store-conditional\<close>

lemma fetch_slow_frame:
  "host (snd (target_read_insn_slow y n a)) = host y" "mem_map (snd (target_read_insn_slow y n a)) = mem_map y"
  "vm (snd (target_read_insn_slow y n a)) = vm y" "pc (cpu (snd (target_read_insn_slow y n a))) = pc (cpu y)"
  "reg (cpu (snd (target_read_insn_slow y n a))) = reg (cpu y)"
  "misa (cpu (snd (target_read_insn_slow y n a))) = misa (cpu y)"
  by (simp_all add: target_read_insn_slow_def Let_def pend_def fill_code_def split: sum.split prod.split)

lemma cosim_fetch_frame:
  "host (snd (cosim_fetch e y)) = host y" "mem_map (snd (cosim_fetch e y)) = mem_map y" "vm (snd (cosim_fetch e y)) = vm y"
  "pc (cpu (snd (cosim_fetch e y))) = pc (cpu y)" "reg (cpu (snd (cosim_fetch e y))) = reg (cpu y)"
  "misa (cpu (snd (cosim_fetch e y))) = misa (cpu y)"
  by (simp_all add: cosim_fetch_def riscv_read_insn_def split_beta Let_def fetch_slow_frame)

text \<open>The fetch does not look at the common part of the machine.\<close>

lemma phys_read_vm [simp]: "riscv_phys_read n (y\<lparr>vm := v\<rparr>) a = riscv_phys_read n y a"
  by (simp add: riscv_phys_read_def get_phys_mem_range_pmp_def riscv_cpu_pmp_access_ok_def split: option.split)

lemma pt_walk_vm [simp]: "pt_walk j (y\<lparr>vm := v\<rparr>) p acc va a = pt_walk j y p acc va a"
  by (induction j arbitrary: a) (simp_all add: Let_def split: option.split)

lemma translate_vm [simp]: "translate (y\<lparr>vm := v\<rparr>) a acc n p = translate y a acc n p"
proof -
  have "riscv_cpu_get_phys_addr (y\<lparr>vm := v\<rparr>) a acc = riscv_cpu_get_phys_addr y a acc"
    by (simp add: riscv_cpu_get_phys_addr_def Let_def)
  moreover have "get_phys_mem_range_pmp (y\<lparr>vm := v\<rparr>) pa n p = get_phys_mem_range_pmp y pa n p" for pa
    by (simp add: get_phys_mem_range_pmp_def riscv_cpu_pmp_access_ok_def)
  ultimately show ?thesis by (simp add: translate_def split: pa_result.split)
qed

lemma upd_cpu_vm: "upd_cpu f (y\<lparr>vm := v\<rparr>) = (upd_cpu f y)\<lparr>vm := v\<rparr>"
  by (simp add: upd_cpu_def)

lemma cosim_fetch_vm [simp]: "fst (cosim_fetch e (y\<lparr>vm := v\<rparr>)) = fst (cosim_fetch e y)"
proof -
  have "fst (target_read_insn_slow (y\<lparr>vm := v\<rparr>) n a) = fst (target_read_insn_slow y n a)" for n a
    by (simp add: target_read_insn_slow_def Let_def riscv_cpu_pmp_access_ok_def upd_cpu_vm split: sum.split prod.split)
  then show ?thesis by (simp add: cosim_fetch_def riscv_read_insn_def split_beta Let_def)
qed

lemma sc_no_override:
  assumes "is_store_conditional insn" shows "load_operands insn = None" "\<not> reads_volatile_csr insn"
proof -
  have op: "insn AND 0x7f = 0x2f" "drop_bit 27 insn = 3" using assms by (auto simp: is_store_conditional_def)
  then have "bit (insn AND 0x7f) 0" by (simp add: bit_0)
  from not_compressed_load[OF this] show "load_operands insn = None" using op by (simp add: load_operands_def is_amo_def)
  show "\<not> reads_volatile_csr insn" using op by (simp add: reads_volatile_csr_def Let_def)
qed

text \<open>
  When the DUT fails a store-conditional, the model fails it too: the step returns zero without
  running the interpreter, memory is unchanged, the destination register takes the DUT's failure code
  and the program counter moves to the next instruction.
\<close>

theorem cosim_failed_sc:
  assumes "cosim_active cfg (select_hart h y)"
    and "pc (hart h y) = dut_pc" "fst (cosim_fetch e (select_hart h y)) = dut_insn"
    and "is_store_conditional dut_insn" "dut_wdata \<noteq> 0" "ucast dut_insn \<notin> set (skip_commit cfg)"
  shows "\<exists>y'. dromajo_cosim_step cfg h dut_pc dut_insn dut_wdata True e y = Some (0, y')
    \<and> host y' = host y \<and> mem_map y' = mem_map y
    \<and> reg (cpu y') = (if rd_of dut_insn = 0 then reg (hart h y) else (reg (hart h y))(rd_of dut_insn := dut_wdata))
    \<and> pc (cpu y') = (dut_pc + 4) AND epc_mask (hart h y)"
proof -
  let ?y1 = "(select_hart h y)\<lparr>vm := (vm y)\<lparr>maxinsns := maxinsns (vm y) - 1\<rparr>\<rparr>"
  obtain z where z: "z = snd (cosim_fetch e ?y1)" by simp
  let ?rd = "rd_of dut_insn"
  let ?out = "\<lparr>emu_priv = priv (cpu ?y1), emu_pc = dut_pc, emu_insn = dut_insn, iregno = uint ?rd, fregno = - 1\<rparr>"
  let ?y2 = "cosim_fail_sc dut_insn dut_wdata dut_pc z"
  have c: "cpu ?y1 = hart h y" "host ?y1 = host y" "mem_map ?y1 = mem_map y" by (simp_all add: select_hart_def)
  have f: "cosim_fetch e ?y1 = (dut_insn, z)" using assms(3) by (simp add: prod_eq_iff z)
  have "cosim_iter machine_mmio dromajo_fpu dut_pc dut_insn dut_wdata e ?y1 = Inl (Some ?out, ?y2)"
    unfolding cosim_iter_def f Let_def using assms(2,4,5) c(1)
    by (simp add: riscv_get_pc_def riscv_get_priv_level_def)
  then have "cosim_loop machine_mmio dromajo_fpu dut_pc dut_insn dut_wdata e ?y1 = Some (Some ?out, ?y2)"
    by (subst cosim_loop.simps) simp
  then have st: "dromajo_cosim_step cfg h dut_pc dut_insn dut_wdata True e y
      = Some (cosim_compare cfg dut_pc dut_insn dut_wdata True ?out ?y2)"
    using cosim_step_active[OF assms(1)] by (simp add: dromajo_cosim_step_def select_hart_def)
  have y2: "host ?y2 = host y" "mem_map ?y2 = mem_map y"
      "reg (cpu ?y2) = (if ?rd = 0 then reg (hart h y) else (reg (hart h y))(?rd := dut_wdata))"
      "pc (cpu ?y2) = (dut_pc + 4) AND epc_mask (hart h y)"
    using c(1) by (simp_all add: cosim_fail_sc_def cosim_fetch_frame z c override_reg_reg riscv_set_pc_def epc_mask_def override_reg_misa)
  have "emu_result ?out (cpu ?y2) \<in> {None, Some dut_wdata}"
    using y2(3) by (auto simp: emu_result_def riscv_get_reg_def)
  then have "cosim_compare cfg dut_pc dut_insn dut_wdata True ?out ?y2
      = (0, upd_cpu riscv_cpu_sync_regs (upd_cpu riscv_cpu_sync_regs ?y2))"
    using assms(6) sc_no_override[OF assms(4)]
    by (auto simp: cosim_compare_def Let_def handle_dut_overrides_def list_ex_iff)
  with st y2 show ?thesis by (simp add: riscv_cpu_sync_regs_def)
qed

section \<open>Witnesses\<close>

text \<open>
  Hart 0 of the two-hart machine in machine mode, about to execute the given word: \<^verbatim>\<open>addi x5, x0, 5\<close>
  (\<^verbatim>\<open>0x500293\<close>) or \<^verbatim>\<open>sc.w x6, x7, (x0)\<close> (\<^verbatim>\<open>0x1870232f\<close>).
\<close>

definition demo_cfg :: cosim_cfg where
  "demo_cfg = \<lparr>htif_tohost_addr = 0x80001000, mmio_start = 0x2000000, mmio_end = 0x20c0000,
     mmio_addrset = [], skip_commit = [0x73]\<rparr>"

definition demo_cosim :: "u32 \<Rightarrow> msys" where
  "demo_cosim insn = demo_machine\<lparr>cpu := (demo_hart 0)\<lparr>pc := 0x80000000\<rparr>,
     host := le_store (\<lambda>_. 0) 0x7f0000000000 4 (ucast insn),
     vm := \<lparr>maxinsns = 10, cosim = True, vm_pending_interrupt = - 1, vm_pending_exception = - 1\<rparr>\<rparr>"

lemma demo_cosim_inv: "hart_inv (hart 0 (demo_cosim insn))"
  by (simp add: demo_cosim_def hart_def demo_machine_def demo_hart_def hart_inv_init hart_inv_pc)

lemma demo_cosim_zero:
  "map_option fst (dromajo_cosim_step demo_cfg 0 0x80000000 0x500293 5 True 0 (demo_cosim 0x500293)) = Some 0"
  by code_simp

lemma demo_cosim_run:
  "case cosim_loop machine_mmio dromajo_fpu 0x80000000 0x500293 7 0
     ((select_hart 0 (demo_cosim 0x500293))\<lparr>vm := (vm (demo_cosim 0x500293))\<lparr>maxinsns := maxinsns (vm (demo_cosim 0x500293)) - 1\<rparr>\<rparr>)
   of None \<Rightarrow> False | Some (q, y2) \<Rightarrow> (case q of None \<Rightarrow> False
     | Some out \<Rightarrow> emu_insn out = 0x500293 \<and> iregno out = 5 \<and> reg (cpu y2) 5 = 5)"
  by code_simp

lemma demo_cosim_active: "cosim_active demo_cfg (select_hart 0 (demo_cosim 0x500293))"
    "cosim_active demo_cfg (select_hart 0 (demo_cosim 0x1870232f))"
  by code_simp+

theorem cosim_keeps_hart_inv_witness:
  "hart_inv (cpu (snd (the (dromajo_cosim_step demo_cfg 0 0x80000000 0x500293 5 True 0 (demo_cosim 0x500293)))))"
proof -
  obtain c y' where "dromajo_cosim_step demo_cfg 0 0x80000000 0x500293 5 True 0 (demo_cosim 0x500293) = Some (c, y')"
    using demo_cosim_zero by fastforce
  note st = this
  from cosim_keeps_hart_inv[OF demo_cosim_inv st] st show ?thesis by simp
qed


theorem cosim_detects_mismatch_witness:
  "\<exists>y'. dromajo_cosim_step demo_cfg 0 0x80000000 0x500293 7 True 0 (demo_cosim 0x500293) = Some (0x1FFF, y')"
proof -
  obtain out y2 where "cosim_loop machine_mmio dromajo_fpu 0x80000000 0x500293 7 0
      ((select_hart 0 (demo_cosim 0x500293))\<lparr>vm := (vm (demo_cosim 0x500293))\<lparr>maxinsns := maxinsns (vm (demo_cosim 0x500293)) - 1\<rparr>\<rparr>)
     = Some (Some out, y2)" (is ?l) and o: "emu_insn out = 0x500293" "iregno out = 5" "reg (cpu y2) 5 = 5"
    using demo_cosim_run by (auto split: option.splits prod.splits)
  from cosim_detects_mismatch[OF demo_cosim_active(1) \<open>?l\<close>] o show ?thesis by (simp add: demo_cfg_def)
qed

theorem cosim_failed_sc_witness:
  "\<exists>y'. dromajo_cosim_step demo_cfg 0 0x80000000 0x1870232f 1 True 0 (demo_cosim 0x1870232f) = Some (0, y')
    \<and> reg (cpu y') 6 = 1"
proof -
  have "pc (hart 0 (demo_cosim 0x1870232f)) = 0x80000000" by (simp add: hart_def demo_cosim_def demo_machine_def)
  moreover have "fst (cosim_fetch 0 (select_hart 0 (demo_cosim 0x1870232f))) = 0x1870232f" by code_simp
  moreover have "is_store_conditional 0x1870232f" "rd_of 0x1870232f = 6" by code_simp+
  ultimately show ?thesis
    using cosim_failed_sc[OF demo_cosim_active(2), of "0x80000000" 0 "0x1870232f" 1]
    by (auto simp: demo_cfg_def)
qed

end
