(* ===== verification/Fdt_Theorems.thy ===== *)
theory Fdt_Theorems
  imports Fdt
begin

unbundle bit_operations_syntax

text \<open>
  A reader of the flattened device tree format as the specification of the builder: header, token
  stream, string block and the nesting of nodes. What the builder writes is read back as the tree that
  was put in, and the machine's device tree is the tree \<open>machine_tree\<close>, given in closed form.
\<close>

section \<open>Reading the format\<close>

datatype dt_node = Node string "(string \<times> u8 list) list" "dt_node list"

datatype fdt_event = EvBegin string | EvProp string "u8 list" | EvEnd

definition char_of_byte :: "u8 \<Rightarrow> char" where
  "char_of_byte b = char_of (unat b)"

fun be32 :: "u8 list \<Rightarrow> nat" where
  "be32 (a # b # c # d # _) = ((unat a * 256 + unat b) * 256 + unat c) * 256 + unat d"
| "be32 _ = 0"

definition round4 :: "nat \<Rightarrow> nat" where
  "round4 n = (n + 3) div 4 * 4"

text \<open>The tokens of the structure block; names of properties are offsets into the string block.\<close>

function fdt_tokens :: "u8 list \<Rightarrow> u8 list \<Rightarrow> fdt_event list option" where
  "fdt_tokens st bs =
     (if length bs < 4 then None
      else
        let tok = be32 bs; rest = drop 4 bs in
        if tok = 1 then
          (let name = takeWhile (\<lambda>b. b \<noteq> 0) rest; n = round4 (length name + 1) in
           if length rest < n then None
           else map_option (Cons (EvBegin (map char_of_byte name))) (fdt_tokens st (drop n rest)))
        else if tok = 2 then map_option (Cons EvEnd) (fdt_tokens st rest)
        else if tok = 3 then
          (let len = be32 rest; off = be32 (drop 4 rest) in
           if length rest < 8 + round4 len then None
           else map_option (Cons (EvProp (map char_of_byte (string_at st off)) (take len (drop 8 rest))))
                  (fdt_tokens st (drop (8 + round4 len) rest)))
        else if tok = 4 then fdt_tokens st rest
        else if tok = 9 then Some []
        else None)"
  by pat_completeness auto
termination
  by (relation "measure (\<lambda>(st, bs). length bs)") auto

declare fdt_tokens.simps [simp del]

text \<open>The tree of a token stream; the second argument is the stack of open nodes.\<close>

fun fdt_build :: "fdt_event list \<Rightarrow> (string \<times> (string \<times> u8 list) list \<times> dt_node list) list \<Rightarrow> dt_node option" where
  "fdt_build (EvBegin n # es) fr = fdt_build es ((n, [], []) # fr)"
| "fdt_build (EvProp p d # es) ((n, ps, cs) # fr) =
     (if cs = [] then fdt_build es ((n, ps @ [(p, d)], cs) # fr) else None)"
| "fdt_build (EvEnd # es) ((n, ps, cs) # (n', ps', cs') # fr) =
     fdt_build es ((n', ps', cs' @ [Node n ps cs]) # fr)"
| "fdt_build [EvEnd] [(n, ps, cs)] = Some (Node n ps cs)"
| "fdt_build _ _ = None"

definition fdt_decode :: "u8 list \<Rightarrow> dt_node option" where
  "fdt_decode blob =
     (let field = (\<lambda>i. be32 (drop (4 * i) blob)) in
      if length blob < 40 \<or> field 0 \<noteq> 0xd00dfeed \<or> field 1 \<noteq> length blob \<or> field 6 > 17 then None
      else case fdt_tokens (take (field 8) (drop (field 3) blob)) (take (field 9) (drop (field 2) blob)) of
             None \<Rightarrow> None
           | Some evs \<Rightarrow> fdt_build evs [])"

section \<open>Trees and token streams\<close>

fun flatten :: "dt_node \<Rightarrow> fdt_event list" where
  "flatten (Node n ps cs) =
     EvBegin n # map (\<lambda>(p, d). EvProp p d) ps @ concat (map flatten cs) @ [EvEnd]"

lemma build_props:
  "fdt_build (map (\<lambda>(p, d). EvProp p d) ps @ es) ((n, qs, []) # fr) = fdt_build es ((n, qs @ ps, []) # fr)"
  by (induction ps arbitrary: qs) auto

lemma build_children:
  "(\<And>t fr es n ps cs'. t \<in> set cs \<Longrightarrow>
      fdt_build (flatten t @ es) ((n, ps, cs') # fr) = fdt_build es ((n, ps, cs' @ [t]) # fr)) \<Longrightarrow>
   fdt_build (concat (map flatten cs) @ es) ((n, ps, ds) # fr) = fdt_build es ((n, ps, ds @ cs) # fr)"
  by (induction cs arbitrary: ds) auto

lemma build_flatten:
  "fdt_build (flatten t @ es) ((n, ps, cs) # fr) = fdt_build es ((n, ps, cs @ [t]) # fr)"
proof (induction t arbitrary: es n ps cs fr)
  case (Node m qs ts)
  have "fdt_build (flatten (Node m qs ts) @ es) ((n, ps, cs) # fr)
      = fdt_build (concat (map flatten ts) @ EvEnd # es) ((m, qs, []) # (n, ps, cs) # fr)"
    by (simp add: build_props)
  also have "\<dots> = fdt_build (EvEnd # es) ((m, qs, ts) # (n, ps, cs) # fr)"
    using Node.IH by (subst build_children) simp_all
  finally show ?case by simp
qed

lemma build_root: "fdt_build (flatten t) [] = Some t"
proof (cases t)
  case (Node m qs ts)
  have "fdt_build (concat (map flatten ts) @ [EvEnd]) [(m, qs, [])] = fdt_build [EvEnd] [(m, qs, [] @ ts)]"
    by (rule build_children) (rule build_flatten)
  then show ?thesis
    using build_props[of qs "concat (map flatten ts) @ [EvEnd]" m "[]" "[]"] by (simp add: Node)
qed

section \<open>Bytes\<close>

lemma byte_char [simp]: "char_of_byte (byte_of c) = c"
  by (simp add: char_of_byte_def byte_of_def unat_of_nat)

lemma char_byte_comp [simp]: "char_of_byte \<circ> byte_of = id"
  by (simp add: fun_eq_iff)

lemma append_one [simp]: "(@) [x] = (#) x"
  by (simp add: fun_eq_iff)

lemma byte_of_0: "byte_of c = 0 \<longleftrightarrow> c = CHR 0x00"
proof
  assume "byte_of c = 0"
  then have "c = char_of_byte 0" using byte_char[of c] by simp
  then show "c = CHR 0x00" by (simp add: char_of_byte_def char_of_def)
qed (simp add: byte_of_def)

lemma byte_masks:
  "(0xff :: u32) = mask 8" "(0xff00 :: u32) = push_bit 8 (mask 8)"
  "(0xff0000 :: u32) = push_bit 16 (mask 8)" "(0xff000000 :: u32) = push_bit 24 (mask 8)"
  by (simp_all add: mask_eq_exp_minus_1 push_bit_eq_mult)

lemma be_word_bytes:
  "word_bytes (cpu_to_be32 v) = [ucast (drop_bit 24 v), ucast (drop_bit 16 v), ucast (drop_bit 8 v), ucast v]"
  unfolding word_bytes_def cpu_to_be32_def bswap_32_def byte_masks
  by (auto intro!: bit_eqI simp: bit_simps)

lemma be32_word: "be32 (word_bytes (cpu_to_be32 v) @ rest) = unat v"
proof -
  have byte: "unat (ucast (drop_bit k v) :: u8) = unat v div 2 ^ k mod 256" for k
    by (simp only: unsigned_ucast_eq unat_drop_bit_eq) (simp add: take_bit_eq_mod drop_bit_eq_div)
  have sum: "((n div 2 ^ 24 mod 256 * 256 + n div 2 ^ 16 mod 256) * 256 + n div 2 ^ 8 mod 256) * 256 + n mod 256 = n"
    if "n < 2 ^ 32" for n :: nat
  proof -
    have "n div 2 ^ 24 mod 256 = n div 2 ^ 24" using that by simp
    moreover have "n div 2 ^ 24 * 256 + n div 2 ^ 16 mod 256 = n div 2 ^ 16"
      using div_mult2_eq[of n "2 ^ 16" 256] by simp
    moreover have "n div 2 ^ 16 * 256 + n div 2 ^ 8 mod 256 = n div 2 ^ 8"
      using div_mult2_eq[of n "2 ^ 8" 256] by simp
    ultimately show ?thesis by simp
  qed
  have "unat v < 2 ^ 32" using unsigned_less[of v] by simp
  moreover have "unat (ucast v :: u8) = unat v mod 256" using byte[of 0] by simp
  ultimately show ?thesis
    by (simp only: be_word_bytes append.simps be32.simps byte sum)
qed

lemma length_word_bytes [simp]: "length (word_bytes w) = 4"
  by (simp add: word_bytes_def)

lemma be32_of_nat: "n < 2 ^ 32 \<Longrightarrow> be32 (be_bytes n @ rest) = n"
  by (simp add: be_bytes_def be32_word unat_of_nat)

lemma length_be_bytes [simp]: "length (be_bytes n) = 4"
  by (simp add: be_bytes_def)

definition struct_bytes :: "u32 list \<Rightarrow> u8 list" where
  "struct_bytes ws = concat (map word_bytes ws)"

lemma struct_bytes_simps [simp]:
  "struct_bytes [] = []" "struct_bytes (w # ws) = word_bytes w @ struct_bytes ws"
  "struct_bytes (ws @ ws') = struct_bytes ws @ struct_bytes ws'"
  "length (struct_bytes ws) = 4 * length ws"
  by (induction ws) (simp_all add: struct_bytes_def)

lemma bit_byte_high: "8 \<le> n \<Longrightarrow> \<not> bit (a :: u8) n"
  by (auto dest: bit_word_below)

lemma struct_words_of: "4 dvd length bs \<Longrightarrow> struct_bytes (words_of bs) = bs"
proof (induction bs rule: words_of.induct)
  case (1 a b c d bs)
  have "word_bytes (ucast a OR push_bit 8 (ucast b) OR push_bit 16 (ucast c) OR push_bit 24 (ucast d)) = [a, b, c, d]"
    unfolding word_bytes_def by (auto intro!: bit_eqI simp: bit_simps bit_byte_high)
  moreover have "4 dvd length bs" using "1.prems" by simp presburger
  ultimately show ?case using "1.IH" by simp
qed (auto dest: dvd_imp_le)

text \<open>The padding of \<^verbatim>\<open>fdt_put_data\<close> fills the last word.\<close>

definition pad4 :: "nat \<Rightarrow> u8 list" where
  "pad4 n = replicate (nat ((- int n) mod 4)) 0"

lemma length_pad4: "n + length (pad4 n) = round4 n"
proof -
  define q r where "q = n div 4" and "r = n mod 4"
  have n: "n = 4 * q + r" by (simp add: q_def r_def)
  have "r \<in> {0, 1, 2, 3}" using mod_less_divisor[of 4 n] by (auto simp: r_def)
  moreover have "(- int n) mod 4 = (- int r) mod 4"
    using mod_mult_self3[of "- int q" 4 "- int r"] by (simp add: n algebra_simps)
  ultimately show ?thesis by (auto simp: pad4_def round4_def n)
qed

lemma put_data_tab: "tab (fdt_put_data data s) = tab s @ words_of (data @ pad4 (length data))"
  by (simp add: fdt_put_data_def fdt_alloc_len_def pad4_def Let_def)

lemma struct_put_data: "struct_bytes (words_of (data @ pad4 (length data))) = data @ pad4 (length data)"
proof (rule struct_words_of)
  have "length (data @ pad4 (length data)) = round4 (length data)"
    using length_pad4[of "length data"] by simp
  then show "4 dvd length (data @ pad4 (length data))" by (simp add: round4_def)
qed

section \<open>What the operations keep\<close>

lemma put32_sel [simp]:
  "tab (fdt_put32 v s) = tab s @ [cpu_to_be32 v]" "string_table (fdt_put32 v s) = string_table s"
  "open_node_count (fdt_put32 v s) = open_node_count s"
  "string_table_size (fdt_put32 v s) = string_table_size s"
  by (simp_all add: fdt_put32_def fdt_alloc_len_def Let_def)

lemma put_data_sel [simp]:
  "string_table (fdt_put_data data s) = string_table s"
  "open_node_count (fdt_put_data data s) = open_node_count s"
  "string_table_size (fdt_put_data data s) = string_table_size s"
  by (simp_all add: fdt_put_data_def fdt_alloc_len_def Let_def)

lemma fold_put32_sel [simp]:
  "tab (fold fdt_put32 vs s) = tab s @ map cpu_to_be32 vs" "string_table (fold fdt_put32 vs s) = string_table s"
  "open_node_count (fold fdt_put32 vs s) = open_node_count s"
  "string_table_size (fold fdt_put32 vs s) = string_table_size s"
  by (induction vs arbitrary: s) simp_all

text \<open>
  No write leaves the allocated arrays, and the string block consists of the terminated strings
  \<open>names\<close>, each of them once.
\<close>

definition strings :: "string list \<Rightarrow> u8 list" where
  "strings names = concat (map cstr names)"

definition fdt_inv :: "FDTState \<Rightarrow> string list \<Rightarrow> bool" where
  "fdt_inv s names \<longleftrightarrow> length (tab s) \<le> tab_size s \<and> length (string_table s) \<le> string_table_size s
     \<and> string_table s = strings names \<and> distinct names \<and> (\<forall>n \<in> set names. CHR 0x00 \<notin> set n)"

lemma put32_inv: "fdt_inv s names \<Longrightarrow> fdt_inv (fdt_put32 v s) names"
  by (auto simp: fdt_inv_def fdt_put32_def fdt_alloc_len_def Let_def)

lemma length_words_of: "length (words_of bs) = length bs div 4"
  by (induction bs rule: words_of.induct) auto

lemma put_data_inv: "fdt_inv s names \<Longrightarrow> fdt_inv (fdt_put_data data s) names"
proof -
  have "length (words_of (data @ pad4 (length data))) = (length data + 3) div 4"
    using length_pad4[of "length data"] by (simp add: length_words_of round4_def)
  then show "fdt_inv s names \<Longrightarrow> fdt_inv (fdt_put_data data s) names"
    by (auto simp: fdt_inv_def fdt_put_data_def fdt_alloc_len_def Let_def pad4_def)
qed

lemma fold_put32_inv: "fdt_inv s names \<Longrightarrow> fdt_inv (fold fdt_put32 vs s) names"
  by (induction vs arbitrary: s) (simp_all add: put32_inv)

section \<open>The string block\<close>

lemma string_search_sound:
  "string_search st name pos = Some p \<Longrightarrow> p < length st \<and> string_at st p = name"
  by (induction st name pos rule: string_search.induct)
    (subst (asm) (2) string_search.simps, auto split: if_splits)

lemma string_at_append:
  assumes "p < length st" "last st = 0"
  shows "string_at (st @ x) p = string_at st p"
proof -
  have "0 \<in> set (drop p st)"
    using assms by (metis drop_eq_Nil last_drop last_in_set not_less)
  then show ?thesis using assms(1) by (auto simp: string_at_def takeWhile_append)
qed

lemma string_at_new:
  assumes "CHR 0x00 \<notin> set name"
  shows "string_at (st @ cstr name @ x) (length st) = map byte_of name"
proof -
  have "takeWhile (\<lambda>b. b \<noteq> 0) (map byte_of name @ 0 # x) = map byte_of name"
    using assms by (subst takeWhile_append2) (auto simp: byte_of_0)
  then show ?thesis by (simp add: string_at_def cstr_def)
qed

lemma cstr_simps [simp]: "length (cstr name) = Suc (length name)" "cstr name \<noteq> []" "last (cstr name) = 0"
  by (simp_all add: cstr_def)

lemma strings_simps [simp]:
  "strings [] = []" "strings (n # ns) = cstr n @ strings ns" "strings (ns @ ns') = strings ns @ strings ns'"
  by (simp_all add: strings_def)

lemma strings_last: "strings names \<noteq> [] \<Longrightarrow> last (strings names) = 0"
  by (induction names) (auto simp: last_append)

lemma string_search_strings:
  assumes "CHR 0x00 \<notin> set name" "\<forall>n \<in> set names'. CHR 0x00 \<notin> set n"
  shows "string_search (strings (names @ names')) (map byte_of name) (length (strings names)) = None
     \<longleftrightarrow> name \<notin> set names'"
  using assms(2)
proof (induction names' arbitrary: names)
  case Nil
  then show ?case by (subst string_search.simps) simp
next
  case (Cons n ns)
  have at: "string_at (strings names @ cstr n @ strings ns) (length (strings names)) = map byte_of n"
    using Cons.prems by (intro string_at_new) simp
  have inj: "map byte_of n = map byte_of name \<longleftrightarrow> n = name"
    by (metis char_byte_comp list.map_id map_map)
  have "string_search (strings ((names @ [n]) @ ns)) (map byte_of name) (length (strings (names @ [n]))) = None
     \<longleftrightarrow> name \<notin> set ns"
    using Cons.prems by (intro Cons.IH) simp
  then show ?case
    using at inj by (subst string_search.simps) auto
qed

lemma get_string_offset:
  assumes "fdt_inv s names" "CHR 0x00 \<notin> set name" "fdt_get_string_offset name s = (pos, s1)"
  shows "fdt_inv s1 (if name \<in> set names then names else names @ [name])" "tab s1 = tab s"
    "open_node_count s1 = open_node_count s" "\<exists>x. string_table s1 = string_table s @ x"
    "pos < length (string_table s1)" "string_at (string_table s1 @ y) pos = map byte_of name"
proof -
  have st: "string_table s = strings names" using assms(1) by (simp add: fdt_inv_def)
  have found: "string_search (strings names) (map byte_of name) 0 = None \<longleftrightarrow> name \<notin> set names"
    using string_search_strings[of name names "[]"] assms(1,2) by (simp add: fdt_inv_def)
  have "fdt_inv s1 (if name \<in> set names then names else names @ [name]) \<and> tab s1 = tab s
    \<and> open_node_count s1 = open_node_count s
    \<and> (\<exists>x. string_table s1 = string_table s @ x) \<and> pos < length (string_table s1)
    \<and> string_at (string_table s1 @ y) pos = map byte_of name"
  proof (cases "string_search (string_table s) (map byte_of name) 0")
    case None
    then show ?thesis
      using assms string_at_new[of name "string_table s" y] found st
      by (auto simp: fdt_get_string_offset_def Let_def fdt_inv_def split: if_splits)
  next
    case (Some p)
    then have "p < length (string_table s)" "string_at (string_table s) p = map byte_of name"
      using string_search_sound by blast+
    then show ?thesis
      using assms Some string_at_append[of p "string_table s" y] found st strings_last[of names]
      by (cases "strings names = []") (auto simp: fdt_get_string_offset_def)
  qed
  then show "fdt_inv s1 (if name \<in> set names then names else names @ [name])" "tab s1 = tab s"
    "open_node_count s1 = open_node_count s"
    "\<exists>x. string_table s1 = string_table s @ x" "pos < length (string_table s1)"
    "string_at (string_table s1 @ y) pos = map byte_of name" by simp_all
qed

section \<open>Operations and tokens\<close>

text \<open>
  \<open>writes f evs\<close>: the operation \<open>f\<close> appends words that read as the tokens \<open>evs\<close>, whatever follows them and
  however the string block grows, as long as the sizes fit in 32 bits.
\<close>

fun depth :: "fdt_event list \<Rightarrow> int" where
  "depth [] = 0"
| "depth (EvBegin n # es) = depth es + 1"
| "depth (EvProp p d # es) = depth es"
| "depth (EvEnd # es) = depth es - 1"

lemma depth_append [simp]: "depth (a @ b) = depth a + depth b"
  by (induction a rule: depth.induct) simp_all

text \<open>The names in the string block after a stream of tokens, and the bytes the stream takes.\<close>

fun intern :: "string list \<Rightarrow> fdt_event list \<Rightarrow> string list" where
  "intern names [] = names"
| "intern names (EvProp p d # es) = intern (if p \<in> set names then names else names @ [p]) es"
| "intern names (e # es) = intern names es"

lemma intern_append [simp]: "intern names (a @ b) = intern (intern names a) b"
  by (induction names a rule: intern.induct) simp_all

fun ev_bytes :: "fdt_event \<Rightarrow> nat" where
  "ev_bytes (EvBegin n) = 4 + round4 (length n + 1)"
| "ev_bytes (EvProp p d) = 12 + round4 (length d)"
| "ev_bytes EvEnd = 4"

abbreviation stream_bytes :: "fdt_event list \<Rightarrow> nat" where
  "stream_bytes evs \<equiv> sum_list (map ev_bytes evs)"

definition small :: "FDTState \<Rightarrow> bool" where
  "small s \<longleftrightarrow> 4 * length (tab s) < 2 ^ 32 \<and> length (string_table s) < 2 ^ 32"

definition reads_as :: "u8 list \<Rightarrow> u8 list \<Rightarrow> fdt_event list \<Rightarrow> bool" where
  "reads_as st bs evs \<longleftrightarrow>
     (\<forall>y rest. fdt_tokens (st @ y) (bs @ rest) = map_option (\<lambda>es. evs @ es) (fdt_tokens (st @ y) rest))"

definition writes :: "(FDTState \<Rightarrow> FDTState) \<Rightarrow> fdt_event list \<Rightarrow> bool" where
  "writes f evs \<longleftrightarrow>
     (\<forall>s names. fdt_inv s names \<longrightarrow>
        fdt_inv (f s) (intern names evs) \<and> open_node_count (f s) = open_node_count s + depth evs
        \<and> (\<exists>w x. tab (f s) = tab s @ w \<and> string_table (f s) = string_table s @ x
              \<and> 4 * length w = stream_bytes evs
              \<and> (small (f s) \<longrightarrow> reads_as (string_table (f s)) (struct_bytes w) evs)))"

lemma writesI:
  assumes "\<And>s names. fdt_inv s names \<Longrightarrow> fdt_inv (f s) (intern names evs)"
    and "\<And>s names. fdt_inv s names \<Longrightarrow> open_node_count (f s) = open_node_count s + depth evs"
    and "\<And>s names. fdt_inv s names \<Longrightarrow> \<exists>w x. tab (f s) = tab s @ w \<and> string_table (f s) = string_table s @ x
           \<and> 4 * length w = stream_bytes evs
           \<and> (small (f s) \<longrightarrow> reads_as (string_table (f s)) (struct_bytes w) evs)"
  shows "writes f evs"
  unfolding writes_def using assms by blast

lemma reads_as_append:
  assumes "reads_as st bs a" "reads_as (st @ x) bs' b"
  shows "reads_as (st @ x) (bs @ bs') (a @ b)"
proof -
  have "fdt_tokens ((st @ x) @ y) ((bs @ bs') @ rest)
      = map_option (\<lambda>es. a @ es) (map_option (\<lambda>es. b @ es) (fdt_tokens ((st @ x) @ y) rest))" for y rest
    using assms unfolding reads_as_def by (metis append_assoc)
  then show ?thesis by (simp add: reads_as_def option.map_comp comp_def)
qed

lemma writes_comp:
  assumes "writes f a" "writes g b"
  shows "writes (\<lambda>s. g (f s)) (a @ b)"
proof (rule writesI)
  fix s names assume s: "fdt_inv s names"
  obtain w x where f: "fdt_inv (f s) (intern names a)" "open_node_count (f s) = open_node_count s + depth a"
    "tab (f s) = tab s @ w" "string_table (f s) = string_table s @ x" "4 * length w = stream_bytes a"
    "small (f s) \<longrightarrow> reads_as (string_table (f s)) (struct_bytes w) a"
    using assms(1) s unfolding writes_def by blast
  obtain w' x' where g: "fdt_inv (g (f s)) (intern (intern names a) b)"
    "open_node_count (g (f s)) = open_node_count (f s) + depth b"
    "tab (g (f s)) = tab (f s) @ w'" "string_table (g (f s)) = string_table (f s) @ x'"
    "4 * length w' = stream_bytes b"
    "small (g (f s)) \<longrightarrow> reads_as (string_table (g (f s))) (struct_bytes w') b"
    using assms(2) f(1) unfolding writes_def by blast
  show "fdt_inv (g (f s)) (intern names (a @ b))" using g(1) by simp
  show "open_node_count (g (f s)) = open_node_count s + depth (a @ b)" using f(2) g(2) by simp
  have "reads_as (string_table (g (f s))) (struct_bytes (w @ w')) (a @ b)" if "small (g (f s))"
  proof -
    have "small (f s)" using that g(3,4) by (simp add: small_def)
    then show ?thesis using f(6) g(4,6) that reads_as_append by simp
  qed
  then show "\<exists>w x. tab (g (f s)) = tab s @ w \<and> string_table (g (f s)) = string_table s @ x
      \<and> 4 * length w = stream_bytes (a @ b)
      \<and> (small (g (f s)) \<longrightarrow> reads_as (string_table (g (f s))) (struct_bytes w) (a @ b))"
    using f g by (intro exI[of _ "w @ w'"] exI[of _ "x @ x'"]) simp
qed

lemma writes_calls_Nil: "writes (calls []) []"
  by (rule writesI) (auto simp: calls_def reads_as_def option.map_ident)

lemma writes_calls_Cons:
  assumes "writes f a" "writes (calls ops) b" shows "writes (calls (f # ops)) (a @ b)"
proof -
  have "calls (f # ops) = (\<lambda>s. calls ops (f s))" by (simp add: calls_def fun_eq_iff)
  then show ?thesis using writes_comp[OF assms] by simp
qed

lemma writes_calls_append:
  assumes "writes (calls ops) a" "writes (calls ops1) b" shows "writes (calls (ops @ ops1)) (a @ b)"
proof -
  have "calls (ops @ ops1) = (\<lambda>s. calls ops1 (calls ops s))" by (simp add: calls_def fun_eq_iff)
  then show ?thesis using writes_comp[OF assms] by simp
qed

lemma writes_calls_map:
  "(\<And>x. x \<in> set xs \<Longrightarrow> writes (f x) (a x)) \<Longrightarrow> writes (calls (map f xs)) (concat (map a xs))"
  by (induction xs) (auto intro: writes_calls_Nil writes_calls_Cons)

lemma tokens_begin:
  assumes "CHR 0x00 \<notin> set name"
  shows "reads_as st (word_bytes (cpu_to_be32 FDT_BEGIN_NODE) @ cstr name @ pad4 (length (cstr name))) [EvBegin name]"
proof -
  have name: "takeWhile (\<lambda>b. b \<noteq> 0) (cstr name @ r) = map byte_of name" for r
    using string_at_new[OF assms, of "[]" r] by (simp add: string_at_def)
  have len: "length (cstr name @ pad4 (length (cstr name))) = round4 (length name + 1)"
    using length_pad4[of "length (cstr name)"] by simp
  show ?thesis
    unfolding reads_as_def
  proof (intro allI)
    fix y rest
    let ?bs = "(word_bytes (cpu_to_be32 FDT_BEGIN_NODE) @ cstr name @ pad4 (length (cstr name))) @ rest"
    have "be32 ?bs = 1" using be32_word[of FDT_BEGIN_NODE] by (simp add: FDT_BEGIN_NODE_def)
    moreover have "drop 4 ?bs = cstr name @ pad4 (length (cstr name)) @ rest" by simp
    moreover have "drop (round4 (length name + 1)) (cstr name @ pad4 (length (cstr name)) @ rest) = rest"
      using len by (metis append_assoc append_eq_conv_conj)
    ultimately show "fdt_tokens (st @ y) ?bs = map_option (\<lambda>es. [EvBegin name] @ es) (fdt_tokens (st @ y) rest)"
      using len by (subst fdt_tokens.simps) (simp add: name Let_def)
  qed
qed

lemma tokens_end: "reads_as st (word_bytes (cpu_to_be32 FDT_END_NODE)) [EvEnd]"
  using be32_word[of FDT_END_NODE]
  by (auto simp: reads_as_def FDT_END_NODE_def fdt_tokens.simps[of _ "word_bytes _ @ _"])

lemma tokens_prop:
  assumes "\<And>y. string_at (st @ y) pos = map byte_of name" "pos < 2 ^ 32" "length data < 2 ^ 32"
  shows "reads_as st (word_bytes (cpu_to_be32 FDT_PROP) @ word_bytes (cpu_to_be32 (of_nat (length data)))
     @ word_bytes (cpu_to_be32 (of_nat pos)) @ data @ pad4 (length data)) [EvProp name data]"
  unfolding reads_as_def
proof (intro allI)
  fix y rest
  let ?r = "word_bytes (cpu_to_be32 (of_nat (length data))) @ word_bytes (cpu_to_be32 (of_nat pos))
     @ data @ pad4 (length data) @ rest"
  have "be32 (word_bytes (cpu_to_be32 FDT_PROP) @ ?r) = 3"
    using be32_word[of FDT_PROP] by (simp add: FDT_PROP_def)
  moreover have "be32 ?r = length data" "be32 (drop 4 ?r) = pos"
    using be32_of_nat[OF assms(3)] be32_of_nat[OF assms(2)] by (simp_all add: be_bytes_def)
  moreover have len: "length (data @ pad4 (length data)) = round4 (length data)"
    using length_pad4[of "length data"] by simp
  moreover have "drop (8 + round4 (length data)) ?r = rest" using len by simp
  moreover have "take (length data) (drop 8 ?r) = data" by simp
  ultimately show "fdt_tokens (st @ y) ((word_bytes (cpu_to_be32 FDT_PROP)
       @ word_bytes (cpu_to_be32 (of_nat (length data))) @ word_bytes (cpu_to_be32 (of_nat pos))
       @ data @ pad4 (length data)) @ rest) = map_option (\<lambda>es. [EvProp name data] @ es) (fdt_tokens (st @ y) rest)"
    by (subst fdt_tokens.simps) (simp add: assms(1) Let_def)
qed

lemma writes_begin_node:
  assumes "CHR 0x00 \<notin> set name"
  shows "writes (fdt_begin_node name) [EvBegin name]"
proof (rule writesI)
  fix s names assume s: "fdt_inv s names"
  show "fdt_inv (fdt_begin_node name s) (intern names [EvBegin name])"
    using put_data_inv[OF put32_inv[OF s], of "cstr name" FDT_BEGIN_NODE]
    by (auto simp: fdt_begin_node_def Let_def fdt_inv_def)
  show "open_node_count (fdt_begin_node name s) = open_node_count s + depth [EvBegin name]"
    by (simp add: fdt_begin_node_def Let_def)
  let ?w = "cpu_to_be32 FDT_BEGIN_NODE # words_of (cstr name @ pad4 (length (cstr name)))"
  have "4 * length ?w = stream_bytes [EvBegin name]"
    using arg_cong[OF struct_put_data[of "cstr name"], of length] length_pad4[of "length (cstr name)"] by simp
  then show "\<exists>w x. tab (fdt_begin_node name s) = tab s @ w \<and> string_table (fdt_begin_node name s) = string_table s @ x
     \<and> 4 * length w = stream_bytes [EvBegin name]
     \<and> (small (fdt_begin_node name s) \<longrightarrow> reads_as (string_table (fdt_begin_node name s)) (struct_bytes w) [EvBegin name])"
    using tokens_begin[OF assms, of "string_table s"]
    by (intro exI[of _ ?w] exI[of _ "[]"])
      (simp add: fdt_begin_node_def Let_def put_data_tab struct_put_data del: cstr_simps(1))
qed

lemma writes_end_node: "writes fdt_end_node [EvEnd]"
proof (rule writesI)
  fix s names assume s: "fdt_inv s names"
  show "fdt_inv (fdt_end_node s) (intern names [EvEnd])"
    using put32_inv[OF s, of FDT_END_NODE] by (auto simp: fdt_end_node_def Let_def fdt_inv_def)
  show "open_node_count (fdt_end_node s) = open_node_count s + depth [EvEnd]"
    by (simp add: fdt_end_node_def Let_def)
  show "\<exists>w x. tab (fdt_end_node s) = tab s @ w \<and> string_table (fdt_end_node s) = string_table s @ x
     \<and> 4 * length w = stream_bytes [EvEnd]
     \<and> (small (fdt_end_node s) \<longrightarrow> reads_as (string_table (fdt_end_node s)) (struct_bytes w) [EvEnd])"
    using tokens_end[of "string_table s"]
    by (intro exI[of _ "[cpu_to_be32 FDT_END_NODE]"] exI[of _ "[]"]) (simp add: fdt_end_node_def Let_def)
qed

text \<open>The two ways to write a property: bytes, and a table of cells.\<close>

definition cells :: "u32 list \<Rightarrow> u8 list" where
  "cells vs = struct_bytes (map cpu_to_be32 vs)"

lemma length_cells: "length (cells vs) = length vs * 4"
  by (simp add: cells_def)

lemma writes_put_prop:
  assumes nm: "CHR 0x00 \<notin> set name"
    and f: "\<And>s. f s = g (fdt_put_name name (fdt_put32 (of_nat (length data)) (fdt_put32 FDT_PROP s)))"
    and inv: "\<And>s names. fdt_inv s names \<Longrightarrow> fdt_inv (g s) names"
    and sel: "\<And>s. string_table (g s) = string_table s" "\<And>s. open_node_count (g s) = open_node_count s"
    and w: "\<And>s. tab (g s) = tab s @ w" "struct_bytes w = data @ pad4 (length data)"
  shows "writes f [EvProp name data]"
proof (rule writesI)
  fix s names assume s: "fdt_inv s names"
  define s1 where "s1 = fdt_put32 (of_nat (length data)) (fdt_put32 FDT_PROP s)"
  have s1: "fdt_inv s1 names" "tab s1 = tab s @ [cpu_to_be32 FDT_PROP, cpu_to_be32 (of_nat (length data))]"
    "string_table s1 = string_table s" "open_node_count s1 = open_node_count s"
    using s by (simp_all add: s1_def put32_inv)
  obtain pos s2 where off: "fdt_get_string_offset name s1 = (pos, s2)" by fastforce
  note o = get_string_offset[OF s1(1) nm off]
  have fs: "f s = g (fdt_put32 (of_nat pos) s2)" by (simp add: f fdt_put_name_def off s1_def[symmetric])
  show "fdt_inv (f s) (intern names [EvProp name data])" using inv[OF put32_inv[OF o(1)]] by (simp add: fs)
  show "open_node_count (f s) = open_node_count s + depth [EvProp name data]"
    by (simp add: fs sel o(3) s1(4))
  obtain x where x: "string_table s2 = string_table s @ x" using o(4) s1(3) by auto
  let ?w = "cpu_to_be32 FDT_PROP # cpu_to_be32 (of_nat (length data)) # cpu_to_be32 (of_nat pos) # w"
  have tab: "tab (f s) = tab s @ ?w" by (simp add: fs w(1) o(2) s1(2))
  have len: "4 * length w = round4 (length data)"
    using arg_cong[OF w(2), of length] length_pad4[of "length data"] by simp
  have "reads_as (string_table s2) (struct_bytes ?w) [EvProp name data]" if "small (f s)"
  proof -
    have "length data \<le> 4 * length w" using len length_pad4[of "length data"] by simp
    then have "length data < 2 ^ 32" "pos < 2 ^ 32"
      using that o(5) tab by (auto simp: small_def fs sel)
    then show ?thesis using tokens_prop[of "string_table s2" pos name data] o(6) by (simp add: w(2))
  qed
  then show "\<exists>w x. tab (f s) = tab s @ w \<and> string_table (f s) = string_table s @ x
     \<and> 4 * length w = stream_bytes [EvProp name data]
     \<and> (small (f s) \<longrightarrow> reads_as (string_table (f s)) (struct_bytes w) [EvProp name data])"
    using tab x len by (intro exI[of _ ?w] exI[of _ x]) (simp add: fs sel)
qed

lemma writes_prop: "CHR 0x00 \<notin> set name \<Longrightarrow> writes (fdt_prop name data) [EvProp name data]"
  by (rule writes_put_prop[where g = "fdt_put_data data" and w = "words_of (data @ pad4 (length data))"])
    (simp_all add: fdt_prop_def put_data_inv put_data_tab struct_put_data)

lemma writes_prop_tab_u32:
  assumes "CHR 0x00 \<notin> set name"
  shows "writes (fdt_prop_tab_u32 name vs) [EvProp name (cells vs)]"
proof (rule writes_put_prop[where g = "fold fdt_put32 vs", OF assms])
  have "pad4 (length (cells vs)) = []"
    by (simp add: pad4_def length_cells)
  then show "struct_bytes (map cpu_to_be32 vs) = cells vs @ pad4 (length (cells vs))"
    by (simp add: cells_def)
qed (simp_all add: fdt_prop_tab_u32_def fold_put32_inv length_cells)

lemma writes_prop_u32: "CHR 0x00 \<notin> set name \<Longrightarrow> writes (fdt_prop_u32 name v) [EvProp name (cells [v])]"
  using writes_prop_tab_u32[of name "[v]"] by (simp add: fdt_prop_u32_def[abs_def])

definition cells64 :: "u64 list \<Rightarrow> u8 list" where
  "cells64 vs = cells (concat (map (\<lambda>v. [ucast (drop_bit 32 v), ucast v]) vs))"

lemma writes_prop_u64: "CHR 0x00 \<notin> set name \<Longrightarrow> writes (fdt_prop_u64 name v) [EvProp name (cells64 [v])]"
  using writes_prop_tab_u32[of name "[ucast (drop_bit 32 v), ucast v]"]
  by (simp add: fdt_prop_u64_def[abs_def] cells64_def)

lemma writes_prop_tab_u64_2:
  "CHR 0x00 \<notin> set name \<Longrightarrow> writes (fdt_prop_tab_u64_2 name v0 v1) [EvProp name (cells64 [v0, v1])]"
  using writes_prop_tab_u32[of name "[ucast (drop_bit 32 v0), ucast v0, ucast (drop_bit 32 v1), ucast v1]"]
  by (simp add: fdt_prop_tab_u64_2_def[abs_def] cells64_def)

lemma writes_prop_str: "CHR 0x00 \<notin> set name \<Longrightarrow> writes (fdt_prop_str name str) [EvProp name (cstr str)]"
  using writes_prop[of name "cstr str"] by (simp add: fdt_prop_str_def[abs_def])

lemma writes_prop_tab_str:
  "CHR 0x00 \<notin> set name \<Longrightarrow> writes (fdt_prop_tab_str name strs) [EvProp name (concat (map cstr strs))]"
  using writes_prop[of name "concat (map cstr strs)"] by (simp add: fdt_prop_tab_str_def[abs_def])

text \<open>Node names with a unit address are short enough for the buffer.\<close>

lemma length_hex_string: "unat n < 16 ^ Suc k \<Longrightarrow> length (hex_string n) \<le> Suc k"
proof (induction n arbitrary: k rule: hex_string.induct)
  case (1 n)
  show ?case
  proof (cases "n < 16")
    case True
    then show ?thesis by (subst hex_string.simps) simp
  next
    case False
    then obtain j where k: "k = Suc j" using 1 by (cases k) (simp_all add: word_less_nat_alt)
    then have "unat (drop_bit 4 n) < 16 ^ Suc j"
      using 1 by (simp add: drop_bit_eq_div unat_div_distrib less_mult_imp_div_less mult.commute)
    with 1 False k show ?thesis by (subst hex_string.simps) simp
  qed
qed

lemma hex_digit_not_0: "d < 16 \<Longrightarrow> hex_digit d \<noteq> CHR 0x00"
proof -
  assume "d < 16"
  then have "unat d < 16" by (simp add: word_less_nat_alt)
  moreover have "of_char (CHR 0x00) = (0 :: nat)" by simp
  ultimately show "hex_digit d \<noteq> CHR 0x00"
    unfolding hex_digit_def by (auto simp: char_of_eq_iff take_bit_eq_mod)
qed

lemma hex_string_not_0: "CHR 0x00 \<notin> set (hex_string n)"
proof (induction n rule: hex_string.induct)
  case (1 n)
  have "n AND 15 = take_bit 4 n" by (simp add: take_bit_eq_mask mask_eq_exp_minus_1)
  then have "unat (n AND 15) < 2 ^ 4" by (simp only: unsigned_take_bit_eq take_bit_nat_less_exp)
  then have "n AND 15 < 16" by (simp add: word_less_nat_alt)
  with 1 show ?case
    by (subst hex_string.simps) (auto simp: hex_digit_not_0[symmetric])
qed

definition unit_name :: "string \<Rightarrow> u64 \<Rightarrow> string" where
  "unit_name name n = name @ ''@'' @ hex_string n"

lemma writes_begin_node_num:
  assumes "CHR 0x00 \<notin> set name" "length name \<le> 200"
  shows "writes (fdt_begin_node_num name n) [EvBegin (unit_name name n)]"
proof -
  have "unat n < 16 ^ Suc 15" using unsigned_less[of n] by simp
  then have "length (hex_string n) \<le> 16" using length_hex_string[of n 15] by simp
  then have "take 255 (name @ ''@'' @ hex_string n) = unit_name name n"
    using assms(2) by (simp add: unit_name_def)
  moreover have "CHR 0x00 \<notin> set (unit_name name n)"
    using assms(1) hex_string_not_0[of n] by (simp add: unit_name_def)
  ultimately show ?thesis
    using writes_begin_node by (simp add: fdt_begin_node_num_def[abs_def])
qed

lemmas writes_ops = writes_calls_Nil writes_calls_Cons writes_begin_node writes_begin_node_num writes_end_node
  writes_prop writes_prop_tab_u32 writes_prop_u32 writes_prop_u64 writes_prop_tab_u64_2 writes_prop_str
  writes_prop_tab_str

lemma writes_eq: "writes f a \<Longrightarrow> a = b \<Longrightarrow> writes f b"
  by simp

section \<open>Output\<close>

definition align :: "nat \<Rightarrow> nat" where
  "align n = (n + 7) div 8 * 8"

lemma align8_eq: "align8 d = d @ replicate (align (length d) - length d) 0"
proof (induction d rule: align8.induct)
  case (1 d)
  show ?case
  proof (cases "length d mod 8 = 0")
    case True
    then have "align (length d) = length d" by (auto simp: align_def elim!: dvdE simp: mod_eq_0_iff_dvd)
    then show ?thesis using True by (subst align8.simps) simp
  next
    case False
    then have al: "align (Suc (length d)) = align (length d)" "Suc (length d) \<le> align (length d)"
      unfolding align_def by presburger+
    then have "align (length d) - length d = Suc (align (length d) - Suc (length d))" by simp
    moreover have "align8 (d @ [0]) = (d @ [0]) @ replicate (align (length (d @ [0])) - length (d @ [0])) 0"
      using 1 False by blast
    ultimately show ?thesis using False al by (subst align8.simps) simp
  qed
qed

lemma align_ge: "n \<le> align n"
  unfolding align_def by presburger

lemma align_le_iff: "align n \<le> 8 * c \<longleftrightarrow> n \<le> 8 * c"
proof -
  have "align n \<le> 8 * c \<longleftrightarrow> (n + 7) div 8 < Suc c" by (simp add: align_def less_Suc_eq_le)
  also have "\<dots> \<longleftrightarrow> n + 7 < Suc c * 8" by (rule div_less_iff_less_mult) simp
  finally show ?thesis by auto
qed

lemma length_align8: "length (align8 d) = align (length d)"
  using align_ge[of "length d"] by (subst align8_eq) simp

lemma depth_flatten [simp]: "depth (flatten t) = 0"
proof (induction t)
  case (Node n ps cs)
  have "depth (concat (map flatten cs)) = 0" using Node by (induction cs) auto
  moreover have "depth (map (\<lambda>(p, d). EvProp p d) ps) = 0" by (induction ps) auto
  ultimately show ?case by simp
qed

lemma header_fields:
  assumes "ts < 2 ^ 32" "o1 < 2 ^ 32" "o2 < 2 ^ 32" "o3 < 2 ^ 32" "z1 < 2 ^ 32" "z2 < 2 ^ 32"
    and "b = fdt_header ts o1 o2 o3 z1 z2 @ r"
  shows "be32 b = 0xd00dfeed" "be32 (drop 4 b) = ts" "be32 (drop 8 b) = o1" "be32 (drop 12 b) = o2"
    "be32 (drop 16 b) = o3" "be32 (drop 24 b) = 16" "be32 (drop 32 b) = z1" "be32 (drop 36 b) = z2"
  using assms be32_word[of FDT_MAGIC] be32_of_nat[of 16]
  by (simp_all add: fdt_header_def be32_of_nat FDT_MAGIC_def)

lemma length_header [simp]: "length (fdt_header ts o1 o2 o3 z1 z2) = 40"
  by (simp add: fdt_header_def)

lemma decode_eqI:
  assumes "40 \<le> length b" "be32 b = 0xd00dfeed" "be32 (drop 4 b) = length b" "be32 (drop 24 b) = 16"
    "be32 (drop 8 b) = o1" "be32 (drop 12 b) = o2" "be32 (drop 32 b) = z1" "be32 (drop 36 b) = z2"
    "take z1 (drop o2 b) = st" "take z2 (drop o1 b) = dt"
  shows "fdt_decode b = (case fdt_tokens st dt of None \<Rightarrow> None | Some evs \<Rightarrow> fdt_build evs [])"
  using assms by (simp add: fdt_decode_def Let_def)

text \<open>What a reader finds in the output: the structure block and the string block.\<close>

lemma output_blocks:
  assumes "open_node_count s = 0" and "dt = struct_bytes (tab s @ [cpu_to_be32 FDT_END])"
  obtains blob where "fdt_output s = Some blob"
    "length blob = align (align (44 + 4 * length (tab s)) + 16 + length (string_table s))"
    "length blob < 2 ^ 32 \<Longrightarrow> fdt_decode blob =
       (case fdt_tokens (string_table s) dt of None \<Rightarrow> None | Some evs \<Rightarrow> fdt_build evs [])"
proof -
  let ?st = "string_table s"
  obtain k where k: "align8 (replicate 40 0 @ dt) = replicate 40 0 @ dt @ replicate k 0"
    using align8_eq[of "replicate 40 0 @ dt"] by auto
  define d2 where "d2 = replicate 40 0 @ dt @ replicate k 0 @ replicate 16 (0 :: u8)"
  obtain j where j: "align8 (d2 @ ?st) = d2 @ ?st @ replicate j 0"
    using align8_eq[of "d2 @ ?st"] by auto
  define d3 where "d3 = d2 @ ?st @ replicate j 0"
  define b where
    "b = fdt_header (length d3) 40 (length d2) (40 + (length dt + k)) (length ?st) (length dt) @ drop 40 d3"
  have out: "fdt_output s = Some b"
    unfolding fdt_output_def Let_def
    using assms k j by (simp add: b_def d3_def d2_def struct_bytes_def)
  have len: "length b = length d3" by (simp add: b_def d3_def d2_def)
  have body: "drop (length d2) b = ?st @ replicate j 0"
    "drop 40 b = dt @ replicate k 0 @ replicate 16 0 @ ?st @ replicate j 0"
    by (simp_all add: b_def d3_def d2_def)
  have dec: "fdt_decode b = (case fdt_tokens ?st dt of None \<Rightarrow> None | Some evs \<Rightarrow> fdt_build evs [])"
    if "length b < 2 ^ 32"
  proof -
    have "length d3 < 2 ^ 32" using that len by simp
    then have "length d2 < 2 ^ 32" "40 + (length dt + k) < 2 ^ 32" "length ?st < 2 ^ 32" "length dt < 2 ^ 32"
      by (simp_all add: d3_def d2_def)
    moreover have "(40 :: nat) < 2 ^ 32" by simp
    ultimately have hdr: "be32 b = 0xd00dfeed" "be32 (drop 4 b) = length d3" "be32 (drop 8 b) = 40"
      "be32 (drop 12 b) = length d2" "be32 (drop 24 b) = 16" "be32 (drop 32 b) = length ?st"
      "be32 (drop 36 b) = length dt"
      using header_fields[OF \<open>length d3 < 2 ^ 32\<close> _ _ _ _ _ b_def] by blast+
    have "40 \<le> length b" by (simp add: len d3_def d2_def)
    moreover have "take (length ?st) (drop (length d2) b) = ?st" "take (length dt) (drop 40 b) = dt"
      by (simp_all add: body)
    ultimately show ?thesis
      using hdr by (intro decode_eqI) (simp_all only: len)
  qed
  have "length d2 = align (44 + 4 * length (tab s)) + 16"
    using arg_cong[OF k, of length] assms(2) by (simp add: d2_def length_align8)
  then have "length b = align (align (44 + 4 * length (tab s)) + 16 + length ?st)"
    using arg_cong[OF j, of length] by (simp add: len d3_def length_align8)
  then show thesis by (rule that[OF out _ dec])
qed

lemma tokens_final: "fdt_tokens st (word_bytes (cpu_to_be32 FDT_END)) = Some []"
  using be32_word[of FDT_END "[]"] by (subst fdt_tokens.simps) (simp add: FDT_END_def Let_def)

definition blob_size :: "fdt_event list \<Rightarrow> nat" where
  "blob_size evs = align (align (44 + stream_bytes evs) + 16 + length (strings (intern [] evs)))"

lemma output_decodes:
  assumes "writes f (flatten t)"
  obtains blob where "fdt_output (f fdt_init) = Some blob" "length blob = blob_size (flatten t)"
    "length blob < 2 ^ 32 \<Longrightarrow> fdt_decode blob = Some t"
proof -
  define s where "s = f fdt_init"
  have "fdt_inv fdt_init []" by (simp add: fdt_inv_def fdt_init_def)
  then obtain w x where s: "open_node_count s = 0" "tab s = w" "string_table s = x"
    "small s \<longrightarrow> reads_as x (struct_bytes w) (flatten t)"
    "4 * length w = stream_bytes (flatten t)" "x = strings (intern [] (flatten t))"
    using assms unfolding writes_def s_def by (fastforce simp: fdt_init_def fdt_inv_def)
  obtain blob where blob: "fdt_output s = Some blob"
    "length blob = align (align (44 + 4 * length w) + 16 + length x)"
    "length blob < 2 ^ 32 \<Longrightarrow> fdt_decode blob =
       (case fdt_tokens x (struct_bytes (w @ [cpu_to_be32 FDT_END])) of None \<Rightarrow> None | Some evs \<Rightarrow> fdt_build evs [])"
    using output_blocks[OF s(1) refl] s(2,3) by metis
  have "fdt_decode blob = Some t" if "length blob < 2 ^ 32"
  proof -
    have "small s"
      using that blob(2) s(2,3) align_ge[of "44 + 4 * length w"]
        align_ge[of "align (44 + 4 * length w) + 16 + length x"] by (simp add: small_def)
    then have "fdt_tokens x (struct_bytes (w @ [cpu_to_be32 FDT_END])) = Some (flatten t)"
      using s(4) tokens_final[of x] unfolding reads_as_def
      by (metis append_Nil2 option.map(2) struct_bytes_simps(1-3))
    then show ?thesis using blob(3)[OF that] build_root by simp
  qed
  with blob(1,2) s(5,6) that show thesis by (simp add: s_def blob_size_def)
qed

section \<open>The tree of the machine\<close>

text \<open>
  Hart \<open>h\<close> owns an interrupt controller with handle \<open>h + 1\<close>, and the handle after the last hart's is the
  platform interrupt controller's; the tables \<^verbatim>\<open>interrupts-extended\<close> refer to them.
\<close>

definition intc_handle :: "nat \<Rightarrow> u32" where
  "intc_handle h = 1 + of_nat h"

definition cpu_node :: "nat \<Rightarrow> RISCVCPUState \<Rightarrow> u32 \<Rightarrow> dt_node" where
  "cpu_node h c handle = Node (unit_name ''cpu'' (of_nat h))
     [(''device_type'', cstr ''cpu''), (''reg'', cells [of_nat h]), (''status'', cstr ''okay''),
      (''compatible'', cstr ''riscv''), (''riscv,isa'', cstr (isa_string (misa c))),
      (''mmu-type'', cstr ''riscv,sv48''), (''clock-frequency'', cells [2000000000])]
     [Node ''interrupt-controller''
        [(''#interrupt-cells'', cells [1]), (''interrupt-controller'', []),
         (''compatible'', cstr ''riscv,cpu-intc''), (''phandle'', cells [handle]),
         (''linux,phandle'', cells [handle])] []]"

definition irq_cells :: "nat \<Rightarrow> u32 \<Rightarrow> u32 \<Rightarrow> u8 list" where
  "irq_cells n a b = cells (concat (map (\<lambda>h. [intc_handle h, a, intc_handle h, b]) [0..<n]))"

definition memory_node :: "machine_layout \<Rightarrow> dt_node" where
  "memory_node m = Node (unit_name ''memory'' (ram_base_addr m))
     [(''device_type'', cstr ''memory''), (''reg'', cells64 [ram_base_addr m, ram_size m])] []"

definition clint_node :: "machine_layout \<Rightarrow> nat \<Rightarrow> dt_node" where
  "clint_node m n = Node (unit_name ''clint'' (clint_base_addr m))
     [(''compatible'', cstr ''riscv,clint0''), (''interrupts-extended'', irq_cells n 3 7),
      (''reg'', cells64 [clint_base_addr m, clint_size m])] []"

definition plic_node :: "machine_layout \<Rightarrow> nat \<Rightarrow> dt_node" where
  "plic_node m n = Node (unit_name ''plic'' (plic_base_addr m))
     [(''#interrupt-cells'', cells [1]), (''interrupt-controller'', []), (''compatible'', cstr ''riscv,plic0''),
      (''riscv,ndev'', cells [31]), (''reg'', cells64 [plic_base_addr m, plic_size m]),
      (''interrupts-extended'', irq_cells n 9 11), (''phandle'', cells [intc_handle n])] []"

definition virtio_node :: "u32 \<Rightarrow> nat \<Rightarrow> dt_node" where
  "virtio_node handle i = Node (unit_name ''virtio'' (VIRTIO_BASE_ADDR + of_nat i * VIRTIO_SIZE))
     [(''compatible'', cstr ''virtio,mmio''),
      (''reg'', cells64 [VIRTIO_BASE_ADDR + of_nat i * VIRTIO_SIZE, VIRTIO_SIZE]),
      (''interrupts-extended'', cells [handle, VIRTIO_IRQ + of_nat i])] []"

definition uart_nodes :: "dt_node list" where
  "uart_nodes =
     [Node (unit_name ''uart'' UART0_BASE_ADDR)
        [(''compatible'', cstr ''sifive,uart0''), (''reg'', cells64 [UART0_BASE_ADDR, UART0_SIZE])] [],
      Node (unit_name ''uart'' DW_APB_UART0_BASE_ADDR)
        [(''compatible'', cstr ''ns16550''), (''reg'', cells64 [DW_APB_UART0_BASE_ADDR, DW_APB_UART0_SIZE]),
         (''reg-shift'', cells [2]), (''reg-io-width'', cells [4])] []]"

definition framebuffer_node :: "FBDevice \<Rightarrow> dt_node" where
  "framebuffer_node fb = Node (unit_name ''framebuffer'' FRAMEBUFFER_BASE_ADDR)
     [(''compatible'', cstr ''simple-framebuffer''), (''reg'', cells64 [FRAMEBUFFER_BASE_ADDR, scast (fb_size fb)]),
      (''width'', cells [fb_width fb]), (''height'', cells [fb_height fb]), (''stride'', cells [fb_stride fb]),
      (''format'', cstr ''a8r8g8b8'')] []"

definition soc_node :: "machine_layout \<Rightarrow> nat \<Rightarrow> dt_node" where
  "soc_node m n = Node ''soc''
     [(''#address-cells'', cells [2]), (''#size-cells'', cells [2]),
      (''compatible'', cstr ''ucbbar,dromajo-bar-soc'' @ cstr ''simple-bus''), (''ranges'', [])]
     ([clint_node m n, plic_node m n] @ map (virtio_node (intc_handle n)) [0..<virtio_count m] @ uart_nodes
      @ (case fb_dev m of None \<Rightarrow> [] | Some fb \<Rightarrow> [framebuffer_node fb]))"

definition chosen_node :: "string \<Rightarrow> u64 \<Rightarrow> u64 \<Rightarrow> dt_node" where
  "chosen_node bootargs initrd_start initrd_end = Node ''chosen''
     ((''bootargs'', cstr bootargs)
      # (if initrd_start \<noteq> 0 \<and> initrd_start < initrd_end
         then [(''linux,initrd-start'', cells64 [initrd_start]), (''linux,initrd-end'', cells64 [initrd_end])]
         else [])) []"

definition machine_tree ::
  "machine_layout \<Rightarrow> RISCVCPUState list \<Rightarrow> string \<Rightarrow> u64 \<Rightarrow> u64 \<Rightarrow> dt_node" where
  "machine_tree m harts bootargs initrd_start initrd_end = Node []
     [(''#address-cells'', cells [2]), (''#size-cells'', cells [2]),
      (''compatible'', cstr ''ucbbar,dromajo-bar_dev''), (''model'', cstr ''ucbbar,dromajo-bare'')]
     [Node ''cpus''
        [(''#address-cells'', cells [1]), (''#size-cells'', cells [0]), (''timebase-frequency'', cells [RTC_FREQ])]
        (map (\<lambda>h. cpu_node h (harts ! h) (intc_handle h)) [0..<length harts]),
      memory_node m, soc_node m (length harts), chosen_node bootargs initrd_start initrd_end]"

section \<open>The builder follows the tree\<close>

lemma writes_cpu: "writes (fdt_cpu h c handle) (flatten (cpu_node h c handle))"
  unfolding fdt_cpu_def
  by (rule writes_eq, (rule writes_ops | (simp; fail))+) (simp add: cpu_node_def riscv_cpu_get_misa_def)

lemma cpus_handles:
  "snd (fdt_cpus cs h p s) = (p + of_nat (length cs), map (\<lambda>i. p + of_nat i) [0..<length cs])"
proof (induction cs arbitrary: h p s)
  case (Cons c cs)
  have "[0..<Suc (length cs)] = 0 # map Suc [0..<length cs]"
    by (simp add: upt_conv_Cons map_Suc_upt del: upt_Suc)
  then show ?case
    using Cons[of "h + 1" "p + 1" "fdt_cpu h c p s"]
    by (simp add: case_prod_beta add.assoc comp_def del: upt_Suc)
qed simp

lemma writes_cpus:
  "writes (\<lambda>s. fst (fdt_cpus cs h p s))
     (concat (map (\<lambda>i. flatten (cpu_node (h + i) (cs ! i) (p + of_nat i))) [0..<length cs]))"
proof (induction cs arbitrary: h p)
  case Nil
  then show ?case using writes_calls_Nil by (simp add: calls_def[abs_def] id_def)
next
  case (Cons c cs)
  have "[0..<Suc (length cs)] = 0 # map Suc [0..<length cs]"
    by (simp add: upt_conv_Cons map_Suc_upt del: upt_Suc)
  then show ?case
    using writes_comp[OF writes_cpu[of h c p] Cons[of "h + 1" "p + 1"]]
    by (simp add: case_prod_beta add.assoc comp_def del: upt_Suc)
qed

lemma writes_memory: "writes (fdt_memory m) (flatten (memory_node m))"
  unfolding fdt_memory_def
  by (rule writes_eq, (rule writes_ops | (simp; fail))+) (simp add: memory_node_def cells64_def)

lemma writes_virtio: "writes (fdt_virtio handle i) (flatten (virtio_node handle i))"
  unfolding fdt_virtio_def
  by (rule writes_eq, (rule writes_ops | (simp; fail))+) (simp add: virtio_node_def)

lemma writes_framebuffer: "writes (fdt_framebuffer fb) (flatten (framebuffer_node fb))"
  unfolding fdt_framebuffer_def
  by (rule writes_eq, (rule writes_ops | (simp; fail))+) (simp add: framebuffer_node_def)

lemma writes_soc:
  assumes "hs = map intc_handle [0..<n]"
  shows "writes (fdt_soc m hs (intc_handle n)) (flatten (soc_node m n))"
proof -
  have irq: "cells (interrupts_tab hs a b) = irq_cells n a b" for a b
    by (simp add: interrupts_tab_def irq_cells_def assms comp_def)
  have vio: "writes (calls (map (fdt_virtio (intc_handle n)) [0..<virtio_count m]))
      (concat (map (\<lambda>i. flatten (virtio_node (intc_handle n) i)) [0..<virtio_count m]))"
    by (rule writes_calls_map) (rule writes_virtio)
  have fb: "writes (calls (case fb_dev m of None \<Rightarrow> [] | Some fb \<Rightarrow> [fdt_framebuffer fb]))
      (concat (map flatten (case fb_dev m of None \<Rightarrow> [] | Some fb \<Rightarrow> [framebuffer_node fb])))"
    using writes_calls_Cons[OF writes_framebuffer writes_calls_Nil] writes_calls_Nil
    by (cases "fb_dev m") simp_all
  show ?thesis
    unfolding fdt_soc_def
    by (rule writes_eq, (rule writes_calls_append vio fb writes_ops | (simp; fail))+)
      (simp add: soc_node_def clint_node_def plic_node_def uart_nodes_def irq comp_def)
qed

lemma writes_chosen:
  "writes (fdt_chosen cmd_line initrd_start initrd_end)
     (flatten (chosen_node (case cmd_line of Some c \<Rightarrow> c | None \<Rightarrow> []) initrd_start initrd_end))"
proof -
  have "writes (calls (if P then [fdt_prop_u64 ''linux,initrd-start'' a, fdt_prop_u64 ''linux,initrd-end'' b] else []))
      (if P then [EvProp ''linux,initrd-start'' (cells64 [a]), EvProp ''linux,initrd-end'' (cells64 [b])] else [])"
    for P a b
    by (cases P; simp; rule writes_eq, (rule writes_ops | (simp; fail))+; simp)
  note initrd = this
  show ?thesis
    unfolding fdt_chosen_def
    by (rule writes_eq, (rule writes_calls_append initrd writes_ops | (simp; fail))+) (simp add: chosen_node_def)
qed

lemma writes_head:
  "writes (\<lambda>s. fst (fdt_machine_head harts s))
     ([EvBegin [], EvProp ''#address-cells'' (cells [2]), EvProp ''#size-cells'' (cells [2]),
       EvProp ''compatible'' (cstr ''ucbbar,dromajo-bar_dev''), EvProp ''model'' (cstr ''ucbbar,dromajo-bare''),
       EvBegin ''cpus'', EvProp ''#address-cells'' (cells [1]), EvProp ''#size-cells'' (cells [0]),
       EvProp ''timebase-frequency'' (cells [RTC_FREQ])]
      @ concat (map (\<lambda>h. flatten (cpu_node h (harts ! h) (intc_handle h))) [0..<length harts]) @ [EvEnd])"
  unfolding fdt_machine_head_def case_prod_beta fst_conv
  by (rule writes_eq, rule writes_comp, rule writes_comp[where g = "\<lambda>s. fst (fdt_cpus harts 0 1 s)"],
      (rule writes_cpus writes_ops | (simp; fail))+) (simp add: intc_handle_def)

lemma fdt_machine_writes:
  obtains f where "f fdt_init = fdt_machine m harts cmd_line initrd_start initrd_end"
    "writes f (flatten (machine_tree m harts (case cmd_line of Some c \<Rightarrow> c | None \<Rightarrow> []) initrd_start initrd_end))"
proof
  let ?n = "length harts"
  let ?f = "\<lambda>s. calls [fdt_memory m, fdt_soc m (map intc_handle [0..<?n]) (intc_handle ?n),
     fdt_chosen cmd_line initrd_start initrd_end, fdt_end_node] (fst (fdt_machine_head harts s))"
  have "snd (fdt_machine_head harts fdt_init) = (intc_handle ?n, map intc_handle [0..<?n])"
    by (simp add: fdt_machine_head_def case_prod_beta cpus_handles intc_handle_def[abs_def])
  then show "?f fdt_init = fdt_machine m harts cmd_line initrd_start initrd_end"
    by (simp add: fdt_machine_def case_prod_beta)
  show "writes ?f (flatten (machine_tree m harts (case cmd_line of Some c \<Rightarrow> c | None \<Rightarrow> []) initrd_start initrd_end))"
    by (rule writes_eq, rule writes_comp[OF writes_head],
        (rule writes_memory writes_soc[OF refl] writes_chosen writes_ops)+)
      (simp add: machine_tree_def comp_def)
qed

lemma device_tree_blob:
  "\<exists>blob. riscv_build_fdt m harts None True cmd_line initrd_start initrd_end = Inr blob
     \<and> length blob = blob_size (flatten
          (machine_tree m harts (case cmd_line of Some c \<Rightarrow> c | None \<Rightarrow> []) initrd_start initrd_end))
     \<and> (length blob < 2 ^ 32 \<longrightarrow> fdt_decode blob =
          Some (machine_tree m harts (case cmd_line of Some c \<Rightarrow> c | None \<Rightarrow> []) initrd_start initrd_end))"
proof -
  obtain f where f: "f fdt_init = fdt_machine m harts cmd_line initrd_start initrd_end"
    "writes f (flatten (machine_tree m harts (case cmd_line of Some c \<Rightarrow> c | None \<Rightarrow> []) initrd_start initrd_end))"
    by (rule fdt_machine_writes)
  show ?thesis
    by (rule output_decodes[OF f(2)]) (use f(1) in \<open>auto simp: riscv_build_fdt_def\<close>)
qed


definition demo_layout :: machine_layout where
  "demo_layout = \<lparr>ram_size = 0x10000000, ram_base_addr = 0x80000000, plic_base_addr = 0x10000000,
     plic_size = 0x2000000, clint_base_addr = 0x2000000, clint_size = 0xc0000, virtio_count = 3,
     compact_bootrom = False, fb_dev = None\<rparr>"

section \<open>Sizes\<close>

lemma length_hex_exact:
  assumes "unat n < 16 ^ Suc k" "k = 0 \<or> 16 ^ k \<le> unat n"
  shows "length (hex_string n) = Suc k"
  using assms
proof (induction n arbitrary: k rule: hex_string.induct)
  case (1 n)
  show ?case
  proof (cases "n < 16")
    case True
    then have "unat n < 16 ^ 1" by (simp add: word_less_nat_alt)
    with 1(3) have "k = 0 \<or> (16 :: nat) ^ k < 16 ^ 1" by linarith
    then have "k = 0" by (subst (asm) power_strict_increasing_iff) auto
    with True show ?thesis by (subst hex_string.simps) simp
  next
    case False
    then obtain j where k: "k = Suc j" using 1(2) by (cases k) (simp_all add: word_less_nat_alt)
    have d: "unat (drop_bit 4 n) = unat n div 16" by (simp add: drop_bit_eq_div unat_div_distrib)
    have "unat n div 16 < 16 ^ Suc j" "16 ^ j \<le> unat n div 16"
      using 1(2,3) k by (auto simp: less_mult_imp_div_less mult.commute less_eq_div_iff_mult_less_eq)
    with 1(1)[OF False, of j] False k d show ?thesis by (subst hex_string.simps) simp
  qed
qed

definition prop_names :: "fdt_event list \<Rightarrow> string set" where
  "prop_names evs = {p. \<exists>d. EvProp p d \<in> set evs}"

lemma prop_names_simps [simp]:
  "prop_names [] = {}" "prop_names (EvBegin n # es) = prop_names es" "prop_names (EvEnd # es) = prop_names es"
  "prop_names (EvProp p d # es) = insert p (prop_names es)" "prop_names (a @ b) = prop_names a \<union> prop_names b"
  by (auto simp: prop_names_def)

lemma prop_names_concat: "prop_names (concat xs) = (\<Union>x \<in> set xs. prop_names x)"
  by (auto simp: prop_names_def)

lemma intern_known: "prop_names es \<subseteq> set names \<Longrightarrow> intern names es = names"
  by (induction names es rule: intern.induct) auto

definition fdt_names :: "string list" where
  "fdt_names = [''#address-cells'', ''#size-cells'', ''compatible'', ''model'', ''timebase-frequency'',
     ''device_type'', ''reg'', ''status'', ''riscv,isa'', ''mmu-type'', ''clock-frequency'', ''#interrupt-cells'',
     ''interrupt-controller'', ''phandle'', ''linux,phandle'', ''ranges'', ''interrupts-extended'', ''riscv,ndev'',
     ''reg-shift'', ''reg-io-width'', ''bootargs'']"

definition default_layout :: "machine_layout \<Rightarrow> bool" where
  "default_layout m \<longleftrightarrow> ram_base_addr m = 0x80000000 \<and> plic_base_addr m = 0x10000000
     \<and> clint_base_addr m = 0x2000000 \<and> virtio_count m \<le> 31 \<and> fb_dev m = None"

lemma intern_machine_tree:
  assumes "harts \<noteq> []" "fb_dev m = None"
  shows "intern [] (flatten (machine_tree m harts bootargs 0 e)) = fdt_names"
proof -
  obtain k where k: "[0..<length harts] = 0 # [1..<Suc k]"
    using assms(1) by (cases "length harts") (auto simp: upt_conv_Cons simp del: upt_Suc)
  have cpus: "intern names (concat (map (\<lambda>h. flatten (cpu_node h (harts ! h) (intc_handle h))) xs)) = names"
    if "{''device_type'', ''reg'', ''status'', ''compatible'', ''riscv,isa'', ''mmu-type'', ''clock-frequency'',
      ''#interrupt-cells'', ''interrupt-controller'', ''phandle'', ''linux,phandle''} \<subseteq> set names" for names xs
    using that by (intro intern_known) (auto simp: prop_names_concat cpu_node_def)
  have vio: "intern names (concat (map (\<lambda>i. flatten (virtio_node h i)) xs)) = names"
    if "{''compatible'', ''reg'', ''interrupts-extended''} \<subseteq> set names" for names h xs
    using that by (intro intern_known) (auto simp: prop_names_concat virtio_node_def)
  show ?thesis
    by (simp add: machine_tree_def k comp_def memory_node_def soc_node_def assms(2) clint_node_def plic_node_def
        uart_nodes_def chosen_node_def cpu_node_def[of 0] cpus vio fdt_names_def del: upt_Suc)
qed

lemma stream_bytes_concat: "stream_bytes (concat xs) = sum_list (map stream_bytes xs)"
  by (induction xs) simp_all

lemma hex_len: "n < 16 \<Longrightarrow> length (hex_string n) = 1"
  "0x10000000 \<le> n \<Longrightarrow> n < 0x100000000 \<Longrightarrow> length (hex_string n) = 8"
  using length_hex_exact[of n 0] length_hex_exact[of n 7] by (simp_all add: word_less_nat_alt word_le_nat_alt)

lemma cpu_bytes: "h < 16 \<Longrightarrow> stream_bytes (flatten (cpu_node h c p)) = 260 + round4 (length (isa_string (misa c)) + 1)"
proof -
  assume "h < 16"
  then have "(of_nat h :: u64) < 16" by (simp add: word_less_nat_alt unat_of_nat)
  then show ?thesis by (simp add: cpu_node_def length_cells unit_name_def round4_def hex_len)
qed

lemma virtio_bytes: "i \<le> 31 \<Longrightarrow> stream_bytes (flatten (virtio_node h i)) = 96"
proof -
  assume "i \<le> 31"
  then have "unat (VIRTIO_BASE_ADDR + of_nat i * VIRTIO_SIZE) = 0x40010000 + i * 0x1000"
    by (simp add: layout_consts unat_word_ariths unat_of_nat)
  then have "length (hex_string (VIRTIO_BASE_ADDR + of_nat i * VIRTIO_SIZE)) = 8"
    using \<open>i \<le> 31\<close> by (intro hex_len) (simp_all add: word_less_nat_alt word_le_nat_alt)
  then show ?thesis by (simp add: virtio_node_def length_cells unit_name_def round4_def cells64_def)
qed

lemma irq_bytes: "length (irq_cells n a b) = 16 * n"
  by (simp add: irq_cells_def length_cells length_concat comp_def sum_list_triv)

lemma soc_bytes:
  assumes "default_layout m"
  shows "stream_bytes (flatten (soc_node m n)) = 96 * virtio_count m + 32 * n + 528"
proof -
  have "sum_list (map (\<lambda>i. stream_bytes (flatten (virtio_node h i))) [0..<virtio_count m])
      = sum_list (map (\<lambda>_. 96) [0..<virtio_count m])" for h
    using assms by (intro arg_cong[where f = sum_list] map_cong refl virtio_bytes) (auto simp: default_layout_def)
  then have vio: "stream_bytes (concat (map (\<lambda>i. flatten (virtio_node h i)) [0..<virtio_count m])) = 96 * virtio_count m" for h
    unfolding stream_bytes_concat map_map comp_def by (simp only: sum_list_triv) simp
  have "length (hex_string 0x2000000) = 7" using length_hex_exact[of "0x2000000" 6] by simp
  moreover have "(16 * n + 3) div 4 = 4 * n" by presburger
  ultimately show ?thesis
    using assms vio
    by (simp add: default_layout_def soc_node_def clint_node_def plic_node_def uart_nodes_def length_cells unit_name_def
       hex_len cells64_def irq_bytes layout_consts round4_def comp_def)
qed

lemma machine_bytes:
  assumes "default_layout m" "length harts \<le> 8" "\<forall>c \<in> set harts. isa_string (misa c) = ''rv64acdfimsu''"
  shows "stream_bytes (flatten (machine_tree m harts bootargs 0 e))
     = 804 + 308 * length harts + 96 * virtio_count m + round4 (length bootargs + 1)"
proof -
  have "sum_list (map (\<lambda>h. stream_bytes (flatten (cpu_node h (harts ! h) (intc_handle h)))) [0..<length harts])
      = sum_list (map (\<lambda>_. 276) [0..<length harts])"
    using assms by (intro arg_cong[where f = sum_list] map_cong refl) (simp add: cpu_bytes round4_def)
  then have cpus: "stream_bytes (concat (map (\<lambda>h. flatten (cpu_node h (harts ! h) (intc_handle h))) [0..<length harts]))
      = 276 * length harts"
    unfolding stream_bytes_concat map_map comp_def by (simp only: sum_list_triv) simp
  have "length (hex_string 0x80000000) = 8" by (rule hex_len) simp_all
  then have "stream_bytes (flatten (memory_node m)) = 72"
    using assms(1) by (simp add: default_layout_def memory_node_def length_cells unit_name_def round4_def cells64_def)
  then show ?thesis
    using assms(1) cpus by (simp add: machine_tree_def chosen_node_def soc_bytes comp_def length_cells round4_def)
qed
lemma default_blob_size:
  assumes "default_layout m" "harts \<noteq> []" "length harts \<le> 8"
    and "\<forall>c \<in> set harts. isa_string (misa c) = ''rv64acdfimsu''"
  shows "blob_size (flatten (machine_tree m harts bootargs 0 e))
     = align (align (848 + (308 * length harts + 96 * virtio_count m + round4 (length bootargs + 1))) + 267)"
proof -
  have "length (strings fdt_names) = 251" by (simp add: fdt_names_def)
  then show ?thesis
    using assms by (simp add: blob_size_def machine_bytes intern_machine_tree default_layout_def ac_simps)
qed

lemma standard_isa: "isa_string (misa (riscv_cpu_init r False h)) = ''rv64acdfimsu''"
  by code_simp

lemma demo_default: "default_layout demo_layout"
  by (simp add: default_layout_def demo_layout_def)


text \<open>
  C13. How much room the device tree takes: for a machine with the default addresses, no frame buffer and
  no initial RAM disk, and standard harts, the size is a function of the number of harts, the number of
  virtio devices and the length of the command line; behind the boot program, at offset 256, it fits
  into the ROM exactly when the weighted sum is at most 2720. Eight harts with three virtio devices do
  not fit, and nothing in the code checks it.
\<close>

theorem device_tree_size:
  assumes "default_layout m" "harts \<noteq> []" "length harts \<le> 8"
    and "\<forall>c \<in> set harts. isa_string (misa c) = ''rv64acdfimsu''"
    and "riscv_build_fdt m harts None True (Some bootargs) 0 e = Inr blob"
  shows "length blob = align (align (848 + (308 * length harts + 96 * virtio_count m + round4 (length bootargs + 1))) + 267)
    \<and> (256 + length blob \<le> 0x1000 \<longleftrightarrow>
         308 * length harts + 96 * virtio_count m + round4 (length bootargs + 1) \<le> 2720)"
proof -
  let ?w = "308 * length harts + 96 * virtio_count m + round4 (length bootargs + 1)"
  have "blob_size (flatten (machine_tree m harts bootargs 0 e)) = align (align (848 + ?w) + 267)"
    using assms by (intro default_blob_size) simp_all
  moreover have "length blob = blob_size (flatten (machine_tree m harts bootargs 0 e))"
    using device_tree_blob[of m harts "Some bootargs" 0 e] assms(5) by auto
  moreover have "align (align (848 + w) + 267) \<le> 3840 \<longleftrightarrow> w \<le> 2720" for w
  proof -
    obtain q where q: "align (848 + w) = 8 * q" by (simp add: align_def)
    have "align (align (848 + w) + 267) \<le> 8 * 480 \<longleftrightarrow> 8 * q + 267 \<le> 8 * 480"
      unfolding q by (rule align_le_iff)
    also have "\<dots> \<longleftrightarrow> align (848 + w) \<le> 8 * 446" unfolding q by presburger
    also have "\<dots> \<longleftrightarrow> w \<le> 2720" unfolding align_le_iff by simp
    finally show ?thesis by simp
  qed
  ultimately show ?thesis by simp
qed

theorem device_tree_size_witness:
  "\<exists>blob. riscv_build_fdt demo_layout (replicate 8 (riscv_cpu_init 0x10000 False 0)) None True (Some []) 0 0 = Inr blob
     \<and> length blob = 3880 \<and> 256 + length blob > 0x1000"
proof -
  obtain blob where b: "riscv_build_fdt demo_layout (replicate 8 (riscv_cpu_init 0x10000 False 0)) None True (Some []) 0 0 = Inr blob"
    using device_tree_blob by blast
  have "\<forall>c \<in> set (replicate 8 (riscv_cpu_init 0x10000 False 0)). isa_string (misa c) = ''rv64acdfimsu''"
    by (simp add: standard_isa)
  then have "length blob = 3880 \<and> \<not> 256 + length blob \<le> 0x1000"
    using device_tree_size[OF demo_default _ _ _ b] by (simp add: demo_layout_def align_def round4_def)
  with b show ?thesis by auto
qed

end
