(* ===== verification/Elf64.thy ===== *)
theory Elf64
  imports Virtio
begin

unbundle bit_operations_syntax

text \<open>
  The ELF reader of \<^verbatim>\<open>elf64.cpp\<close>. An image is its bytes; \<open>p\<close> is the address it is loaded at, for
  the pointer comparisons the reader makes. Pointers and offsets are 64 bits wide and wrap. A read
  outside the image is the outer \<open>None\<close> of a result.
\<close>

section \<open>Reading an image\<close>

definition img_bytes :: "u8 list \<Rightarrow> u64 \<Rightarrow> nat \<Rightarrow> u8 list option" where
  "img_bytes img off n =
     (if unat off + n \<le> length img then Some (take n (drop (unat off) img)) else None)"

definition img_int :: "u8 list \<Rightarrow> u64 \<Rightarrow> nat \<Rightarrow> u64 option" where
  "img_int img off n = map_option le_bytes (img_bytes img off n)"

text \<open>\<^verbatim>\<open>strcmp(key, s) == 0\<close> for a string \<open>s\<close> in the image: it reads up to the first difference.\<close>

fun strcmp_eq :: "u8 list \<Rightarrow> u8 list \<Rightarrow> bool option" where
  "strcmp_eq [] s = Some True"
| "strcmp_eq (k # ks) [] = None"
| "strcmp_eq (k # ks) (c # cs) = (if k \<noteq> c then Some False else strcmp_eq ks cs)"

definition img_strcmp :: "u8 list \<Rightarrow> string \<Rightarrow> u64 \<Rightarrow> bool option" where
  "img_strcmp img key off = strcmp_eq (cstr key) (drop (unat off) img)"

section \<open>Headers\<close>

text \<open>The fields of the structures of \<^verbatim>\<open>elf.h\<close> by their offsets, in an image that has the bytes.\<close>

definition eh :: "u8 list \<Rightarrow> nat \<Rightarrow> nat \<Rightarrow> u64" where
  "eh img off n = le_bytes (take n (drop off img))"

definition e_machine :: "u8 list \<Rightarrow> u16" where "e_machine img = ucast (eh img 18 2)"
definition e_entry :: "u8 list \<Rightarrow> u64" where "e_entry img = eh img 24 8"
definition e_phoff :: "u8 list \<Rightarrow> u64" where "e_phoff img = eh img 32 8"
definition e_shoff :: "u8 list \<Rightarrow> u64" where "e_shoff img = eh img 40 8"
definition e_ehsize :: "u8 list \<Rightarrow> u16" where "e_ehsize img = ucast (eh img 52 2)"
definition e_phentsize :: "u8 list \<Rightarrow> u16" where "e_phentsize img = ucast (eh img 54 2)"
definition e_phnum :: "u8 list \<Rightarrow> u16" where "e_phnum img = ucast (eh img 56 2)"
definition e_shnum :: "u8 list \<Rightarrow> u16" where "e_shnum img = ucast (eh img 60 2)"
definition e_shstrndx :: "u8 list \<Rightarrow> u16" where "e_shstrndx img = ucast (eh img 62 2)"

definition EM_RISCV :: u16 where "EM_RISCV = 243"

definition elf64_is_riscv64 :: "u8 list \<Rightarrow> bool" where
  "elf64_is_riscv64 img \<longleftrightarrow>
     \<not> length img < 64
     \<and> take 4 img = [0x7f, 0x45, 0x4c, 0x46]
     \<and> img ! 4 = 2
     \<and> img ! 5 = 1
     \<and> e_machine img = EM_RISCV
     \<and> e_ehsize img = 64
     \<and> e_phentsize img = 56"

definition elf64_get_entrypoint :: "u8 list \<Rightarrow> u64" where
  "elf64_get_entrypoint img = e_entry img"

section \<open>Program headers\<close>

record Elf64_Phdr =
  p_type :: u32
  p_offset :: u64
  p_vaddr :: u64
  p_filesz :: u64
  p_memsz :: u64

definition PT_LOAD :: u32 where "PT_LOAD = 1"

definition phdr_at :: "u8 list \<Rightarrow> u64 \<Rightarrow> Elf64_Phdr option" where
  "phdr_at img off = map_option (\<lambda>b. \<lparr>p_type = ucast (eh b 0 4), p_offset = eh b 8 8, p_vaddr = eh b 16 8,
     p_filesz = eh b 32 8, p_memsz = eh b 40 8\<rparr>) (img_bytes img off 56)"

section \<open>Symbols\<close>

definition SHT_SYMTAB :: u32 where "SHT_SYMTAB = 2"
definition SHT_STRTAB :: u32 where "SHT_STRTAB = 3"
definition STB_GLOBAL :: u8 where "STB_GLOBAL = 1"

text \<open>The loop over the section headers. The result: \<^verbatim>\<open>strtab\<close>, \<^verbatim>\<open>symtab\<close> (0 is the null pointer) and \<^verbatim>\<open>symtab_len\<close>.\<close>

primrec find_tables ::
  "u64 \<Rightarrow> u8 list \<Rightarrow> nat \<Rightarrow> nat \<Rightarrow> u64 \<times> u64 \<times> int \<Rightarrow> (u64 \<times> u64 \<times> int) option" where
  "find_tables p img i 0 r = Some r"
| "find_tables p img i (Suc n) r =
     (case img_bytes img (e_shoff img + of_nat i * 64) 64 of
        None \<Rightarrow> None
      | Some sh \<Rightarrow>
          let sh_type = (ucast (eh sh 4 4) :: u32); sh_offset = eh sh 24 8; sh_size = eh sh 32 8;
              r1 = (if sh_type = SHT_STRTAB \<and> i \<noteq> unat (e_shstrndx img) then (p + sh_offset, snd r) else r);
              r2 = (if sh_type = SHT_SYMTAB then (fst r1, p + sh_offset, sint (ucast (sh_size div 24) :: u32)) else r1)
          in find_tables p img (Suc i) n r2)"

text \<open>The loop over the symbols: \<open>Some (Some v)\<close> when the symbol is found.\<close>

primrec find_symbol :: "u8 list \<Rightarrow> u64 \<Rightarrow> u64 \<Rightarrow> string \<Rightarrow> nat \<Rightarrow> nat \<Rightarrow> u64 option option" where
  "find_symbol img strtab symtab key i 0 = Some None"
| "find_symbol img strtab symtab key i (Suc n) =
     (case img_bytes img (symtab + of_nat i * 24) 24 of
        None \<Rightarrow> None
      | Some sy1 \<Rightarrow>
          (case img_strcmp img key (strtab + eh sy1 0 4) of
             None \<Rightarrow> None
           | Some eq \<Rightarrow>
               if eq \<and> drop_bit 4 (sy1 ! 4) = STB_GLOBAL then Some (Some (eh sy1 8 8))
               else find_symbol img strtab symtab key (Suc i) n))"

text \<open>An image of \<^verbatim>\<open>image_size\<close> bytes at \<open>p\<close>; the inner \<open>None\<close> is the return value false.\<close>

definition elf64_find_global :: "u64 \<Rightarrow> u8 list \<Rightarrow> string \<Rightarrow> u64 option option" where
  "elf64_find_global p img key =
     (let image_size = (of_nat (length img) :: u64); image_end = p + image_size; shdr = p + e_shoff img in
      if e_shoff img + 64 - 1 > image_size then Some None
      else if shdr + (ucast (e_shstrndx img) + 1) * 64 > image_end then Some None
      else if shdr + ucast (e_shnum img) * 64 > image_end then Some None
      else
        case find_tables p img 0 (unat (e_shnum img)) (0, 0, 0) of
          None \<Rightarrow> None
        | Some (strtab, symtab, symtab_len) \<Rightarrow>
            if symtab \<noteq> 0 \<and> strtab \<noteq> 0 then
              if symtab + of_int symtab_len * 24 > image_end then Some None
              else find_symbol img (strtab - p) (symtab - p) key 0 (nat symtab_len)
            else Some None)"

section \<open>What the reader finds\<close>

text \<open>
  The specification: symbol number \<open>i\<close> of the table is named \<open>key\<close>, is global and has the value \<open>v\<close>.
\<close>

definition symbol_is :: "u8 list \<Rightarrow> u64 \<Rightarrow> u64 \<Rightarrow> string \<Rightarrow> nat \<Rightarrow> u64 \<Rightarrow> bool" where
  "symbol_is img strtab symtab key i v \<longleftrightarrow> (\<exists>sy1. img_bytes img (symtab + of_nat i * 24) 24 = Some sy1
     \<and> img_strcmp img key (strtab + eh sy1 0 4) = Some True \<and> drop_bit 4 (sy1 ! 4) = STB_GLOBAL \<and> v = eh sy1 8 8)"

lemma symbol_is_unique: "symbol_is img st sy key i v \<Longrightarrow> symbol_is img st sy key i w \<Longrightarrow> v = w"
  by (auto simp: symbol_is_def)

lemma strcmp_eq_iff: "strcmp_eq k s = Some True \<longleftrightarrow> take (length k) s = k"
  by (induction k s rule: strcmp_eq.induct) auto

lemma find_symbol_sound:
  "find_symbol img st sy key k n = Some (Some v) \<Longrightarrow>
    \<exists>i \<ge> k. i < k + n \<and> symbol_is img st sy key i v \<and> (\<forall>j. k \<le> j \<and> j < i \<longrightarrow> (\<forall>w. \<not> symbol_is img st sy key j w))"
proof (induction n arbitrary: k)
  case (Suc n)
  then obtain sy1 eq where sy1: "img_bytes img (sy + of_nat k * 24) 24 = Some sy1"
    "img_strcmp img key (st + eh sy1 0 4) = Some eq"
    by (auto split: option.splits)
  show ?case
  proof (cases "eq \<and> drop_bit 4 (sy1 ! 4) = STB_GLOBAL")
    case True
    then have "symbol_is img st sy key k v" using Suc.prems sy1 by (auto simp: symbol_is_def)
    then show ?thesis by (intro exI[of _ k]) auto
  next
    case False
    then have no: "\<not> symbol_is img st sy key k w" for w using sy1 by (auto simp: symbol_is_def)
    from False Suc.prems sy1 have "find_symbol img st sy key (Suc k) n = Some (Some v)" by auto
    from Suc.IH[OF this] obtain i where "Suc k \<le> i" "i < Suc k + n" "symbol_is img st sy key i v"
      "\<forall>j. Suc k \<le> j \<and> j < i \<longrightarrow> (\<forall>w. \<not> symbol_is img st sy key j w)" by blast
    with no show ?thesis by (intro exI[of _ i]) (auto simp: Suc_le_eq le_eq_less_or_eq[of k])
  qed
qed simp

lemma find_symbol_none:
  "find_symbol img st sy key k n = Some None \<Longrightarrow> k \<le> i \<Longrightarrow> i < k + n \<Longrightarrow> \<not> symbol_is img st sy key i v"
proof (induction n arbitrary: k)
  case (Suc n)
  then obtain sy1 eq where sy1: "img_bytes img (sy + of_nat k * 24) 24 = Some sy1"
    "img_strcmp img key (st + eh sy1 0 4) = Some eq" "\<not> (eq \<and> drop_bit 4 (sy1 ! 4) = STB_GLOBAL)"
    "find_symbol img st sy key (Suc k) n = Some None"
    by (auto split: option.splits if_splits)
  then show ?case using Suc by (cases "i = k") (auto simp: symbol_is_def)
qed simp

lemma find_global_found:
  "elf64_find_global p img key = Some (Some v) \<Longrightarrow>
    \<exists>st sy len. find_tables p img 0 (unat (e_shnum img)) (0, 0, 0) = Some (st, sy, len)
      \<and> find_symbol img (st - p) (sy - p) key 0 (nat len) = Some (Some v)"
  by (auto simp: elf64_find_global_def Let_def split: if_splits option.splits)


text \<open>A file with one symbol, and a header whose section table is at the end of the address space.\<close>

definition demo_elf :: "u8 list" where
  "demo_elf =
     [0x7f, 0x45, 0x4c, 0x46, 2, 1] @ replicate 12 0 @ [243, 0] @ replicate 20 0 @ [64] @ replicate 11 0
     @ [64, 0, 56, 0] @ replicate 4 0 @ [2, 0, 0, 0]
     @ replicate 4 0 @ [2] @ replicate 19 0 @ [192] @ replicate 7 0 @ [24] @ replicate 31 0
     @ replicate 4 0 @ [3] @ replicate 19 0 @ [216] @ replicate 7 0 @ [7] @ replicate 31 0
     @ [0, 0, 0, 0, 0x10, 0, 0, 0, 0, 0x10, 0, 0x80] @ replicate 12 0
     @ cstr ''tohost''"

definition wrap_elf :: "u8 list" where
  "wrap_elf = [0x7f, 0x45, 0x4c, 0x46, 2, 1] @ replicate 12 0 @ [243, 0] @ replicate 20 0 @ replicate 8 255 @ replicate 4 0
     @ [64, 0, 56, 0] @ replicate 4 0 @ [1, 0, 0, 0]"




end
