(* ===== verification/Machine_Init.thy ===== *)
theory Machine_Init
  imports Machine Elf64 Boot_Rom
begin

unbundle bit_operations_syntax

text \<open>
  \<^verbatim>\<open>virt_machine_init\<close> and \<^verbatim>\<open>copy_kernel\<close> of \<^verbatim>\<open>riscv_machine.cpp\<close>: the memory map, the devices, the images in RAM,
  the boot ROM and the device tree behind it.

  The blocks of \<^verbatim>\<open>mallocz\<close> are an argument: \<open>alloc n\<close> is the pointer for RAM range number \<open>n\<close>. Files are
  their bytes. A store outside a block and a use of a null pointer are error values, where the program
  is undefined. File systems (\<^verbatim>\<open>virtio_9p_init\<close>) and the memory dump are left out.
\<close>

section \<open>Parameters and failures\<close>

datatype init_error =
    Iomem iomem_error | FdtFailed fdt_error | TooManyCpus | UnsupportedInput | NoBios | FirmwareTooBig | WrongEntry
  | WrongRamBase | NoRoomForKernel | KernelTooBig | InitrdTooBig | NullPointer | MemoryFault

primrec bindE :: "'e + 'a \<Rightarrow> ('a \<Rightarrow> 'e + 'b) \<Rightarrow> 'e + 'b" where
  "bindE (Inl e) f = Inl e"
| "bindE (Inr x) f = f x"

primrec foldE :: "('a \<Rightarrow> 's \<Rightarrow> 'e + 's) \<Rightarrow> 'a list \<Rightarrow> 's \<Rightarrow> 'e + 's" where
  "foldE f [] s = Inr s"
| "foldE f (x # xs) s = bindE (f x s) (foldE f xs)"

text \<open>The file of \<^verbatim>\<open>bootrom_name\<close>: it cannot be opened, is read in part, or in full.\<close>

datatype boot_file = BootMissing | BootShort "u8 list" | BootImage "u8 list"

text \<open>
  The fields \<^verbatim>\<open>virt_machine_init\<close> reads. \<^verbatim>\<open>ncpus\<close> is kept in an \<^verbatim>\<open>int\<close> of the machine: \<open>p_ncpus\<close> is the value there,
  which is assumed not to be negative.
\<close>

record VirtMachineParams =
  p_ram_base_addr :: u64
  p_ram_size :: u64
  p_ncpus :: nat
  p_maxinsns :: u64
  p_reset_vector :: u64
  p_custom_extension :: bool
  p_compact_bootrom :: bool
  p_plic_base_addr :: u64
  p_plic_size :: u64
  p_clint_base_addr :: u64
  p_clint_size :: u64
  p_physical_addr_len :: nat
  p_mmio_start :: u64
  p_mmio_end :: u64
  p_mmio_addrset :: "(u64 \<times> u64) list"
  p_console :: bool
  p_eth :: "u8 list list"
  p_drives :: "BlockDeviceFile list"
  p_input_device :: "string option"
  p_htif_base_addr :: u64
  p_bios :: "u8 list option"
  p_kernel :: "u8 list option"
  p_initrd :: "u8 list option"
  p_bootrom :: "boot_file option"
  p_dtb :: "u8 list option option"
  p_cmdline :: "string option"

definition PHYSICAL_ADDR_LEN_DEFAULT :: nat where "PHYSICAL_ADDR_LEN_DEFAULT = 40"
definition RAM_BASE_ADDR :: u64 where "RAM_BASE_ADDR = 0x80000000"
definition KERNEL_OFFSET :: u64 where "KERNEL_OFFSET = 0x200000"
definition PLIC_BASE_ADDR :: u64 where "PLIC_BASE_ADDR = 0x10000000"
definition PLIC_SIZE :: u64 where "PLIC_SIZE = 0x2000000"
definition CLINT_BASE_ADDR :: u64 where "CLINT_BASE_ADDR = 0x02000000"
definition CLINT_SIZE :: u64 where "CLINT_SIZE = 0xc0000"
definition MAX_CPUS :: nat where "MAX_CPUS = 8"

lemmas init_consts = PHYSICAL_ADDR_LEN_DEFAULT_def RAM_BASE_ADDR_def KERNEL_OFFSET_def PLIC_BASE_ADDR_def
  PLIC_SIZE_def CLINT_BASE_ADDR_def CLINT_SIZE_def MAX_CPUS_def

definition virt_machine_set_defaults :: VirtMachineParams where
  "virt_machine_set_defaults = \<lparr>p_ram_base_addr = RAM_BASE_ADDR, p_ram_size = 0, p_ncpus = 0, p_maxinsns = 0,
     p_reset_vector = BOOT_BASE_ADDR, p_custom_extension = False, p_compact_bootrom = False,
     p_plic_base_addr = PLIC_BASE_ADDR, p_plic_size = PLIC_SIZE, p_clint_base_addr = CLINT_BASE_ADDR,
     p_clint_size = CLINT_SIZE, p_physical_addr_len = PHYSICAL_ADDR_LEN_DEFAULT, p_mmio_start = 0, p_mmio_end = 0,
     p_mmio_addrset = [], p_console = False, p_eth = [], p_drives = [], p_input_device = None, p_htif_base_addr = 0,
     p_bios = None, p_kernel = None, p_initrd = None, p_bootrom = None, p_dtb = None, p_cmdline = None\<rparr>"

section \<open>Memory\<close>

definition get_ram_ptr :: "u64 \<Rightarrow> msys \<Rightarrow> u64" where
  "get_ram_ptr paddr y =
     (case get_phys_mem_range (mem_map y) paddr of
        None \<Rightarrow> 0
      | Some i \<Rightarrow> if \<not> pr_is_ram (mem_map y ! i) then 0 else ram_ptr (mem_map y ! i) paddr)"

text \<open>\<^verbatim>\<open>memcpy(get_ram_ptr(s, paddr) + off, data, ...)\<close>.\<close>

definition ram_memcpy :: "u64 \<Rightarrow> nat \<Rightarrow> u8 list \<Rightarrow> msys \<Rightarrow> init_error + msys" where
  "ram_memcpy paddr off data y =
     (if get_ram_ptr paddr y = 0 then Inl NullPointer
      else let pr = mem_map y ! the (get_phys_mem_range (mem_map y) paddr) in
        if unat (paddr - pr_addr pr) + off + length data \<le> unat (pr_size pr)
        then Inr (y\<lparr>host := store_bytes (host y) (get_ram_ptr paddr y + of_nat off) data\<rparr>)
        else Inl MemoryFault)"

definition reg_ram :: "(nat \<Rightarrow> u64) \<Rightarrow> u64 \<Rightarrow> u64 \<Rightarrow> msys \<Rightarrow> init_error + msys" where
  "reg_ram alloc addr sz y =
     (case default_register_ram (mem_map y, host y) (alloc (length (mem_map y))) addr sz 0 of
        Inl e \<Rightarrow> Inl (Iomem e)
      | Inr (m, h) \<Rightarrow> Inr (y\<lparr>mem_map := m, host := h\<rparr>))"

definition reg_dev :: "u64 \<Rightarrow> u64 \<Rightarrow> devid \<Rightarrow> u32 \<Rightarrow> msys \<Rightarrow> init_error + msys" where
  "reg_dev addr sz dv flags y =
     (case cpu_register_device (mem_map y) addr sz dv flags of
        Inl e \<Rightarrow> Inl (Iomem e)
      | Inr m \<Rightarrow> Inr (y\<lparr>mem_map := m\<rparr>))"

section \<open>Images\<close>

text \<open>One \<^verbatim>\<open>PT_LOAD\<close> segment; a range that is not found is a null pointer that is used.\<close>

definition load_segment :: "(nat \<Rightarrow> u64) \<Rightarrow> u8 list \<Rightarrow> Elf64_Phdr \<Rightarrow> msys \<Rightarrow> init_error + msys" where
  "load_segment alloc img ph y =
     (case get_phys_mem_range (mem_map y) (p_vaddr ph) of
        None \<Rightarrow> Inl NullPointer
      | Some i \<Rightarrow>
          bindE (if pr_addr (mem_map y ! i) \<noteq> RAM_BASE_ADDR
                 then reg_ram alloc (p_vaddr ph) ((p_memsz ph + DEVRAM_PAGE_SIZE - 1) AND NOT (DEVRAM_PAGE_SIZE - 1)) y
                 else Inr y)
            (\<lambda>y1. case img_bytes img (p_offset ph) (unat (p_filesz ph)) of
                    None \<Rightarrow> Inl MemoryFault
                  | Some data \<Rightarrow> ram_memcpy (p_vaddr ph) 0 data y1))"

primrec load_phdrs :: "(nat \<Rightarrow> u64) \<Rightarrow> u8 list \<Rightarrow> nat \<Rightarrow> nat \<Rightarrow> msys \<Rightarrow> init_error + msys" where
  "load_phdrs alloc img i 0 y = Inr y"
| "load_phdrs alloc img i (Suc n) y =
     (case phdr_at img (e_phoff img + of_nat i * 56) of
        None \<Rightarrow> Inl MemoryFault
      | Some ph \<Rightarrow> bindE (if p_type ph = PT_LOAD then load_segment alloc img ph y else Inr y)
                     (load_phdrs alloc img (Suc i) n))"

definition load_elf_image :: "(nat \<Rightarrow> u64) \<Rightarrow> u8 list \<Rightarrow> msys \<Rightarrow> init_error + msys" where
  "load_elf_image alloc img y = load_phdrs alloc img 0 (unat (e_phnum img)) y"

text \<open>The bytes read and the return value, converted to \<^verbatim>\<open>uint32_t\<close> by the caller.\<close>

definition load_bootrom :: "boot_file \<Rightarrow> init_error + (u8 list \<times> u32)" where
  "load_bootrom f = (case f of BootMissing \<Rightarrow> Inl NullPointer | BootShort b \<Rightarrow> Inr (b, - 1) | BootImage b \<Rightarrow> Inr (b, of_nat (length b)))"

definition hard_boot_rom :: "nat \<Rightarrow> u64 \<Rightarrow> u32 list" where
  "hard_boot_rom n base =
     [0xf1402573]
     @ (if n = 1 then [0x00050663, 0x10500073, 0xffdff06f] else [0x00000013, 0x00000013, 0x00000013])
     @ [0x00000597, 0x0f058593, 0x60300413, 0x7b041073]
     @ (if base = 0xC000000000 then [0x0030041b, 0x02641413]
        else [0x0010041b, if base = 0x80000000 then 0x01f41413 else 0x02741413])
     @ [0x7b141073, 0x7b200073]"

definition boot_rom_bytes :: "boot_file option \<Rightarrow> nat \<Rightarrow> u64 \<Rightarrow> init_error + (u8 list \<times> u32)" where
  "boot_rom_bytes boot n base =
     (case boot of Some f \<Rightarrow> load_bootrom f | None \<Rightarrow> Inr (concat (map word_bytes (hard_boot_rom n base)), 13 * 4))"

section \<open>copy-kernel\<close>

text \<open>The firmware; \<open>fw_ptr\<close> is the address its image is loaded at. The result has the address of \<^verbatim>\<open>tohost\<close>.\<close>

definition copy_firmware :: "(nat \<Rightarrow> u64) \<Rightarrow> u64 \<Rightarrow> u64 \<Rightarrow> u8 list \<Rightarrow> u64 \<Rightarrow> msys \<Rightarrow> init_error + (u64 \<times> msys)" where
  "copy_firmware alloc fw_ptr base fw tohost y =
     (if elf64_is_riscv64 fw then
        if elf64_get_entrypoint fw \<noteq> base then Inl WrongEntry
        else bindE (load_elf_image alloc fw y)
          (\<lambda>y1. case elf64_find_global fw_ptr fw ''tohost'' of
                  None \<Rightarrow> Inl MemoryFault
                | Some None \<Rightarrow> Inr (tohost, y1)
                | Some (Some v) \<Rightarrow> Inr (v, y1))
      else bindE (ram_memcpy base 0 fw y) (\<lambda>y1. Inr (tohost, y1)))"

definition copy_kernel_image :: "machine_layout \<Rightarrow> u8 list option \<Rightarrow> msys \<Rightarrow> init_error + msys" where
  "copy_kernel_image lay kern y =
     (case kern of
        None \<Rightarrow> Inr y
      | Some k \<Rightarrow>
          if k = [] then Inr y
          else if ram_size lay \<le> KERNEL_OFFSET then Inl NoRoomForKernel
          else if of_nat (length k) > ram_size lay - KERNEL_OFFSET then Inl KernelTooBig
          else ram_memcpy (ram_base_addr lay + KERNEL_OFFSET) 0 k y)"

text \<open>The result has \<^verbatim>\<open>initrd_start\<close> and \<^verbatim>\<open>initrd_end\<close>.\<close>

definition copy_initrd :: "machine_layout \<Rightarrow> u8 list option \<Rightarrow> msys \<Rightarrow> init_error + (u64 \<times> u64 \<times> msys)" where
  "copy_initrd lay initrd y =
     (case initrd of
        None \<Rightarrow> Inr (0, 0, y)
      | Some r \<Rightarrow>
          if r = [] then Inr (0, 0, y)
          else if of_nat (length r) > ram_size lay then Inl InitrdTooBig
          else
            let initrd_end = ram_base_addr lay + ram_size lay;
                initrd_start = push_bit 12 (drop_bit 12 (initrd_end - of_nat (length r)))
            in bindE (ram_memcpy initrd_start 0 r y) (\<lambda>y1. Inr (initrd_start, initrd_end, y1)))"

definition copy_boot_rom ::
  "machine_layout \<Rightarrow> boot_file option \<Rightarrow> u8 list option option \<Rightarrow> bool \<Rightarrow> string option \<Rightarrow> u64 \<Rightarrow> u64 \<Rightarrow> msys \<Rightarrow> init_error + msys" where
  "copy_boot_rom lay boot dtb dump_ok cmd_line initrd_start initrd_end y =
     bindE (boot_rom_bytes boot (ncpus (dev y)) (ram_base_addr lay))
       (\<lambda>(b, bootromSzBytes). bindE (ram_memcpy ROM_BASE_ADDR (unat (BOOT_BASE_ADDR - ROM_BASE_ADDR)) b y)
         (\<lambda>y1.
            let fdt_off = (ucast (BOOT_BASE_ADDR - ROM_BASE_ADDR) :: u32) + (if compact_bootrom lay then bootromSzBytes else 256)
            in case riscv_build_fdt lay (map (\<lambda>h. hart h y1) [0..<ncpus (dev y1)]) dtb dump_ok cmd_line initrd_start initrd_end of
                 Inl e \<Rightarrow> Inl (FdtFailed e)
               | Inr fdt \<Rightarrow> ram_memcpy ROM_BASE_ADDR (unat fdt_off) fdt y1))"

definition copy_kernel ::
  "(nat \<Rightarrow> u64) \<Rightarrow> u64 \<Rightarrow> bool \<Rightarrow> machine_layout \<Rightarrow> u64 \<Rightarrow> VirtMachineParams \<Rightarrow> u8 list \<Rightarrow> msys \<Rightarrow> init_error + (u64 \<times> msys)" where
  "copy_kernel alloc fw_ptr dump_ok lay tohost p fw y =
     (if of_nat (length fw) > ram_size lay then Inl FirmwareTooBig
      else bindE (copy_firmware alloc fw_ptr (ram_base_addr lay) fw tohost y)
        (\<lambda>(tohost1, y1).
           if \<not> (ram_base_addr lay = 0x80000000 \<or> ram_base_addr lay = 0x8000000000 \<or> ram_base_addr lay = 0xC000000000)
           then Inl WrongRamBase
           else bindE (copy_kernel_image lay (p_kernel p) y1)
             (\<lambda>y2. bindE (copy_initrd lay (p_initrd p) y2)
               (\<lambda>(initrd_start, initrd_end, y3).
                  bindE (copy_boot_rom lay (p_bootrom p) (p_dtb p) dump_ok (p_cmdline p) initrd_start initrd_end y3)
                    (\<lambda>y4. Inr (tohost1, fold (\<lambda>i. upd_hart i (riscv_set_debug_mode True)) [0..<ncpus (dev y4)] y4))))))"

section \<open>virt-machine-init\<close>

text \<open>
  The zeroed machine with the harts of \<^verbatim>\<open>riscv_cpu_init\<close>. \<open>h\<close> is the host memory before, \<open>jk d\<close> the contents of uninitialised
  memory device \<open>d\<close> will see.
\<close>

definition machine_start :: "(nat \<Rightarrow> nat \<Rightarrow> u8) \<Rightarrow> host_mem \<Rightarrow> VirtMachineParams \<Rightarrow> msys" where
  "machine_start jk h p =
     (let c = (\<lambda>i. riscv_cpu_init (p_reset_vector p) (p_custom_extension p) (of_nat i)) in
      \<lparr>cpu = c 0, host = h, mem_map = phys_mem_map_init,
       vm = \<lparr>maxinsns = p_maxinsns p, cosim = False, vm_pending_interrupt = 0, vm_pending_exception = 0\<rparr>,
       dev = \<lparr>ncpus = p_ncpus p, cur_hart = 0, cpu_state = c, plic_pending_irq = 0, plic_served_irq = 0,
         plic_priority = (\<lambda>_. 0),
         uart = \<lparr>rx_fifo_len = 0, ie = 0, ip = 0, txctrl = 0, rxctrl = 0, uart_div = 0\<rparr>,
         dw_uart = \<lparr>div_latch = 0, rbr = 0, ier = 0, fcr = 0, iid = 0, lcr = 0, lsr = 0\<rparr>,
         virtio = (\<lambda>d. zero_device (jk d)), console_in = [], console_out = [], aborted = False\<rparr>\<rparr>)"

abbreviation (input) ANY_SIZE :: u32 where
  "ANY_SIZE \<equiv> DEVIO_SIZE32 OR DEVIO_SIZE16 OR DEVIO_SIZE8"

definition register_ranges :: "(nat \<Rightarrow> u64) \<Rightarrow> VirtMachineParams \<Rightarrow> msys \<Rightarrow> init_error + msys" where
  "register_ranges alloc p y =
     bindE (reg_ram alloc (p_ram_base_addr p) (p_ram_size p) y)
      (\<lambda>y. bindE (reg_ram alloc ROM_BASE_ADDR (of_nat ROM_SIZE) y)
      (\<lambda>y. let y = fold (\<lambda>i. upd_hart i (\<lambda>s. s\<lparr>physical_addr_len := p_physical_addr_len p\<rparr>)) [0..<ncpus (dev y)] y in
           bindE (if p_mmio_start p \<noteq> 0 then reg_dev (p_mmio_start p) (p_mmio_end p - p_mmio_start p) DevMmio ANY_SIZE y else Inr y)
      (\<lambda>y. bindE (foldE (\<lambda>a. reg_dev (fst a) (snd a) DevMmio ANY_SIZE) (p_mmio_addrset p) y)
      (\<lambda>y. bindE (reg_dev UART0_BASE_ADDR UART0_SIZE DevUart DEVIO_SIZE32 y)
      (\<lambda>y. bindE (reg_dev DW_APB_UART0_BASE_ADDR DW_APB_UART0_SIZE DevDwApbUart ANY_SIZE y)
      (\<lambda>y. bindE (reg_dev (p_clint_base_addr p) (p_clint_size p) DevClint ANY_SIZE y)
      (\<lambda>y. reg_dev (p_plic_base_addr p) (p_plic_size p) DevPlic DEVIO_SIZE32 y)))))))"

text \<open>The next virtio device: the state is \<^verbatim>\<open>virtio_count\<close> with the machine; \<^verbatim>\<open>vbus->addr\<close> and \<^verbatim>\<open>irq_num\<close> follow the count.\<close>

definition add_virtio :: "(nat \<Rightarrow> u64 \<Rightarrow> nat \<Rightarrow> msys \<Rightarrow> iomem_error + msys) \<Rightarrow> nat \<times> msys \<Rightarrow> init_error + (nat \<times> msys)" where
  "add_virtio f s =
     (case f (fst s) (VIRTIO_BASE_ADDR + of_nat (fst s) * VIRTIO_SIZE) (unat VIRTIO_IRQ + fst s) (snd s) of
        Inl e \<Rightarrow> Inl (Iomem e)
      | Inr y \<Rightarrow> Inr (Suc (fst s), y))"

definition virtio_devices :: "VirtMachineParams \<Rightarrow> (nat \<Rightarrow> u64 \<Rightarrow> nat \<Rightarrow> msys \<Rightarrow> iomem_error + msys) list" where
  "virtio_devices p = (if p_console p then [virtio_console_init] else []) @ map virtio_net_init (p_eth p)
     @ map virtio_block_init (p_drives p)"

definition add_input :: "VirtMachineParams \<Rightarrow> nat \<times> msys \<Rightarrow> init_error + (nat \<times> msys)" where
  "add_input p s =
     (case p_input_device p of
        None \<Rightarrow> Inr s
      | Some name \<Rightarrow>
          if name = ''virtio''
          then foldE add_virtio [virtio_input_init VIRTIO_INPUT_TYPE_KEYBOARD, virtio_input_init VIRTIO_INPUT_TYPE_TABLET] s
          else Inl UnsupportedInput)"

definition machine_layout_of :: "VirtMachineParams \<Rightarrow> nat \<Rightarrow> machine_layout" where
  "machine_layout_of p n = \<lparr>ram_size = p_ram_size p, ram_base_addr = p_ram_base_addr p, plic_base_addr = p_plic_base_addr p,
     plic_size = p_plic_size p, clint_base_addr = p_clint_base_addr p, clint_size = p_clint_size p, virtio_count = n,
     compact_bootrom = p_compact_bootrom p, fb_dev = None\<rparr>"

text \<open>The result: \<^verbatim>\<open>htif_tohost_addr\<close> and the machine.\<close>

definition virt_machine_init ::
  "(nat \<Rightarrow> u64) \<Rightarrow> u64 \<Rightarrow> bool \<Rightarrow> (nat \<Rightarrow> nat \<Rightarrow> u8) \<Rightarrow> host_mem \<Rightarrow> VirtMachineParams \<Rightarrow> init_error + (u64 \<times> msys)" where
  "virt_machine_init alloc fw_ptr dump_ok jk h p =
     (if MAX_CPUS < p_ncpus p then Inl TooManyCpus
      else bindE (register_ranges alloc p (machine_start jk h p))
       (\<lambda>y. bindE (foldE add_virtio (virtio_devices p) (0, y))
       (\<lambda>s. bindE (add_input p s)
       (\<lambda>(n, y).
          case p_bios p of
            None \<Rightarrow> Inl NoBios
          | Some fw \<Rightarrow> bindE (copy_kernel alloc fw_ptr dump_ok (machine_layout_of p n) (p_htif_base_addr p) p fw y)
              (\<lambda>(tohost, y). Inr (tohost, y\<lparr>vm := (vm y)\<lparr>cosim := False, vm_pending_exception := - 1, vm_pending_interrupt := - 1\<rparr>\<rparr>))))))"

end
