(* ===== verification/Virtio_Theorems.thy ===== *)
theory Virtio_Theorems
  imports Machine
begin

unbundle bit_operations_syntax

text \<open>
  Properties of the virtio devices: every operation writes host memory only inside the RAM blocks of
  the machine and keeps the device registers well formed; a finite chain of descriptors is measured
  and gathered as its bytes in guest memory, a cyclic one is never left; the console queue delivers
  the guest's bytes; a block device returns what was written to it.
\<close>

section \<open>Interrupt lines touch neither memory nor devices\<close>

lemma upd_hart_keeps [simp]:
  "host (upd_hart h f y) = host y" "mem_map (upd_hart h f y) = mem_map y" "virtio (dev (upd_hart h f y)) = virtio (dev y)"
  "console_out (dev (upd_hart h f y)) = console_out (dev y)"
  by (simp_all add: upd_hart_def)

lemma plic_update_mip_keeps:
  "host (plic_update_mip h y) = host y" "mem_map (plic_update_mip h y) = mem_map y"
  "virtio (dev (plic_update_mip h y)) = virtio (dev y)" "console_out (dev (plic_update_mip h y)) = console_out (dev y)"
  by (simp_all add: plic_update_mip_def abort_def)

lemma fold_plic_keeps:
  "host (fold plic_update_mip hs y) = host y" "mem_map (fold plic_update_mip hs y) = mem_map y"
  "virtio (dev (fold plic_update_mip hs y)) = virtio (dev y)"
  "console_out (dev (fold plic_update_mip hs y)) = console_out (dev y)"
  by (induction hs arbitrary: y) (simp_all add: plic_update_mip_keeps)

lemma plic_set_irq_keeps [simp]:
  "host (plic_set_irq i l y) = host y" "mem_map (plic_set_irq i l y) = mem_map y"
  "virtio (dev (plic_set_irq i l y)) = virtio (dev y)" "console_out (dev (plic_set_irq i l y)) = console_out (dev y)"
  by (simp_all add: plic_set_irq_def Let_def fold_plic_keeps)

section \<open>Guest memory as bytes\<close>

lemma page_left_unat: "page_left a = 4096 - int (unat a mod 4096)"
proof -
  have "unat (a AND 0xfff) = unat a mod 4096"
    unfolding low12_mask by (simp add: unat_mod_distrib take_bit_eq_mod flip: take_bit_eq_mask)
  then have "uint (4096 - (a AND 0xfff)) = 4096 - int (unat a mod 4096)"
    by (simp add: uint_nat unat_sub word_le_nat_alt)
  then show ?thesis by (simp add: page_left_def VIRTIO_PAGE_SIZE_def)
qed

lemma same_page_bounds:
  assumes "a mod 4096 + i < (4096 :: nat)"
  shows "(a + i) div 4096 = a div 4096" and "a < 4096 * n \<Longrightarrow> a + i < 4096 * n"
proof -
  show d: "(a + i) div 4096 = a div 4096" using assms by (simp add: div_add1_eq[of a i])
  assume "a < 4096 * n"
  then have "a div 4096 < n" by (simp add: div_less_iff_less_mult mult.commute)
  then have "(a + i) div 4096 < n" by (simp only: d)
  then show "a + i < 4096 * n" by (simp add: div_less_iff_less_mult mult.commute)
qed

lemma page_left_same:
  assumes "int i < page_left a" shows "page_of (a + of_nat i) = page_of a"
proof -
  have i: "unat a mod 4096 + i < 4096" using assms by (simp add: page_left_unat)
  have "unat a < 4096 * 2 ^ 52" using unsigned_less[of a] by simp
  then have "unat a + i < 2 ^ 64" using same_page_bounds(2)[OF i] by fastforce
  then have "unat (a + of_nat i) = unat a + i" by (simp add: unat_word_ariths unat_of_nat)
  then show ?thesis using same_page_bounds(1)[OF i] by (simp add: same_page_div)
qed

lemma ram_ptr_Some:
  assumes "virtio_mmio_get_ram_ptr a y \<noteq> 0"
  obtains i where "get_phys_mem_range (mem_map y) a = Some i" "pr_is_ram (mem_map y ! i)"
    "virtio_mmio_get_ram_ptr a y = ram_ptr (mem_map y ! i) a"
  using assms by (auto simp: virtio_mmio_get_ram_ptr_def split: option.splits if_splits)

section \<open>Direct memory access stays in RAM\<close>

definition ram_bytes :: "PhysMemoryMap \<Rightarrow> u64 set" where
  "ram_bytes m = (\<Union>i \<in> {i. i < length m \<and> pr_is_ram (m ! i)}. ram_block (m ! i))"

definition dma_confined :: "msys \<Rightarrow> msys \<Rightarrow> bool" where
  "dma_confined y y' \<longleftrightarrow> (map_ok (mem_map y) \<longrightarrow>
     mem_map y' = mem_map y \<and> (\<forall>a. a \<notin> ram_bytes (mem_map y) \<longrightarrow> host y' a = host y a))"

lemma page_in_ram_bytes:
  assumes "map_ok (mem_map y)" "virtio_mmio_get_ram_ptr addr y \<noteq> 0" "page_of (addr + of_nat i) = page_of addr"
  shows "virtio_mmio_get_ram_ptr addr y + of_nat i \<in> ram_bytes (mem_map y)"
proof -
  from ram_ptr_Some[OF assms(2)] obtain r where r: "get_phys_mem_range (mem_map y) addr = Some r"
    "pr_is_ram (mem_map y ! r)" "virtio_mmio_get_ram_ptr addr y = ram_ptr (mem_map y ! r) addr" .
  then show ?thesis
    using page_in_block[OF assms(1) r(1,2) assms(3)] by (auto simp: ram_bytes_def lookup_Some)
qed

interpretation confined: virtio_steps dma_confined
proof unfold_locales
  fix addr y n and v :: u64
  assume p: "virtio_mmio_get_ram_ptr addr y \<noteq> 0" and al: "addr AND (of_nat n - 1) = 0" and n: "n \<in> {2, 4}"
  obtain k where k: "n = 2 ^ k" "k \<le> 3" "\<not> misaligned addr k"
    using n al that[of 1] that[of 2] by (auto simp: misaligned_def)
  have "host_region (virtio_mmio_get_ram_ptr addr y) n \<subseteq> ram_bytes (mem_map y)" if "map_ok (mem_map y)"
    using page_in_ram_bytes[OF that p] aligned_fits_page[OF k(2,3)] k(1) by (auto simp: host_region_def)
  then show "dma_confined y (y\<lparr>host := le_store (host y) (virtio_mmio_get_ram_ptr addr y) n v\<rparr>)"
    by (auto simp: dma_confined_def intro!: le_store_outside)
next
  fix addr y and data :: "u8 list"
  assume p: "virtio_mmio_get_ram_ptr addr y \<noteq> 0" and l: "int (length data) \<le> page_left addr"
  have "host_region (virtio_mmio_get_ram_ptr addr y) (length data) \<subseteq> ram_bytes (mem_map y)" if "map_ok (mem_map y)"
    using page_in_ram_bytes[OF that p] page_left_same[of _ addr] l by (auto simp: host_region_def)
  then show "dma_confined y (y\<lparr>host := store_bytes (host y) (virtio_mmio_get_ram_ptr addr y) data\<rparr>)"
    by (auto simp: dma_confined_def intro!: store_bytes_outside)
qed (auto simp: dma_confined_def)


section \<open>Device registers stay well formed\<close>

interpretation regs: virtio_steps "\<lambda>y y'. \<forall>e. vd_ok (vdev e y) \<longrightarrow> vd_ok (vdev e y')"
  by unfold_locales (auto simp: vdev_def)

text \<open>A device as one of the four initialisation functions leaves it.\<close>

definition virtio_initialised :: "nat \<Rightarrow> msys \<Rightarrow> bool" where
  "virtio_initialised d y \<longleftrightarrow> (\<exists>y0 addr irq. virtio_console_init d addr irq y0 = Inr y
     \<or> (\<exists>mac. virtio_net_init mac d addr irq y0 = Inr y) \<or> (\<exists>bf. virtio_block_init bf d addr irq y0 = Inr y)
     \<or> (\<exists>t. virtio_input_init t d addr irq y0 = Inr y))"

lemma vdev_upd [simp]:
  "vdev d (upd_vdev d f y) = f (vdev d y)" "vdev d (upd_queue d q g y) = (vdev d y)\<lparr>queue := (queue (vdev d y))(q := g (queue (vdev d y) q))\<rparr>"
  "e \<noteq> d \<Longrightarrow> vdev e (upd_vdev d f y) = vdev e y"
  by (simp_all add: vdev_def upd_queue_def upd_vdev_def)

lemma vd_ok_init: "virtio_initialised d y \<Longrightarrow> vd_ok (vdev d y)"
  by (auto simp: virtio_initialised_def virtio_console_init_def virtio_net_init_def virtio_block_init_def
      virtio_input_init_def virtio_init_def virtio_reset_def zero_device_def zero_queue_def vd_ok_def pow2_def
      MAX_QUEUE_NUM_def split: sum.splits)


section \<open>Descriptor chains\<close>

text \<open>The bytes of guest memory, address by address.\<close>

definition guest_ram :: "msys \<Rightarrow> u64 \<Rightarrow> nat \<Rightarrow> bool" where
  "guest_ram y a n \<longleftrightarrow> (\<forall>k < n. virtio_mmio_get_ram_ptr (a + of_nat k) y \<noteq> 0)"

definition guest_bytes :: "msys \<Rightarrow> u64 \<Rightarrow> nat \<Rightarrow> u8 list" where
  "guest_bytes y a n = map (\<lambda>k. host y (virtio_mmio_get_ram_ptr (a + of_nat k) y)) [0..<n]"

lemma length_guest_bytes [simp]: "length (guest_bytes y a n) = n"
  by (simp add: guest_bytes_def)

lemma guest_bytes_add: "guest_bytes y a (m + n) = guest_bytes y a m @ guest_bytes y (a + of_nat m) n"
  by (rule nth_equalityI) (auto simp: guest_bytes_def nth_append algebra_simps)

lemma guest_bytes_slice: "m + n \<le> k \<Longrightarrow> take n (drop m (guest_bytes y a k)) = guest_bytes y (a + of_nat m) n"
  by (rule nth_equalityI) (auto simp: guest_bytes_def algebra_simps)

lemma guest_ram_slice: "guest_ram y a k \<Longrightarrow> m + n \<le> k \<Longrightarrow> guest_ram y (a + of_nat m) n"
  unfolding guest_ram_def by (auto simp: add.assoc simp flip: of_nat_add)

lemma ram_ptr_same_page:
  assumes "map_ok (mem_map y)" "virtio_mmio_get_ram_ptr a y \<noteq> 0" "int k < page_left a"
  shows "virtio_mmio_get_ram_ptr (a + of_nat k) y = virtio_mmio_get_ram_ptr a y + of_nat k"
proof -
  from ram_ptr_Some[OF assms(2)] obtain i where i: "get_phys_mem_range (mem_map y) a = Some i"
    "pr_is_ram (mem_map y ! i)" "virtio_mmio_get_ram_ptr a y = ram_ptr (mem_map y ! i) a" .
  then show ?thesis
    using map_ok_page_uniform[OF assms(1) i(1,2)] page_left_same[OF assms(3)]
    by (simp add: virtio_mmio_get_ram_ptr_def ram_ptr_def)
qed

lemma from_ram_bytes:
  assumes "map_ok (mem_map y)" "guest_ram y a n"
  shows "virtio_memcpy_from_ram a (int n) y = (True, guest_bytes y a n)"
  using assms(2)
proof (induction n arbitrary: a rule: less_induct)
  case (less n)
  show ?case
  proof (cases "n = 0")
    case False
    define l where "l = nat (min (int n) (page_left a))"
    have l: "0 < l" "l \<le> n" "int l \<le> page_left a" "int l = min (int n) (page_left a)"
      using False page_left_pos[of a] by (auto simp: l_def)
    have p: "virtio_mmio_get_ram_ptr a y \<noteq> 0" using less.prems False by (auto simp: guest_ram_def)
    have "load_bytes (host y) (virtio_mmio_get_ram_ptr a y) l = guest_bytes y a l"
      using ram_ptr_same_page[OF assms(1) p] l by (simp add: load_bytes_def guest_bytes_def)
    moreover have "virtio_memcpy_from_ram (a + of_nat l) (int (n - l)) y = (True, guest_bytes y (a + of_nat l) (n - l))"
      using less.IH[of "n - l"] guest_ram_slice[OF less.prems] l by simp
    moreover have "guest_bytes y a n = guest_bytes y a l @ guest_bytes y (a + of_nat l) (n - l)"
      using guest_bytes_add[of y a l "n - l"] l(2) by simp
    ultimately show ?thesis
      using False p l(2) by (subst virtio_memcpy_from_ram.simps) (simp add: Let_def of_nat_diff flip: l(4))
  qed (simp add: virtio_memcpy_from_ram.simps guest_bytes_def)
qed

text \<open>
  \<open>desc_at d q y i b\<close>: entry \<open>i\<close> of the descriptor table is in RAM and holds \<open>b\<close>. \<open>linked d q y ds\<close>: every
  descriptor of \<open>ds\<close> is linked to the next and the last one to none.
\<close>

definition desc_at :: "nat \<Rightarrow> nat \<Rightarrow> msys \<Rightarrow> u16 \<Rightarrow> VIRTIODesc \<Rightarrow> bool" where
  "desc_at d q y i b \<longleftrightarrow> (let a = desc_addr (queue (vdev d y) q) + ucast i * 16
     in guest_ram y a 16 \<and> b = guest_bytes y a 16)"

fun linked :: "nat \<Rightarrow> nat \<Rightarrow> msys \<Rightarrow> VIRTIODesc list \<Rightarrow> bool" where
  "linked d q y [] \<longleftrightarrow> False"
| "linked d q y [b] \<longleftrightarrow> \<not> has_next b"
| "linked d q y (b # c # cs) \<longleftrightarrow> has_next b \<and> desc_at d q y (d_next b) c \<and> linked d q y (c # cs)"

definition chain :: "nat \<Rightarrow> nat \<Rightarrow> msys \<Rightarrow> u16 \<Rightarrow> VIRTIODesc list \<Rightarrow> bool" where
  "chain d q y i ds \<longleftrightarrow> linked d q y ds \<and> desc_at d q y i (hd ds)"

lemma linked_Cons: "cs \<noteq> [] \<Longrightarrow> linked d q y (b # cs) \<longleftrightarrow> has_next b \<and> desc_at d q y (d_next b) (hd cs) \<and> linked d q y cs"
  by (cases cs) auto

lemma length_desc_at: "desc_at d q y i b \<Longrightarrow> length b = 16"
  by (auto simp: desc_at_def Let_def)

lemma get_desc_at:
  assumes "map_ok (mem_map y)" "desc_at d q y i b" "length old = 16" shows "get_desc d q i old y = b"
  using assms(2,3) from_ram_bytes[OF assms(1), of _ 16] by (auto simp: get_desc_def desc_at_def Let_def)

lemma linked_step:
  assumes "map_ok (mem_map y)" "linked d q y (b # cs)" "cs \<noteq> []" "length b = 16"
  shows "has_next b" "get_desc d q (d_next b) b y = hd cs" "linked d q y cs" "length (hd cs) = 16"
  using assms get_desc_at[OF assms(1) _ assms(4)] length_desc_at by (auto simp: linked_Cons)

lemma linked_last: "linked d q y [b] \<Longrightarrow> \<not> has_next b"
  by simp

lemma write_sizes:
  assumes m: "map_ok (mem_map y)" and "linked d q y ws" "length (hd ws) = 16" "\<forall>b \<in> set ws. is_write b"
  shows "rw_size_write d q y (hd ws) r w = Some (Some (r, w + sum_list (map d_len ws)))"
  using assms(2-)
proof (induction ws arbitrary: w)
  case (Cons b cs)
  then show ?case
    using linked_step[OF m Cons.prems(1)]
    by (cases "cs = []") (auto simp: rw_size_write.simps add.assoc)
qed simp

lemma read_sizes:
  assumes m: "map_ok (mem_map y)" and "linked d q y (rs @ ws)" "length (hd (rs @ ws)) = 16"
    and "\<forall>b \<in> set rs. \<not> is_write b" and w: "\<forall>b \<in> set ws. is_write b"
  shows "rw_size_read d q y (hd (rs @ ws)) r = Some (Some (r + sum_list (map d_len rs), sum_list (map d_len ws)))"
  using assms(2-4)
proof (induction rs arbitrary: r)
  case Nil
  then have "is_write (hd ws)" using w by (cases ws) auto
  then show ?case using write_sizes[OF m _ _ w, of d q r 0] Nil by (simp add: rw_size_read.simps)
next
  case (Cons b cs)
  then show ?case
    using linked_step[OF m, of d q b "cs @ ws"]
    by (cases "cs @ ws = []") (auto simp: rw_size_read.simps add.assoc)
qed

lemma length_uninit [simp]: "length (uninit d n y) = n"
  by (simp add: uninit_def)

lemma chain_head:
  assumes "map_ok (mem_map y)" "chain d q y i ds"
  shows "get_desc d q i (uninit d 16 y) y = hd ds" "linked d q y ds" "length (hd ds) = 16"
  using assms get_desc_at[OF assms(1)] length_desc_at by (auto simp: chain_def)

lemma chain_sizes:
  assumes "map_ok (mem_map y)" "chain d q y i (rs @ ws)" "\<forall>b \<in> set rs. \<not> is_write b" "\<forall>b \<in> set ws. is_write b"
  shows "get_desc_rw_size d q i y = Some (Some (sum_list (map d_len rs), sum_list (map d_len ws)))"
  using read_sizes[OF assms(1) _ _ assms(3,4)] chain_head[OF assms(1,2)] by (simp add: get_desc_rw_size_def)

section \<open>A cyclic chain\<close>

text \<open>A cycle of descriptors of one direction keeps the loops of \<^verbatim>\<open>get_desc_rw_size\<close> going.\<close>

definition cycle :: "nat \<Rightarrow> nat \<Rightarrow> msys \<Rightarrow> VIRTIODesc set \<Rightarrow> bool" where
  "cycle d q y S \<longleftrightarrow> (\<forall>b \<in> S. length b = 16 \<and> has_next b \<and> (\<exists>c \<in> S. desc_at d q y (d_next b) c))"

lemma cycle_next: "map_ok (mem_map y) \<Longrightarrow> cycle d q y S \<Longrightarrow> b \<in> S \<Longrightarrow> has_next b \<and> get_desc d q (d_next b) b y \<in> S"
  using get_desc_at unfolding cycle_def by metis

lemma write_loop:
  assumes "rw_size_write d q y b r w = Some z"
  shows "map_ok (mem_map y) \<and> cycle d q y S \<and> (\<forall>c \<in> S. is_write c) \<longrightarrow> b \<notin> S"
  using assms
proof (rule rw_size_write.raw_induct[rotated])
  fix loop d q y b r w z
  assume ih: "\<And>d q y b r w z. loop d q y b r w = Some z
      \<Longrightarrow> map_ok (mem_map y) \<and> cycle d q y S \<and> (\<forall>c \<in> S. is_write c) \<longrightarrow> b \<notin> S"
    and eq: "(if \<not> is_write b then Some None
      else if \<not> has_next b then Some (Some (r, w + d_len b))
      else loop d q y (get_desc d q (d_next b) b y) r (w + d_len b)) = Some z"
  show "map_ok (mem_map y) \<and> cycle d q y S \<and> (\<forall>c \<in> S. is_write c) \<longrightarrow> b \<notin> S"
  proof (intro impI notI)
    assume h: "map_ok (mem_map y) \<and> cycle d q y S \<and> (\<forall>c \<in> S. is_write c)" and b: "b \<in> S"
    then have n: "has_next b" "get_desc d q (d_next b) b y \<in> S" "is_write b" using cycle_next by auto
    then have "loop d q y (get_desc d q (d_next b) b y) r (w + d_len b) = Some z" using eq by simp
    from ih[OF this] n(2) h show False by blast
  qed
qed

lemma read_loop:
  assumes "rw_size_read d q y b r = Some z"
  shows "map_ok (mem_map y) \<and> cycle d q y S \<and> (\<forall>c \<in> S. \<not> is_write c) \<longrightarrow> b \<notin> S"
  using assms
proof (rule rw_size_read.raw_induct[rotated])
  fix loop d q y b r z
  assume ih: "\<And>d q y b r z. loop d q y b r = Some z
      \<Longrightarrow> map_ok (mem_map y) \<and> cycle d q y S \<and> (\<forall>c \<in> S. \<not> is_write c) \<longrightarrow> b \<notin> S"
    and eq: "(if is_write b then rw_size_write d q y b r 0
      else if \<not> has_next b then Some (Some (r + d_len b, 0))
      else loop d q y (get_desc d q (d_next b) b y) (r + d_len b)) = Some z"
  show "map_ok (mem_map y) \<and> cycle d q y S \<and> (\<forall>c \<in> S. \<not> is_write c) \<longrightarrow> b \<notin> S"
  proof (intro impI notI)
    assume h: "map_ok (mem_map y) \<and> cycle d q y S \<and> (\<forall>c \<in> S. \<not> is_write c)" and b: "b \<in> S"
    then have n: "has_next b" "get_desc d q (d_next b) b y \<in> S" "\<not> is_write b" using cycle_next by auto
    then have "loop d q y (get_desc d q (d_next b) b y) (r + d_len b) = Some z" using eq by simp
    from ih[OF this] n(2) h show False by blast
  qed
qed

lemma cyclic_sizes:
  assumes "map_ok (mem_map y)" "cycle d q y S" "\<forall>c \<in> S. is_write c = w" "desc_at d q y i b" "b \<in> S"
  shows "get_desc_rw_size d q i y = None"
proof -
  have "rw_size_read d q y b 0 = None"
  proof (cases w)
    case True
    have "rw_size_write d q y b 0 0 = None"
      using write_loop[of d q y b 0 0 _ S] True assms by (cases "rw_size_write d q y b 0 0") auto
    with True assms(3,5) show ?thesis by (subst rw_size_read.simps) simp
  next
    case False
    then show ?thesis using read_loop[of d q y b 0 _ S] assms by (cases "rw_size_read d q y b 0") auto
  qed
  then show ?thesis using get_desc_at[OF assms(1,4)] by (simp add: get_desc_rw_size_def)
qed


section \<open>Gathering a chain\<close>

definition desc_bytes :: "msys \<Rightarrow> VIRTIODesc \<Rightarrow> u8 list" where
  "desc_bytes y b = guest_bytes y (d_addr b) (unat (d_len b))"

definition chain_bytes :: "msys \<Rightarrow> VIRTIODesc list \<Rightarrow> u8 list" where
  "chain_bytes y ds = concat (map (desc_bytes y) ds)"

lemma chain_bytes_Cons [simp]: "chain_bytes y (b # ds) = desc_bytes y b @ chain_bytes y ds"
  by (simp add: chain_bytes_def)

lemma length_desc_bytes [simp]: "length (desc_bytes y b) = unat (d_len b)"
  by (simp add: desc_bytes_def)

text \<open>A readable descriptor of \<open>b\<close> whose bytes are in RAM.\<close>

definition readable :: "msys \<Rightarrow> VIRTIODesc \<Rightarrow> bool" where
  "readable y b \<longleftrightarrow> \<not> is_write b \<and> guest_ram y (d_addr b) (unat (d_len b))"

lemma sint_small: "unat (w :: u32) < 2 ^ 31 \<Longrightarrow> sint w = int (unat w)"
proof -
  assume "unat w < 2 ^ 31"
  then have "int (unat w) < int (2 ^ 31)" by (simp only: of_nat_less_iff)
  then show ?thesis by (auto simp: sint_uint intro!: signed_take_bit_int_eq_self order_trans[OF _ uint_ge_0])
qed

lemma int_less_uint: "int k < uint w \<longleftrightarrow> k < unat w"
  by (simp only: uint_nat of_nat_less_iff)

lemma chunk_small:
  assumes "unat (d_len b) < 2 ^ 31" "o' \<le> unat (d_len b)"
  shows "chunk b (int o') (int n) = int (min n (unat (d_len b) - o'))"
proof -
  have "unat (word_of_int (int o') :: u32) = o'" using assms by (simp add: unat_of_nat)
  then have "unat (d_len b - word_of_int (int o')) = unat (d_len b) - o'"
    using assms by (simp add: unat_sub word_le_nat_alt)
  then show ?thesis using assms by (simp add: chunk_def sint_small of_nat_min of_nat_diff)
qed

lemma find_offset_chain:
  assumes m: "map_ok (mem_map y)" and "linked d q y (rs @ ws)" "length (hd (rs @ ws)) = 16"
    and "\<forall>b \<in> set rs. readable y b" "length (chain_bytes y rs) < 2 ^ 31" "o' < length (chain_bytes y rs)"
  shows "\<exists>b cs k. find_offset d q False y (hd (rs @ ws)) (int o') = Some (Some (b, int k))
    \<and> linked d q y (b # cs @ ws) \<and> length b = 16 \<and> (\<forall>c \<in> set (b # cs). readable y c) \<and> k < unat (d_len b)
    \<and> length (chain_bytes y (b # cs)) < 2 ^ 31 \<and> drop k (chain_bytes y (b # cs)) = drop o' (chain_bytes y rs)"
  using assms(2-)
proof (induction rs arbitrary: o')
  case Nil
  then show ?case by (simp add: chain_bytes_def)
next
  case (Cons b cs)
  let ?n = "unat (d_len b)"
  have n: "sint (d_len b) = int ?n" using Cons.prems(4) by (intro sint_small) simp
  have nw: "\<not> is_write b" using Cons.prems(3) by (simp add: readable_def)
  show ?case
  proof (cases "o' < ?n")
    case True
    then have "find_offset d q False y b (int o') = Some (Some (b, int o'))"
      using n nw by (subst find_offset.simps) (simp add: int_less_uint)
    then show ?thesis using Cons.prems True by (intro exI[of _ b] exI[of _ cs] exI[of _ o']) simp
  next
    case False
    then have cs: "cs @ ws \<noteq> []" using Cons.prems(5) by (auto simp: chain_bytes_def)
    note st = linked_step[OF m Cons.prems(1)[unfolded append_Cons] cs]
    have l: "length b = 16" using Cons.prems(2) by simp
    have "unat (word_of_int (int o') - d_len b) = o' - ?n"
    proof -
      have "unat (word_of_int (int o') :: u32) = o'" using Cons.prems(4,5) by (simp add: unat_of_nat)
      then show ?thesis using False by (simp add: unat_sub word_le_nat_alt)
    qed
    then have "sint (word_of_int (int o') - d_len b) = int (o' - ?n)"
      using Cons.prems(4,5) by (subst sint_small) auto
    then have "find_offset d q False y b (int o') = find_offset d q False y (hd (cs @ ws)) (int (o' - ?n))"
      using n nw False st(1,2)[OF l] by (subst find_offset.simps) (simp add: int_less_uint)
    moreover have "drop (o' - ?n) (chain_bytes y cs) = drop o' (chain_bytes y (b # cs))" using False by simp
    ultimately show ?thesis
      using Cons.IH[of "o' - ?n"] st(3,4)[OF l] Cons.prems False by auto
  qed
qed

lemma copy_from_step:
  assumes m: "map_ok (mem_map y)" and r: "readable y b" and b: "unat (d_len b) < 2 ^ 31" "k \<le> unat (d_len b)" "0 < n"
    and l: "l = min n (unat (d_len b) - k)" and pos: "pos + n \<le> length buf"
    and buf1: "buf1 = take pos buf @ take l (drop k (desc_bytes y b)) @ drop (pos + l) buf"
  shows "copy_from d q b (int k) (int pos) (int n) buf y =
    (if l = n then Some (True, buf1, y)
     else if \<not> has_next b then Some (False, buf1, y)
     else let c = get_desc d q (d_next b) b y in
       if is_write c then Some (False, buf1, y)
       else copy_from d q c 0 (int (pos + l)) (int (n - l)) buf1 y)"
proof -
  have c: "chunk b (int k) (int n) = int l" using chunk_small[OF b(1,2)] l by simp
  define B where "B = take l (drop k (desc_bytes y b))"
  have "guest_ram y (d_addr b + of_nat k) l"
    using r b l by (intro guest_ram_slice) (auto simp: readable_def)
  then have f: "virtio_memcpy_from_ram (d_addr b + of_nat k) (int l) y = (True, B)"
    using from_ram_bytes[OF m] b l by (simp add: B_def desc_bytes_def guest_bytes_slice)
  have len: "length B = l" using l by (simp add: B_def)
  have buf1': "buf1 = take pos buf @ B @ drop (pos + l) buf" by (simp add: buf1 B_def)
  have s: "sint (d_len b) = int (unat (d_len b))" using b by (intro sint_small)
  have e: "k + l = unat (d_len b)" "l < n" if "l \<noteq> n" using that l b by auto
  have guard: "\<not> (0 < int l \<and> \<not> (0 \<le> int pos \<and> int pos + int l \<le> int (length buf)))" proof -
    have "pos + l \<le> length buf" using pos l by simp
    then show ?thesis by linarith
  qed
  show ?thesis
  proof (cases "l = n")
    case True
    then show ?thesis
      using f len guard unfolding copy_from.simps[of d q b "int k"] Let_def c by (simp add: buf1')
  next
    case False
    then have n: "int n - int l = int (n - l)" "int (n - l) = 0 \<longleftrightarrow> False" and k: "int k + int l = int (unat (d_len b))"
      using e by (auto simp: of_nat_diff simp flip: of_nat_add)
    show ?thesis
      by (simp only: copy_from.simps[of d q b "int k"] Let_def c s if_not_P[OF guard] of_int_of_nat_eq f snd_conv
          nat_int len n k refl if_False if_True False buf1' of_nat_add)
  qed
qed

lemma copy_from_chain:
  assumes m: "map_ok (mem_map y)" and "linked d q y (b # cs @ ws)" "length b = 16" "\<forall>c \<in> set (b # cs). readable y c"
    and "length (chain_bytes y (b # cs)) < 2 ^ 31" "k \<le> unat (d_len b)" "0 < n" "k + n \<le> length (chain_bytes y (b # cs))"
    and "pos + n \<le> length buf"
  shows "copy_from d q b (int k) (int pos) (int n) buf y =
    Some (True, take pos buf @ take n (drop k (chain_bytes y (b # cs))) @ drop (pos + n) buf, y)"
  using assms(2-)
proof (induction cs arbitrary: b k n pos buf)
  case Nil
  then have "min n (unat (d_len b) - k) = n" by (simp add: chain_bytes_def)
  then show ?case using copy_from_step[OF m _ _ Nil(5,6) refl Nil(8) refl, of d q] Nil by (simp add: chain_bytes_def)
next
  case (Cons c cs)
  let ?l = "min n (unat (d_len b) - k)"
  let ?buf = "take pos buf @ take ?l (drop k (desc_bytes y b)) @ drop (pos + ?l) buf"
  have st: "has_next b" "get_desc d q (d_next b) b y = c" "linked d q y (c # cs @ ws)" "length c = 16"
    using linked_step[OF m, of d q b "c # cs @ ws"] Cons.prems(1,2) by auto
  have step: "copy_from d q b (int k) (int pos) (int n) buf y =
    (if ?l = n then Some (True, ?buf, y) else copy_from d q c 0 (int (pos + ?l)) (int (n - ?l)) ?buf y)"
    using copy_from_step[OF m _ _ Cons(6,7) refl Cons(9) refl, of d q] st Cons.prems(3,4) by (auto simp: readable_def Let_def)
  show ?case
  proof (cases "n \<le> unat (d_len b) - k")
    case True
    then show ?thesis using step by simp
  next
    case False
    then have l: "?l = unat (d_len b) - k" "?l \<noteq> n" by auto
    have "copy_from d q c (int 0) (int (pos + ?l)) (int (n - ?l)) ?buf y = Some (True,
      take (pos + ?l) ?buf @ take (n - ?l) (drop 0 (chain_bytes y (c # cs))) @ drop (pos + ?l + (n - ?l)) ?buf, y)"
      using st Cons.prems False l by (intro Cons.IH) auto
    then show ?thesis using step l False Cons.prems(5,8) by (simp add: add.commute)
  qed
qed

lemma gather_concat:
  assumes "map_ok (mem_map y)" "chain d q y i (rs @ ws)" "\<forall>b \<in> set rs. readable y b" "\<forall>b \<in> set ws. is_write b"
    and "length (chain_bytes y rs) < 2 ^ 31" "o' + n \<le> length (chain_bytes y rs)" "length buf = n"
  shows "memcpy_from_queue d q i (int o') (int n) buf y = Some (True, take n (drop o' (chain_bytes y rs)), y)
    \<and> (\<exists>w. get_desc_rw_size d q i y = Some (Some (of_nat (length (chain_bytes y rs)), w)))"
proof -
  note h = chain_head[OF assms(1,2)]
  have "sum_list (map d_len rs) = of_nat (length (chain_bytes y rs))"
    by (induction rs) (simp_all add: chain_bytes_def)
  moreover have "\<forall>b \<in> set rs. \<not> is_write b" using assms(3) by (simp add: readable_def)
  ultimately have "\<exists>w. get_desc_rw_size d q i y = Some (Some (of_nat (length (chain_bytes y rs)), w))"
    using chain_sizes[OF assms(1,2) _ assms(4)] by simp
  moreover have "memcpy_from_queue d q i (int o') (int n) buf y = Some (True, take n (drop o' (chain_bytes y rs)), y)"
  proof (cases "n = 0")
    case True
    then show ?thesis using assms(7) by (simp add: memcpy_from_queue_def)
  next
    case False
    then obtain b cs k where f: "find_offset d q False y (hd (rs @ ws)) (int o') = Some (Some (b, int k))"
      and b: "linked d q y (b # cs @ ws)" "length b = 16" "\<forall>c \<in> set (b # cs). readable y c"
      "length (chain_bytes y (b # cs)) < 2 ^ 31" "k < unat (d_len b)"
      and e: "drop k (chain_bytes y (b # cs)) = drop o' (chain_bytes y rs)"
      using find_offset_chain[OF assms(1) h(2,3) assms(3,5), of o'] assms(6) by auto
    have "length (chain_bytes y (b # cs)) - k = length (chain_bytes y rs) - o'" using arg_cong[OF e, of length] by simp
    then have "k + n \<le> length (chain_bytes y (b # cs))" using assms(6) False by simp
    then have "copy_from d q b (int k) (int 0) (int n) buf y = Some (True, take n (drop k (chain_bytes y (b # cs))), y)"
      using copy_from_chain[OF assms(1) b(1-4) _ _ _, of k n 0 buf] b(5) False assms(7) by simp
    then have "copy_from d q b (int k) (int 0) (int n) buf y = Some (True, take n (drop o' (chain_bytes y rs)), y)"
      by (simp only: e)
    then show ?thesis using False f h(1) by (simp add: memcpy_from_queue_def)
  qed
  ultimately show ?thesis by simp
qed

text \<open>
  C14. Scatter-gather reads are exact: from a chain whose readable descriptors \<open>rs\<close> (followed by any
  writable ones) lie in RAM and are together shorter than two gigabytes, \<^verbatim>\<open>memcpy_from_queue\<close> copies
  exactly the bytes \<open>o'\<close> to \<open>o' + n\<close> of the concatenation of the descriptors' guest memory, however the
  chain is cut into descriptors and the descriptors into pages, and \<^verbatim>\<open>get_desc_rw_size\<close> reports its size.
\<close>

theorem gather_refines_concat:
  assumes "map_ok (mem_map y)" "chain d q y i (rs @ ws)" "\<forall>b \<in> set rs. readable y b" "\<forall>b \<in> set ws. is_write b"
    and "length (chain_bytes y rs) < 2 ^ 31" "o' + n \<le> length (chain_bytes y rs)" "length buf = n"
  shows "memcpy_from_queue d q i (int o') (int n) buf y = Some (True, take n (drop o' (chain_bytes y rs)), y)
    \<and> (\<exists>w. get_desc_rw_size d q i y = Some (Some (of_nat (length (chain_bytes y rs)), w)))"
  by (rule gather_concat[OF assms])

section \<open>Transmission on the console\<close>

lemma write_keeps [simp]:
  "dev (virtio_write16 a v y) = dev y" "dev (virtio_write32 a w y) = dev y"
  by (simp_all add: virtio_write16_def virtio_write32_def Let_def)

lemma set_irq_keeps [simp]:
  "virtio (dev (virtio_set_irq d l y)) = virtio (dev y)" "console_out (dev (virtio_set_irq d l y)) = console_out (dev y)"
  by (simp_all add: virtio_set_irq_def set_irq_def irq_init_def)

lemma consume_keeps:
  "virtio (dev (virtio_consume_desc d q i n y)) = (virtio (dev y))(d := (vdev d y)\<lparr>int_status := int_status (vdev d y) OR 1\<rparr>)"
  "console_out (dev (virtio_consume_desc d q i n y)) = console_out (dev y)"
  by (simp_all add: virtio_consume_desc_def Let_def upd_vdev_def vdev_def)

lemma console_notify:
  assumes "map_ok (mem_map y)" "vd_kind (vdev d y) = VirtioConsole" "\<not> manual_recv (queue (vdev d y) 1)"
    and "avail_index d 1 y = last_avail_idx (queue (vdev d y) 1) + 1"
    and "chain d 1 y (avail_desc d 1 y) rs" "\<forall>b \<in> set rs. readable y b" "length (chain_bytes y rs) < 2 ^ 31"
  shows "\<exists>y'. virtio_mmio_write d 0x50 1 2 y = Some y' \<and> console_out (dev y') = console_out (dev y) @ chain_bytes y rs
    \<and> last_avail_idx (queue (vdev d y') 1) = avail_index d 1 y \<and> int_status (vdev d y') = int_status (vdev d y) OR 1"
proof -
  let ?i = "avail_desc d 1 y" and ?n = "length (chain_bytes y rs)"
  define y1 where "y1 = virtio_consume_desc d 1 ?i 0 (upd_dev (\<lambda>m. m\<lparr>console_out := console_out m @ chain_bytes y rs\<rparr>) y)"
  have dev1: "console_out (dev y1) = console_out (dev y) @ chain_bytes y rs"
    "vdev d y1 = (vdev d y)\<lparr>int_status := int_status (vdev d y) OR 1\<rparr>"
    by (simp_all add: y1_def vdev_def consume_keeps)
  have g: "memcpy_from_queue d 1 ?i 0 (int ?n) buf y = Some (True, chain_bytes y rs, y)"
    "\<exists>w. get_desc_rw_size d 1 ?i y = Some (Some (of_nat ?n, w))" if "length buf = ?n" for buf
    using gather_concat[of y d 1 ?i rs "[]" 0 ?n buf] that assms by auto
  then obtain w where sz: "get_desc_rw_size d 1 ?i y = Some (Some (of_nat ?n, w))"
    using length_replicate by blast
  have "unat (of_nat ?n :: u32) = ?n" using assms(7) by (simp add: unat_of_nat)
  then have s: "sint (of_nat ?n :: u32) = int ?n" using assms(7) sint_small[of "of_nat ?n"] by simp
  have r: "device_recv d 1 ?i (int ?n) m y = Some (0, y1)" for m
    using g(1)[of "uninit d ?n y"] assms(2) by (simp add: device_recv_def virtio_console_recv_request_def y1_def)
  have "queue_loop d 1 (avail_index d 1 y) y = queue_loop d 1 (avail_index d 1 y) (next_avail d 1 y1)"
    using sz s r assms(4) by (subst queue_loop.simps) simp
  also have "\<dots> = Some (next_avail d 1 y1)"
    using assms(4) by (subst queue_loop.simps) (simp add: next_avail_def dev1)
  finally have "virtio_mmio_write d 0x50 1 2 y = Some (next_avail d 1 y1)"
    using assms(3) by (simp add: virtio_mmio_write_def virtio_reg_write_def queue_notify_def MAX_QUEUE_def)
  moreover have "console_out (dev (next_avail d 1 y1)) = console_out (dev y1)"
    by (simp add: next_avail_def upd_queue_def upd_vdev_def)
  ultimately show ?thesis using dev1 assms(4) by (auto simp: next_avail_def)
qed


section \<open>The block device as an array of sectors\<close>

definition bf_ok :: "BlockDeviceFile \<Rightarrow> bool" where
  "bf_ok bf \<longleftrightarrow> nb_sectors bf < 2 ^ 32 \<and> nb_sectors bf * 512 \<le> int (length (bf_file bf))
     \<and> (\<forall>k t. sector_table bf k = Some t \<longrightarrow> length t = 512)"

definition bf_sector :: "BlockDeviceFile \<Rightarrow> nat \<Rightarrow> u8 list" where
  "bf_sector bf k = (case (if bf_mode bf = BF_MODE_SNAPSHOT then sector_table bf k else None) of
     None \<Rightarrow> take 512 (drop (512 * k) (bf_file bf)) | Some t \<Rightarrow> t)"

lemma bf_ok_init: "length f < 2 ^ 41 \<Longrightarrow> block_device_init (Some f) mode = Some bf \<Longrightarrow> bf_ok bf"
  by (auto simp: block_device_init_def bf_ok_def)

lemma sector_length: "bf_ok bf \<Longrightarrow> int k < nb_sectors bf \<Longrightarrow> length (bf_sector bf k) = 512"
  by (auto simp: bf_ok_def bf_sector_def split: option.splits)

lemma unat_next_sector:
  fixes s :: u64
  assumes "bf_ok bf" "uint s \<le> nb_sectors bf"
  shows "unat (s + 1) = Suc (unat s)" "uint (s + 1) = uint s + 1" "unat (s * 512) = 512 * unat s"
proof -
  have "int (unat s) < int (2 ^ 32)" using assms by (simp add: bf_ok_def)
  then have "unat s < 2 ^ 32" by (simp only: of_nat_less_iff)
  then show n: "unat (s + 1) = Suc (unat s)" and "unat (s * 512) = 512 * unat s"
    by (simp_all add: unat_word_ariths)
  show "uint (s + 1) = uint s + 1" using arg_cong[OF n, of int] by simp
qed

lemma sector_in_device:
  assumes "x < unat (u :: u64) + m" "uint u + int m \<le> nb" shows "int x < nb"
proof -
  have "int x < int (unat u + m)" using assms(1) by (simp only: of_nat_less_iff)
  then show ?thesis using assms(2) by simp
qed

lemma read_sectors:
  assumes "bf_ok bf" "bf_mode bf = BF_MODE_SNAPSHOT" "uint s + int m \<le> nb_sectors bf"
  shows "bf_read_sectors bf s m = (True, concat (map (bf_sector bf) [unat s..<unat s + m]))"
  using assms(3)
proof (induction m arbitrary: s)
  case (Suc m)
  then have s: "uint s < nb_sectors bf" by simp
  have sec: "bf_sector bf (unat s) = (case sector_table bf (unat s) of
      None \<Rightarrow> take SECTOR_SIZE (drop (unat s * SECTOR_SIZE) (bf_file bf)) | Some t \<Rightarrow> t)"
    using assms(2) by (simp add: bf_sector_def SECTOR_SIZE_def mult.commute split: option.split)
  have "length (bf_sector bf (unat s)) = SECTOR_SIZE"
    using sector_length[OF assms(1), of "unat s"] s by (simp add: SECTOR_SIZE_def)
  moreover have "uint (s + 1) + int m \<le> nb_sectors bf"
    using Suc.prems unat_next_sector(2)[OF assms(1) less_imp_le[OF s]] by simp
  then have "bf_read_sectors bf (s + 1) m = (True, concat (map (bf_sector bf) [Suc (unat s)..<Suc (unat s) + m]))"
    using Suc.IH[of "s + 1"] unat_next_sector(1)[OF assms(1) less_imp_le[OF s]] by simp
  moreover have "[unat s..<unat s + Suc m] = unat s # [Suc (unat s)..<Suc (unat s) + m]" by (simp add: upt_conv_Cons)
  ultimately show ?case using s by (simp add: Let_def sec del: upt_Suc)
qed simp

lemma file_sectors:
  "512 * (k + m) \<le> length f \<Longrightarrow> take (m * 512) (drop (512 * k) f) = concat (map (\<lambda>k. take 512 (drop (512 * k) f)) [k..<k + m])"
proof (induction m arbitrary: k)
  case (Suc m)
  have "take (Suc m * 512) (drop (512 * k) f) = take 512 (drop (512 * k) f) @ take (m * 512) (drop (512 * Suc k) f)"
    using take_add[of 512 "m * 512" "drop (512 * k) f"] by (simp add: add.commute)
  moreover have "[k..<k + Suc m] = k # [Suc k..<Suc k + m]" by (simp add: upt_conv_Cons)
  ultimately show ?case using Suc.IH[of "Suc k"] Suc.prems by (simp del: upt_Suc)
qed simp

lemma read_async:
  assumes "bf_ok bf" "uint s + int m \<le> nb_sectors bf"
  shows "bf_read_async bf s m = (True, concat (map (bf_sector bf) [unat s..<unat s + m]))"
proof (cases "bf_mode bf = BF_MODE_SNAPSHOT")
  case True
  then show ?thesis using read_sectors[OF assms(1) _ assms(2)] by (simp add: bf_read_async_def)
next
  case False
  then have sec: "bf_sector bf = (\<lambda>k. take 512 (drop (512 * k) (bf_file bf)))" by (auto simp: bf_sector_def)
  have b: "512 * (unat s + m) \<le> length (bf_file bf)"
  proof -
    have "int (512 * (unat s + m)) \<le> int (length (bf_file bf))" using assms by (simp add: bf_ok_def)
    then show ?thesis by (simp only: of_nat_le_iff)
  qed
  have "unat (s * 512) = 512 * unat s" using assms by (intro unat_next_sector(3)) auto
  moreover have "length (take (m * 512) (drop (512 * unat s) (bf_file bf))) = m * 512" using b by simp
  ultimately show ?thesis
    using False file_sectors[OF b] by (simp add: bf_read_async_def SECTOR_SIZE_def sec Let_def)
qed

lemma write_sectors:
  assumes "bf_ok bf" "uint s + int n \<le> nb_sectors bf" "length buf = n * 512"
  shows "bf_write_sectors bf s buf n = (True, bf\<lparr>sector_table := (\<lambda>k. if unat s \<le> k \<and> k < unat s + n
    then Some (take 512 (drop (512 * (k - unat s)) buf)) else sector_table bf k)\<rparr>)"
  using assms
proof (induction n arbitrary: bf s buf)
  case (Suc n)
  let ?bf = "bf\<lparr>sector_table := (sector_table bf)(unat s := Some (take 512 buf))\<rparr>"
  have s: "uint s < nb_sectors bf" using Suc.prems by simp
  note s1 = unat_next_sector(1,2)[OF Suc.prems(1) less_imp_le[OF s]]
  have "bf_write_sectors bf s buf (Suc n) = bf_write_sectors ?bf (s + 1) (drop 512 buf) n"
    using s by (simp add: SECTOR_SIZE_def)
  also have "\<dots> = (True, ?bf\<lparr>sector_table := (\<lambda>k. if Suc (unat s) \<le> k \<and> k < Suc (unat s) + n
    then Some (take 512 (drop (512 * (k - Suc (unat s))) (drop 512 buf))) else sector_table ?bf k)\<rparr>)"
  proof -
    have "bf_ok ?bf" using Suc.prems by (auto simp: bf_ok_def)
    then show ?thesis
      by (rule Suc.IH[of ?bf "s + 1" "drop 512 buf", unfolded s1(1)]) (use Suc.prems s1(2) in auto)
  qed
  also have "\<dots> = (True, bf\<lparr>sector_table := (\<lambda>k. if unat s \<le> k \<and> k < unat s + Suc n
    then Some (take 512 (drop (512 * (k - unat s)) buf)) else sector_table bf k)\<rparr>)"
  proof -
    have "512 * (k - Suc (unat s)) + 512 = 512 * (k - unat s)" if "Suc (unat s) \<le> k" for k using that by simp
    then show ?thesis by (auto simp: fun_eq_iff intro!: BlockDeviceFile.equality)
  qed
  finally show ?case .
qed (auto simp: fun_eq_iff intro!: BlockDeviceFile.equality)

lemma nth_file_write:
  assumes "off + length data \<le> length f" "i < length f"
  shows "file_write f off data ! i = (if off \<le> i \<and> i < off + length data then data ! (i - off) else f ! i)"
  using assms by (auto simp: file_write_def nth_append min_def)

lemma length_file_write: "off + length data \<le> length f \<Longrightarrow> length (file_write f off data) = length f"
  by (simp add: file_write_def)

text \<open>The sectors after a write.\<close>

lemma write_async:
  assumes ok: "bf_ok bf" and mode: "bf_mode bf \<noteq> BF_MODE_RO" and n: "uint s + int n \<le> nb_sectors bf" and len: "length buf = n * 512"
  obtains bf' where "bf_write_async bf s buf n = (True, 0, bf')" "bf_ok bf'" "nb_sectors bf' = nb_sectors bf"
    "bf_mode bf' = bf_mode bf" "bf_mode bf = BF_MODE_SNAPSHOT \<Longrightarrow> bf_file bf' = bf_file bf"
    "\<And>k. int k < nb_sectors bf \<Longrightarrow> bf_sector bf' k = (if unat s \<le> k \<and> k < unat s + n
       then take 512 (drop (512 * (k - unat s)) buf) else bf_sector bf k)"
proof (cases "bf_mode bf")
  case BF_MODE_RW
  let ?off = "512 * unat s"
  let ?bf = "bf\<lparr>bf_file := file_write (bf_file bf) ?off buf\<rparr>"
  have off: "unat (s * 512) = ?off" using n by (intro unat_next_sector(3)[OF ok]) simp
  have "int (?off + length buf) \<le> int (length (bf_file bf))" using n ok by (simp add: bf_ok_def len)
  then have b: "?off + length buf \<le> length (bf_file bf)" by (simp only: of_nat_le_iff)
  show ?thesis
  proof (rule that[of ?bf])
    have "file_write (bf_file bf) ?off buf = bf_file bf" if "n = 0" using b that len by (simp add: file_write_def)
    then show "bf_write_async bf s buf n = (True, 0, ?bf)"
      using BF_MODE_RW off len by (auto simp: bf_write_async_def SECTOR_SIZE_def)
    show "bf_ok ?bf" using ok b by (simp add: bf_ok_def length_file_write)
    fix k assume "int k < nb_sectors bf"
    then have "int (512 * k + 512) \<le> int (length (bf_file bf))" using ok by (simp add: bf_ok_def)
    then have k: "512 * k + 512 \<le> length (bf_file bf)" by (simp only: of_nat_le_iff)
    have "512 * k + i - 512 * unat s = 512 * (k - unat s) + i" if "unat s \<le> k" for i using that by simp
    then show "bf_sector ?bf k = (if unat s \<le> k \<and> k < unat s + n then take 512 (drop (512 * (k - unat s)) buf) else bf_sector bf k)"
      using BF_MODE_RW k b by (auto simp: bf_sector_def length_file_write nth_file_write len intro!: nth_equalityI)
  qed (use BF_MODE_RW in simp_all)
next
  case BF_MODE_SNAPSHOT
  let ?bf = "bf\<lparr>sector_table := (\<lambda>k. if unat s \<le> k \<and> k < unat s + n
    then Some (take 512 (drop (512 * (k - unat s)) buf)) else sector_table bf k)\<rparr>"
  have "uint (ucast (s + of_nat n) :: u32) \<le> uint (s + of_nat n)"
    by (simp add: unsigned_ucast_eq take_bit_int_less_eq_self_iff)
  also have "\<dots> \<le> uint s + uint (of_nat n :: u64)" by (rule uint_add_le)
  also have "uint (of_nat n :: u64) \<le> int n" by (simp add: unsigned_of_nat take_bit_nat_less_eq_self)
  finally have c: "\<not> uint (ucast (s + of_nat n) :: u32) > nb_sectors bf" using n by simp
  show ?thesis
  proof (rule that[of ?bf])
    show "bf_write_async bf s buf n = (True, 0, ?bf)"
      using BF_MODE_SNAPSHOT c write_sectors[OF ok n len] by (simp add: bf_write_async_def)
    have "length (take 512 (drop (512 * (k - unat s)) buf)) = 512" if "unat s \<le> k" "k < unat s + n" for k
      using that len by simp
    then show "bf_ok ?bf" using ok by (auto simp: bf_ok_def)
    fix k assume "int k < nb_sectors bf"
    show "bf_sector ?bf k = (if unat s \<le> k \<and> k < unat s + n then take 512 (drop (512 * (k - unat s)) buf) else bf_sector bf k)"
      using BF_MODE_SNAPSHOT by (simp add: bf_sector_def split: option.split)
  qed simp_all
qed (use mode in simp)

text \<open>
  C18. A block device returns what was written: in both writable modes a request inside the device
  succeeds, a later read of the same sectors returns the data, reads of other sectors are as before,
  and in snapshot mode the file itself is unchanged.
\<close>

theorem block_write_read:
  assumes "bf_ok bf" "bf_mode bf \<noteq> BF_MODE_RO" "uint s + int n \<le> nb_sectors bf" "length buf = n * 512"
  shows "\<exists>bf'. bf_write_async bf s buf n = (True, 0, bf') \<and> bf_read_async bf' s n = (True, buf)
    \<and> (\<forall>t m. uint t + int m \<le> nb_sectors bf \<and> (unat t + m \<le> unat s \<or> unat s + n \<le> unat t)
         \<longrightarrow> bf_read_async bf' t m = bf_read_async bf t m)
    \<and> (bf_mode bf = BF_MODE_SNAPSHOT \<longrightarrow> bf_file bf' = bf_file bf) \<and> bf_ok bf'"
proof -
  obtain bf' where w: "bf_write_async bf s buf n = (True, 0, bf')" "bf_ok bf'" "nb_sectors bf' = nb_sectors bf"
    "bf_mode bf = BF_MODE_SNAPSHOT \<Longrightarrow> bf_file bf' = bf_file bf"
    and sec: "\<And>k. int k < nb_sectors bf \<Longrightarrow> bf_sector bf' k = (if unat s \<le> k \<and> k < unat s + n
       then take 512 (drop (512 * (k - unat s)) buf) else bf_sector bf k)"
    using write_async[OF assms] by blast
  have "concat (map (\<lambda>k. take 512 (drop (512 * (k - unat s)) buf)) [unat s..<unat s + n]) = buf"
  proof -
    have "[unat s..<unat s + n] = map (\<lambda>i. i + unat s) [0..<n]" using map_add_upt[of "unat s" n] by (simp add: add.commute)
    then show ?thesis using file_sectors[of 0 n buf] assms(4) by (simp add: o_def)
  qed
  moreover have "map (bf_sector bf') [unat s..<unat s + n] = map (\<lambda>k. take 512 (drop (512 * (k - unat s)) buf)) [unat s..<unat s + n]"
    using sector_in_device[OF _ assms(3)] by (intro map_cong refl) (auto simp: sec)
  ultimately have "bf_read_async bf' s n = (True, buf)"
    using read_async[OF w(2), of s n] assms(3) w(3) by (simp del: map_eq_conv)
  moreover have "bf_read_async bf' t m = bf_read_async bf t m"
    if t: "uint t + int m \<le> nb_sectors bf" "unat t + m \<le> unat s \<or> unat s + n \<le> unat t" for t m
  proof -
    have "map (bf_sector bf') [unat t..<unat t + m] = map (bf_sector bf) [unat t..<unat t + m]"
      using t(2) sector_in_device[OF _ t(1)] by (intro map_cong refl) (auto simp: sec)
    then show ?thesis using read_async[OF w(2), of t m] read_async[OF assms(1), of t m] t(1) w(3) by (simp del: map_eq_conv)
  qed
  ultimately show ?thesis using w by blast
qed

section \<open>A demonstration device\<close>

text \<open>
  A console on the demonstration machine. Entry 0 of its transmit queue is a descriptor with the three
  bytes \<^verbatim>\<open>hel\<close>, linked to a descriptor with the two bytes \<^verbatim>\<open>lo\<close>, whose flags and link are \<open>tail\<close>.
\<close>

definition demo_range :: PhysMemoryRange where
  "demo_range = null_range\<lparr>pr_addr := 0x40010000, pr_org_size := 0x1000, pr_size := 0x1000, pr_opaque := DevVirtio 0,
     pr_devio_flags := DEVIO_SIZE8 OR DEVIO_SIZE16 OR DEVIO_SIZE32\<rparr>"

definition demo_virtio :: msys where
  "demo_virtio = projr (virtio_console_init 0 0x40010000 1 demo_machine)"

definition demo_put :: "u64 \<Rightarrow> u8 list \<Rightarrow> host_mem \<Rightarrow> host_mem" where
  "demo_put off data h = store_bytes h (0x7f0000000000 + off) data"

definition demo_console :: "u8 list \<Rightarrow> msys" where
  "demo_console tail =
     upd_queue 0 1 (\<lambda>q. q\<lparr>ready := 1, desc_addr := 0x80001000, avail_addr := 0x80002000, used_addr := 0x80003000\<rparr>)
       (demo_virtio\<lparr>host := demo_put 0x1000 ([0, 0x40, 0, 0x80, 0, 0, 0, 0, 3, 0, 0, 0, 1, 0, 1, 0]
                                 @ [0, 0x50, 0, 0x80, 0, 0, 0, 0, 2, 0, 0, 0] @ tail)
             (demo_put 0x2000 [0, 0, 1, 0, 0, 0] (demo_put 0x4000 [0x68, 0x65, 0x6c] (demo_put 0x5000 [0x6c, 0x6f] (\<lambda>_. 0))))\<rparr>)"

lemma demo_virtio_init: "virtio_console_init 0 0x40010000 1 demo_machine = Inr demo_virtio"
  by (simp add: demo_virtio_def virtio_console_init_def virtio_init_def demo_machine_def cpu_register_device_def
      PHYS_MEM_RANGE_MAX_def VIRTIO_PAGE_SIZE_def split: sum.splits)

lemma demo_virtio_map: "mem_map demo_virtio = [demo_ram, demo_range]"
  by (simp add: demo_virtio_def virtio_console_init_def virtio_init_def demo_machine_def cpu_register_device_def
      upd_queue_def upd_vdev_def virtio_reset_def PHYS_MEM_RANGE_MAX_def Let_def demo_range_def null_range_def
      VIRTIO_PAGE_SIZE_def DEVIO_SIZE8_def DEVIO_SIZE16_def DEVIO_SIZE32_def DEVIO_DISABLED_def)

lemma demo_virtio_dev:
  "vd_kind (vdev 0 demo_virtio) = VirtioConsole" "queue (vdev 0 demo_virtio) 1 = zero_queue\<lparr>num := 16\<rparr>"
  "console_out (dev demo_virtio) = []" "int_status (vdev 0 demo_virtio) = 0"
  by (simp_all add: demo_virtio_def virtio_console_init_def virtio_init_def demo_machine_def cpu_register_device_def
      virtio_reset_def PHYS_MEM_RANGE_MAX_def Let_def VIRTIO_PAGE_SIZE_def zero_device_def zero_queue_def MAX_QUEUE_def
      MAX_QUEUE_NUM_def upd_queue_def upd_vdev_def vdev_def)

lemma demo_console_map: "mem_map (demo_console tail) = [demo_ram, demo_range]"
  by (simp add: demo_console_def demo_virtio_map upd_queue_def upd_vdev_def)

lemma demo_console_map_ok: "map_ok (mem_map (demo_console tail))"
  by (auto simp: demo_console_map map_ok_def demo_ram_def demo_range_def whole_pages_def page_aligned_def null_range_def
      apart_def less_Suc_eq nth_Cons' in_range_def word_le_nat_alt word_less_nat_alt)

lemma demo_console_ptr:
  "virtio_mmio_get_ram_ptr a (demo_console tail) =
     (if 0x80000000 \<le> a \<and> a < 0x80010000 then 0x7f0000000000 + (a - 0x80000000) else 0)"
proof -
  have "\<not> (0x80000000 \<le> a \<and> a < 0x40011000)" by (auto simp: word_le_nat_alt word_less_nat_alt)
  then show ?thesis
    by (auto simp: virtio_mmio_get_ram_ptr_def demo_console_map get_phys_mem_range_def in_range_def demo_range_def
        demo_ram_def ram_ptr_def null_range_def)
qed

lemma demo_console_dev:
  "vd_kind (vdev 0 (demo_console tail)) = VirtioConsole" "int_status (vdev 0 (demo_console tail)) = 0"
  "console_out (dev (demo_console tail)) = []"
  "queue (vdev 0 (demo_console tail)) 1 = zero_queue\<lparr>num := 16, ready := 1, desc_addr := 0x80001000,
     avail_addr := 0x80002000, used_addr := 0x80003000\<rparr>"
  "host (demo_console tail) = demo_put 0x1000 ([0, 0x40, 0, 0x80, 0, 0, 0, 0, 3, 0, 0, 0, 1, 0, 1, 0]
       @ [0, 0x50, 0, 0x80, 0, 0, 0, 0, 2, 0, 0, 0] @ tail)
     (demo_put 0x2000 [0, 0, 1, 0, 0, 0] (demo_put 0x4000 [0x68, 0x65, 0x6c] (demo_put 0x5000 [0x6c, 0x6f] (\<lambda>_. 0))))"
  using demo_virtio_dev by (simp_all add: demo_console_def upd_queue_def upd_vdev_def vdev_def)

lemma demo_guest_ram:
  assumes "0x80000000 \<le> a" "unat a + n \<le> 0x80010000" shows "guest_ram (demo_console tail) a n"
  unfolding guest_ram_def
proof (intro allI impI)
  fix k assume k: "k < n"
  let ?b = "a + of_nat k"
  have b: "unat ?b = unat a + k" using assms(2) k by (simp add: unat_word_ariths unat_of_nat)
  then have r: "0x80000000 \<le> ?b \<and> ?b < 0x80010000"
    using assms k by (simp add: word_le_nat_alt word_less_nat_alt)
  have "unat (0x7f0000000000 + (?b - 0x80000000)) = 0x7f0000000000 + (unat ?b - 0x80000000)"
  proof -
    have "0x80000000 \<le> unat ?b" "unat ?b < 0x80010000" using assms k unfolding b by (simp_all add: word_le_nat_alt)
    moreover have "unat (?b - 0x80000000) = unat ?b - 0x80000000" using r by (simp add: unat_sub)
    ultimately show ?thesis by (simp only: unat_word_ariths unat_numeral) simp
  qed
  then have "0x7f0000000000 + (?b - 0x80000000) \<noteq> 0" by (metis add_is_0 unat_0 zero_neq_numeral)
  then show "virtio_mmio_get_ram_ptr ?b (demo_console tail) \<noteq> 0" using r by (simp only: demo_console_ptr if_True simp_thms)
qed

lemma demo_avail:
  "avail_index 0 1 (demo_console [f, 0, n, 0]) = 1" "avail_desc 0 1 (demo_console [f, 0, n, 0]) = 0"
  by (simp_all only: avail_index_def avail_desc_def virtio_read16_def Let_def demo_console_dev demo_console_ptr le_load_numeral)
    (simp_all add: zero_queue_def demo_put_def)

lemma demo_bytes:
  "guest_bytes (demo_console [f, 0, n, 0]) 0x80001000 16 = [0, 0x40, 0, 0x80, 0, 0, 0, 0, 3, 0, 0, 0, 1, 0, 1, 0]"
  "guest_bytes (demo_console [f, 0, n, 0]) 0x80001010 16 = [0, 0x50, 0, 0x80, 0, 0, 0, 0, 2, 0, 0, 0, f, 0, n, 0]"
  "guest_bytes (demo_console [f, 0, n, 0]) 0x80004000 3 = [0x68, 0x65, 0x6c]"
  "guest_bytes (demo_console [f, 0, n, 0]) 0x80005000 2 = [0x6c, 0x6f]"
  by (simp_all add: guest_bytes_def upt_rec demo_console_dev demo_console_ptr demo_put_def)

definition demo_desc :: "u8 list \<Rightarrow> u8 list \<Rightarrow> VIRTIODesc" where
  "demo_desc a b = a @ [0, 0x80, 0, 0, 0, 0] @ b"

lemma demo_descriptors:
  "desc_at 0 1 (demo_console [f, 0, n, 0]) 0 (demo_desc [0, 0x40] [3, 0, 0, 0, 1, 0, 1, 0])"
  "desc_at 0 1 (demo_console [f, 0, n, 0]) 1 (demo_desc [0, 0x50] [2, 0, 0, 0, f, 0, n, 0])"
  unfolding desc_at_def Let_def demo_console_dev by (simp_all add: demo_bytes demo_guest_ram demo_desc_def zero_queue_def)

lemma demo_fields:
  "d_addr (demo_desc [0, 0x40] t) = 0x80004000" "d_addr (demo_desc [0, 0x50] t) = 0x80005000"
  "d_len (demo_desc [a, b] (2 # 0 # 0 # 0 # t)) = 2" "d_len (demo_desc [a, b] (3 # 0 # 0 # 0 # t)) = 3"
  "d_flags (demo_desc [a, b] [l, 0, 0, 0, 0, 0, n, 0]) = 0" "d_flags (demo_desc [a, b] [l, 0, 0, 0, 1, 0, n, 0]) = 1"
  "d_next (demo_desc [a, b] [l, 0, 0, 0, f, 0, 0, 0]) = 0" "d_next (demo_desc [a, b] [l, 0, 0, 0, f, 0, 1, 0]) = 1"
  by (simp_all add: demo_desc_def d_addr_def d_len_def d_flags_def d_next_def le_bytes_def)

definition demo_rs :: "VIRTIODesc list" where
  "demo_rs = [demo_desc [0, 0x40] [3, 0, 0, 0, 1, 0, 1, 0], demo_desc [0, 0x50] [2, 0, 0, 0, 0, 0, 0, 0]]"

lemma demo_chain:
  "chain 0 1 (demo_console [0, 0, 0, 0]) 0 demo_rs" "\<forall>e \<in> set demo_rs. readable (demo_console [0, 0, 0, 0]) e"
  "chain_bytes (demo_console [0, 0, 0, 0]) demo_rs = [0x68, 0x65, 0x6c, 0x6c, 0x6f]"
  using demo_descriptors[of 0 0]
  by (simp_all add: demo_rs_def chain_def has_next_def is_write_def readable_def demo_fields demo_guest_ram
      VRING_DESC_F_NEXT_def VRING_DESC_F_WRITE_def chain_bytes_def desc_bytes_def demo_bytes)

text \<open>The notification of the demonstration console, as the lemma above describes it.\<close>

lemma demo_notify:
  obtains y' where "virtio_mmio_write 0 0x50 1 2 (demo_console [0, 0, 0, 0]) = Some y'"
  using console_notify[of "demo_console [0, 0, 0, 0]" 0 demo_rs] demo_chain demo_avail[of 0 0] demo_console_map_ok[of "[0, 0, 0, 0]"]
    demo_console_dev[of "[0, 0, 0, 0]"] by (auto simp: zero_queue_def)




theorem gather_refines_concat_witness:
  "memcpy_from_queue 0 1 0 2 3 [0, 0, 0] (demo_console [0, 0, 0, 0]) = Some (True, [0x6c, 0x6c, 0x6f], demo_console [0, 0, 0, 0])"
  using gather_refines_concat[of "demo_console [0, 0, 0, 0]" 0 1 0 demo_rs "[]" 2 3 "[0, 0, 0]"] demo_chain
    demo_console_map_ok[of "[0, 0, 0, 0]"] by simp


theorem block_write_read_witness:
  "\<exists>bf'. bf_write_async \<lparr>bf_file = replicate 1024 0, nb_sectors = 2, bf_mode = BF_MODE_SNAPSHOT, sector_table = (\<lambda>_. None)\<rparr> 1
      (replicate 512 7) 1 = (True, 0, bf') \<and> bf_read_async bf' 1 1 = (True, replicate 512 7)"
  using block_write_read[of "\<lparr>bf_file = replicate 1024 0, nb_sectors = 2, bf_mode = BF_MODE_SNAPSHOT, sector_table = (\<lambda>_. None)\<rparr>"
      1 1 "replicate 512 7"]
  by (auto simp: bf_ok_def)

end
