(* ===== verification/Init_Theorems.thy ===== *)
theory Init_Theorems
  imports Machine_Init Virtio_Theorems
begin

unbundle bit_operations_syntax

text \<open>
  What \<^verbatim>\<open>virt_machine_init\<close> builds: a memory map of RAM, ROM and devices for which decoding is well
  behaved, harts in the state the interpreter requires, and the firmware, kernel, boot ROM and device
  tree in guest memory.
\<close>

section \<open>Sequences of fallible steps\<close>

lemma bindE_Inr: "bindE r f = Inr z \<longleftrightarrow> (\<exists>x. r = Inr x \<and> f x = Inr z)"
  by (cases r) auto

lemma case_sum_Inr: "(case r of Inl e \<Rightarrow> Inl (F e) | Inr x \<Rightarrow> g x) = Inr z \<longleftrightarrow> (\<exists>x. r = Inr x \<and> g x = Inr z)"
  by (cases r) auto

lemma foldE_inv:
  assumes "\<And>x s s'. x \<in> set xs \<Longrightarrow> P s \<Longrightarrow> f x s = Inr s' \<Longrightarrow> P s'" "P s" "foldE f xs s = Inr s'"
  shows "P s'"
  using assms by (induction xs arbitrary: s) (auto simp: bindE_Inr)

section \<open>Harts\<close>

lemma hart_upd_hart: "hart h (upd_hart i f y) = (if h = i then f (hart h y) else hart h y)"
  by (simp add: hart_def upd_hart_def)

lemma hart_keep [simp]: "hart h (y\<lparr>host := x\<rparr>) = hart h y" "hart h (y\<lparr>vm := z\<rparr>) = hart h y"
  by (simp_all add: hart_def)

lemma upd_hart_more [simp]:
  "ncpus (dev (upd_hart i f y)) = ncpus (dev y)" "cur_hart (dev (upd_hart i f y)) = cur_hart (dev y)"
  "vm (upd_hart i f y) = vm y"
  by (simp_all add: upd_hart_def)

text \<open>What the construction keeps while it changes the harts.\<close>

lemma fold_upd_hart:
  "hart h (fold (\<lambda>i. upd_hart i f) [0..<n] y) = (if h < n then f (hart h y) else hart h y)"
  "mem_map (fold (\<lambda>i. upd_hart i f) [0..<n] y) = mem_map y" "host (fold (\<lambda>i. upd_hart i f) [0..<n] y) = host y"
  "ncpus (dev (fold (\<lambda>i. upd_hart i f) [0..<n] y)) = ncpus (dev y)"
  "cur_hart (dev (fold (\<lambda>i. upd_hart i f) [0..<n] y)) = cur_hart (dev y)"
  by (induction n) (auto simp: hart_upd_hart less_Suc_eq)

section \<open>Ranges\<close>

definition ram_range :: "u64 \<Rightarrow> u64 \<Rightarrow> u64 \<Rightarrow> PhysMemoryRange" where
  "ram_range addr sz ptr = null_range\<lparr>pr_is_ram := True, pr_addr := addr, pr_org_size := sz, pr_size := sz, pr_phys_mem := ptr\<rparr>"

lemma ram_range_sel [simp]:
  "pr_is_ram (ram_range a s p)" "pr_addr (ram_range a s p) = a" "pr_size (ram_range a s p) = s" "pr_phys_mem (ram_range a s p) = p"
  by (simp_all add: ram_range_def null_range_def)

lemma reg_ram_Inr:
  assumes "reg_ram alloc addr sz y = Inr y'"
  shows "y' = y\<lparr>mem_map := mem_map y @ [ram_range addr sz (alloc (length (mem_map y)))],
      host := mallocz (host y) (alloc (length (mem_map y))) sz\<rparr>"
    and "page_aligned sz" "alloc (length (mem_map y)) \<noteq> 0"
  using assms
  by (auto simp: reg_ram_def default_register_ram_def register_ram_entry_def ram_range_def null_range_def page_aligned_def
      DEVRAM_PAGE_SIZE_def DEVRAM_FLAG_DISABLED_def DEVRAM_FLAG_DIRTY_BITS_def Let_def split: if_splits)

lemma reg_dev_Inr:
  assumes "reg_dev addr sz dv flags y = Inr y'" "flags AND DEVIO_DISABLED = 0"
  shows "\<exists>r. y' = y\<lparr>mem_map := mem_map y @ [r]\<rparr> \<and> \<not> pr_is_ram r \<and> pr_addr r = addr \<and> pr_size r = sz"
  using assms by (auto simp: reg_dev_def cpu_register_device_def null_range_def split: if_splits)

lemma virtio_init_Inr:
  assumes "virtio_init d addr irq i c k y = Inr y'"
  shows "\<exists>r. mem_map y' = mem_map y @ [r] \<and> \<not> pr_is_ram r \<and> pr_addr r = addr \<and> pr_size r = 4096 \<and> host y' = host y
    \<and> length (mem_map y) < 32 \<and> ncpus (dev y') = ncpus (dev y) \<and> cur_hart (dev y') = cur_hart (dev y)
    \<and> (\<forall>h. hart h y' = hart h y)"
  using assms
  by (auto simp: virtio_init_def cpu_register_device_def null_range_def virtio_reset_def upd_vdev_def hart_def
      PHYS_MEM_RANGE_MAX_def VIRTIO_PAGE_SIZE_def DEVIO_SIZE8_def DEVIO_SIZE16_def DEVIO_SIZE32_def DEVIO_DISABLED_def
      split: sum.splits if_splits)

lemma virtio_upd_keeps [simp]:
  "mem_map (upd_vdev d f y) = mem_map y" "host (upd_vdev d f y) = host y" "ncpus (dev (upd_vdev d f y)) = ncpus (dev y)"
  "hart h (upd_vdev d f y) = hart h y" "cur_hart (dev (upd_vdev d f y)) = cur_hart (dev y)"
  "mem_map (upd_queue d q g y) = mem_map y" "host (upd_queue d q g y) = host y" "ncpus (dev (upd_queue d q g y)) = ncpus (dev y)"
  "hart h (upd_queue d q g y) = hart h y" "cur_hart (dev (upd_queue d q g y)) = cur_hart (dev y)"
  by (simp_all add: upd_vdev_def upd_queue_def hart_def)

definition virtio_inits :: "(nat \<Rightarrow> u64 \<Rightarrow> nat \<Rightarrow> msys \<Rightarrow> iomem_error + msys) set" where
  "virtio_inits = {virtio_console_init} \<union> range virtio_net_init \<union> range virtio_block_init \<union> range virtio_input_init"

lemma virtio_inits_Inr:
  assumes "f \<in> virtio_inits" "f d addr irq y = Inr y'"
  shows "\<exists>r. mem_map y' = mem_map y @ [r] \<and> \<not> pr_is_ram r \<and> pr_addr r = addr \<and> pr_size r = 4096 \<and> host y' = host y
    \<and> length (mem_map y) < 32 \<and> ncpus (dev y') = ncpus (dev y) \<and> cur_hart (dev y') = cur_hart (dev y)
    \<and> (\<forall>h. hart h y' = hart h y)"
  using assms virtio_init_Inr[of d addr irq]
  by (fastforce simp: virtio_inits_def virtio_console_init_def virtio_net_init_def virtio_block_init_def
      virtio_input_init_def split: sum.splits)

section \<open>The memory map\<close>

text \<open>
  The address ranges of the devices; the virtio devices have the pages from \<^verbatim>\<open>VIRTIO_BASE_ADDR\<close> on, fewer than 32.
  \<open>layout_ok\<close>: no device reaches into RAM or ROM and RAM does not reach the end of the address space.
\<close>

definition dev_spans :: "VirtMachineParams \<Rightarrow> (u64 \<times> u64) list" where
  "dev_spans p = (if p_mmio_start p \<noteq> 0 then [(p_mmio_start p, p_mmio_end p - p_mmio_start p)] else []) @ p_mmio_addrset p
     @ [(UART0_BASE_ADDR, UART0_SIZE), (DW_APB_UART0_BASE_ADDR, DW_APB_UART0_SIZE), (p_clint_base_addr p, p_clint_size p),
        (p_plic_base_addr p, p_plic_size p), (VIRTIO_BASE_ADDR, 32 * VIRTIO_SIZE)]"

definition clear_of :: "u64 \<Rightarrow> u64 \<Rightarrow> u64 \<times> u64 \<Rightarrow> bool" where
  "clear_of base sz sp \<longleftrightarrow> unat (fst sp) + unat (snd sp) < 2 ^ 64
     \<and> (unat (fst sp) + unat (snd sp) \<le> unat base \<or> unat base + unat sz \<le> unat (fst sp))"

definition layout_ok :: "VirtMachineParams \<Rightarrow> bool" where
  "layout_ok p \<longleftrightarrow> unat (p_ram_base_addr p) + unat (p_ram_size p) < 2 ^ 64
     \<and> list_all (\<lambda>sp. clear_of (p_ram_base_addr p) (p_ram_size p) sp \<and> clear_of ROM_BASE_ADDR (of_nat ROM_SIZE) sp) (dev_spans p)"

definition in_span :: "VirtMachineParams \<Rightarrow> PhysMemoryRange \<Rightarrow> bool" where
  "in_span p r \<longleftrightarrow> (\<exists>sp \<in> set (dev_spans p). unat (fst sp) \<le> unat (pr_addr r)
     \<and> unat (pr_addr r) + unat (pr_size r) \<le> unat (fst sp) + unat (snd sp))"

definition built :: "(nat \<Rightarrow> u64) \<Rightarrow> VirtMachineParams \<Rightarrow> msys \<Rightarrow> bool" where
  "built alloc p y \<longleftrightarrow> (\<exists>ds. mem_map y = ram_range (p_ram_base_addr p) (p_ram_size p) (alloc 0)
       # ram_range ROM_BASE_ADDR (of_nat ROM_SIZE) (alloc 1) # ds \<and> (\<forall>r \<in> set ds. \<not> pr_is_ram r \<and> in_span p r))"

lemma clear_of_range:
  assumes "clear_of base sz sp" "unat base + unat sz < 2 ^ 64" "unat (fst sp) \<le> unat (pr_addr r)"
    "unat (pr_addr r) + unat (pr_size r) \<le> unat (fst sp) + unat (snd sp)"
    "unat base \<le> unat a" "unat a < unat base + unat sz"
  shows "\<not> in_range r a"
proof -
  have "unat (pr_addr r) + unat (pr_size r) < 2 ^ 64" using assms(1,4) by (simp add: clear_of_def)
  then show ?thesis using assms in_range_unat[of r a] by (auto simp: clear_of_def)
qed

lemma dev_apart:
  assumes "layout_ok p" "in_span p r"
  shows "unat (p_ram_base_addr p) \<le> unat a \<Longrightarrow> unat a < unat (p_ram_base_addr p) + unat (p_ram_size p) \<Longrightarrow> \<not> in_range r a"
    and "0x10000 \<le> unat a \<Longrightarrow> unat a < 0x11000 \<Longrightarrow> \<not> in_range r a"
proof -
  obtain sp where "sp \<in> set (dev_spans p)" and sp: "unat (fst sp) \<le> unat (pr_addr r)"
     "unat (pr_addr r) + unat (pr_size r) \<le> unat (fst sp) + unat (snd sp)"
    using assms(2) by (auto simp: in_span_def)
  then have c: "clear_of (p_ram_base_addr p) (p_ram_size p) sp" "clear_of ROM_BASE_ADDR (of_nat ROM_SIZE) sp"
    "unat (p_ram_base_addr p) + unat (p_ram_size p) < 2 ^ 64"
    using assms(1) by (auto simp: layout_ok_def list_all_iff)
  show "unat (p_ram_base_addr p) \<le> unat a \<Longrightarrow> unat a < unat (p_ram_base_addr p) + unat (p_ram_size p) \<Longrightarrow> \<not> in_range r a"
    using clear_of_range[OF c(1,3) sp] by blast
  show "0x10000 \<le> unat a \<Longrightarrow> unat a < 0x11000 \<Longrightarrow> \<not> in_range r a"
    using clear_of_range[OF c(2) _ sp, of a] by simp
qed

lemma ram_range_in:
  assumes "unat b + unat s < 2 ^ 64"
  shows "in_range (ram_range b s q) a \<longleftrightarrow> unat b \<le> unat a \<and> unat a < unat b + unat s"
  using in_range_unat[of "ram_range b s q" a] assms by simp

lemma built_map_ok:
  assumes "built alloc p y" "layout_ok p" "page_aligned (p_ram_base_addr p)" "page_aligned (p_ram_size p)"
  shows "map_ok (mem_map y)"
proof -
  obtain ds where m: "mem_map y = ram_range (p_ram_base_addr p) (p_ram_size p) (alloc 0)
       # ram_range ROM_BASE_ADDR (of_nat ROM_SIZE) (alloc 1) # ds" and ds: "\<forall>r \<in> set ds. \<not> pr_is_ram r \<and> in_span p r"
    using assms(1) by (auto simp: built_def)
  have b: "unat (p_ram_base_addr p) + unat (p_ram_size p) < 2 ^ 64" using assms(2) by (simp add: layout_ok_def)
  have "apart (ram_range (p_ram_base_addr p) (p_ram_size p) (alloc 0)) r" "apart (ram_range ROM_BASE_ADDR (of_nat ROM_SIZE) (alloc 1)) r"
    if "r \<in> set ds" for r
    using dev_apart[OF assms(2)] ds that ram_range_in[OF b] ram_range_in[of ROM_BASE_ADDR "of_nat ROM_SIZE" "alloc 1"]
    by (auto simp: apart_def)
  moreover have "whole_pages (ram_range (p_ram_base_addr p) (p_ram_size p) (alloc 0))"
    "whole_pages (ram_range ROM_BASE_ADDR (of_nat ROM_SIZE) (alloc 1))"
    using assms(3,4) b by (auto simp: whole_pages_def page_aligned_def)
  ultimately show ?thesis
    using ds by (auto simp: map_ok_def m nth_Cons' all_conj_distrib simp del: One_nat_def) 
qed

text \<open>One more device range that lies in a span.\<close>

lemma built_dev:
  assumes "built alloc p y" "mem_map y' = mem_map y @ [r]" "\<not> pr_is_ram r" "in_span p r"
  shows "built alloc p y'"
  using assms by (auto simp: built_def)

lemma span_self: "(pr_addr r, pr_size r) \<in> set (dev_spans p) \<Longrightarrow> in_span p r"
  by (force simp: in_span_def)

lemma size_flags: "ANY_SIZE AND DEVIO_DISABLED = 0" "DEVIO_SIZE32 AND DEVIO_DISABLED = 0"
  by (simp_all add: DEVIO_SIZE8_def DEVIO_SIZE16_def DEVIO_SIZE32_def DEVIO_DISABLED_def)

lemma built_reg_dev:
  assumes "built alloc p y" "reg_dev a z dv flags y = Inr y'" "flags AND DEVIO_DISABLED = 0" "(a, z) \<in> set (dev_spans p)"
  shows "built alloc p y'" "host y' = host y" "dev y' = dev y" "hart h y' = hart h y"
proof -
  obtain r where r: "y' = y\<lparr>mem_map := mem_map y @ [r]\<rparr>" "\<not> pr_is_ram r" "pr_addr r = a" "pr_size r = z"
    using reg_dev_Inr[OF assms(2,3)] by blast
  show "built alloc p y'" by (rule built_dev[OF assms(1) _ r(2)]) (use r assms(4) in \<open>auto intro: span_self\<close>)
  show "host y' = host y" "dev y' = dev y" "hart h y' = hart h y" using r(1) by (simp_all add: hart_def)
qed

text \<open>What a step of the construction that adds devices keeps.\<close>

definition same_harts :: "msys \<Rightarrow> msys \<Rightarrow> bool" where
  "same_harts y y' \<longleftrightarrow> host y' = host y \<and> ncpus (dev y') = ncpus (dev y) \<and> cur_hart (dev y') = cur_hart (dev y)
     \<and> (\<forall>h. hart h y' = hart h y)"

lemma built_reg_dev_same:
  assumes "built alloc p y \<and> same_harts y0 y" "reg_dev a z dv flags y = Inr y'" "flags AND DEVIO_DISABLED = 0"
    "(a, z) \<in> set (dev_spans p)"
  shows "built alloc p y' \<and> same_harts y0 y'"
  using assms(1) built_reg_dev[OF _ assms(2-4)] by (auto simp: same_harts_def)

lemma register_ranges_built:
  assumes "register_ranges alloc p y = Inr y'" "mem_map y = []"
  shows "built alloc p y' \<and> page_aligned (p_ram_size p) \<and> ncpus (dev y') = ncpus (dev y) \<and> cur_hart (dev y') = cur_hart (dev y)
    \<and> host y' = mallocz (mallocz (host y) (alloc 0) (p_ram_size p)) (alloc 1) (of_nat ROM_SIZE)
    \<and> (\<forall>h. hart h y' = (if h < ncpus (dev y) then (hart h y)\<lparr>physical_addr_len := p_physical_addr_len p\<rparr> else hart h y))"
proof -
  let ?f = "\<lambda>y :: msys. fold (\<lambda>i. upd_hart i (\<lambda>s. s\<lparr>physical_addr_len := p_physical_addr_len p\<rparr>)) [0..<ncpus (dev y)] y"
  obtain y1 y2 y3 y4 y5 y6 y7 where r: "reg_ram alloc (p_ram_base_addr p) (p_ram_size p) y = Inr y1"
    "reg_ram alloc ROM_BASE_ADDR (of_nat ROM_SIZE) y1 = Inr y2"
    "(if p_mmio_start p \<noteq> 0 then reg_dev (p_mmio_start p) (p_mmio_end p - p_mmio_start p) DevMmio ANY_SIZE (?f y2) else Inr (?f y2)) = Inr y3"
    "foldE (\<lambda>a. reg_dev (fst a) (snd a) DevMmio ANY_SIZE) (p_mmio_addrset p) y3 = Inr y4"
    "reg_dev UART0_BASE_ADDR UART0_SIZE DevUart DEVIO_SIZE32 y4 = Inr y5"
    "reg_dev DW_APB_UART0_BASE_ADDR DW_APB_UART0_SIZE DevDwApbUart ANY_SIZE y5 = Inr y6"
    "reg_dev (p_clint_base_addr p) (p_clint_size p) DevClint ANY_SIZE y6 = Inr y7"
    "reg_dev (p_plic_base_addr p) (p_plic_size p) DevPlic DEVIO_SIZE32 y7 = Inr y'"
    using assms(1) unfolding register_ranges_def Let_def bindE_Inr by blast
  note m1 = reg_ram_Inr[OF r(1)] and m2 = reg_ram_Inr[OF r(2)]
  let ?P = "\<lambda>z. built alloc p z \<and> same_harts (?f y2) z"
  have p0: "?P (?f y2)" using m1(1) m2(1) assms(2) by (simp add: built_def same_harts_def fold_upd_hart)
  have p3: "?P y3" using p0 r(3) built_reg_dev_same[OF p0] size_flags by (auto simp: dev_spans_def split: if_splits)
  have p4: "?P y4"
  proof (rule foldE_inv[where P = ?P, OF _ p3 r(4)])
    fix x s s' assume x: "x \<in> set (p_mmio_addrset p)" and s: "?P s" "reg_dev (fst x) (snd x) DevMmio ANY_SIZE s = Inr s'"
    show "?P s'" by (rule built_reg_dev_same[OF s size_flags(1)]) (use x in \<open>simp add: dev_spans_def\<close>)
  qed
  have p5: "?P y5" by (rule built_reg_dev_same[OF p4 r(5) size_flags(2)]) (simp add: dev_spans_def)
  have p6: "?P y6" by (rule built_reg_dev_same[OF p5 r(6) size_flags(1)]) (simp add: dev_spans_def)
  have p7: "?P y7" by (rule built_reg_dev_same[OF p6 r(7) size_flags(1)]) (simp add: dev_spans_def)
  have p8: "?P y'" by (rule built_reg_dev_same[OF p7 r(8) size_flags(2)]) (simp add: dev_spans_def)
  have "hart h y2 = hart h y" "ncpus (dev y2) = ncpus (dev y)" "cur_hart (dev y2) = cur_hart (dev y)" for h using m1(1) m2(1) by (simp_all add: hart_def)
  with p8 m1 m2 show ?thesis using assms(2) by (simp add: same_harts_def fold_upd_hart)
qed

lemma add_virtio_built:
  assumes f: "f \<in> virtio_inits" and s: "built alloc p (snd s) \<and> same_harts y0 (snd s) \<and> fst s + 2 \<le> length (mem_map (snd s))"
    and e: "add_virtio f s = Inr s'"
  shows "built alloc p (snd s') \<and> same_harts y0 (snd s') \<and> fst s' + 2 \<le> length (mem_map (snd s'))"
proof -
  obtain y where y: "f (fst s) (VIRTIO_BASE_ADDR + of_nat (fst s) * VIRTIO_SIZE) (unat VIRTIO_IRQ + fst s) (snd s) = Inr y"
    and s': "s' = (Suc (fst s), y)" using e by (auto simp: add_virtio_def split: sum.splits)
  obtain r where r: "mem_map y = mem_map (snd s) @ [r]" "\<not> pr_is_ram r" "pr_addr r = VIRTIO_BASE_ADDR + of_nat (fst s) * VIRTIO_SIZE"
    "pr_size r = 4096" "length (mem_map (snd s)) < 32" "same_harts (snd s) y"
    using virtio_inits_Inr[OF f y] by (auto simp: same_harts_def)
  have n: "fst s < 30" using s r(5) by simp
  have "unat (of_nat (fst s) * VIRTIO_SIZE) = fst s * 4096"
    using n by (simp add: VIRTIO_SIZE_def unat_word_ariths unat_of_nat)
  then have "unat (pr_addr r) = 0x40010000 + fst s * 4096"
    using n unfolding r(3) by (simp add: VIRTIO_BASE_ADDR_def unat_word_ariths)
  then have "in_span p r" using n r(4)
    by (auto simp: in_span_def dev_spans_def VIRTIO_BASE_ADDR_def VIRTIO_SIZE_def)
  then have "built alloc p y" using built_dev[OF _ r(1,2)] s by blast
  moreover have "same_harts y0 y" using s r(6) by (simp add: same_harts_def)
  ultimately show ?thesis using s r(1) by (simp add: s')
qed

lemma virtio_devices_inits: "f \<in> set (virtio_devices p) \<Longrightarrow> f \<in> virtio_inits"
  by (auto simp: virtio_devices_def virtio_inits_def split: if_splits)

lemma all_virtio_built:
  assumes "built alloc p y" "foldE add_virtio (virtio_devices p) (0, y) = Inr s" "add_input p s = Inr s'"
  shows "built alloc p (snd s') \<and> same_harts y (snd s')"
proof -
  let ?P = "\<lambda>s. built alloc p (snd s) \<and> same_harts y (snd s) \<and> fst s + 2 \<le> length (mem_map (snd s))"
  have p0: "?P (0, y)" using assms(1) by (auto simp: built_def same_harts_def)
  have p1: "?P s" by (rule foldE_inv[where P = ?P, OF _ p0 assms(2)]) (rule add_virtio_built[OF virtio_devices_inits])
  have "?P s'"
  proof (cases "p_input_device p")
    case None
    then show ?thesis using p1 assms(3) by (simp add: add_input_def)
  next
    case (Some name)
    then have "foldE add_virtio [virtio_input_init VIRTIO_INPUT_TYPE_KEYBOARD, virtio_input_init VIRTIO_INPUT_TYPE_TABLET] s = Inr s'"
      using assms(3) by (auto simp: add_input_def split: if_splits)
    then show ?thesis
      by (rule foldE_inv[where P = ?P, OF _ p1, rotated]) (rule add_virtio_built, auto simp: virtio_inits_def)
  qed
  then show ?thesis by blast
qed

section \<open>RAM and ROM of the built machine\<close>

lemma lookup_built:
  assumes b: "built alloc p y" and l: "layout_ok p" and base: "0x11000 \<le> unat (p_ram_base_addr p)"
  shows "unat (p_ram_base_addr p) \<le> unat a \<Longrightarrow> unat a < unat (p_ram_base_addr p) + unat (p_ram_size p)
      \<Longrightarrow> get_phys_mem_range (mem_map y) a = Some 0"
    and "0x10000 \<le> unat a \<Longrightarrow> unat a < 0x11000 \<Longrightarrow> get_phys_mem_range (mem_map y) a = Some 1"
proof -
  obtain ds where m: "mem_map y = ram_range (p_ram_base_addr p) (p_ram_size p) (alloc 0)
       # ram_range ROM_BASE_ADDR (of_nat ROM_SIZE) (alloc 1) # ds" and ds: "\<forall>r \<in> set ds. \<not> pr_is_ram r \<and> in_span p r"
    using b by (auto simp: built_def)
  have sz: "unat (p_ram_base_addr p) + unat (p_ram_size p) < 2 ^ 64" using l by (simp add: layout_ok_def)
  have rom: "in_range (ram_range ROM_BASE_ADDR (of_nat ROM_SIZE) (alloc 1)) a \<longleftrightarrow> 0x10000 \<le> unat a \<and> unat a < 0x11000"
    using ram_range_in[of ROM_BASE_ADDR "of_nat ROM_SIZE" "alloc 1" a] by simp
  have dv: "\<not> range_covers (mem_map y) j a" if "2 \<le> j" "\<And>r. in_span p r \<Longrightarrow> \<not> in_range r a" for j
    using that ds by (auto simp: range_covers_def m nth_Cons' dest!: nth_mem[of "j - 2" ds])
  show "get_phys_mem_range (mem_map y) a = Some 0"
    if a: "unat (p_ram_base_addr p) \<le> unat a" "unat a < unat (p_ram_base_addr p) + unat (p_ram_size p)"
  proof (rule pmap.lookup_eqI)
    show "range_covers (mem_map y) 0 a" using a by (simp add: range_covers_def m ram_range_in[OF sz])
    fix j assume j: "range_covers (mem_map y) j a"
    then have "j \<noteq> 1" using a base rom by (auto simp: range_covers_def m)
    moreover have "\<not> 2 \<le> j" using dv[of j] j dev_apart(1)[OF l _ a] by blast
    ultimately show "j \<le> 0" by simp
  qed
  show "get_phys_mem_range (mem_map y) a = Some 1" if a: "0x10000 \<le> unat a" "unat a < 0x11000"
  proof (rule pmap.lookup_eqI)
    show "range_covers (mem_map y) 1 a" using a rom by (simp add: range_covers_def m)
    fix j assume j: "range_covers (mem_map y) j a"
    then show "j \<le> 1" using dv[of j] dev_apart(2)[OF l _ a] by fastforce
  qed
qed

text \<open>
  The two blocks behind RAM and ROM: block 0 of \<open>ram_size\<close> bytes, block 1 of \<open>ROM_SIZE\<close> bytes. \<open>mem_off\<close> splits
  an address of either into block and offset.
\<close>

definition mem_base :: "VirtMachineParams \<Rightarrow> nat \<Rightarrow> u64" where
  "mem_base p i = (if i = 0 then p_ram_base_addr p else ROM_BASE_ADDR)"

definition mem_len :: "VirtMachineParams \<Rightarrow> nat \<Rightarrow> nat" where
  "mem_len p i = (if i = 0 then unat (p_ram_size p) else ROM_SIZE)"

definition machine_ok :: "(nat \<Rightarrow> u64) \<Rightarrow> VirtMachineParams \<Rightarrow> msys \<Rightarrow> bool" where
  "machine_ok alloc p y \<longleftrightarrow> built alloc p y \<and> layout_ok p \<and> 0x11000 \<le> unat (p_ram_base_addr p)"

lemma block_lookup:
  assumes "machine_ok alloc p y" "i \<le> 1" "k < mem_len p i"
  shows "get_phys_mem_range (mem_map y) (mem_base p i + of_nat k) = Some i"
    and "mem_map y ! i = ram_range (mem_base p i) (of_nat (mem_len p i)) (alloc i)"
    and "unat (mem_base p i + of_nat k) = unat (mem_base p i) + k"
proof -
  have b: "unat (p_ram_base_addr p) + unat (p_ram_size p) < 2 ^ 64" using assms(1) by (simp add: machine_ok_def layout_ok_def)
  have i: "i = 0 \<or> i = 1" using assms(2) by auto
  have "unat (mem_base p i) + k < 2 ^ 64" using i assms(3) b by (auto simp: mem_base_def mem_len_def)
  then show u: "unat (mem_base p i + of_nat k) = unat (mem_base p i) + k" by (simp add: unat_word_ariths unat_of_nat)
  show "get_phys_mem_range (mem_map y) (mem_base p i + of_nat k) = Some i"
    using i lookup_built[of alloc p y "mem_base p i + of_nat k"] assms(1,3) unfolding u machine_ok_def
    by (auto simp: mem_base_def mem_len_def)
  show "mem_map y ! i = ram_range (mem_base p i) (of_nat (mem_len p i)) (alloc i)"
    using i assms(1) by (auto simp: machine_ok_def built_def mem_base_def mem_len_def)
qed

lemma block_ptr:
  assumes "machine_ok alloc p y" "i \<le> 1" "k < mem_len p i"
  shows "get_ram_ptr (mem_base p i + of_nat k) y = alloc i + of_nat k"
    and "virtio_mmio_get_ram_ptr (mem_base p i + of_nat k) y = alloc i + of_nat k"
  using block_lookup[OF assms] by (simp_all add: get_ram_ptr_def virtio_mmio_get_ram_ptr_def ram_ptr_def)

lemma block_bytes:
  assumes "machine_ok alloc p y" "i \<le> 1" "k + n \<le> mem_len p i"
  shows "guest_bytes y (mem_base p i + of_nat k) n = load_bytes (host y) (alloc i + of_nat k) n"
  using block_ptr(2)[OF assms(1,2)] assms(3)
  by (auto simp: guest_bytes_def load_bytes_def add.assoc simp flip: of_nat_add)

text \<open>A copy that succeeds stays inside its block and changes only the bytes it writes.\<close>

lemma block_memcpy:
  assumes "machine_ok alloc p y" "i \<le> 1" "k < mem_len p i" "ram_memcpy (mem_base p i + of_nat k) off data y = Inr y'"
  shows "k + off + length data \<le> mem_len p i" "y' = y\<lparr>host := store_bytes (host y) (alloc i + of_nat (k + off)) data\<rparr>"
proof -
  note l = block_lookup[OF assms(1-3)]
  have "unat (of_nat k :: u64) = k" "unat (of_nat (mem_len p i) :: u64) = mem_len p i"
  proof -
    have "unat (p_ram_size p) < 2 ^ LENGTH(64)" by (rule unsigned_less)
    then have "mem_len p i < 2 ^ 64" by (simp add: mem_len_def)
    then show "unat (of_nat k :: u64) = k" "unat (of_nat (mem_len p i) :: u64) = mem_len p i"
      using assms(3) by (simp_all add: unat_of_nat)
  qed
  then show "k + off + length data \<le> mem_len p i" "y' = y\<lparr>host := store_bytes (host y) (alloc i + of_nat (k + off)) data\<rparr>"
    using assms(4) l(1,2) block_ptr(1)[OF assms(1-3)]
    by (auto simp: ram_memcpy_def Let_def add.assoc split: if_splits)
qed

lemma machine_ok_host: "machine_ok alloc p (y\<lparr>host := h\<rparr>) = machine_ok alloc p y"
  by (simp add: machine_ok_def built_def)

lemma load_store_apart:
  assumes "o1 + n \<le> o2 \<or> o2 + length data \<le> o1" "o1 + n \<le> 2 ^ 64" "o2 + length data \<le> 2 ^ 64"
  shows "load_bytes (store_bytes h (q + of_nat o2) data) (q + of_nat o1) n = load_bytes h (q + of_nat o1) n"
proof (rule load_bytes_cong, rule store_bytes_outside)
  fix a :: u64 assume "a \<in> host_region (q + of_nat o1) n"
  then obtain i where i: "i < n" "a = q + of_nat (o1 + i)" by (auto simp: host_region_def add.assoc)
  show "a \<notin> host_region (q + of_nat o2) (length data)"
  proof
    assume "a \<in> host_region (q + of_nat o2) (length data)"
    then obtain j where j: "j < length data" "a = q + of_nat (o2 + j)" by (auto simp: host_region_def add.assoc)
    then have "(of_nat (o1 + i) :: u64) = of_nat (o2 + j)" using i by simp
    then have "unat (of_nat (o1 + i) :: u64) = unat (of_nat (o2 + j) :: u64)" by simp
    then have "o1 + i = o2 + j" using assms(2,3) i(1) j(1) by (simp add: unat_of_nat del: of_nat_add)
    then show False using assms(1) i(1) j(1) by auto
  qed
qed

section \<open>The images\<close>

text \<open>The blocks of RAM and ROM do not overlap.\<close>

definition blocks_apart :: "(nat \<Rightarrow> u64) \<Rightarrow> VirtMachineParams \<Rightarrow> bool" where
  "blocks_apart alloc p \<longleftrightarrow> host_region (alloc 0) (mem_len p 0) \<inter> host_region (alloc 1) (mem_len p 1) = {}"

lemma load_store_other:
  assumes "blocks_apart alloc p" "o1 + n \<le> mem_len p 0" "o2 + length data \<le> mem_len p 1"
  shows "load_bytes (store_bytes h (alloc 1 + of_nat o2) data) (alloc 0 + of_nat o1) n = load_bytes h (alloc 0 + of_nat o1) n"
proof (rule load_bytes_cong, rule store_bytes_outside)
  fix a :: u64 assume "a \<in> host_region (alloc 0 + of_nat o1) n"
  then have "a \<in> host_region (alloc 0) (mem_len p 0)"
    using assms(2) by (auto simp: host_region_def add.assoc simp flip: of_nat_add)
  moreover have "host_region (alloc 1 + of_nat o2) (length data) \<subseteq> host_region (alloc 1) (mem_len p 1)"
    using assms(3) by (auto simp: host_region_def add.assoc simp flip: of_nat_add)
  ultimately show "a \<notin> host_region (alloc 1 + of_nat o2) (length data)" using assms(1) by (auto simp: blocks_apart_def)
qed

lemma mem_len_bound: "mem_len p i \<le> 2 ^ 64"
proof -
  have "unat (p_ram_size p) < 2 ^ LENGTH(64)" by (rule unsigned_less)
  then show ?thesis by (simp add: mem_len_def)
qed

text \<open>
  The steps of \<open>copy_kernel\<close> with a raw firmware, as stores. A file that is not given is empty. \<open>initrd_off\<close> is the offset
  of the initial RAM disk in RAM.
\<close>

definition file_bytes :: "u8 list option \<Rightarrow> u8 list" where
  "file_bytes f = (case f of None \<Rightarrow> [] | Some b \<Rightarrow> b)"

definition initrd_off :: "VirtMachineParams \<Rightarrow> nat" where
  "initrd_off p = unat (push_bit 12 (drop_bit 12 (p_ram_base_addr p + p_ram_size p - of_nat (length (file_bytes (p_initrd p)))))
     - p_ram_base_addr p)"

definition initrd_span :: "VirtMachineParams \<Rightarrow> u64 \<times> u64" where
  "initrd_span p = (if file_bytes (p_initrd p) = [] then (0, 0)
     else (p_ram_base_addr p + of_nat (initrd_off p), p_ram_base_addr p + p_ram_size p))"

lemma copy_firmware_raw:
  assumes "machine_ok alloc p y" "\<not> elf64_is_riscv64 fw" "0 < mem_len p 0"
    and "copy_firmware alloc fw_ptr (p_ram_base_addr p) fw tohost y = Inr (t, y')"
  shows "y' = y\<lparr>host := store_bytes (host y) (alloc 0 + of_nat 0) fw\<rparr>" "length fw \<le> mem_len p 0"
  using assms(2,4) block_memcpy[OF assms(1) _ assms(3), of 0 fw y'] by (auto simp: copy_firmware_def bindE_Inr mem_base_def)

lemma copy_kernel_image_stores:
  assumes ok: "machine_ok alloc p y" and e: "copy_kernel_image (machine_layout_of p n) (p_kernel p) y = Inr y'"
  shows "y' = y\<lparr>host := store_bytes (host y) (alloc 0 + of_nat 0x200000) (file_bytes (p_kernel p))\<rparr>"
    "file_bytes (p_kernel p) \<noteq> [] \<longrightarrow> 0x200000 + length (file_bytes (p_kernel p)) \<le> mem_len p 0"
proof -
  have "y' = y\<lparr>host := store_bytes (host y) (alloc 0 + of_nat 0x200000) k\<rparr> \<and> 0x200000 + length k \<le> mem_len p 0"
    if "p_kernel p = Some k" "k \<noteq> []" for k
  proof -
    have c: "\<not> p_ram_size p \<le> 0x200000" "ram_memcpy (p_ram_base_addr p + 0x200000) 0 k y = Inr y'"
      using e that by (auto simp: copy_kernel_image_def machine_layout_of_def KERNEL_OFFSET_def split: if_splits)
    then have "0x200000 < mem_len p 0" by (simp add: mem_len_def word_le_nat_alt)
    from block_memcpy[OF ok _ this, of 0 k y'] c(2) show ?thesis by (simp add: mem_base_def)
  qed
  moreover have "y' = y" if "file_bytes (p_kernel p) = []"
    using e that by (cases "p_kernel p") (auto simp: copy_kernel_image_def file_bytes_def)
  moreover have "p_kernel p = Some (file_bytes (p_kernel p))" if "file_bytes (p_kernel p) \<noteq> []"
    using that by (auto simp: file_bytes_def split: option.splits)
  ultimately show "y' = y\<lparr>host := store_bytes (host y) (alloc 0 + of_nat 0x200000) (file_bytes (p_kernel p))\<rparr>"
    "file_bytes (p_kernel p) \<noteq> [] \<longrightarrow> 0x200000 + length (file_bytes (p_kernel p)) \<le> mem_len p 0"
    by (cases "file_bytes (p_kernel p) = []"; force)+
qed

lemma copy_initrd_stores:
  assumes ok: "machine_ok alloc p y" and e: "copy_initrd (machine_layout_of p n) (p_initrd p) y = Inr (a, b, y')"
    and off: "file_bytes (p_initrd p) \<noteq> [] \<longrightarrow> initrd_off p < mem_len p 0"
  shows "y' = y\<lparr>host := store_bytes (host y) (alloc 0 + of_nat (initrd_off p)) (file_bytes (p_initrd p))\<rparr>"
    "file_bytes (p_initrd p) \<noteq> [] \<longrightarrow> initrd_off p + length (file_bytes (p_initrd p)) \<le> mem_len p 0" "(a, b) = initrd_span p"
proof -
  have "y' = y\<lparr>host := store_bytes (host y) (alloc 0 + of_nat (initrd_off p)) r\<rparr> \<and> initrd_off p + length r \<le> mem_len p 0
      \<and> (a, b) = initrd_span p" if r: "p_initrd p = Some r" "r \<noteq> []" for r
  proof -
    let ?start = "push_bit 12 (drop_bit 12 (p_ram_base_addr p + p_ram_size p - of_nat (length r)))"
    have s: "?start = p_ram_base_addr p + of_nat (initrd_off p)" using r by (simp add: initrd_off_def file_bytes_def)
    have c: "ram_memcpy ?start 0 r y = Inr y'" "a = ?start" "b = p_ram_base_addr p + p_ram_size p"
      using e r by (auto simp: copy_initrd_def machine_layout_of_def Let_def bindE_Inr split: if_splits)
    have "initrd_off p < mem_len p 0" using off r by (simp add: file_bytes_def)
    from block_memcpy[OF ok _ this, of 0 r y'] c show ?thesis
      unfolding s using r by (simp add: mem_base_def initrd_span_def file_bytes_def)
  qed
  moreover have "y' = y \<and> (a, b) = initrd_span p" if "file_bytes (p_initrd p) = []"
    using e that by (cases "p_initrd p") (auto simp: copy_initrd_def file_bytes_def initrd_span_def)
  moreover have "p_initrd p = Some (file_bytes (p_initrd p))" if "file_bytes (p_initrd p) \<noteq> []"
    using that by (auto simp: file_bytes_def split: option.splits)
  ultimately show "y' = y\<lparr>host := store_bytes (host y) (alloc 0 + of_nat (initrd_off p)) (file_bytes (p_initrd p))\<rparr>"
    "file_bytes (p_initrd p) \<noteq> [] \<longrightarrow> initrd_off p + length (file_bytes (p_initrd p)) \<le> mem_len p 0" "(a, b) = initrd_span p"
    by (cases "file_bytes (p_initrd p) = []"; force)+
qed

definition fdt_offset :: "VirtMachineParams \<Rightarrow> u32 \<Rightarrow> nat" where
  "fdt_offset p sz = (if p_compact_bootrom p then unat sz else 256)"

lemma machine_layout_base: "ram_base_addr (machine_layout_of p n) = p_ram_base_addr p"
  by (simp add: machine_layout_of_def)

lemma copy_boot_rom_stores:
  assumes ok: "machine_ok alloc p y" and e: "copy_boot_rom (machine_layout_of p n) boot dtb dump cmd a b y = Inr y'"
  shows "\<exists>rom sz fdt. boot_rom_bytes boot (ncpus (dev y)) (p_ram_base_addr p) = Inr (rom, sz)
    \<and> riscv_build_fdt (machine_layout_of p n) (map (\<lambda>h. hart h y) [0..<ncpus (dev y)]) dtb dump cmd a b = Inr fdt
    \<and> y' = y\<lparr>host := store_bytes (store_bytes (host y) (alloc 1 + of_nat 0) rom) (alloc 1 + of_nat (fdt_offset p sz)) fdt\<rparr>
    \<and> length rom \<le> mem_len p 1 \<and> fdt_offset p sz + length fdt \<le> mem_len p 1"
proof -
  have f: "unat ((ucast (BOOT_BASE_ADDR - ROM_BASE_ADDR) :: u32) + (if compact_bootrom (machine_layout_of p n) then sz else 256))
    = fdt_offset p sz" for sz by (simp add: fdt_offset_def machine_layout_of_def)
  obtain rom sz y1 fdt where c: "boot_rom_bytes boot (ncpus (dev y)) (p_ram_base_addr p) = Inr (rom, sz)"
    "ram_memcpy ROM_BASE_ADDR 0 rom y = Inr y1"
    "riscv_build_fdt (machine_layout_of p n) (map (\<lambda>h. hart h y1) [0..<ncpus (dev y1)]) dtb dump cmd a b = Inr fdt"
    "ram_memcpy ROM_BASE_ADDR (fdt_offset p sz) fdt y1 = Inr y'"
    using e unfolding copy_boot_rom_def bindE_Inr Let_def f case_sum_Inr by (auto simp: bindE_Inr case_sum_Inr machine_layout_base)
  have r: "0 < mem_len p 1" "mem_base p 1 + of_nat 0 = ROM_BASE_ADDR" by (simp_all add: mem_len_def mem_base_def)
  note m1 = block_memcpy[OF ok order.refl r(1), unfolded r(2), OF c(2)]
  have ok1: "machine_ok alloc p y1" using ok m1(2) by (simp add: machine_ok_host)
  note m2 = block_memcpy[OF ok1 order.refl r(1), unfolded r(2), OF c(4)]
  have h: "hart h y1 = hart h y" "dev y1 = dev y" for h using m1(2) by (simp_all add: hart_def)
  show ?thesis using c(1,3) m1 m2 unfolding h by (intro exI[of _ rom] exI[of _ sz] exI[of _ fdt]) simp
qed

text \<open>The steps of a successful construction with a raw firmware.\<close>

lemma copy_kernel_Inr:
  assumes "copy_kernel alloc fw_ptr dump (machine_layout_of p n) tohost p fw y = Inr (t, y')" "\<not> elf64_is_riscv64 fw"
  obtains y1 y2 y3 y4 a b where "copy_firmware alloc fw_ptr (p_ram_base_addr p) fw tohost y = Inr (t, y1)"
    "copy_kernel_image (machine_layout_of p n) (p_kernel p) y1 = Inr y2"
    "copy_initrd (machine_layout_of p n) (p_initrd p) y2 = Inr (a, b, y3)"
    "copy_boot_rom (machine_layout_of p n) (p_bootrom p) (p_dtb p) dump (p_cmdline p) a b y3 = Inr y4"
    "y' = fold (\<lambda>i. upd_hart i (riscv_set_debug_mode True)) [0..<ncpus (dev y4)] y4"
    "p_ram_base_addr p \<in> {0x80000000, 0x8000000000, 0xC000000000}"
  using assms(1) unfolding copy_kernel_def bindE_Inr machine_layout_base
  by (auto simp: bindE_Inr split: if_splits)

lemma init_Inr:
  assumes "virt_machine_init alloc fw_ptr dump jk h p = Inr (tohost, y)" "p_bios p = Some fw"
  obtains y1 s n y2 y3 where "register_ranges alloc p (machine_start jk h p) = Inr y1"
    "foldE add_virtio (virtio_devices p) (0, y1) = Inr s" "add_input p s = Inr (n, y2)"
    "copy_kernel alloc fw_ptr dump (machine_layout_of p n) (p_htif_base_addr p) p fw y2 = Inr (tohost, y3)"
    "y = y3\<lparr>vm := (vm y3)\<lparr>cosim := False, vm_pending_exception := - 1, vm_pending_interrupt := - 1\<rparr>\<rparr>"
  using assms unfolding virt_machine_init_def bindE_Inr by (auto simp: bindE_Inr split: if_splits)

lemma copy_kernel_stores:
  assumes ok: "machine_ok alloc p y" and raw: "\<not> elf64_is_riscv64 fw" and z: "0 < mem_len p 0"
    and off: "file_bytes (p_initrd p) \<noteq> [] \<longrightarrow> initrd_off p < mem_len p 0"
    and e: "copy_kernel alloc fw_ptr dump (machine_layout_of p n) tohost p fw y = Inr (t, y')"
  shows "\<exists>rom sz fdt. boot_rom_bytes (p_bootrom p) (ncpus (dev y)) (p_ram_base_addr p) = Inr (rom, sz)
    \<and> riscv_build_fdt (machine_layout_of p n) (map (\<lambda>h. hart h y) [0..<ncpus (dev y)]) (p_dtb p) dump (p_cmdline p)
        (fst (initrd_span p)) (snd (initrd_span p)) = Inr fdt
    \<and> host y' = store_bytes (store_bytes (store_bytes (store_bytes (store_bytes (host y) (alloc 0 + of_nat 0) fw)
        (alloc 0 + of_nat 0x200000) (file_bytes (p_kernel p))) (alloc 0 + of_nat (initrd_off p)) (file_bytes (p_initrd p)))
        (alloc 1 + of_nat 0) rom) (alloc 1 + of_nat (fdt_offset p sz)) fdt
    \<and> length fw \<le> mem_len p 0 \<and> length rom \<le> mem_len p 1 \<and> fdt_offset p sz + length fdt \<le> mem_len p 1
    \<and> (file_bytes (p_kernel p) \<noteq> [] \<longrightarrow> 0x200000 + length (file_bytes (p_kernel p)) \<le> mem_len p 0)
    \<and> (file_bytes (p_initrd p) \<noteq> [] \<longrightarrow> initrd_off p + length (file_bytes (p_initrd p)) \<le> mem_len p 0)
    \<and> machine_ok alloc p y'"
proof -
  from e raw obtain y1 y2 y3 y4 a b where c: "copy_firmware alloc fw_ptr (p_ram_base_addr p) fw tohost y = Inr (t, y1)"
    "copy_kernel_image (machine_layout_of p n) (p_kernel p) y1 = Inr y2"
    "copy_initrd (machine_layout_of p n) (p_initrd p) y2 = Inr (a, b, y3)"
    "copy_boot_rom (machine_layout_of p n) (p_bootrom p) (p_dtb p) dump (p_cmdline p) a b y3 = Inr y4"
    "y' = fold (\<lambda>i. upd_hart i (riscv_set_debug_mode True)) [0..<ncpus (dev y4)] y4"
    by (rule copy_kernel_Inr)
  note m1 = copy_firmware_raw[OF ok raw z c(1)]
  have ok1: "machine_ok alloc p y1" using ok by (simp add: m1 machine_ok_host)
  note m2 = copy_kernel_image_stores[OF ok1 c(2)]
  have ok2: "machine_ok alloc p y2" using ok1 m2(1) by (simp add: machine_ok_host)
  note m3 = copy_initrd_stores[OF ok2 c(3) off]
  have ok3: "machine_ok alloc p y3" using ok2 m3(1) by (simp add: machine_ok_host)
  have y3: "dev y3 = dev y" "hart h y3 = hart h y" for h using m1(1) m2(1) m3(1) by (simp_all add: hart_def)
  have ab: "a = fst (initrd_span p)" "b = snd (initrd_span p)" using m3(3) by (metis fst_conv snd_conv)+
  from copy_boot_rom_stores[OF ok3 c(4)] obtain rom sz fdt where m4: "boot_rom_bytes (p_bootrom p) (ncpus (dev y)) (p_ram_base_addr p) = Inr (rom, sz)"
    "riscv_build_fdt (machine_layout_of p n) (map (\<lambda>h. hart h y) [0..<ncpus (dev y)]) (p_dtb p) dump (p_cmdline p)
        (fst (initrd_span p)) (snd (initrd_span p)) = Inr fdt"
    "y4 = y3\<lparr>host := store_bytes (store_bytes (host y3) (alloc 1 + of_nat 0) rom) (alloc 1 + of_nat (fdt_offset p sz)) fdt\<rparr>"
    "length rom \<le> mem_len p 1" "fdt_offset p sz + length fdt \<le> mem_len p 1" unfolding y3 ab by blast
  have "machine_ok alloc p y4" using ok3 m4(3) by (simp add: machine_ok_host)
  then have "machine_ok alloc p y'" unfolding c(5) by (simp add: machine_ok_def built_def fold_upd_hart)
  moreover have "host y' = host y4" by (simp add: c(5) fold_upd_hart)
  ultimately show ?thesis using m1 m2 m3 m4 by (intro exI[of _ rom] exI[of _ sz] exI[of _ fdt]) simp
qed

section \<open>The built machine\<close>

definition boot_hart :: "VirtMachineParams \<Rightarrow> nat \<Rightarrow> RISCVCPUState" where
  "boot_hart p h = (riscv_cpu_init (p_reset_vector p) (p_custom_extension p) (of_nat h))\<lparr>physical_addr_len := p_physical_addr_len p\<rparr>"

lemma start_hart: "hart h (machine_start jk m p) = riscv_cpu_init (p_reset_vector p) (p_custom_extension p) (of_nat h)"
  by (simp add: machine_start_def hart_def Let_def)

text \<open>The machine before the images are copied.\<close>

lemma devices_built:
  assumes "register_ranges alloc p (machine_start jk m p) = Inr y1" "foldE add_virtio (virtio_devices p) (0, y1) = Inr s"
    "add_input p s = Inr (n, y2)"
  shows "built alloc p y2" "ncpus (dev y2) = p_ncpus p" "cur_hart (dev y2) = 0" "page_aligned (p_ram_size p)"
    "h < p_ncpus p \<Longrightarrow> hart h y2 = boot_hart p h"
proof -
  have m: "mem_map (machine_start jk m p) = []" "ncpus (dev (machine_start jk m p)) = p_ncpus p"
    "cur_hart (dev (machine_start jk m p)) = 0"
    by (simp_all add: machine_start_def Let_def phys_mem_map_init_def)
  note r = register_ranges_built[OF assms(1) m(1)]
  have v: "built alloc p y2 \<and> same_harts y1 y2" using all_virtio_built[OF _ assms(2,3)] r by auto
  then show "built alloc p y2" "ncpus (dev y2) = p_ncpus p" "cur_hart (dev y2) = 0" "page_aligned (p_ram_size p)"
    "h < p_ncpus p \<Longrightarrow> hart h y2 = boot_hart p h"
    using r m(2,3) by (auto simp: same_harts_def start_hart boot_hart_def)
qed

lemma ram_memcpy_keeps: "ram_memcpy a off data y = Inr y' \<Longrightarrow> \<exists>h. y' = y\<lparr>host := h\<rparr>"
  by (auto simp: ram_memcpy_def Let_def split: if_splits)

lemma copy_keeps:
  assumes "copy_kernel alloc fw_ptr dump (machine_layout_of p n) tohost p fw y = Inr (t, y')" "\<not> elf64_is_riscv64 fw"
  shows "\<exists>h. y' = fold (\<lambda>i. upd_hart i (riscv_set_debug_mode True)) [0..<ncpus (dev y)] (y\<lparr>host := h\<rparr>)"
    "p_ram_base_addr p \<in> {0x80000000, 0x8000000000, 0xC000000000}"
proof -
  from assms obtain y1 y2 y3 y4 a b where c: "copy_firmware alloc fw_ptr (p_ram_base_addr p) fw tohost y = Inr (t, y1)"
    "copy_kernel_image (machine_layout_of p n) (p_kernel p) y1 = Inr y2"
    "copy_initrd (machine_layout_of p n) (p_initrd p) y2 = Inr (a, b, y3)"
    "copy_boot_rom (machine_layout_of p n) (p_bootrom p) (p_dtb p) dump (p_cmdline p) a b y3 = Inr y4"
    "y' = fold (\<lambda>i. upd_hart i (riscv_set_debug_mode True)) [0..<ncpus (dev y4)] y4"
    and "p_ram_base_addr p \<in> {0x80000000, 0x8000000000, 0xC000000000}"
    by (rule copy_kernel_Inr)
  then show "p_ram_base_addr p \<in> {0x80000000, 0x8000000000, 0xC000000000}" by simp
  have "\<exists>h. y1 = y\<lparr>host := h\<rparr>" using c(1) assms(2) ram_memcpy_keeps by (auto simp: copy_firmware_def bindE_Inr)
  moreover have "\<exists>h. y2 = y1\<lparr>host := h\<rparr>"
    using c(2) ram_memcpy_keeps by (auto simp: copy_kernel_image_def split: option.splits if_splits intro: exI[of _ "host y1"])
  moreover have "\<exists>h. y3 = y2\<lparr>host := h\<rparr>"
    using c(3) ram_memcpy_keeps
    by (auto simp: copy_initrd_def bindE_Inr Let_def split: option.splits if_splits intro: exI[of _ "host y2"])
  moreover have "\<exists>h. y4 = y3\<lparr>host := h\<rparr>"
    using c(4) unfolding copy_boot_rom_def bindE_Inr Let_def case_sum_Inr
    by (auto simp: bindE_Inr case_sum_Inr dest!: ram_memcpy_keeps)
  ultimately obtain h where "y4 = y\<lparr>host := h\<rparr>" by auto
  with c(5) show "\<exists>h. y' = fold (\<lambda>i. upd_hart i (riscv_set_debug_mode True)) [0..<ncpus (dev y)] (y\<lparr>host := h\<rparr>)"
    by (intro exI[of _ h]) simp
qed

lemma ram_base_facts:
  assumes "p_ram_base_addr p \<in> {0x80000000, 0x8000000000, 0xC000000000}"
  shows "page_aligned (p_ram_base_addr p)" "0x11000 \<le> unat (p_ram_base_addr p)"
  using assms by (auto simp: page_aligned_def)

lemma hart_inv_debug: "hart_inv (riscv_set_debug_mode b s) = hart_inv s"
  by (simp add: riscv_set_debug_mode_def hart_inv_def inv_unfold)


lemma guest_bytes_vm: "guest_bytes (y\<lparr>vm := v\<rparr>) a n = guest_bytes y a n"
proof -
  have "virtio_mmio_get_ram_ptr b (y\<lparr>vm := v\<rparr>) = virtio_mmio_get_ram_ptr b y" for b
    by (simp add: virtio_mmio_get_ram_ptr_def split: option.split)
  then show ?thesis by (simp add: guest_bytes_def)
qed

lemma load_store_skip:
  assumes "o1 + n \<le> mem_len p i" "data \<noteq> [] \<longrightarrow> (o1 + n \<le> o2 \<or> o2 + length data \<le> o1) \<and> o2 + length data \<le> mem_len p i"
  shows "load_bytes (store_bytes h (q + of_nat o2) data) (q + of_nat o1) n = load_bytes h (q + of_nat o1) n"
  using assms load_store_apart[of o1 n o2 data] mem_len_bound[of p i] by (cases "data = []") auto

lemma load_store_same:
  assumes "o1 + length data \<le> mem_len p i"
  shows "load_bytes (store_bytes h q data) q (length data) = data"
  using assms mem_len_bound[of p i] by (intro load_store_bytes) simp


section \<open>A machine with one hart and four megabytes\<close>

definition demo_params :: VirtMachineParams where
  "demo_params = virt_machine_set_defaults\<lparr>p_ram_size := 0x400000, p_ncpus := 1, p_bios := Some [0x6f, 0, 0, 0],
     p_kernel := Some [1, 2], p_initrd := Some [3], p_dtb := Some (Some [4])\<rparr>"

definition demo_alloc :: "nat \<Rightarrow> u64" where
  "demo_alloc i = (if i = 0 then 0x7f0000000000 else 0x7f1000000000)"

lemma demo_params_sel: "layout_ok demo_params"
  by (simp add: layout_ok_def dev_spans_def demo_params_def virt_machine_set_defaults_def clear_of_def init_consts layout_consts)

lemma demo_regs:
  "\<exists>y. register_ranges demo_alloc demo_params (machine_start (\<lambda>_ _. 0) (\<lambda>_. 0) demo_params) = Inr y"
  by (simp add: register_ranges_def demo_params_def virt_machine_set_defaults_def machine_start_def reg_ram_def default_register_ram_def
   register_ram_entry_def reg_dev_def cpu_register_device_def Let_def init_consts layout_consts demo_alloc_def phys_mem_map_init_def PHYS_MEM_RANGE_MAX_def
   DEVRAM_PAGE_SIZE_def DEVRAM_FLAG_DISABLED_def DEVRAM_FLAG_DIRTY_BITS_def upd_hart_def)

lemma block_memcpy_ok:
  assumes "machine_ok alloc p y" "i \<le> 1" "k < mem_len p i" "k + off + length data \<le> mem_len p i" "alloc i + of_nat k \<noteq> 0"
  shows "\<exists>h. ram_memcpy (mem_base p i + of_nat k) off data y = Inr (y\<lparr>host := h\<rparr>)"
proof -
  have "mem_len p i < 2 ^ 64"
  proof -
    have "unat (p_ram_size p) < 2 ^ LENGTH(64)" by (rule unsigned_less)
    then show ?thesis by (simp add: mem_len_def)
  qed
  then have "unat (of_nat k :: u64) = k" "unat (of_nat (mem_len p i) :: u64) = mem_len p i"
    using assms(3) by (simp_all add: unat_of_nat)
  then show ?thesis
    using assms(4,5) block_lookup[OF assms(1-3)] block_ptr(1)[OF assms(1-3)] by (auto simp: ram_memcpy_def Let_def)
qed

lemma demo_init: "\<exists>t y. virt_machine_init demo_alloc 0 True (\<lambda>_ _. 0) (\<lambda>_. 0) demo_params = Inr (t, y)"
proof -
  let ?p = demo_params
  have p: "p_ram_base_addr ?p = 0x80000000" "p_ram_size ?p = 0x400000" "p_ncpus ?p = 1" "p_bios ?p = Some [0x6f, 0, 0, 0]"
    "p_kernel ?p = Some [1, 2]" "p_initrd ?p = Some [3]" "p_dtb ?p = Some (Some [4])" "p_console ?p = False" "p_eth ?p = []"
    "p_drives ?p = []" "p_input_device ?p = None" "p_bootrom ?p = None" "p_compact_bootrom ?p = False"
    by (simp_all add: demo_params_def virt_machine_set_defaults_def RAM_BASE_ADDR_def)
  obtain y where y: "register_ranges demo_alloc ?p (machine_start (\<lambda>_ _. 0) (\<lambda>_. 0) ?p) = Inr y" using demo_regs by blast
  have b: "built demo_alloc ?p y"
    using register_ranges_built[OF y] by (simp add: machine_start_def Let_def phys_mem_map_init_def)
  have ok: "machine_ok demo_alloc ?p (y\<lparr>host := h\<rparr>)" for h
    using b demo_params_sel p(1) by (simp add: machine_ok_host) (simp add: machine_ok_def)
  have len: "mem_len ?p 0 = 0x400000" "mem_len ?p 1 = 0x1000" "mem_base ?p 0 = 0x80000000" "mem_base ?p 1 = 0x10000"
    by (simp_all add: mem_len_def mem_base_def p)
  have w0: "\<exists>h'. ram_memcpy (0x80000000 + of_nat k) off data (y\<lparr>host := h\<rparr>) = Inr (y\<lparr>host := h'\<rparr>)"
    if "k + off + length data \<le> 0x400000" "k < 0x400000" "0x7f0000000000 + of_nat k \<noteq> (0 :: u64)" for k off data h
    using block_memcpy_ok[OF ok, of 0 k off data h] that by (simp add: len demo_alloc_def)
  have w1: "\<exists>h'. ram_memcpy 0x10000 off data (y\<lparr>host := h\<rparr>) = Inr (y\<lparr>host := h'\<rparr>)"
    if "off + length data \<le> 0x1000" for off data h
    using block_memcpy_ok[OF ok, of 1 0 off data h] that by (simp add: len(2,4)[unfolded One_nat_def] demo_alloc_def)
  obtain h1 where h1: "ram_memcpy 0x80000000 0 [0x6f, 0, 0, 0] y = Inr (y\<lparr>host := h1\<rparr>)"
    using w0[of 0 0 "[0x6f, 0, 0, 0]" "host y"] by auto
  obtain h2 where h2: "ram_memcpy 0x80200000 0 [1, 2] (y\<lparr>host := h1\<rparr>) = Inr (y\<lparr>host := h2\<rparr>)"
    using w0[of "0x200000" 0 "[1, 2]" h1] by auto
  obtain h3 where h3: "ram_memcpy 0x803ff000 0 [3] (y\<lparr>host := h2\<rparr>) = Inr (y\<lparr>host := h3\<rparr>)"
    using w0[of "0x3ff000" 0 "[3]" h2] by auto
  define b where "b = concat (map word_bytes (hard_boot_rom 1 0x80000000))"
  have "length b = 48" by (simp add: b_def hard_boot_rom_def word_bytes_def)
  then obtain h4 where h4: "ram_memcpy 0x10000 0 b (y\<lparr>host := h3\<rparr>) = Inr (y\<lparr>host := h4\<rparr>)"
    using w1[of 0 b h3] by auto
  obtain h5 where h5: "ram_memcpy 0x10000 256 [4] (y\<lparr>host := h4\<rparr>) = Inr (y\<lparr>host := h5\<rparr>)"
    using w1[of 256 "[4]" h4] by auto
  have n: "ncpus (dev y) = 1" using devices_built[OF y, of "(0, y)" 0 y] p by (simp add: virtio_devices_def add_input_def)
  have rb: "boot_rom_bytes None (Suc 0) 0x80000000 = Inr (b, 52)" by (simp add: boot_rom_bytes_def b_def)
  have "copy_boot_rom (machine_layout_of ?p 0) None (Some (Some [4])) True (p_cmdline ?p) e1 e2 (y\<lparr>host := h3\<rparr>) = Inr (y\<lparr>host := h5\<rparr>)" for e1 e2
    by (simp add: copy_boot_rom_def machine_layout_of_def p n rb h4 h5 riscv_build_fdt_def)
  then have "\<exists>t y'. copy_kernel demo_alloc 0 True (machine_layout_of ?p 0) (p_htif_base_addr ?p) ?p [0x6f, 0, 0, 0] y = Inr (t, y')"
    using h1 h2 h3 by (simp add: copy_kernel_def copy_firmware_def elf64_is_riscv64_def copy_kernel_image_def copy_initrd_def
        machine_layout_of_def p KERNEL_OFFSET_def Let_def)
  then show ?thesis
    using y by (auto simp: virt_machine_init_def p MAX_CPUS_def virtio_devices_def add_input_def)
qed

lemma demo_params_fields:
  "p_bios demo_params = Some [0x6f, 0, 0, 0]" "p_reset_vector demo_params = 0x10000" "p_physical_addr_len demo_params = 40"
  "p_ncpus demo_params = 1" "p_ram_base_addr demo_params = 0x80000000" "p_ram_size demo_params = 0x400000"
  "p_kernel demo_params = Some [1, 2]" "p_initrd demo_params = Some [3]" "p_bootrom demo_params = None"
  "p_compact_bootrom demo_params = False"
  by (simp_all add: demo_params_def virt_machine_set_defaults_def RAM_BASE_ADDR_def PHYSICAL_ADDR_LEN_DEFAULT_def)


lemma demo_blocks: "blocks_apart demo_alloc demo_params"
proof -
  have "(0x7f0000000000 :: u64) + of_nat i \<noteq> 0x7f1000000000 + of_nat j" if "i < 0x400000" "j < 0x1000" for i j
  proof
    assume "(0x7f0000000000 :: u64) + of_nat i = 0x7f1000000000 + of_nat j"
    then have "unat (of_nat (0x7f0000000000 + i) :: u64) = unat (of_nat (0x7f1000000000 + j) :: u64)" by simp
    then show False using that by (simp add: unat_of_nat del: of_nat_add)
  qed
  then show ?thesis
    by (auto simp: blocks_apart_def host_region_def demo_alloc_def mem_len_def demo_params_def virt_machine_set_defaults_def)
qed


end
