(* ===== verification/Spec2Isabelle.thy ===== *)
theory Spec2Isabelle
  imports Iomem_Theorems Device_Theorems Boot_Rom_Theorems Cosim Fdt_Theorems Init_Theorems
begin

text \<open>
  \<^bold>\<open>Dromajo, the RISC-V golden model of the scalar unit.\<close>

  The repository holds a RISC-V scalar core in SystemVerilog and, as the reference it is compared with,
  the instruction-set simulator Dromajo under \<^verbatim>\<open>src/sub/riscv_core/corev_apu/tb/dromajo/src/\<close>. This
  development models the simulator in the configuration the build selects (\<^verbatim>\<open>XLEN\<close> and \<^verbatim>\<open>FLEN\<close> 64, no
  \<^verbatim>\<open>LIVECACHE\<close>, accessed and dirty bits managed by software, misaligned accesses trap). File names below
  are relative to that directory.

  \<^bold>\<open>The parts and how they interact.\<close> A machine owns one or more harts and a physical memory map. The
  interpreter runs one hart for a number of cycles: it checks for an interrupt, fetches through the
  instruction TLB, decodes and executes, and takes a trap when an instruction fails. Loads, stores and
  fetches go through a per-hart TLB; a miss walks the page tables in physical memory, decodes the
  physical address in the memory map and either touches a RAM block of the host or calls the read or
  write callback of a device. The devices in turn change interrupt-pending bits of the harts. A
  checkpoint writes out the memory and a generated boot ROM whose program restores the registers. Virtio
  devices read requests from queues in guest memory and answer them there. Before the first cycle the
  machine is built from its parameters: memory map, devices, images in RAM, boot ROM and device tree. In
  co-simulation the simulator executes one instruction per instruction the core under test commits and
  compares the results.

  \<^bold>\<open>Theories and the code they model.\<close>

  \<^item> \<^verbatim>\<open>Prelude\<close>: named collections, word and list lemmas, the byte store of the host
    (little-endian loads and stores through typed pointers), \<^verbatim>\<open>sext\<close>, \<^verbatim>\<open>get_field1\<close>, \<^verbatim>\<open>ctz32\<close>.
  \<^item> \<^verbatim>\<open>Iomem\<close>, \<^verbatim>\<open>Iomem_Theorems\<close>: \<^verbatim>\<open>iomem.cpp\<close> and \<^verbatim>\<open>iomem.h\<close>; ranges, registration, decoding, dirty pages.
  \<^item> \<^verbatim>\<open>Cpu_State\<close>: \<^verbatim>\<open>RISCVCPUState\<close> of \<^verbatim>\<open>riscv_cpu.h\<close> as a record, initialisation, TLB flushes,
    \<^verbatim>\<open>get_mstatus\<close> and \<^verbatim>\<open>set_mstatus\<close>, and the accessors at the end of \<^verbatim>\<open>riscv_cpu.cpp\<close>.
  \<^item> \<^verbatim>\<open>Csr\<close>: \<^verbatim>\<open>csr_read\<close> and \<^verbatim>\<open>csr_write\<close> with the PMP unpacking; the invariant \<open>csr_inv\<close>.
  \<^item> \<^verbatim>\<open>Trap\<close>: \<^verbatim>\<open>raise_exception2\<close>, \<^verbatim>\<open>handle_sret\<close>, \<^verbatim>\<open>handle_mret\<close>, \<^verbatim>\<open>handle_dret\<close> and the interrupt
    selection; the invariant \<open>hart_inv\<close>.
  \<^item> \<^verbatim>\<open>Mmu\<close>, \<^verbatim>\<open>Mmu_Theorems\<close>: \<^verbatim>\<open>riscv_cpu_get_phys_addr\<close>, the slow and fast paths of loads, stores and
    fetches. A system state \<open>sys\<close> is the hart, the memory map with the host memory, and the state the
    device callbacks work on; the callbacks are an argument of type \<open>mmio\<close>.
  \<^item> \<^verbatim>\<open>Alu\<close>: the division and high-product helpers of \<^verbatim>\<open>dromajo_template.h\<close>.
  \<^item> \<^verbatim>\<open>Exec\<close>, \<^verbatim>\<open>Exec_Theorems\<close>: every case of the opcode switch of \<^verbatim>\<open>dromajo_template.h\<close>, one definition per
    instruction group, returning how the instruction leaves the switch (\<open>ctl\<close>: next instruction, jump,
    illegal, exception, end of the run).
  \<^item> \<^verbatim>\<open>Interp\<close>: the loop of \<^verbatim>\<open>riscv_cpu_interp64\<close> with its local variables as a record and its labels as
    definitions.
  \<^item> \<^verbatim>\<open>Softfp\<close>: the floating-point library, \<^verbatim>\<open>softfp_template.h\<close>, \<^verbatim>\<open>softfp_template_icvt.h\<close>, \<^verbatim>\<open>softfp.cpp\<close> and
    \<^verbatim>\<open>softfp.h\<close>, once for every word size: the width \<open>f\<close> of the word is the macro parameter
    \<^verbatim>\<open>F_SIZE\<close>. \<^verbatim>\<open>Softfp_Round\<close> has the IEEE 754 specification (\<open>ieee_round\<close>, \<open>rounds_to\<close>,
    \<open>rounds_real\<close>: a real number is rounded to the nearest value of the format, or as the mode directs, with the
    flags), \<^verbatim>\<open>Softfp_Pack\<close>, \<^verbatim>\<open>Softfp_Arith\<close>, \<^verbatim>\<open>Softfp_Add\<close>, \<^verbatim>\<open>Softfp_Fma\<close>, \<^verbatim>\<open>Softfp_Cvt\<close> the lemmas on rounding and
    packing and on each group of operations, \<^verbatim>\<open>Softfp_Theorems\<close> the results at the two sizes the simulator uses.
  \<^item> \<^verbatim>\<open>Fpu\<close>, \<^verbatim>\<open>Fpu_Theorems\<close>: the floating-point opcodes of \<^verbatim>\<open>dromajo_fp_template.h\<close> and the fused multiply-add
    opcodes; \<open>dromajo_fpu\<close> is the instance of the argument \<open>fpu\<close> of the instruction semantics.
  \<^item> \<^verbatim>\<open>Devices\<close>, \<^verbatim>\<open>Device_Theorems\<close>: the two UARTs, CLINT, PLIC and interrupt lines of
    \<^verbatim>\<open>riscv_machine.cpp\<close> and \<^verbatim>\<open>dw_apb_uart.cpp\<close>.
  \<^item> \<^verbatim>\<open>Virtio\<close>: \<^verbatim>\<open>virtio.cpp\<close> with the MMIO transport: registers, queues and descriptor chains, the console, network,
    block and input devices with their configuration, and the block file of \<^verbatim>\<open>dromajo_main.cpp\<close>.
    \<^verbatim>\<open>Virtio_Steps\<close>: the elementary effects a device can have as an inductive step relation, and the proof
    that every operation is a sequence of them. \<^verbatim>\<open>Virtio_Theorems\<close>: what follows, and the functional results.
  \<^item> \<^verbatim>\<open>Machine\<close>: \<open>machine_mmio\<close> dispatches an access to the callback that the machine registered, which closes
    the model: interpreter, floating point and devices run together.
  \<^item> \<^verbatim>\<open>Boot_Rom\<close>, \<^verbatim>\<open>Boot_Rom_Theorems\<close>: \<^verbatim>\<open>create_boot_rom\<close> with the instruction encoders, and
    \<^verbatim>\<open>riscv_cpu_serialize\<close>, \<^verbatim>\<open>riscv_cpu_deserialize\<close> on byte lists for the files.
  \<^item> \<^verbatim>\<open>Fdt\<close>, \<^verbatim>\<open>Fdt_Theorems\<close>: the builder of flattened device trees of \<^verbatim>\<open>riscv_machine.cpp\<close> and
    \<^verbatim>\<open>riscv_build_fdt\<close>; a decoder of the format as specification.
  \<^item> \<^verbatim>\<open>Elf64\<close>: \<^verbatim>\<open>elf64.cpp\<close>. \<^verbatim>\<open>Machine_Init\<close>, \<^verbatim>\<open>Init_Theorems\<close>: \<^verbatim>\<open>virt_machine_init\<close>, \<^verbatim>\<open>copy_kernel\<close> and
    \<^verbatim>\<open>load_elf_image\<close> of \<^verbatim>\<open>riscv_machine.cpp\<close>.
  \<^item> \<^verbatim>\<open>Cosim\<close>: \<^verbatim>\<open>dromajo_cosim.cpp\<close>: the step with its comparison, the overrides by the core under test, traps.

  \<^bold>\<open>State and errors.\<close> Machine integers are words of their width, so wrap-around is the word arithmetic's.
  Host memory is a map from addresses to bytes and a RAM range holds the address of its block. State is
  passed explicitly; an operation that can fail returns a sum or a status code as the source does, and
  an assertion or \<^verbatim>\<open>abort\<close> of the source is an error value.

  \<^bold>\<open>What the lemmas show.\<close> Every memory map that can be built is well formed and decodes as registered. CSR
  writes keep the control registers legal, respect PMP locks and cannot reach machine state through
  supervisor numbers. Traps and returns are inverse and keep the hart invariant, which the whole
  machine keeps for any program and any number of cycles. The TLB fast paths equal the slow paths as
  long as the TLBs are coherent, and CSR writes and fetches keep them coherent. A successful walk is
  justified by a leaf entry that grants the access. The interpreter ends and bounds the counters.
  Arithmetic helpers meet their specification. Interrupt claim, completion, timer and UART behave as
  drivers expect, with the exceptions stated as theorems. The recovery program of a checkpoint fits
  its ROM. Floating-point addition, multiplication, division, square root, fused multiply-add and the
  conversions round the exact real result as IEEE 754 says, with its flags, and no operation of the
  library fails an assertion; the instructions inherit it. A co-simulation step that returns 0 means
  that the core under test agreed, and a disagreement is reported. The device tree decodes to the
  description of the machine, and its size is known exactly. A virtio request is the concatenation of
  its descriptors, a device cannot be made to write outside guest RAM, what is sent to the console
  arrives, sectors written are read back, registers keep their types, and a cyclic chain hangs the
  device. The constructed machine has a well-formed memory map, harts in the invariant the interpreter
  needs and its images at the addresses the guest expects. A symbol found in an ELF file is the first of
  its name, and the bound check of the section table can be passed by a wrapped offset.

  \<^bold>\<open>Interfaces.\<close> \<open>byte_store\<close> (what a typed load returns after a typed store; interpreted on the host
  memory), \<open>addr_decoder\<close> (what a lookup returns after a registration; interpreted on the memory map),
  \<open>direct_mapped\<close> (a direct-mapped cache; interpreted on the three TLBs), \<open>mmio_frame\<close> (what a device
  callback keeps of the hart; interpreted on the machine's devices), \<open>sf_format\<close> (the relation between word
  size and format the library needs; interpreted on 32 and 64 bits) and \<open>virtio_steps\<close> (a property kept by
  every elementary effect of a virtio device is kept by all operations; interpreted on the frame of the hart,
  on the confinement of writes and on the types of the registers).

  \<^bold>\<open>Bounds and fuel.\<close> The interpreter's loop decreases the remaining cycles with every iteration, and the
  page walk its level, so both are total functions without fuel; the Newton iteration of the square root
  decreases its estimate. The retry loop of the co-simulation and the loops along descriptor chains may run
  for ever: they are partial functions to \<open>option\<close>, and where a result is claimed it is proved to exist.

  \<^bold>\<open>Parameters.\<close> The instruction semantics takes the floating-point opcodes as the argument \<open>fpu\<close>, used only after
  the \<^verbatim>\<open>mstatus.FS\<close> check the source makes; the machine and the co-simulation use \<open>dromajo_fpu\<close>. The device
  callbacks are an argument, instantiated by \<open>machine_mmio\<close>. The addresses \<^verbatim>\<open>mallocz\<close> returns, the address of
  the firmware image, the contents of uninitialised memory and whether the dump of the device tree can be
  written are arguments of the construction.

  \<^bold>\<open>Not modelled.\<close> The PCI transport of virtio, which this machine does not use; the 9p device and the file
  systems (host I/O); configuration parsing, command line and console back ends; \<^verbatim>\<open>LiveCache\<close> (not compiled);
  the 128-bit floats of the library (not used with \<^verbatim>\<open>FLEN\<close> 64);
  the vendored Spike simulator, the testbench glue, and the Verilator output, which is generated from
  the SystemVerilog sources.
\<close>

end
